(* ===== verification/Steward_Prelude.thy ===== *)
theory Steward_Prelude
  imports
    "HOL-Library.Char_ord"
    "HOL-Library.List_Lexorder"
    "HOL-Library.Product_Lexorder"
    "HOL-Library.Option_ord"
    "HOL-Library.AList"
    "HOL-Library.Multiset"
begin

text \<open>
  Shared base of the development: results with errors as values, Python dictionaries and
  groupings as association lists, \<open>sorted\<close> with a key, \<open>str.split\<close> and \<open>str.join\<close>,
  slices and pages, and the lemmas on them that every component uses.

  A Python \<open>str\<close> is a \<^typ>\<open>string\<close>: the bytes of its UTF-8 encoding with
  \<open>surrogateescape\<close>. The encoding is a bijection onto the byte strings that the code
  can meet, the code sorts paths by exactly these bytes, and for strings without lone
  surrogates Python's own order by code points agrees with it.
\<close>

named_theorems steward_simps \<open>equations that evaluate the operations of the model\<close>
named_theorems dict_simps \<open>lookup laws of dictionaries and groupings\<close>

section \<open>Results\<close>

text \<open>\<open>Inl\<close> carries the exception that leaves a function, \<open>Inr\<close> its return value.\<close>

definition bind_result :: "'e + 'a \<Rightarrow> ('a \<Rightarrow> 'e + 'b) \<Rightarrow> 'e + 'b" where
  "bind_result m f = (case m of Inl e \<Rightarrow> Inl e | Inr x \<Rightarrow> f x)"

definition require :: "bool \<Rightarrow> 'e \<Rightarrow> 'e + unit" where
  "require b e = (if b then Inr () else Inl e)"

fun map_result :: "('a \<Rightarrow> 'e + 'b) \<Rightarrow> 'a list \<Rightarrow> 'e + 'b list" where
  "map_result f [] = Inr []"
| "map_result f (x # xs) =
     bind_result (f x) (\<lambda>y. bind_result (map_result f xs) (\<lambda>ys. Inr (y # ys)))"

lemma bind_result_simps [simp]:
  "bind_result (Inl e) f = Inl e"
  "bind_result (Inr x) f = f x"
  by (simp_all add: bind_result_def)

lemma bind_result_Inr_iff:
  "bind_result m f = Inr y \<longleftrightarrow> (\<exists>x. m = Inr x \<and> f x = Inr y)"
  by (cases m) auto

lemma bind_result_Inl_iff:
  "bind_result m f = Inl e \<longleftrightarrow> m = Inl e \<or> (\<exists>x. m = Inr x \<and> f x = Inl e)"
  by (cases m) auto

lemma require_simps [simp]:
  "require b e = Inr u \<longleftrightarrow> b"
  "require b e = Inl e' \<longleftrightarrow> \<not> b \<and> e' = e"
  by (auto simp: require_def)

lemma map_result_Inr_iff:
  "map_result f xs = Inr ys \<longleftrightarrow> list_all2 (\<lambda>x y. f x = Inr y) xs ys"
  by (induction xs arbitrary: ys) (auto simp: bind_result_Inr_iff list_all2_Cons1)

lemma map_result_total:
  "(\<And>x. x \<in> set xs \<Longrightarrow> f x = Inr (g x)) \<Longrightarrow> map_result f xs = Inr (map g xs)"
  by (induction xs) auto

section \<open>Dictionaries\<close>

text \<open>
  A Python \<open>dict\<close> is an association list in insertion order. Assignment is
  \<^const>\<open>AList.update\<close>, which keeps the place of a key that is present and appends a
  new key, as Python does; lookup is \<^const>\<open>map_of\<close>.
\<close>

type_synonym ('k, 'v) dict = "('k \<times> 'v) list"

definition dict_wf :: "('k, 'v) dict \<Rightarrow> bool" where
  "dict_wf d \<longleftrightarrow> distinct (map fst d)"

lemma dict_wf_Nil [simp]: "dict_wf []"
  by (simp add: dict_wf_def)

lemma dict_wf_update [simp]: "dict_wf d \<Longrightarrow> dict_wf (AList.update k v d)"
  by (simp add: dict_wf_def distinct_update)

lemma map_of_update [dict_simps]:
  "map_of (AList.update k v d) k' = (if k' = k then Some v else map_of d k')"
  by (simp add: update_conv)

lemma keys_update [dict_simps]: "fst ` set (AList.update k v d) = insert k (fst ` set d)"
  by (simp add: update_conv' flip: dom_map_of_conv_image_fst)

lemma dict_values_conv:
  "dict_wf d \<Longrightarrow> (k, v) \<in> set d \<longleftrightarrow> map_of d k = Some v"
  by (auto simp: dict_wf_def)

text \<open>\<open>d.setdefault(k, []).append(v)\<close>, and \<open>defaultdict(list)\<close>'s \<open>d[k].append(v)\<close>.\<close>

definition dict_append :: "'k \<Rightarrow> 'v \<Rightarrow> ('k, 'v list) dict \<Rightarrow> ('k, 'v list) dict" where
  "dict_append k v d = AList.update k ((case map_of d k of None \<Rightarrow> [] | Some vs \<Rightarrow> vs) @ [v]) d"

definition group_by :: "('v \<Rightarrow> 'k) \<Rightarrow> 'v list \<Rightarrow> ('k, 'v list) dict" where
  "group_by f xs = foldl (\<lambda>d x. dict_append (f x) x d) [] xs"

lemma group_by_Nil [simp]: "group_by f [] = []"
  by (simp add: group_by_def)

lemma group_by_snoc: "group_by f (xs @ [x]) = dict_append (f x) x (group_by f xs)"
  by (simp add: group_by_def)

lemma group_by_wf [simp]: "dict_wf (group_by f xs)"
  by (induction xs rule: rev_induct) (simp_all add: group_by_snoc dict_append_def)

lemma map_of_group_by [dict_simps]:
  "map_of (group_by f xs) k =
     (if k \<in> f ` set xs then Some (filter (\<lambda>x. f x = k) xs) else None)"
proof (induction xs rule: rev_induct)
  case (snoc x xs)
  then show ?case
    by (cases "k = f x"; cases "f x \<in> f ` set xs")
      (auto simp: group_by_snoc dict_append_def map_of_update filter_empty_conv
        split: if_splits intro: rev_image_eqI)
qed simp

lemma keys_group_by [dict_simps]: "set (map fst (group_by f xs)) = f ` set xs"
proof -
  have "fst ` set (group_by f xs) = dom (map_of (group_by f xs))"
    by (simp add: dom_map_of_conv_image_fst)
  also have "\<dots> = f ` set xs"
    by (auto simp: map_of_group_by split: if_splits)
  finally show ?thesis by simp
qed

lemma mem_group_by:
  "(k, vs) \<in> set (group_by f xs) \<longleftrightarrow> k \<in> f ` set xs \<and> vs = filter (\<lambda>x. f x = k) xs"
  by (auto simp: dict_values_conv map_of_group_by split: if_splits)

lemma sum_group_by:
  fixes g :: "'v \<Rightarrow> 'n :: comm_monoid_add"
  shows "(\<Sum>(k, vs) \<leftarrow> group_by f xs. (\<Sum>v \<leftarrow> vs. g v)) = (\<Sum>x \<leftarrow> xs. g x)"
proof -
  have "(\<Sum>(k, vs) \<leftarrow> group_by f xs. (\<Sum>v \<leftarrow> vs. g v))
      = (\<Sum>(k, vs) \<in> set (group_by f xs). (\<Sum>v \<leftarrow> vs. g v))"
    by (rule sum_list_distinct_conv_sum_set)
      (use group_by_wf [of f xs] in \<open>simp add: dict_wf_def distinct_map\<close>)
  also have "\<dots> = (\<Sum>k \<in> f ` set xs. (\<Sum>v \<leftarrow> filter (\<lambda>x. f x = k) xs. g v))"
    by (rule sum.reindex_bij_witness
        [where i = "\<lambda>k. (k, filter (\<lambda>x. f x = k) xs)" and j = fst])
      (auto simp: mem_group_by)
  also have "\<dots> = (\<Sum>x \<leftarrow> xs. g x)"
  proof -
    have "(\<Sum>k \<in> A. (\<Sum>v \<leftarrow> filter (\<lambda>x. f x = k) xs. g v)) = (\<Sum>x \<leftarrow> xs. g x)"
      if "finite A" "f ` set xs \<subseteq> A" for A
      using that
    proof (induction xs)
      case (Cons x xs)
      have "(\<Sum>k \<in> A. (\<Sum>v \<leftarrow> filter (\<lambda>y. f y = k) (x # xs). g v))
          = (\<Sum>k \<in> A. (if k = f x then g x else 0) + (\<Sum>v \<leftarrow> filter (\<lambda>y. f y = k) xs. g v))"
        by (intro sum.cong) auto
      also have "\<dots> = g x + (\<Sum>y \<leftarrow> xs. g y)"
        using Cons by (simp add: sum.distrib sum.delta)
      finally show ?case by simp
    qed simp
    then show ?thesis by simp
  qed
  finally show ?thesis .
qed

text \<open>A dictionary comprehension: a later pair replaces the value of an earlier one.\<close>

definition dict_of :: "('k \<times> 'v) list \<Rightarrow> ('k, 'v) dict" where
  "dict_of kvs = foldl (\<lambda>d (k, v). AList.update k v d) [] kvs"

lemma dict_of_snoc: "dict_of (kvs @ [(k, v)]) = AList.update k v (dict_of kvs)"
  by (simp add: dict_of_def)

lemma map_of_dict_of [dict_simps]: "map_of (dict_of kvs) = map_of (rev kvs)"
proof (induction kvs rule: rev_induct)
  case (snoc kv kvs)
  then show ?case by (cases kv) (simp add: dict_of_snoc fun_eq_iff map_of_update)
qed (simp add: dict_of_def)

lemma map_of_dict_of_const:
  "map_of (dict_of (map (\<lambda>c. (c, v)) cs)) c = (if c \<in> set cs then Some v else None)"
proof -
  have "map_of (map (\<lambda>c. (c, v)) cs) c = (if c \<in> set cs then Some v else None)" for cs
    by (induction cs) auto
  then show ?thesis by (simp add: map_of_dict_of rev_map)
qed

lemma dict_of_wf [simp]: "dict_wf (dict_of kvs)"
proof (induction kvs rule: rev_induct)
  case (snoc kv kvs)
  then show ?case by (cases kv) (simp add: dict_of_snoc)
qed (simp add: dict_of_def)

lemma keys_dict_of [dict_simps]: "fst ` set (dict_of kvs) = fst ` set kvs"
  by (metis dom_map_of_conv_image_fst map_of_dict_of set_rev)

lemma map_of_rev_distinct:
  assumes "distinct (map fst kvs)"
  shows "map_of (rev kvs) = map_of kvs"
proof
  fix k
  from assms have "distinct (map fst (rev kvs))" by (simp flip: rev_map)
  with assms show "map_of (rev kvs) k = map_of kvs k"
    by (metis map_of_eq_Some_iff not_None_eq set_rev)
qed

lemma map_of_dict_of_key:
  assumes "distinct (map f xs)" "x \<in> set xs"
  shows "map_of (dict_of (map (\<lambda>x. (f x, g x)) xs)) (f x) = Some (g x)"
proof -
  have "map_of (rev (map (\<lambda>x. (f x, g x)) xs)) = map_of (map (\<lambda>x. (f x, g x)) xs)"
    using assms(1) by (intro map_of_rev_distinct) (simp add: comp_def)
  then show ?thesis
    using assms by (simp add: map_of_dict_of map_of_eq_Some_iff comp_def)
qed

lemma update_fresh: "k \<notin> fst ` set d \<Longrightarrow> AList.update k v d = d @ [(k, v)]"
  by (induction d) auto

lemma list_all2_map_iff: "list_all2 (\<lambda>x y. y = f x) xs ys \<longleftrightarrow> ys = map f xs"
  by (auto simp: list_all2_conv_all_nth list_eq_iff_nth_eq)

section \<open>Sorting\<close>

text \<open>
  \<open>sorted(xs, key=f)\<close> is \<^const>\<open>sort_key\<close>, which is stable as Python's sort is;
  \<open>sorted(set(xs))\<close> drops the duplicates first.
\<close>

definition sorted_set :: "'a :: linorder list \<Rightarrow> 'a list" where
  "sorted_set xs = sort (remdups xs)"

lemma set_sorted_set [simp]: "set (sorted_set xs) = set xs"
  by (simp add: sorted_set_def)

lemma distinct_sorted_set [simp]: "distinct (sorted_set xs)"
  by (simp add: sorted_set_def)

lemma sorted_sorted_set [simp]: "sorted (sorted_set xs)"
  by (simp add: sorted_set_def)

lemma strict_sorted_sorted_set: "sorted_wrt (<) (sorted_set xs)"
  by (simp add: strict_sorted_iff)

lemma sorted_set_cong: "set xs = set ys \<Longrightarrow> sorted_set xs = sorted_set ys"
  by (simp add: sorted_distinct_set_unique)

lemma list_all2_member:
  assumes "list_all2 R xs ys" "y \<in> set ys"
  obtains x where "x \<in> set xs" "R x y"
  using assms by (induction rule: list_all2_induct) auto

lemma sort_key_map: "sort_key g (map f xs) = map f (sort_key (\<lambda>x. g (f x)) xs)"
proof -
  have "insort_key g (f x) (map f ys) = map f (insort_key (\<lambda>x. g (f x)) x ys)" for x ys
    by (induction ys) auto
  then show ?thesis by (induction xs) simp_all
qed

lemma sum_list_mset_cong:
  fixes g :: "'a \<Rightarrow> 'n :: comm_monoid_add"
  assumes "mset xs = mset ys"
  shows "(\<Sum>x \<leftarrow> xs. g x) = (\<Sum>x \<leftarrow> ys. g x)"
proof -
  have "sum_mset (image_mset g (mset xs)) = sum_mset (image_mset g (mset ys))"
    using assms by simp
  then show ?thesis by (simp only: sum_mset_sum_list flip: mset_map)
qed

lemma sum_list_sort_key [simp]:
  fixes g :: "'a \<Rightarrow> 'n :: comm_monoid_add"
  shows "(\<Sum>x \<leftarrow> sort_key f xs. g x) = (\<Sum>x \<leftarrow> xs. g x)"
  by (rule sum_list_mset_cong) simp

lemma distinct_sort_key [simp]: "distinct (sort_key f xs) = distinct xs"
  by simp

text \<open>Sums by class: the classes of the items are among the listed, distinct keys.\<close>

lemma sum_list_partition:
  fixes w :: "'x \<Rightarrow> 'n :: comm_monoid_add"
  assumes "distinct ks" "\<And>x. x \<in> set xs \<Longrightarrow> k x \<in> set ks"
  shows "(\<Sum>c \<leftarrow> ks. \<Sum>x \<leftarrow> filter (\<lambda>x. k x = c) xs. w x) = (\<Sum>x \<leftarrow> xs. w x)"
  using assms
proof (induction xs)
  case (Cons x xs)
  have "(\<Sum>c \<leftarrow> ks. \<Sum>y \<leftarrow> filter (\<lambda>y. k y = c) (x # xs). w y)
      = (\<Sum>c \<leftarrow> ks. (if c = k x then w x else 0) + (\<Sum>y \<leftarrow> filter (\<lambda>y. k y = c) xs. w y))"
    by (intro arg_cong [where f = sum_list] map_cong) auto
  also have "\<dots> = (\<Sum>c \<leftarrow> ks. if c = k x then w x else 0) + (\<Sum>y \<leftarrow> xs. w y)"
    using Cons by (simp add: sum_list_addf)
  also have "(\<Sum>c \<leftarrow> ks. if c = k x then w x else 0) = w x"
    using Cons.prems by (simp add: sum_list_distinct_conv_sum_set sum.delta)
  finally show ?case by simp
qed simp

section \<open>Splitting and joining strings\<close>

text \<open>\<open>s.split(c)\<close> and \<open>c.join(parts)\<close> for a single character \<open>c\<close>.\<close>

fun split_on :: "'a \<Rightarrow> 'a list \<Rightarrow> 'a list list" where
  "split_on c [] = [[]]"
| "split_on c (x # xs) =
     (if x = c then [] # split_on c xs
      else (case split_on c xs of [] \<Rightarrow> [[x]] | p # ps \<Rightarrow> (x # p) # ps))"

fun join_on :: "'a \<Rightarrow> 'a list list \<Rightarrow> 'a list" where
  "join_on c [] = []"
| "join_on c [p] = p"
| "join_on c (p # ps) = p @ c # join_on c ps"

lemma split_on_not_Nil [simp]: "split_on c xs \<noteq> []"
  by (induction xs) (auto split: list.splits)

lemma join_on_Cons: "ps \<noteq> [] \<Longrightarrow> join_on c (p # ps) = p @ c # join_on c ps"
  by (cases ps) auto

lemma join_split_on [simp]: "join_on c (split_on c xs) = xs"
proof (induction xs)
  case (Cons x xs)
  then show ?case
    by (cases "split_on c xs") (auto simp: join_on_Cons split: list.splits,
        metis append_Cons join_on.simps(2) join_on_Cons)
qed simp

lemma split_on_no_sep: "c \<notin> set xs \<Longrightarrow> split_on c xs = [xs]"
  by (induction xs) auto

lemma split_on_append:
  "c \<notin> set p \<Longrightarrow> split_on c (p @ c # xs) = p # split_on c xs"
  by (induction p) auto

lemma split_join_on:
  "ps \<noteq> [] \<Longrightarrow> \<forall>p \<in> set ps. c \<notin> set p \<Longrightarrow> split_on c (join_on c ps) = ps"
proof (induction ps)
  case (Cons p ps)
  then show ?case
    by (cases ps) (auto simp: split_on_no_sep split_on_append)
qed simp

lemma split_on_parts: "p \<in> set (split_on c xs) \<Longrightarrow> c \<notin> set p"
  by (induction xs arbitrary: p) (auto split: list.splits if_splits)

lemma join_on_inject:
  assumes "ps \<noteq> []" "qs \<noteq> []" "\<forall>p \<in> set ps. c \<notin> set p" "\<forall>q \<in> set qs. c \<notin> set q"
    and "join_on c ps = join_on c qs"
  shows "ps = qs"
  using assms split_join_on by metis

text \<open>\<open>s.startswith(p)\<close>.\<close>

fun starts_with :: "'a list \<Rightarrow> 'a list \<Rightarrow> bool" where
  "starts_with [] s = True"
| "starts_with (p # ps) [] = False"
| "starts_with (p # ps) (x # xs) = (p = x \<and> starts_with ps xs)"

lemma starts_with_iff: "starts_with p s \<longleftrightarrow> (\<exists>r. s = p @ r)"
  by (induction p s rule: starts_with.induct) auto

section \<open>Filtering maps\<close>

text \<open>A comprehension that drops the \<open>None\<close> results is \<^const>\<open>List.map_filter\<close>.\<close>

lemma set_map_filter: "y \<in> set (List.map_filter f xs) \<longleftrightarrow> (\<exists>x \<in> set xs. f x = Some y)"
  by (induction xs) (auto simp: List.map_filter_def)

lemma mset_map_filter_cong:
  assumes "mset xs = mset ys"
  shows "mset (List.map_filter f xs) = mset (List.map_filter f ys)"
  using assms by (simp add: List.map_filter_def)

lemma map_filter_filter_map:
  "List.map_filter f (filter P (map g xs)) = List.map_filter (\<lambda>x. if P (g x) then f (g x) else None) xs"
  by (induction xs) (auto simp: List.map_filter_def)

lemma map_filter_cong: "(\<And>x. x \<in> set xs \<Longrightarrow> f x = g x) \<Longrightarrow> List.map_filter f xs = List.map_filter g xs"
  by (induction xs) (auto simp: List.map_filter_def)

section \<open>Optional integers and counting\<close>

text \<open>\<open>x or 0\<close> for an optional integer, and \<open>sum(bool for ...)\<close>.\<close>

definition or_zero :: "int option \<Rightarrow> int" where
  "or_zero x = (case x of None \<Rightarrow> 0 | Some n \<Rightarrow> n)"

definition count_if :: "('a \<Rightarrow> bool) \<Rightarrow> 'a list \<Rightarrow> int" where
  "count_if P xs = (\<Sum>x \<leftarrow> xs. if P x then 1 else 0)"

lemma or_zero_simps [simp]: "or_zero None = 0" "or_zero (Some n) = n"
  by (simp_all add: or_zero_def)

lemma count_if_simps [simp]:
  "count_if P [] = 0"
  "count_if P (x # xs) = (if P x then 1 else 0) + count_if P xs"
  "count_if P (xs @ ys) = count_if P xs + count_if P ys"
  by (simp_all add: count_if_def)

lemma count_if_length: "count_if P xs = int (length (filter P xs))"
  by (induction xs) auto

lemma count_if_nonneg [simp]: "0 \<le> count_if P xs"
  by (simp add: count_if_length)

lemma count_if_cong: "(\<And>x. x \<in> set xs \<Longrightarrow> P x = Q x) \<Longrightarrow> count_if P xs = count_if Q xs"
  by (induction xs) auto

lemma count_if_map: "count_if P (map f xs) = count_if (\<lambda>x. P (f x)) xs"
  by (simp add: count_if_def comp_def)

lemma count_if_mset: "mset xs = mset ys \<Longrightarrow> count_if P xs = count_if P ys"
  unfolding count_if_def by (rule sum_list_mset_cong)

lemma count_if_sort_key [simp]: "count_if P (sort_key f xs) = count_if P xs"
  by (simp add: count_if_def)

lemma count_if_add_not: "count_if P xs + count_if (\<lambda>x. \<not> P x) xs = int (length xs)"
  by (induction xs) auto

section \<open>Pages\<close>

text \<open>\<open>xs[offset : offset + limit]\<close> for a non-negative offset and limit.\<close>

definition page_slice :: "int \<Rightarrow> int \<Rightarrow> 'a list \<Rightarrow> 'a list" where
  "page_slice limit offset xs = take (nat limit) (drop (nat offset) xs)"

lemma length_page_slice:
  "length (page_slice limit offset xs) = min (nat limit) (length xs - nat offset)"
  by (simp add: page_slice_def min.commute)

lemma page_slice_append:
  "0 \<le> a \<Longrightarrow> 0 \<le> b \<Longrightarrow> 0 \<le> off \<Longrightarrow>
   page_slice a off xs @ page_slice b (off + a) xs = page_slice (a + b) off xs"
  by (simp add: page_slice_def nat_add_distrib take_add drop_drop add.commute)

end
