(* ===== verification/Steward_Models.thy ===== *)
theory Steward_Models
  imports Steward_Prelude Complex_Main
begin

text \<open>
  The exceptions of \<open>errors.py\<close> with their codes and exit codes, and the enumerations and
  value types of \<open>models.py\<close> that the components share. A \<open>str\<close>-valued enumeration is a
  datatype with its \<open>.value\<close> as a function. Record fields carry a short prefix per class
  (\<open>e_\<close> for an Entry, \<open>s_\<close> for a Snapshot, \<open>ref_\<close> for an Entry reference), since
  the classes share field names. A float is carried as the rational number it denotes.

  \<open>FilesystemEntry\<close> and \<open>FilesystemEntryV2\<close> share 23 fields; the code handles their
  union by \<open>isinstance\<close>. Here it is one record whose last field is \<open>None\<close> for the
  first class and \<open>Some\<close> of the two further fields for the second. Snapshots likewise.
\<close>

section \<open>Exceptions (errors.py)\<close>

datatype error_class =
    StewardError
  | ConfigurationError
  | ConfigurationNotFoundError
  | ConfigurationSchemaError
  | ScopeValidationError
  | InitializationError
  | DoctorError
  | OutputSerializationError
  | StorageError
  | StorageNotInitializedError
  | StorageSchemaError
  | StorageSchemaTooNewError
  | StorageMigrationRequiredError
  | StorageCorruptionError
  | StorageConflictError
  | StorageBusyError
  | EvidenceError
  | EvidenceConflictError
  | RunNotFoundError
  | RunKindError
  | InvalidRunTransitionError
  | RebuildConfirmationError
  | StorageMigrationConfirmationError
  | StorageMigrationError
  | SnapshotError
  | SnapshotScopeError
  | SnapshotBudgetError
  | SnapshotNotFoundError
  | SnapshotAcquisitionConfirmationError
  | SnapshotAcquisitionNotGovernedError
  | SnapshotAcquisitionRecoveryRequiredError
  | SnapshotAcquisitionIntegrityError
  | SnapshotAcquisitionCancelledError
  | SnapshotRefreshError
  | SnapshotRefreshBaseError
  | SnapshotChangeReviewError
  | SnapshotChangeReviewResourceError
  | DiffError
  | DiffNotFoundError
  | RelationError
  | CodeExecutionError
  | CodeExecutionRepositoryError
  | CodeExecutionBaselineError
  | CodeExecutionResourceError
  | DuplicateAnalysisError
  | StructureError
  | GrowthError
  | ResourceObservationError
  | ResourceCollectionError
  | DocumentInspectionError
  | DocumentInspectionConfirmationError
  | DocumentInspectionScopeError
  | DocumentInspectionInputError
  | DocumentInspectionSourceChangedError
  | DocumentInspectionUnavailableError

text \<open>The base class of each exception, and the attributes each class sets itself.\<close>

fun base_class :: "error_class \<Rightarrow> error_class option" where
  "base_class StewardError = None"
| "base_class ConfigurationError = Some StewardError"
| "base_class ConfigurationNotFoundError = Some ConfigurationError"
| "base_class ConfigurationSchemaError = Some ConfigurationError"
| "base_class ScopeValidationError = Some ConfigurationError"
| "base_class InitializationError = Some StewardError"
| "base_class DoctorError = Some StewardError"
| "base_class OutputSerializationError = Some StewardError"
| "base_class StorageError = Some StewardError"
| "base_class StorageNotInitializedError = Some StorageError"
| "base_class StorageSchemaError = Some StorageError"
| "base_class StorageSchemaTooNewError = Some StorageSchemaError"
| "base_class StorageMigrationRequiredError = Some StorageSchemaError"
| "base_class StorageCorruptionError = Some StorageError"
| "base_class StorageConflictError = Some StorageError"
| "base_class StorageBusyError = Some StorageError"
| "base_class EvidenceError = Some StewardError"
| "base_class EvidenceConflictError = Some EvidenceError"
| "base_class RunNotFoundError = Some StewardError"
| "base_class RunKindError = Some StewardError"
| "base_class InvalidRunTransitionError = Some StewardError"
| "base_class RebuildConfirmationError = Some StewardError"
| "base_class StorageMigrationConfirmationError = Some StorageError"
| "base_class StorageMigrationError = Some StorageError"
| "base_class SnapshotError = Some StewardError"
| "base_class SnapshotScopeError = Some SnapshotError"
| "base_class SnapshotBudgetError = Some SnapshotError"
| "base_class SnapshotNotFoundError = Some SnapshotError"
| "base_class SnapshotAcquisitionConfirmationError = Some SnapshotError"
| "base_class SnapshotAcquisitionNotGovernedError = Some SnapshotError"
| "base_class SnapshotAcquisitionRecoveryRequiredError = Some SnapshotError"
| "base_class SnapshotAcquisitionIntegrityError = Some EvidenceError"
| "base_class SnapshotAcquisitionCancelledError = Some SnapshotError"
| "base_class SnapshotRefreshError = Some SnapshotError"
| "base_class SnapshotRefreshBaseError = Some SnapshotRefreshError"
| "base_class SnapshotChangeReviewError = Some SnapshotError"
| "base_class SnapshotChangeReviewResourceError = Some SnapshotChangeReviewError"
| "base_class DiffError = Some StewardError"
| "base_class DiffNotFoundError = Some DiffError"
| "base_class RelationError = Some StewardError"
| "base_class CodeExecutionError = Some StewardError"
| "base_class CodeExecutionRepositoryError = Some CodeExecutionError"
| "base_class CodeExecutionBaselineError = Some CodeExecutionError"
| "base_class CodeExecutionResourceError = Some CodeExecutionError"
| "base_class DuplicateAnalysisError = Some StewardError"
| "base_class StructureError = Some StewardError"
| "base_class GrowthError = Some StewardError"
| "base_class ResourceObservationError = Some StewardError"
| "base_class ResourceCollectionError = Some StewardError"
| "base_class DocumentInspectionError = Some StewardError"
| "base_class DocumentInspectionConfirmationError = Some DocumentInspectionError"
| "base_class DocumentInspectionScopeError = Some DocumentInspectionError"
| "base_class DocumentInspectionInputError = Some DocumentInspectionError"
| "base_class DocumentInspectionSourceChangedError = Some DocumentInspectionError"
| "base_class DocumentInspectionUnavailableError = Some StewardError"

fun error_code :: "error_class \<Rightarrow> string" where
  "error_code StewardError = ''INTERNAL_ERROR''"
| "error_code ConfigurationError = ''CONFIG_INVALID''"
| "error_code ConfigurationNotFoundError = ''CONFIG_NOT_FOUND''"
| "error_code ConfigurationSchemaError = ''CONFIG_INVALID''"
| "error_code ScopeValidationError = ''SCOPE_INVALID''"
| "error_code InitializationError = ''INIT_CONFLICT''"
| "error_code DoctorError = ''DOCTOR_REQUIRED_CAPABILITY_MISSING''"
| "error_code OutputSerializationError = ''OUTPUT_SERIALIZATION_ERROR''"
| "error_code StorageError = ''STORAGE_ERROR''"
| "error_code StorageNotInitializedError = ''STORAGE_NOT_INITIALIZED''"
| "error_code StorageSchemaError = ''STORAGE_SCHEMA_INVALID''"
| "error_code StorageSchemaTooNewError = ''STORAGE_SCHEMA_TOO_NEW''"
| "error_code StorageMigrationRequiredError = ''STORAGE_MIGRATION_REQUIRED''"
| "error_code StorageCorruptionError = ''STORAGE_CORRUPT''"
| "error_code StorageConflictError = ''STORAGE_CONFLICT''"
| "error_code StorageBusyError = ''STORAGE_BUSY''"
| "error_code EvidenceError = ''EVIDENCE_INVALID''"
| "error_code EvidenceConflictError = ''EVIDENCE_CONFLICT''"
| "error_code RunNotFoundError = ''RUN_NOT_FOUND''"
| "error_code RunKindError = ''RUN_KIND_INVALID''"
| "error_code InvalidRunTransitionError = ''RUN_TRANSITION_INVALID''"
| "error_code RebuildConfirmationError = ''REBUILD_CONFIRMATION_REQUIRED''"
| "error_code StorageMigrationConfirmationError = ''STORAGE_MIGRATION_CONFIRMATION_REQUIRED''"
| "error_code StorageMigrationError = ''STORAGE_MIGRATION_FAILED''"
| "error_code SnapshotError = ''SNAPSHOT_INVALID''"
| "error_code SnapshotScopeError = ''SNAPSHOT_SCOPE_INVALID''"
| "error_code SnapshotBudgetError = ''SNAPSHOT_BUDGET_INVALID''"
| "error_code SnapshotNotFoundError = ''SNAPSHOT_NOT_FOUND''"
| "error_code SnapshotAcquisitionConfirmationError = ''SNAPSHOT_ACQUISITION_CONFIRMATION_REQUIRED''"
| "error_code SnapshotAcquisitionNotGovernedError = ''SNAPSHOT_ACQUISITION_NOT_GOVERNED''"
| "error_code SnapshotAcquisitionRecoveryRequiredError = ''SNAPSHOT_ACQUISITION_RECOVERY_REQUIRED''"
| "error_code SnapshotAcquisitionIntegrityError = ''SNAPSHOT_ACQUISITION_INTEGRITY_FAILED''"
| "error_code SnapshotAcquisitionCancelledError = ''SNAPSHOT_ACQUISITION_CANCELLED''"
| "error_code SnapshotRefreshError = ''SNAPSHOT_REFRESH_INVALID''"
| "error_code SnapshotRefreshBaseError = ''SNAPSHOT_REFRESH_BASE_INVALID''"
| "error_code SnapshotChangeReviewError = ''SNAPSHOT_CHANGE_REVIEW_INVALID''"
| "error_code SnapshotChangeReviewResourceError = ''SNAPSHOT_CHANGE_REVIEW_RESOURCE_LIMIT''"
| "error_code DiffError = ''DIFF_INVALID''"
| "error_code DiffNotFoundError = ''DIFF_NOT_FOUND''"
| "error_code RelationError = ''RELATION_INVALID''"
| "error_code CodeExecutionError = ''CODE_EXECUTION_INVALID''"
| "error_code CodeExecutionRepositoryError = ''CODE_EXECUTION_REPOSITORY_INVALID''"
| "error_code CodeExecutionBaselineError = ''CODE_EXECUTION_BASELINE_INVALID''"
| "error_code CodeExecutionResourceError = ''CODE_EXECUTION_RESOURCE_LIMIT''"
| "error_code DuplicateAnalysisError = ''DUPLICATE_INVALID''"
| "error_code StructureError = ''STRUCTURE_INVALID''"
| "error_code GrowthError = ''GROWTH_INVALID''"
| "error_code ResourceObservationError = ''RESOURCE_OBSERVATION_INVALID''"
| "error_code ResourceCollectionError = ''RESOURCE_OBSERVATION_FAILED''"
| "error_code DocumentInspectionError = ''DOCUMENT_INSPECTION_INVALID''"
| "error_code DocumentInspectionConfirmationError = ''DOCUMENT_INSPECTION_CONFIRMATION_REQUIRED''"
| "error_code DocumentInspectionScopeError = ''DOCUMENT_INSPECTION_SCOPE_INVALID''"
| "error_code DocumentInspectionInputError = ''DOCUMENT_INSPECTION_INPUT_INVALID''"
| "error_code DocumentInspectionSourceChangedError = ''DOCUMENT_INSPECTION_SOURCE_CHANGED''"
| "error_code DocumentInspectionUnavailableError = ''DOCUMENT_INSPECTION_FAILED''"

fun own_exit_code :: "error_class \<Rightarrow> int option" where
  "own_exit_code StewardError = Some 8"
| "own_exit_code ConfigurationError = Some 2"
| "own_exit_code InitializationError = Some 2"
| "own_exit_code DoctorError = Some 3"
| "own_exit_code StorageError = Some 3"
| "own_exit_code StorageBusyError = Some 8"
| "own_exit_code EvidenceError = Some 7"
| "own_exit_code RunNotFoundError = Some 2"
| "own_exit_code RunKindError = Some 2"
| "own_exit_code InvalidRunTransitionError = Some 2"
| "own_exit_code RebuildConfirmationError = Some 2"
| "own_exit_code StorageMigrationConfirmationError = Some 2"
| "own_exit_code SnapshotError = Some 2"
| "own_exit_code SnapshotAcquisitionRecoveryRequiredError = Some 6"
| "own_exit_code SnapshotAcquisitionCancelledError = Some 9"
| "own_exit_code DiffError = Some 2"
| "own_exit_code RelationError = Some 2"
| "own_exit_code CodeExecutionError = Some 2"
| "own_exit_code DuplicateAnalysisError = Some 2"
| "own_exit_code StructureError = Some 2"
| "own_exit_code GrowthError = Some 2"
| "own_exit_code ResourceObservationError = Some 2"
| "own_exit_code ResourceCollectionError = Some 3"
| "own_exit_code DocumentInspectionError = Some 2"
| "own_exit_code DocumentInspectionUnavailableError = Some 4"
| "own_exit_code _ = None"
text \<open>
  Python looks a class attribute up along the method resolution order. The chain has at
  most four classes, so four steps reach \<open>StewardError\<close> from every class.
\<close>

fun mro_steps :: "nat \<Rightarrow> error_class \<Rightarrow> error_class list" where
  "mro_steps 0 c = []"
| "mro_steps (Suc n) c =
     c # (case base_class c of None \<Rightarrow> [] | Some b \<Rightarrow> mro_steps n b)"

definition mro :: "error_class \<Rightarrow> error_class list" where
  "mro c = mro_steps 4 c"

definition exit_code :: "error_class \<Rightarrow> int" where
  "exit_code c = (case List.map_filter own_exit_code (mro c) of [] \<Rightarrow> 0 | n # _ \<Rightarrow> n)"

definition is_subclass :: "error_class \<Rightarrow> error_class \<Rightarrow> bool" where
  "is_subclass c d = (d \<in> set (mro c))"

lemma mro_complete: "hd (mro c) = c \<and> last (mro c) = StewardError"
  by (cases c) (simp_all add: mro_def numeral_eq_Suc)

lemma exit_code_documented: "exit_code c \<in> {2, 3, 4, 6, 7, 8, 9}"
  by (cases c) (simp_all add: exit_code_def mro_def numeral_eq_Suc List.map_filter_def)

text \<open>An exception that leaves a function: one of the classes above, or one of Python's own.\<close>

datatype exn =
    Raise error_class string
  | PyKeyError
  | PyIndexError
  | PyValueError
  | PyTypeError
  | PyOSError
  | PyRecursionError
  | PyAttributeError
  | PyOverflowError
  | SqliteIntegrityError
  | FaultInjectionError

type_synonym 'a result = "exn + 'a"

abbreviation raise :: "error_class \<Rightarrow> string \<Rightarrow> 'a result" where
  "raise c m \<equiv> Inl (Raise c m)"

section \<open>Enumerations (models.py)\<close>

datatype scope_role =
    MANAGED_ROOT
  | REFERENCE_ROOT
  | EXCLUDED_ROOT

fun scope_role_value :: "scope_role \<Rightarrow> string" where
  "scope_role_value MANAGED_ROOT = ''managed_root''"
| "scope_role_value REFERENCE_ROOT = ''reference_root''"
| "scope_role_value EXCLUDED_ROOT = ''excluded_root''"

lemma scope_role_value_inject [simp]: "scope_role_value a = scope_role_value b \<longleftrightarrow> a = b"
  by (cases a; cases b) simp_all

datatype filesystem_object_type =
    REGULAR_FILE
  | DIRECTORY
  | SYMLINK
  | FIFO
  | SOCKET
  | CHARACTER_DEVICE
  | BLOCK_DEVICE
  | OBJECT_UNKNOWN

fun filesystem_object_type_value :: "filesystem_object_type \<Rightarrow> string" where
  "filesystem_object_type_value REGULAR_FILE = ''regular_file''"
| "filesystem_object_type_value DIRECTORY = ''directory''"
| "filesystem_object_type_value SYMLINK = ''symlink''"
| "filesystem_object_type_value FIFO = ''fifo''"
| "filesystem_object_type_value SOCKET = ''socket''"
| "filesystem_object_type_value CHARACTER_DEVICE = ''character_device''"
| "filesystem_object_type_value BLOCK_DEVICE = ''block_device''"
| "filesystem_object_type_value OBJECT_UNKNOWN = ''unknown''"

lemma filesystem_object_type_value_inject [simp]: "filesystem_object_type_value a = filesystem_object_type_value b \<longleftrightarrow> a = b"
  by (cases a; cases b) simp_all

datatype filesystem_observation_status =
    OBSERVED
  | PERMISSION_DENIED
  | NOT_FOUND
  | CHANGED_DURING_SCAN
  | IO_ERROR
  | UNSUPPORTED

fun filesystem_observation_status_value :: "filesystem_observation_status \<Rightarrow> string" where
  "filesystem_observation_status_value OBSERVED = ''observed''"
| "filesystem_observation_status_value PERMISSION_DENIED = ''permission_denied''"
| "filesystem_observation_status_value NOT_FOUND = ''not_found''"
| "filesystem_observation_status_value CHANGED_DURING_SCAN = ''changed_during_scan''"
| "filesystem_observation_status_value IO_ERROR = ''io_error''"
| "filesystem_observation_status_value UNSUPPORTED = ''unsupported''"

lemma filesystem_observation_status_value_inject [simp]: "filesystem_observation_status_value a = filesystem_observation_status_value b \<longleftrightarrow> a = b"
  by (cases a; cases b) simp_all

datatype payload_observation_status =
    HASHED
  | EMPTY_FILE_HASHED
  | NOT_REGULAR_FILE
  | NOT_LOCAL
  | PAYLOAD_PERMISSION_DENIED
  | FILE_TOO_LARGE
  | TOTAL_BYTE_BUDGET_EXHAUSTED
  | TIME_BUDGET_EXHAUSTED
  | CHANGED_DURING_READ
  | NOT_FOUND_DURING_READ
  | PAYLOAD_IO_ERROR
  | PAYLOAD_UNSUPPORTED

fun payload_observation_status_value :: "payload_observation_status \<Rightarrow> string" where
  "payload_observation_status_value HASHED = ''HASHED''"
| "payload_observation_status_value EMPTY_FILE_HASHED = ''EMPTY_FILE_HASHED''"
| "payload_observation_status_value NOT_REGULAR_FILE = ''NOT_REGULAR_FILE''"
| "payload_observation_status_value NOT_LOCAL = ''NOT_LOCAL''"
| "payload_observation_status_value PAYLOAD_PERMISSION_DENIED = ''PERMISSION_DENIED''"
| "payload_observation_status_value FILE_TOO_LARGE = ''FILE_TOO_LARGE''"
| "payload_observation_status_value TOTAL_BYTE_BUDGET_EXHAUSTED = ''TOTAL_BYTE_BUDGET_EXHAUSTED''"
| "payload_observation_status_value TIME_BUDGET_EXHAUSTED = ''TIME_BUDGET_EXHAUSTED''"
| "payload_observation_status_value CHANGED_DURING_READ = ''CHANGED_DURING_READ''"
| "payload_observation_status_value NOT_FOUND_DURING_READ = ''NOT_FOUND_DURING_READ''"
| "payload_observation_status_value PAYLOAD_IO_ERROR = ''IO_ERROR''"
| "payload_observation_status_value PAYLOAD_UNSUPPORTED = ''UNSUPPORTED''"

lemma payload_observation_status_value_inject [simp]: "payload_observation_status_value a = payload_observation_status_value b \<longleftrightarrow> a = b"
  by (cases a; cases b) simp_all

datatype payload_observation_provenance =
    DIRECT_READ
  | REUSED_FROM_VERIFIED_SNAPSHOT

fun payload_observation_provenance_value :: "payload_observation_provenance \<Rightarrow> string" where
  "payload_observation_provenance_value DIRECT_READ = ''DIRECT_READ''"
| "payload_observation_provenance_value REUSED_FROM_VERIFIED_SNAPSHOT = ''REUSED_FROM_VERIFIED_SNAPSHOT''"

lemma payload_observation_provenance_value_inject [simp]: "payload_observation_provenance_value a = payload_observation_provenance_value b \<longleftrightarrow> a = b"
  by (cases a; cases b) simp_all

datatype snapshot_status =
    SNAPSHOT_COMPLETE
  | SNAPSHOT_PARTIAL
  | SNAPSHOT_FAILED

fun snapshot_status_value :: "snapshot_status \<Rightarrow> string" where
  "snapshot_status_value SNAPSHOT_COMPLETE = ''complete''"
| "snapshot_status_value SNAPSHOT_PARTIAL = ''partial''"
| "snapshot_status_value SNAPSHOT_FAILED = ''failed''"

lemma snapshot_status_value_inject [simp]: "snapshot_status_value a = snapshot_status_value b \<longleftrightarrow> a = b"
  by (cases a; cases b) simp_all

datatype snapshot_consistency =
    BEST_EFFORT_POINT_IN_TIME

fun snapshot_consistency_value :: "snapshot_consistency \<Rightarrow> string" where
  "snapshot_consistency_value BEST_EFFORT_POINT_IN_TIME = ''best_effort_point_in_time''"

lemma snapshot_consistency_value_inject [simp]: "snapshot_consistency_value a = snapshot_consistency_value b \<longleftrightarrow> a = b"
  by (cases a; cases b) simp_all

datatype knowledge_status =
    KNOWLEDGE_UNKNOWN

fun knowledge_status_value :: "knowledge_status \<Rightarrow> string" where
  "knowledge_status_value KNOWLEDGE_UNKNOWN = ''UNKNOWN''"

lemma knowledge_status_value_inject [simp]: "knowledge_status_value a = knowledge_status_value b \<longleftrightarrow> a = b"
  by (cases a; cases b) simp_all
section \<open>Scopes and budgets\<close>

text \<open>
  An absolute normalised path is its list of components below the root, so that
  \<open>Path("/")\<close> is the empty list, and \<open>relative_to\<close> succeeds on prefixes.
\<close>

type_synonym abs_path = "string list"

record path_config =
  data_dir :: abs_path
  cache_dir :: abs_path
  evidence_dir :: abs_path
  quarantine_dir :: abs_path

record scope_config =
  sc_scope_id :: string
  sc_role :: scope_role
  sc_raw_path :: string
  sc_normalized_path :: abs_path
  sc_enabled :: bool
  sc_follow_directory_symlinks :: bool
  sc_allow_cross_mount :: bool

record scan_budget =
  b_max_entries :: int
  b_max_total_stat_bytes :: "int option"
  b_max_duration_seconds :: rat
  b_max_depth :: "int option"

section \<open>Entries\<close>

record payload_observation =
  p_status :: payload_observation_status
  p_algorithm :: "string option"
  p_algorithm_version :: "int option"
  p_digest :: "string option"
  p_bytes_hashed :: "int option"
  p_provenance :: "payload_observation_provenance option"
  p_reused_from_snapshot_id :: "string option"
  p_failure_code :: "string option"
  p_os_error_code :: "int option"

record entry_v2_facts =
  v2_allocated_size_bytes :: "int option"
  v2_payload_observation :: payload_observation

record filesystem_entry =
  e_entry_id :: string
  e_snapshot_id :: string
  e_scope_id :: string
  e_relative_path :: string
  e_object_type :: filesystem_object_type
  e_device_id :: "int option"
  e_inode :: "int option"
  e_mode :: "int option"
  e_uid :: "int option"
  e_gid :: "int option"
  e_size_bytes :: "int option"
  e_mtime_ns :: "int option"
  e_ctime_ns :: "int option"
  e_birthtime_ns :: "int option"
  e_link_count :: "int option"
  e_symlink_target_raw :: "string option"
  e_readable :: bool
  e_writable :: bool
  e_executable :: bool
  e_observation_status :: filesystem_observation_status
  e_error_code :: "string option"
  e_error_message :: "string option"
  e_excluded :: bool
  e_v2 :: "entry_v2_facts option"

section \<open>Snapshots\<close>

record payload_hash_policy =
  hp_algorithm :: string
  hp_algorithm_version :: int
  hp_max_hash_file_bytes :: "int option"
  hp_max_total_hash_bytes :: "int option"
  hp_max_hash_duration_seconds :: "rat option"
  hp_hash_chunk_size :: int
  hp_allow_non_local_content :: bool
  hp_allow_verified_reuse :: bool

record payload_observation_count =
  pc_status :: payload_observation_status
  pc_count :: int

record snapshot_v2_facts =
  sv2_snapshot_schema_version :: int
  sv2_hash_policy :: payload_hash_policy
  sv2_allocated_regular_file_bytes_known_sum :: int
  sv2_allocated_regular_file_unknown_count :: int
  sv2_payload_observation_summary :: "payload_observation_count list"

record filesystem_snapshot =
  s_snapshot_id :: string
  s_run_id :: string
  s_created_at :: string
  s_started_at :: string
  s_completed_at :: string
  s_status :: snapshot_status
  s_consistency :: snapshot_consistency
  s_config_digest :: string
  s_scope_ids :: "string list"
  s_budget :: scan_budget
  s_entry_count :: int
  s_observed_count :: int
  s_error_count :: int
  s_excluded_count :: int
  s_total_regular_file_bytes :: int
  s_max_depth_observed :: int
  s_entries_digest :: string
  s_snapshot_digest :: string
  s_evidence_id :: "string option"
  s_evidence_relative_path :: "string option"
  s_entries :: "filesystem_entry list"
  s_v2 :: "snapshot_v2_facts option"

section \<open>References to entries\<close>

text \<open>
  \<open>_reference\<close> of the analysis modules, and the order \<open>_reference_key\<close>: snapshot, scope
  and the bytes of the path.
\<close>

record snapshot_entry_reference =
  ref_snapshot_id :: string
  ref_scope_id :: string
  ref_relative_path :: string

definition entry_reference :: "filesystem_entry \<Rightarrow> snapshot_entry_reference" where
  "entry_reference e =
     \<lparr>ref_snapshot_id = e_snapshot_id e, ref_scope_id = e_scope_id e,
      ref_relative_path = e_relative_path e\<rparr>"

definition reference_key :: "snapshot_entry_reference \<Rightarrow> string \<times> string \<times> string" where
  "reference_key r = (ref_snapshot_id r, ref_scope_id r, ref_relative_path r)"

definition location :: "filesystem_entry \<Rightarrow> string \<times> string" where
  "location e = (e_scope_id e, e_relative_path e)"

definition ordered_references :: "filesystem_entry list \<Rightarrow> snapshot_entry_reference list" where
  "ordered_references es = sort_key reference_key (map entry_reference es)"

lemma reference_key_inject [simp]: "reference_key r = reference_key r' \<longleftrightarrow> r = r'"
  by (cases r; cases r') (simp add: reference_key_def)

lemma ordered_references_mset:
  "mset es = mset es' \<Longrightarrow> ordered_references es = ordered_references es'"
  unfolding ordered_references_def
  by (rule sort_key_inj_key_eq) (simp_all add: inj_on_def)

lemma entry_reference_simps [simp]:
  "ref_snapshot_id (entry_reference e) = e_snapshot_id e"
  "ref_scope_id (entry_reference e) = e_scope_id e"
  "ref_relative_path (entry_reference e) = e_relative_path e"
  by (simp_all add: entry_reference_def)

lemma reference_eq_location:
  "e_snapshot_id e = e_snapshot_id e' \<Longrightarrow>
   entry_reference e = entry_reference e' \<longleftrightarrow> location e = location e'"
  by (auto simp: entry_reference_def location_def)

lemma set_ordered_references [simp]: "set (ordered_references es) = entry_reference ` set es"
  by (simp add: ordered_references_def)

lemma length_ordered_references [simp]: "length (ordered_references es) = length es"
  by (simp add: ordered_references_def)

lemma sorted_ordered_references: "sorted (map reference_key (ordered_references es))"
  by (simp add: ordered_references_def)

instantiation snapshot_entry_reference_ext :: (linorder) linorder
begin

definition less_eq_snapshot_entry_reference_ext ::
    "'a snapshot_entry_reference_ext \<Rightarrow> 'a snapshot_entry_reference_ext \<Rightarrow> bool" where
  "less_eq_snapshot_entry_reference_ext r r' \<longleftrightarrow>
     (ref_snapshot_id r, ref_scope_id r, ref_relative_path r, snapshot_entry_reference.more r)
       \<le> (ref_snapshot_id r', ref_scope_id r', ref_relative_path r', snapshot_entry_reference.more r')"

definition less_snapshot_entry_reference_ext ::
    "'a snapshot_entry_reference_ext \<Rightarrow> 'a snapshot_entry_reference_ext \<Rightarrow> bool" where
  "less_snapshot_entry_reference_ext r r' \<longleftrightarrow>
     (ref_snapshot_id r, ref_scope_id r, ref_relative_path r, snapshot_entry_reference.more r)
       < (ref_snapshot_id r', ref_scope_id r', ref_relative_path r', snapshot_entry_reference.more r')"

instance
  by standard
    (auto simp: less_eq_snapshot_entry_reference_ext_def less_snapshot_entry_reference_ext_def)

end

text \<open>
  Two entries of one snapshot at one location are what every analysis refuses; with
  distinct locations the references are distinct too.
\<close>

lemma distinct_references:
  "distinct (map location es) \<Longrightarrow> \<forall>e \<in> set es. e_snapshot_id e = sid \<Longrightarrow>
   distinct (map entry_reference es)"
  by (induction es) (auto simp: location_def entry_reference_def)

end
