(* ===== verification/Path_Tree.thy ===== *)
theory Path_Tree
  imports Steward_Models "HOL-Library.Sublist"
begin

text \<open>
  Scope-relative paths and the directory roll-up that \<open>storage_structure.py\<close> and
  \<open>storage_growth.py\<close> share. A valid path is \<open>.\<close> or a \<open>/\<close>-separated list of parts;
  \<open>path_of\<close> and \<open>valid_path\<close> are inverse on lists of valid parts. \<open>build_tree\<close> is the
  memoising recursion of both \<open>build\<close> functions; the locale \<open>directory_tree\<close> states what
  it needs of the dictionary of builders and proves that it visits every directory
  below its argument once and never runs out of fuel.
\<close>

section \<open>Paths\<close>

definition good_part :: "string \<Rightarrow> bool" where
  "good_part p \<longleftrightarrow> p \<notin> {'''', ''.'', ''..''} \<and> CHR ''/'' \<notin> set p"

text \<open>\<open>_valid_path\<close> (storage_structure.py), with the raised exception class as an argument:
  \<open>_path_parts\<close> (storage_query.py) is the same parser under another exception.\<close>

definition parse_path :: "exn \<Rightarrow> exn \<Rightarrow> string \<Rightarrow> string list result" where
  "parse_path absolute hierarchy path =
     (if path = ''.'' then Inr []
      else if path = '''' \<or> starts_with ''/'' path then Inl absolute
      else (let parts = split_on CHR ''/'' path
            in if \<exists>part \<in> set parts. part \<in> {'''', ''.'', ''..''} then Inl hierarchy
               else Inr parts))"

definition valid_path :: "string \<Rightarrow> string list result" where
  "valid_path path =
     parse_path
       (Raise StructureError ''STRUCTURE_INVALID: relative path must be scope-relative'')
       (Raise StructureError ''STRUCTURE_INVALID: relative path hierarchy is invalid'')
       path"

text \<open>\<open>_path\<close> and \<open>_parent\<close>.\<close>

definition path_of :: "string list \<Rightarrow> string" where
  "path_of parts = (if parts = [] then ''.'' else join_on CHR ''/'' parts)"

definition parent :: "string \<Rightarrow> string result" where
  "parent path = bind_result (valid_path path) (\<lambda>parts. Inr (path_of (butlast parts)))"

abbreviation good_parts :: "string list \<Rightarrow> bool" where
  "good_parts ps \<equiv> list_all good_part ps"

lemma good_parts_iff: "good_parts ps \<longleftrightarrow> (\<forall>p \<in> set ps. good_part p)"
  by (simp add: list_all_iff)

lemma good_partD:
  "good_part p \<Longrightarrow> p \<noteq> []" "good_part p \<Longrightarrow> CHR ''/'' \<notin> set p"
  by (auto simp: good_part_def)

lemma good_parts_butlast [simp]: "good_parts ps \<Longrightarrow> good_parts (butlast ps)"
  by (auto simp: list_all_iff dest: in_set_butlastD)

lemma good_parts_take [simp]: "good_parts ps \<Longrightarrow> good_parts (take n ps)"
  by (auto simp: list_all_iff dest: in_set_takeD)

lemma path_of_Nil [simp]: "path_of [] = ''.''"
  by (simp add: path_of_def)

lemma split_path_of:
  "good_parts ps \<Longrightarrow> ps \<noteq> [] \<Longrightarrow> split_on CHR ''/'' (path_of ps) = ps"
  by (simp add: path_of_def split_join_on list_all_iff good_partD)

lemma path_of_eq_dot [simp]: "good_parts ps \<Longrightarrow> path_of ps = ''.'' \<longleftrightarrow> ps = []"
proof
  assume good: "good_parts ps" and dot: "path_of ps = ''.''"
  show "ps = []"
  proof (rule ccontr)
    assume "ps \<noteq> []"
    then have "ps = split_on CHR ''/'' ''.''"
      using split_path_of [OF good] dot by simp
    then have "ps = [''.'']" by simp
    with good show False by (simp add: good_part_def)
  qed
qed simp

lemma path_of_eq_iff:
  "good_parts ps \<Longrightarrow> good_parts qs \<Longrightarrow> path_of ps = path_of qs \<longleftrightarrow> ps = qs"
  by (metis path_of_Nil path_of_eq_dot split_path_of)

lemma inj_on_path_of: "\<forall>ps \<in> A. good_parts ps \<Longrightarrow> inj_on path_of A"
  by (auto simp: inj_on_def path_of_eq_iff)

lemma path_of_not_absolute:
  assumes "good_parts ps" "ps \<noteq> []"
  shows "path_of ps \<noteq> [] \<and> \<not> starts_with ''/'' (path_of ps)"
proof -
  obtain p qs where ps: "ps = p # qs" using assms by (cases ps) auto
  with assms obtain c p' where p: "p = c # p'" "c \<noteq> CHR ''/''"
    by (cases p) (auto simp: good_part_def)
  then show ?thesis
    using ps by (cases qs) (auto simp: path_of_def)
qed

lemma parse_path_path_of [simp]: "good_parts ps \<Longrightarrow> parse_path a h (path_of ps) = Inr ps"
  using path_of_not_absolute [of ps]
  by (auto simp: parse_path_def Let_def split_path_of list_all_iff good_part_def)

lemma parse_path_InrD:
  assumes "parse_path a h path = Inr ps"
  shows "path = path_of ps \<and> good_parts ps"
proof (cases "path = ''.''")
  case False
  with assms have ps: "ps = split_on CHR ''/'' path" "\<forall>p \<in> set ps. p \<notin> {'''', ''.'', ''..''}"
    by (auto simp: parse_path_def Let_def split: if_splits)
  then have "good_parts ps"
    by (auto simp: list_all_iff good_part_def dest: split_on_parts)
  moreover have "path = path_of ps" using ps by (simp add: path_of_def)
  ultimately show ?thesis by simp
qed (use assms in \<open>simp add: parse_path_def\<close>)

lemma parse_path_Inr_iff:
  "parse_path a h path = Inr ps \<longleftrightarrow> path = path_of ps \<and> good_parts ps"
  using parse_path_InrD by auto

lemma valid_path_path_of [simp]: "good_parts ps \<Longrightarrow> valid_path (path_of ps) = Inr ps"
  by (simp add: valid_path_def)

lemma valid_path_Inr_iff: "valid_path path = Inr ps \<longleftrightarrow> path = path_of ps \<and> good_parts ps"
  by (simp add: valid_path_def parse_path_Inr_iff)

lemma parent_path_of [simp]: "good_parts ps \<Longrightarrow> parent (path_of ps) = Inr (path_of (butlast ps))"
  by (simp add: parent_def)

section \<open>The roll-up recursion\<close>

text \<open>
  \<open>build(path)\<close>: a memoised node is returned as it is; otherwise the children of the
  builder are built in order, the node is made from theirs and stored in \<open>resolved\<close>.
  \<open>kids\<close> looks the builder up (\<open>None\<close> is the \<open>KeyError\<close>) and gives its children in the
  sorted order of the loop; \<open>mk\<close> is the body after the loop, which may raise. The
  fuel counts the nested calls.
\<close>

function (sequential)
  build_tree :: "(string \<Rightarrow> string list option) \<Rightarrow> (string \<Rightarrow> 'n list \<Rightarrow> 'n result) \<Rightarrow>
    nat \<Rightarrow> string \<Rightarrow> (string, 'n) dict \<Rightarrow> ('n \<times> (string, 'n) dict) result"
and
  build_forest :: "(string \<Rightarrow> string list option) \<Rightarrow> (string \<Rightarrow> 'n list \<Rightarrow> 'n result) \<Rightarrow>
    nat \<Rightarrow> string list \<Rightarrow> (string, 'n) dict \<Rightarrow> ('n list \<times> (string, 'n) dict) result"
where
  "build_tree kids mk 0 path resolved = Inl PyRecursionError"
| "build_tree kids mk (Suc n) path resolved =
     (case map_of resolved path of
        Some existing \<Rightarrow> Inr (existing, resolved)
      | None \<Rightarrow>
          (case kids path of
             None \<Rightarrow> Inl PyKeyError
           | Some cs \<Rightarrow>
               bind_result (build_forest kids mk n cs resolved) (\<lambda>(children, resolved').
               bind_result (mk path children) (\<lambda>node.
               Inr (node, AList.update path node resolved')))))"
| "build_forest kids mk n [] resolved = Inr ([], resolved)"
| "build_forest kids mk n (c # cs) resolved =
     bind_result (build_tree kids mk n c resolved) (\<lambda>(node, resolved').
     bind_result (build_forest kids mk n cs resolved') (\<lambda>(nodes, resolved'').
     Inr (node # nodes, resolved'')))"
  by pat_completeness auto
termination
  by (relation "measures
      [\<lambda>x. case x of Inl (_, _, n, _, _) \<Rightarrow> n | Inr (_, _, n, _, _) \<Rightarrow> n,
       \<lambda>x. case x of Inl _ \<Rightarrow> 0 | Inr (_, _, _, cs, _) \<Rightarrow> Suc (length cs)]")
    auto

section \<open>Subtrees of a prefix-closed set of directories\<close>

definition child_dirs :: "string list set \<Rightarrow> string list \<Rightarrow> string list set" where
  "child_dirs D d = {c \<in> D. c \<noteq> [] \<and> butlast c = d}"

definition subtree :: "string list set \<Rightarrow> string list \<Rightarrow> string list set" where
  "subtree D d = {q \<in> D. prefix d q}"

definition parent_closed :: "string list set \<Rightarrow> bool" where
  "parent_closed D \<longleftrightarrow> (\<forall>d \<in> D. d \<noteq> [] \<longrightarrow> butlast d \<in> D)"

lemma finite_subtree [simp]: "finite D \<Longrightarrow> finite (subtree D d)"
  by (simp add: subtree_def)

lemma finite_child_dirs [simp]: "finite D \<Longrightarrow> finite (child_dirs D d)"
  by (simp add: child_dirs_def)

lemma subtree_root [simp]: "subtree D [] = D"
  by (simp add: subtree_def)

lemma child_dirs_length: "c \<in> child_dirs D d \<Longrightarrow> length c = Suc (length d)"
  by (auto simp: child_dirs_def)

lemma parent_closed_take:
  "parent_closed D \<Longrightarrow> q \<in> D \<Longrightarrow> take n q \<in> D"
proof (induction "length q - n" arbitrary: q)
  case (Suc m)
  then have "q \<noteq> []" and short: "length q - 1 - n = m" by auto
  with Suc.prems have "butlast q \<in> D" by (simp add: parent_closed_def)
  with Suc.hyps(1) [of "butlast q"] Suc.prems(1) short have "take n (butlast q) \<in> D" by simp
  moreover have "take n (butlast q) = take n q"
    using Suc.hyps(2) by (simp add: take_butlast)
  ultimately show ?case by simp
qed simp

lemma card_parent_closed:
  assumes "finite D" "parent_closed D" "q \<in> D"
  shows "length q < card D"
proof -
  have "inj_on (\<lambda>n. take n q) {..length q}"
    by (rule inj_onI) (metis atMost_iff length_take min.absorb2)
  then have "card ((\<lambda>n. take n q) ` {..length q}) = Suc (length q)"
    by (simp add: card_image)
  moreover have "(\<lambda>n. take n q) ` {..length q} \<subseteq> D"
    using parent_closed_take [OF assms(2,3)] by auto
  ultimately show ?thesis
    using card_mono [OF assms(1)] by (metis less_eq_Suc_le)
qed

lemma subtree_unfold:
  assumes "parent_closed D" "d \<in> D"
  shows "subtree D d = insert d (\<Union>c \<in> child_dirs D d. subtree D c)"
proof (intro equalityI subsetI)
  fix q assume "q \<in> subtree D d"
  then obtain r where q: "q = d @ r" "q \<in> D" by (auto simp: subtree_def prefix_def)
  show "q \<in> insert d (\<Union>c \<in> child_dirs D d. subtree D c)"
  proof (cases r)
    case (Cons a r')
    let ?c = "d @ [a]"
    have "?c \<in> D"
      using parent_closed_take [OF assms(1) q(2), of "length ?c"] q(1) Cons by simp
    then have "?c \<in> child_dirs D d" by (simp add: child_dirs_def)
    moreover have "q \<in> subtree D ?c" using q Cons by (simp add: subtree_def)
    ultimately show ?thesis by blast
  qed (use q in simp)
next
  fix q assume q: "q \<in> insert d (\<Union>c \<in> child_dirs D d. subtree D c)"
  show "q \<in> subtree D d"
  proof (cases "q = d")
    case False
    with q obtain c where c: "c \<in> D" "c \<noteq> []" "butlast c = d" "q \<in> D" "prefix c q"
      by (auto simp: child_dirs_def subtree_def)
    then have "prefix d c" by (metis append_butlast_last_id prefixI)
    with c show ?thesis by (auto simp: subtree_def dest: prefix_order.trans)
  qed (use assms in \<open>simp add: subtree_def\<close>)
qed

lemma subtree_children_disjoint:
  assumes "c \<in> child_dirs D d" "c' \<in> child_dirs D d" "c \<noteq> c'"
  shows "subtree D c \<inter> subtree D c' = {}"
proof -
  have "c = c'" if "prefix c q" "prefix c' q" for q
    using that assms child_dirs_length by (metis prefix_length_prefix prefix_order.antisym order_refl)
  with assms(3) show ?thesis by (auto simp: subtree_def)
qed

lemma not_in_child_subtree: "c \<in> child_dirs D d \<Longrightarrow> d \<notin> subtree D c"
  using child_dirs_length [of c D d] by (auto simp: subtree_def dest: prefix_length_le)

text \<open>The roll-up identity: a total over a subtree is the directory's own share plus the
  totals of its children.\<close>

lemma sum_subtree:
  fixes f :: "string list \<Rightarrow> 'm :: comm_monoid_add"
  assumes "finite D" "parent_closed D" "d \<in> D"
  shows "(\<Sum>q \<in> subtree D d. f q) = f d + (\<Sum>c \<in> child_dirs D d. \<Sum>q \<in> subtree D c. f q)"
proof -
  let ?U = "\<Union>c \<in> child_dirs D d. subtree D c"
  have "d \<notin> ?U" using not_in_child_subtree by blast
  then have "(\<Sum>q \<in> subtree D d. f q) = f d + sum f ?U"
    using assms by (simp add: subtree_unfold [OF assms(2,3)])
  also have "sum f ?U = (\<Sum>c \<in> child_dirs D d. \<Sum>q \<in> subtree D c. f q)"
    using assms(1) subtree_children_disjoint by (intro sum.UNION_disjoint) auto
  finally show ?thesis .
qed

text \<open>Shares that are themselves sums over items with a home directory.\<close>

lemma sum_subtree_items:
  fixes w :: "'x \<Rightarrow> 'm :: comm_monoid_add"
  assumes "finite D" "\<And>x. x \<in> set xs \<Longrightarrow> home x \<in> D"
  shows "(\<Sum>q \<in> subtree D d. \<Sum>x \<leftarrow> filter (\<lambda>x. home x = q) xs. w x)
       = (\<Sum>x \<leftarrow> filter (\<lambda>x. prefix d (home x)) xs. w x)"
  using assms(2)
proof (induction xs)
  case (Cons x xs)
  have "(\<Sum>q \<in> subtree D d. \<Sum>y \<leftarrow> filter (\<lambda>y. home y = q) (x # xs). w y)
      = (\<Sum>q \<in> subtree D d. (if q = home x then w x else 0)
          + (\<Sum>y \<leftarrow> filter (\<lambda>y. home y = q) xs. w y))"
    by (intro sum.cong) auto
  also have "\<dots> = (if home x \<in> subtree D d then w x else 0)
      + (\<Sum>y \<leftarrow> filter (\<lambda>y. prefix d (home y)) xs. w y)"
    using Cons assms(1) by (simp add: sum.distrib sum.delta)
  also have "home x \<in> subtree D d \<longleftrightarrow> prefix d (home x)"
    using Cons.prems by (simp add: subtree_def)
  finally show ?case by simp
qed simp

section \<open>The contract between the roll-up and a dictionary of builders\<close>

locale directory_tree =
  fixes wf :: "'b \<Rightarrow> bool"
    and dirs :: "'b \<Rightarrow> string list set"
    and kids :: "'b \<Rightarrow> string \<Rightarrow> string list option"
  assumes finite_dirs: "wf b \<Longrightarrow> finite (dirs b)"
    and root_dir: "wf b \<Longrightarrow> [] \<in> dirs b"
    and closed_dirs: "wf b \<Longrightarrow> parent_closed (dirs b)"
    and kids_children: "wf b \<Longrightarrow> d \<in> dirs b \<Longrightarrow>
      \<exists>ds. kids b (path_of d) = Some (map path_of ds) \<and> distinct ds
         \<and> set ds = child_dirs (dirs b) d"
begin

text \<open>A memo is sound when it holds correct nodes of directories whose whole subtree it holds.\<close>

definition memo_ok :: "'b \<Rightarrow> (string list \<Rightarrow> 'n \<Rightarrow> bool) \<Rightarrow> (string, 'n) dict \<Rightarrow> bool" where
  "memo_ok b ok res \<longleftrightarrow> dict_wf res \<and>
     (\<forall>p nd. (p, nd) \<in> set res \<longrightarrow> (\<exists>d \<in> dirs b. p = path_of d \<and> ok d nd
        \<and> path_of ` subtree (dirs b) d \<subseteq> fst ` set res))"

lemma memo_okE:
  assumes "memo_ok b ok res" "(p, nd) \<in> set res"
  obtains d where "d \<in> dirs b" "p = path_of d" "ok d nd"
    "path_of ` subtree (dirs b) d \<subseteq> fst ` set res"
  using assms unfolding memo_ok_def by blast

lemma memo_ok_update:
  assumes "memo_ok b ok res" "d \<in> dirs b" "ok d nd"
    and "path_of ` subtree (dirs b) d \<subseteq> insert (path_of d) (fst ` set res)"
  shows "memo_ok b ok (AList.update (path_of d) nd res)"
proof -
  let ?res = "AList.update (path_of d) nd res"
  have wf: "dict_wf ?res" "dict_wf res" using assms(1) by (auto simp: memo_ok_def)
  have keys: "fst ` set ?res = insert (path_of d) (fst ` set res)"
    by (rule keys_update)
  have "\<exists>d \<in> dirs b. p = path_of d \<and> ok d nd'
      \<and> path_of ` subtree (dirs b) d \<subseteq> fst ` set ?res" if "(p, nd') \<in> set ?res" for p nd'
  proof (cases "p = path_of d")
    case True
    with that wf have "nd' = nd" by (simp add: dict_values_conv map_of_update)
    with True assms keys show ?thesis by blast
  next
    case False
    with that wf have "(p, nd') \<in> set res" by (simp add: dict_values_conv map_of_update)
    with assms(1) obtain d' where "d' \<in> dirs b" "p = path_of d'" "ok d' nd'"
      "path_of ` subtree (dirs b) d' \<subseteq> fst ` set res"
      by (rule memo_okE)
    then show ?thesis
      unfolding keys by (intro bexI [of _ d'] conjI) (auto simp: subset_insertI2)
  qed
  with wf(1) show ?thesis unfolding memo_ok_def by blast
qed

definition visits :: "'b \<Rightarrow> (string \<Rightarrow> 'n list \<Rightarrow> 'n result) \<Rightarrow> (string list \<Rightarrow> 'n \<Rightarrow> bool) \<Rightarrow>
    nat \<Rightarrow> string list \<Rightarrow> (string, 'n) dict \<Rightarrow> bool" where
  "visits b mk ok n d res \<longleftrightarrow>
     (\<exists>nd res'. build_tree (kids b) mk n (path_of d) res = Inr (nd, res') \<and> ok d nd
        \<and> memo_ok b ok res'
        \<and> fst ` set res' = fst ` set res \<union> path_of ` subtree (dirs b) d)"

lemma build_forest_visits:
  assumes "\<And>d res. d \<in> set ds \<Longrightarrow> memo_ok b ok res \<Longrightarrow> visits b mk ok n d res"
    and "memo_ok b ok res"
  shows "\<exists>nds res'. build_forest (kids b) mk n (map path_of ds) res = Inr (nds, res')
      \<and> list_all2 ok ds nds \<and> memo_ok b ok res'
      \<and> fst ` set res' = fst ` set res \<union> path_of ` (\<Union>d \<in> set ds. subtree (dirs b) d)"
  using assms
proof (induction ds arbitrary: res)
  case (Cons d ds)
  from Cons.prems obtain nd res1 where 1:
    "build_tree (kids b) mk n (path_of d) res = Inr (nd, res1)" "ok d nd" "memo_ok b ok res1"
    "fst ` set res1 = fst ` set res \<union> path_of ` subtree (dirs b) d"
    unfolding visits_def by (metis list.set_intros(1))
  have "\<exists>nds res'. build_forest (kids b) mk n (map path_of ds) res1 = Inr (nds, res')
      \<and> list_all2 ok ds nds \<and> memo_ok b ok res'
      \<and> fst ` set res' = fst ` set res1 \<union> path_of ` (\<Union>d \<in> set ds. subtree (dirs b) d)"
    using Cons.prems(1) 1(3) by (intro Cons.IH) auto
  then obtain nds res2 where 2:
    "build_forest (kids b) mk n (map path_of ds) res1 = Inr (nds, res2)"
    "list_all2 ok ds nds" "memo_ok b ok res2"
    "fst ` set res2 = fst ` set res1 \<union> path_of ` (\<Union>d \<in> set ds. subtree (dirs b) d)"
    by blast
  from 1 2 show ?case by (auto simp: image_Un Un_assoc)
qed simp

text \<open>
  The rule for \<open>build\<close>: if the body makes a correct node from correct children, the call
  on a directory returns its correct node and leaves the memo with exactly the
  directories below it added. The fuel exceeds the depth that is left.
\<close>

lemma build_tree_visits:
  assumes wf: "wf b"
    and step: "\<And>d ds nds. d \<in> dirs b \<Longrightarrow> distinct ds \<Longrightarrow> set ds = child_dirs (dirs b) d \<Longrightarrow>
      list_all2 ok ds nds \<Longrightarrow> \<exists>nd. mk (path_of d) nds = Inr nd \<and> ok d nd"
    and inj: "inj_on path_of (dirs b)"
    and "d \<in> dirs b" "\<forall>q \<in> dirs b. length q < length d + n" "memo_ok b ok res"
  shows "visits b mk ok n d res"
  using assms(4-)
proof (induction n arbitrary: d res)
  case 0
  then show ?case by auto
next
  case (Suc n)
  show ?case
  proof (cases "map_of res (path_of d)")
    case (Some nd)
    with Suc.prems(3) have "(path_of d, nd) \<in> set res" by (simp add: map_of_SomeD)
    with Suc.prems(3) obtain d' where "d' \<in> dirs b" "path_of d = path_of d'" "ok d' nd"
      "path_of ` subtree (dirs b) d' \<subseteq> fst ` set res"
      by (rule memo_okE)
    moreover from this inj Suc.prems(1) have "d' = d" by (simp add: inj_on_eq_iff)
    ultimately show ?thesis
      using Some Suc.prems by (auto simp: visits_def)
  next
    case None
    obtain ds where ds: "kids b (path_of d) = Some (map path_of ds)" "distinct ds"
      "set ds = child_dirs (dirs b) d"
      using kids_children [OF wf Suc.prems(1)] by blast
    have "visits b mk ok n c res'" if "c \<in> set ds" "memo_ok b ok res'" for c res'
      using that ds(3) Suc.prems(2) child_dirs_length [of c "dirs b" d]
      by (intro Suc.IH) (auto simp: child_dirs_def)
    from build_forest_visits [OF this Suc.prems(3)] obtain nds res1 where 1:
      "build_forest (kids b) mk n (map path_of ds) res = Inr (nds, res1)"
      "list_all2 ok ds nds" "memo_ok b ok res1"
      "fst ` set res1 = fst ` set res \<union> path_of ` (\<Union>c \<in> set ds. subtree (dirs b) c)"
      by blast
    obtain nd where nd: "mk (path_of d) nds = Inr nd" "ok d nd"
      using step [OF Suc.prems(1) ds(2,3) 1(2)] by blast
    have sub: "subtree (dirs b) d = insert d (\<Union>c \<in> set ds. subtree (dirs b) c)"
      using subtree_unfold [OF closed_dirs [OF wf] Suc.prems(1)] ds(3) by simp
    then have "memo_ok b ok (AList.update (path_of d) nd res1)"
      using 1 nd(2) Suc.prems(1) by (intro memo_ok_update) auto
    moreover have "fst ` set (AList.update (path_of d) nd res1)
        = fst ` set res \<union> path_of ` subtree (dirs b) d"
      using 1(4) sub by (auto simp: keys_update)
    ultimately show ?thesis
      using None ds 1 nd by (auto simp: visits_def)
  qed
qed

text \<open>From the root, with as much fuel as there are directories.\<close>

lemma build_tree_root:
  assumes "wf b" "inj_on path_of (dirs b)"
    and "\<And>d ds nds. d \<in> dirs b \<Longrightarrow> distinct ds \<Longrightarrow> set ds = child_dirs (dirs b) d \<Longrightarrow>
      list_all2 ok ds nds \<Longrightarrow> \<exists>nd. mk (path_of d) nds = Inr nd \<and> ok d nd"
    and "card (dirs b) \<le> n"
  shows "\<exists>nd res. build_tree (kids b) mk n ''.'' [] = Inr (nd, res) \<and> ok [] nd
      \<and> dict_wf res \<and> fst ` set res = path_of ` dirs b
      \<and> (\<forall>d \<in> dirs b. \<exists>nd. map_of res (path_of d) = Some nd \<and> ok d nd)"
proof -
  have "visits b mk ok n [] []"
  proof (rule build_tree_visits)
    show "\<forall>q \<in> dirs b. length q < length [] + n"
      using card_parent_closed [OF finite_dirs closed_dirs, OF assms(1) assms(1)] assms(4)
      by (auto intro: less_le_trans)
    show "memo_ok b ok []" by (simp add: memo_ok_def)
  qed (use assms root_dir in auto)
  then obtain nd res where r: "build_tree (kids b) mk n ''.'' [] = Inr (nd, res)" "ok [] nd"
    "memo_ok b ok res" "fst ` set res = path_of ` dirs b"
    by (auto simp: visits_def)
  have "\<exists>nd. map_of res (path_of d) = Some nd \<and> ok d nd" if "d \<in> dirs b" for d
  proof -
    have "path_of d \<in> fst ` set res" using that r(4) by simp
    then obtain nd where nd: "map_of res (path_of d) = Some nd"
      by (metis map_of_eq_None_iff not_None_eq)
    then have "(path_of d, nd) \<in> set res" by (rule map_of_SomeD)
    with r(3) obtain d' where "d' \<in> dirs b" "path_of d = path_of d'" "ok d' nd"
      by (rule memo_okE)
    with assms(2) that nd show ?thesis by (metis inj_on_eq_iff)
  qed
  with r show ?thesis by (auto simp: memo_ok_def)
qed

end

section \<open>Dictionaries of builders keyed by path\<close>

text \<open>
  The directories of a dictionary, and the invariant of both builder dictionaries: the
  keys are the paths of a parent-closed set of directories with the root, and the
  children of a builder are the paths of the child directories. \<open>sorted_kids\<close> is
  \<open>sorted(builder.children, ...)\<close> of the builder at a path.
\<close>

definition sorted_kids :: "('b \<Rightarrow> string list) \<Rightarrow> (string, 'b) dict \<Rightarrow> string \<Rightarrow> string list option" where
  "sorted_kids children nodes path = map_option (\<lambda>b. sorted_set (children b)) (map_of nodes path)"

definition dirs_of :: "(string, 'b) dict \<Rightarrow> string list set" where
  "dirs_of nodes = {d. good_parts d \<and> path_of d \<in> fst ` set nodes}"

definition tree_dict :: "('b \<Rightarrow> string list) \<Rightarrow> (string, 'b) dict \<Rightarrow> bool" where
  "tree_dict children nodes \<longleftrightarrow>
     dict_wf nodes \<and> fst ` set nodes = path_of ` dirs_of nodes \<and> [] \<in> dirs_of nodes
     \<and> parent_closed (dirs_of nodes)
     \<and> (\<forall>d \<in> dirs_of nodes. \<forall>b. map_of nodes (path_of d) = Some b \<longrightarrow>
          set (children b) = path_of ` child_dirs (dirs_of nodes) d)"

lemma dirs_of_good: "d \<in> dirs_of nodes \<Longrightarrow> good_parts d"
  by (simp add: dirs_of_def)

lemma inj_on_dirs_of [simp]: "inj_on path_of (dirs_of nodes)"
  by (rule inj_on_path_of) (simp add: dirs_of_def)

lemma finite_dirs_of [simp]: "finite (dirs_of nodes)"
proof -
  have "path_of ` dirs_of nodes \<subseteq> fst ` set nodes" by (auto simp: dirs_of_def)
  then have "finite (path_of ` dirs_of nodes)" by (rule finite_subset) simp
  then show ?thesis by (rule finite_imageD) simp
qed

lemma dirs_of_lookup: "d \<in> dirs_of nodes \<Longrightarrow> \<exists>b. map_of nodes (path_of d) = Some b"
  by (auto simp: dirs_of_def map_of_eq_None_iff simp flip: not_None_eq)

lemma card_dirs_of:
  assumes "tree_dict children nodes"
  shows "card (dirs_of nodes) = length nodes"
proof -
  have "card (dirs_of nodes) = card (path_of ` dirs_of nodes)"
    by (simp add: card_image)
  also have "\<dots> = card (set (map fst nodes))"
    using assms by (simp add: tree_dict_def)
  also have "\<dots> = length nodes"
    using assms distinct_card [of "map fst nodes"] by (simp add: tree_dict_def dict_wf_def)
  finally show ?thesis .
qed

lemma child_dirs_insert:
  "child_dirs (insert c D) d =
     (if c \<noteq> [] \<and> butlast c = d then insert c (child_dirs D d) else child_dirs D d)"
  by (auto simp: child_dirs_def)

lemma tree_dict_directory_tree:
  fixes children :: "'b \<Rightarrow> string list"
  shows "directory_tree (tree_dict children) dirs_of (sorted_kids children)"
proof
  fix nodes :: "(string, 'b) dict" and d
  assume wf: "tree_dict children nodes" and d: "d \<in> dirs_of nodes"
  obtain b where b: "map_of nodes (path_of d) = Some b" using dirs_of_lookup [OF d] by blast
  let ?D = "dirs_of nodes"
  have kids: "set (children b) = path_of ` child_dirs ?D d"
    using wf d b by (simp add: tree_dict_def)
  define ds where "ds = map (inv_into ?D path_of) (sorted_set (children b))"
  have sub: "child_dirs ?D d \<subseteq> ?D" by (auto simp: child_dirs_def)
  have inv: "path_of (inv_into ?D path_of p) = p" if "p \<in> set (children b)" for p
    using that kids sub by (intro f_inv_into_f) auto
  have "map path_of ds = sorted_set (children b)"
    unfolding ds_def map_map by (rule map_idI) (simp add: inv)
  moreover have "distinct ds"
    using \<open>map path_of ds = _\<close> by (metis distinct_map distinct_sorted_set)
  moreover have "set ds = child_dirs ?D d"
  proof -
    have "set ds = inv_into ?D path_of ` path_of ` child_dirs ?D d"
      by (simp add: ds_def kids)
    also have "\<dots> = child_dirs ?D d"
      using sub by (simp add: inv_into_image_cancel)
    finally show ?thesis .
  qed
  ultimately show "\<exists>ds. sorted_kids children nodes (path_of d) = Some (map path_of ds)
      \<and> distinct ds \<and> set ds = child_dirs ?D d"
    using b by (intro exI [of _ ds]) (simp add: sorted_kids_def)
qed (auto simp: tree_dict_def)

lemma dirs_of_update [simp]:
  "good_parts d \<Longrightarrow> dirs_of (AList.update (path_of d) b nodes) = insert d (dirs_of nodes)"
  by (auto simp: dirs_of_def keys_update path_of_eq_iff)

lemma keys_map_entry [simp]: "fst ` set (AList.map_entry k f nodes) = fst ` set nodes"
  by (induction nodes) auto

lemma dict_wf_map_entry [simp]: "dict_wf (AList.map_entry k f nodes) \<longleftrightarrow> dict_wf nodes"
proof -
  have "map fst (AList.map_entry k f nodes) = map fst nodes" by (induction nodes) auto
  then show ?thesis by (simp add: dict_wf_def)
qed

lemma dirs_of_map_entry [simp]: "dirs_of (AList.map_entry k f nodes) = dirs_of nodes"
  by (simp add: dirs_of_def)

text \<open>Adding a leaf whose parent is there, and recording it with the parent.\<close>

lemma tree_dict_add_leaf:
  assumes wf: "tree_dict children nodes" and good: "good_parts d" "d \<noteq> []"
    and new: "d \<notin> dirs_of nodes" and up: "butlast d \<in> dirs_of nodes"
    and leaf: "children b = []"
    and f: "\<And>b. set (children (f b)) = insert (path_of d) (set (children b))"
  shows "tree_dict children
      (AList.map_entry (path_of (butlast d)) f (AList.update (path_of d) b nodes))"
    (is "tree_dict children ?nodes")
proof -
  have D: "dirs_of ?nodes = insert d (dirs_of nodes)" using good by simp
  have up_neq: "path_of (butlast d) \<noteq> path_of d"
    using good new up by (auto simp: path_of_eq_iff)
  have up_d: "butlast d \<noteq> d" using new up by auto
  have none: "child_dirs (dirs_of nodes) d = {}"
    using wf new by (auto simp: child_dirs_def tree_dict_def parent_closed_def)
  have "set (children b') = path_of ` child_dirs (insert d (dirs_of nodes)) q"
    if q: "q \<in> insert d (dirs_of nodes)" and b': "map_of ?nodes (path_of q) = Some b'" for q b'
  proof -
    have good_q: "good_parts q" using q good dirs_of_good by auto
    consider "q = d" | "q = butlast d" "q \<noteq> d" | "q \<noteq> d" "q \<noteq> butlast d" by blast
    then show ?thesis
    proof cases
      case 1
      with b' up_neq good have "b' = b" by (simp add: map_of_map_entry map_of_update)
      with 1 leaf none up_d show ?thesis by (simp add: child_dirs_insert)
    next
      case 2
      with b' up_neq obtain b0 where b0: "map_of nodes (path_of q) = Some b0" "b' = f b0"
        by (auto simp: map_of_map_entry map_of_update split: option.splits)
      with wf up 2 have "set (children b0) = path_of ` child_dirs (dirs_of nodes) q"
        by (simp add: tree_dict_def)
      with b0 2 good show ?thesis by (simp add: f child_dirs_insert)
    next
      case 3
      then have "path_of q \<noteq> path_of d" "path_of q \<noteq> path_of (butlast d)"
        using good good_q by (simp_all add: path_of_eq_iff)
      with b' 3 q wf good show ?thesis
        by (simp add: map_of_map_entry map_of_update tree_dict_def child_dirs_insert)
    qed
  qed
  moreover have "fst ` set ?nodes = path_of ` insert d (dirs_of nodes)"
    using wf by (simp add: keys_update tree_dict_def)
  ultimately show ?thesis
    using wf up D by (auto simp: tree_dict_def parent_closed_def)
qed

text \<open>Changing a builder but not its children.\<close>

lemma tree_dict_map_entry:
  assumes "tree_dict children nodes" "\<And>b. children (f b) = children b"
  shows "tree_dict children (AList.map_entry k f nodes)"
  using assms
  by (auto simp: tree_dict_def map_of_map_entry split: option.splits if_splits)

text \<open>The memo of a roll-up that satisfies a specification, sorted by its key.\<close>

lemma sorted_memo:
  assumes res: "dict_wf res" "fst ` set res = path_of ` D" "finite D" "inj_on path_of D"
    "\<forall>d \<in> D. map_of res (path_of d) = Some (spec d)"
    and xs: "set xs = D" and key: "\<And>d. key (spec d) = (c, path_of d)"
  shows "sort_key key (map snd res) = map spec (sort_key path_of (remdups xs))"
proof -
  have "mset (map snd res) = image_mset (\<lambda>p. the (map_of res p)) (mset (map fst res))"
    using res(1) by (auto simp: dict_wf_def multiset.map_comp intro!: image_mset_cong)
  also have "mset (map fst res) = mset (map path_of (remdups xs))"
  proof -
    have "distinct (map path_of (remdups xs))" "distinct (map fst res)"
      using res(1,4) xs by (simp_all add: dict_wf_def distinct_map)
    moreover have "set (map fst res) = set (map path_of (remdups xs))" using res(2) xs by simp
    ultimately show ?thesis by (simp only: set_eq_iff_mset_eq_distinct)
  qed
  also have "image_mset (\<lambda>p. the (map_of res p)) \<dots> = mset (map spec (remdups xs))"
    using res(5) xs by (auto simp: multiset.map_comp intro!: image_mset_cong)
  finally have same_nodes: "mset (map snd res) = mset (map spec (remdups xs))" .
  show ?thesis
  proof (rule sort_key_inj_key_eq)
    show "mset (map snd res) = mset (map spec (sort_key path_of (remdups xs)))"
      using same_nodes by simp
    have "set (map snd res) = spec ` D"
      using arg_cong [OF same_nodes, of set_mset] xs by simp
    then show "inj_on key (set (map snd res))"
      using res(4) by (auto simp: inj_on_def key)
    show "sorted (map key (map spec (sort_key path_of (remdups xs))))"
      using sorted_sort_key [of path_of "remdups xs"] by (simp add: sorted_map key comp_def)
  qed
qed

end
