(* ===== verification/Canonical_Json.thy ===== *)
theory Canonical_Json
  imports Steward_Models
begin

text \<open>
  \<open>canonical_json\<close> of \<open>evidence.py\<close>: \<open>json.dumps\<close> with sorted keys, the compact
  separators and \<open>ensure_ascii=False\<close>. A JSON value is a datatype; an object is a
  dictionary in insertion order, and a float is carried as its \<open>repr\<close>. Strings are the
  ones UTF-8 can encode, and a float is finite, so the encoder does not raise.
\<close>

datatype json =
    JNull
  | JBool bool
  | JInt int
  | JFloat string
  | JStr string
  | JArr "json list"
  | JObj "(string \<times> json) list"

section \<open>Printing\<close>

text \<open>\<open>str(n)\<close> of a Python integer.\<close>

definition digit_char :: "nat \<Rightarrow> char" where
  "digit_char d = char_of (48 + d)"

fun nat_repr :: "nat \<Rightarrow> string" where
  "nat_repr n = (if n < 10 then [digit_char n] else nat_repr (n div 10) @ [digit_char (n mod 10)])"

declare nat_repr.simps [simp del]

definition int_repr :: "int \<Rightarrow> string" where
  "int_repr i = (if i < 0 then CHR ''-'' # nat_repr (nat (- i)) else nat_repr (nat i))"

text \<open>
  The escapes of \<open>json.dumps\<close>: the quote, the backslash, the five short forms, and
  four hexadecimal digits for the other control characters.
\<close>

definition hex_char :: "nat \<Rightarrow> char" where
  "hex_char d = (if d < 10 then char_of (48 + d) else char_of (87 + d))"

definition escape_char :: "char \<Rightarrow> string" where
  "escape_char c =
     (if c = CHR 0x22 then [CHR 0x5C, CHR 0x22]
      else if c = CHR 0x5C then [CHR 0x5C, CHR 0x5C]
      else if c = CHR 0x0A then [CHR 0x5C, CHR ''n'']
      else if c = CHR 0x0D then [CHR 0x5C, CHR ''r'']
      else if c = CHR 0x09 then [CHR 0x5C, CHR ''t'']
      else if c = CHR 0x0C then [CHR 0x5C, CHR ''f'']
      else if c = CHR 0x08 then [CHR 0x5C, CHR ''b'']
      else if of_char c < (32 :: nat) then
        [CHR 0x5C, CHR ''u'', CHR ''0'', CHR ''0'',
         hex_char (of_char c div 16), hex_char (of_char c mod 16)]
      else [c])"

definition quote_string :: "string \<Rightarrow> string" where
  "quote_string s = CHR 0x22 # concat (map escape_char s) @ [CHR 0x22]"

fun canonical_json :: "json \<Rightarrow> string" where
  "canonical_json JNull = ''null''"
| "canonical_json (JBool b) = (if b then ''true'' else ''false'')"
| "canonical_json (JInt i) = int_repr i"
| "canonical_json (JFloat r) = r"
| "canonical_json (JStr s) = quote_string s"
| "canonical_json (JArr xs) =
     CHR ''['' # join_on CHR '','' (map canonical_json xs) @ [CHR '']'']"
| "canonical_json (JObj kvs) =
     CHR ''{'' # join_on CHR '',''
       (map (\<lambda>(k, v). quote_string k @ CHR '':'' # v)
         (sort_key fst (map (\<lambda>(k, v). (k, canonical_json v)) kvs))) @ [CHR ''}'']"

end
