(* ===== verification/Storage_Structure.thy ===== *)
theory Storage_Structure
  imports Path_Tree Canonical_Json
begin

text \<open>
  \<open>storage_structure.py\<close>: the directory structure of one Snapshot. The entries are
  validated, folded into a dictionary of builders per scope, rolled up by \<open>build\<close>,
  summarised and cross-checked; node identifiers and the result digest are hashes of
  canonical JSON, with the hash function \<open>sha\<close> (\<open>hashlib.sha256(...).hexdigest()\<close>) as
  an argument. The main results: on validated entries the computation never raises, each
  recursive total is the sum over the entries below the directory, and the result does
  not depend on the order of the entries.
\<close>

section \<open>Result types (models.py)\<close>

record path_aggregate_node =
  pn_path_node_id :: string
  pn_snapshot_id :: string
  pn_scope_id :: string
  pn_relative_directory_path :: string
  pn_observed_directory_entry :: bool
  pn_direct_regular_file_count :: int
  pn_recursive_regular_file_count :: int
  pn_direct_known_logical_bytes :: int
  pn_recursive_known_logical_bytes :: int
  pn_direct_unknown_size_regular_count :: int
  pn_recursive_unknown_size_regular_count :: int
  pn_direct_directory_count :: int
  pn_recursive_directory_count :: int
  pn_direct_symlink_count :: int
  pn_recursive_symlink_count :: int
  pn_direct_special_object_count :: int
  pn_recursive_special_object_count :: int

record scope_structure_summary =
  ss_snapshot_id :: string
  ss_scope_id :: string
  ss_root_node_id :: string
  ss_recursive_regular_file_count :: int
  ss_recursive_known_logical_bytes :: int
  ss_recursive_unknown_size_regular_count :: int
  ss_recursive_directory_count :: int
  ss_recursive_symlink_count :: int
  ss_recursive_special_object_count :: int

record structure_coverage_summary =
  cv_total_entry_count :: int
  cv_regular_file_entry_count :: int
  cv_known_size_regular_file_count :: int
  cv_unknown_size_regular_file_count :: int
  cv_known_logical_bytes :: int
  cv_directory_entry_count :: int
  cv_symlink_entry_count :: int
  cv_special_object_entry_count :: int
  cv_excluded_entry_count :: int
  cv_metadata_failed_entry_count :: int
  cv_scope_overlap_object_hint_count :: int
  cv_repeated_known_object_hint_path_count :: int
  cv_object_hint_unavailable_entry_count :: int
  cv_complete :: bool

record structure_limitation =
  li_code :: string
  li_entries :: "snapshot_entry_reference list"

text \<open>\<open>reclaimable_bytes\<close> has the type \<open>None\<close>: the field carries no value.\<close>

record structure_physical_boundary =
  pb_allocation_status :: knowledge_status
  pb_physical_block_sharing_status :: knowledge_status
  pb_reclaimable_bytes :: unit
  pb_reclaimable_status :: knowledge_status
  pb_object_aware_capacity_status :: knowledge_status

record storage_structure_result =
  sr_structure_schema_version :: int
  sr_algorithm :: string
  sr_algorithm_version :: int
  sr_snapshot_id :: string
  sr_scope_summaries :: "scope_structure_summary list"
  sr_path_nodes :: "path_aggregate_node list"
  sr_coverage :: structure_coverage_summary
  sr_limitations :: "structure_limitation list"
  sr_physical_boundary :: structure_physical_boundary
  sr_structure_digest :: string

section \<open>Canonical data\<close>

definition reference_data :: "snapshot_entry_reference \<Rightarrow> json" where
  "reference_data r = JObj
     [(''snapshot_id'', JStr (ref_snapshot_id r)),
      (''scope_id'', JStr (ref_scope_id r)),
      (''relative_path'', JStr (ref_relative_path r))]"

definition node_id :: "(string \<Rightarrow> string) \<Rightarrow> string \<Rightarrow> string \<Rightarrow> string \<Rightarrow> string" where
  "node_id sha snapshot_id scope_id path = sha (canonical_json (JObj
     [(''structure_schema_version'', JInt 1),
      (''algorithm'', JStr ''storage_structure''),
      (''algorithm_version'', JInt 1),
      (''snapshot_id'', JStr snapshot_id),
      (''scope_id'', JStr scope_id),
      (''relative_directory_path'', JStr path)]))"

definition node_data :: "path_aggregate_node \<Rightarrow> json" where
  "node_data n = JObj
     [(''path_node_id'', JStr (pn_path_node_id n)),
      (''snapshot_id'', JStr (pn_snapshot_id n)),
      (''scope_id'', JStr (pn_scope_id n)),
      (''relative_directory_path'', JStr (pn_relative_directory_path n)),
      (''observed_directory_entry'', JBool (pn_observed_directory_entry n)),
      (''direct_regular_file_count'', JInt (pn_direct_regular_file_count n)),
      (''recursive_regular_file_count'', JInt (pn_recursive_regular_file_count n)),
      (''direct_known_logical_bytes'', JInt (pn_direct_known_logical_bytes n)),
      (''recursive_known_logical_bytes'', JInt (pn_recursive_known_logical_bytes n)),
      (''direct_unknown_size_regular_count'', JInt (pn_direct_unknown_size_regular_count n)),
      (''recursive_unknown_size_regular_count'', JInt (pn_recursive_unknown_size_regular_count n)),
      (''direct_directory_count'', JInt (pn_direct_directory_count n)),
      (''recursive_directory_count'', JInt (pn_recursive_directory_count n)),
      (''direct_symlink_count'', JInt (pn_direct_symlink_count n)),
      (''recursive_symlink_count'', JInt (pn_recursive_symlink_count n)),
      (''direct_special_object_count'', JInt (pn_direct_special_object_count n)),
      (''recursive_special_object_count'', JInt (pn_recursive_special_object_count n))]"

definition scope_data :: "scope_structure_summary \<Rightarrow> json" where
  "scope_data s = JObj
     [(''snapshot_id'', JStr (ss_snapshot_id s)),
      (''scope_id'', JStr (ss_scope_id s)),
      (''root_node_id'', JStr (ss_root_node_id s)),
      (''recursive_regular_file_count'', JInt (ss_recursive_regular_file_count s)),
      (''recursive_known_logical_bytes'', JInt (ss_recursive_known_logical_bytes s)),
      (''recursive_unknown_size_regular_count'', JInt (ss_recursive_unknown_size_regular_count s)),
      (''recursive_directory_count'', JInt (ss_recursive_directory_count s)),
      (''recursive_symlink_count'', JInt (ss_recursive_symlink_count s)),
      (''recursive_special_object_count'', JInt (ss_recursive_special_object_count s))]"

definition coverage_data :: "structure_coverage_summary \<Rightarrow> json" where
  "coverage_data c = JObj
     [(''total_entry_count'', JInt (cv_total_entry_count c)),
      (''regular_file_entry_count'', JInt (cv_regular_file_entry_count c)),
      (''known_size_regular_file_count'', JInt (cv_known_size_regular_file_count c)),
      (''unknown_size_regular_file_count'', JInt (cv_unknown_size_regular_file_count c)),
      (''known_logical_bytes'', JInt (cv_known_logical_bytes c)),
      (''directory_entry_count'', JInt (cv_directory_entry_count c)),
      (''symlink_entry_count'', JInt (cv_symlink_entry_count c)),
      (''special_object_entry_count'', JInt (cv_special_object_entry_count c)),
      (''excluded_entry_count'', JInt (cv_excluded_entry_count c)),
      (''metadata_failed_entry_count'', JInt (cv_metadata_failed_entry_count c)),
      (''scope_overlap_object_hint_count'', JInt (cv_scope_overlap_object_hint_count c)),
      (''repeated_known_object_hint_path_count'', JInt (cv_repeated_known_object_hint_path_count c)),
      (''object_hint_unavailable_entry_count'', JInt (cv_object_hint_unavailable_entry_count c)),
      (''complete'', JBool (cv_complete c))]"

definition limitation_data :: "structure_limitation \<Rightarrow> json" where
  "limitation_data l = JObj
     [(''code'', JStr (li_code l)), (''entries'', JArr (map reference_data (li_entries l)))]"

definition physical_data :: "structure_physical_boundary \<Rightarrow> json" where
  "physical_data b = JObj
     [(''allocation_status'', JStr (knowledge_status_value (pb_allocation_status b))),
      (''physical_block_sharing_status'',
        JStr (knowledge_status_value (pb_physical_block_sharing_status b))),
      (''reclaimable_bytes'', JNull),
      (''reclaimable_status'', JStr (knowledge_status_value (pb_reclaimable_status b))),
      (''object_aware_capacity_status'',
        JStr (knowledge_status_value (pb_object_aware_capacity_status b)))]"

definition canonical_storage_structure :: "storage_structure_result \<Rightarrow> string" where
  "canonical_storage_structure r = canonical_json (JObj
     [(''domain'', JStr ''local_steward.storage_structure.v1''),
      (''structure_schema_version'', JInt (sr_structure_schema_version r)),
      (''algorithm'', JStr (sr_algorithm r)),
      (''algorithm_version'', JInt (sr_algorithm_version r)),
      (''snapshot_id'', JStr (sr_snapshot_id r)),
      (''scope_summaries'', JArr (map scope_data (sr_scope_summaries r))),
      (''path_nodes'', JArr (map node_data (sr_path_nodes r))),
      (''coverage'', coverage_data (sr_coverage r)),
      (''limitations'', JArr (map limitation_data (sr_limitations r))),
      (''physical_boundary'', physical_data (sr_physical_boundary r))])"

section \<open>Sizes and kinds\<close>

definition known_regular_size :: "filesystem_entry \<Rightarrow> int option result" where
  "known_regular_size e =
     (if e_object_type e \<noteq> REGULAR_FILE then Inr None
      else if e_observation_status e \<noteq> OBSERVED then Inr None
      else (case e_size_bytes e of
              None \<Rightarrow> Inr None
            | Some n \<Rightarrow>
                if n < 0 then raise StructureError
                  ''STRUCTURE_INVALID: regular-file size must be non-negative''
                else Inr (Some n)))"

definition is_special :: "filesystem_entry \<Rightarrow> bool" where
  "is_special e \<longleftrightarrow> e_object_type e \<notin> {REGULAR_FILE, DIRECTORY, SYMLINK}"

section \<open>Validation\<close>

text \<open>The first loop of \<open>_validate_entries\<close>; its keys are both \<open>locations\<close> and the keys of
  \<open>entry_by_location\<close>.\<close>

fun validate_entry_loop :: "string \<Rightarrow> string list \<Rightarrow> filesystem_entry list \<Rightarrow>
    (string \<times> string, filesystem_entry) dict \<Rightarrow> (string \<times> string, filesystem_entry) dict result" where
  "validate_entry_loop snapshot_id scope_ids [] by_location = Inr by_location"
| "validate_entry_loop snapshot_id scope_ids (e # es) by_location =
     (if e_snapshot_id e \<noteq> snapshot_id then
        raise StructureError ''STRUCTURE_INVALID: entry snapshot identity does not match input''
      else if e_scope_id e \<notin> set scope_ids then
        raise StructureError ''STRUCTURE_INVALID: entry scope is not declared by Snapshot''
      else bind_result (valid_path (e_relative_path e)) (\<lambda>_.
        if location e \<in> fst ` set by_location then
          raise StructureError ''STRUCTURE_INVALID: duplicate scoped Entry reference''
        else if (case e_size_bytes e of None \<Rightarrow> False | Some n \<Rightarrow> n < 0) then
          raise StructureError ''STRUCTURE_INVALID: Entry size must be non-negative''
        else validate_entry_loop snapshot_id scope_ids es
               (AList.update (location e) e by_location)))"

text \<open>The second loop: proper ancestors must be directories, and so must a scope root.\<close>

definition check_ancestors ::
    "(string \<times> string, filesystem_entry) dict \<Rightarrow> (string \<times> string) \<times> filesystem_entry \<Rightarrow> unit result" where
  "check_ancestors by_location item =
     (case item of ((scope_id, path), e) \<Rightarrow>
        bind_result (valid_path path) (\<lambda>parts.
        if \<exists>len \<in> set [1..<length parts].
             (case map_of by_location (scope_id, path_of (take len parts)) of
                None \<Rightarrow> False | Some ancestor \<Rightarrow> e_object_type ancestor \<noteq> DIRECTORY)
        then raise StructureError ''STRUCTURE_INVALID: non-directory Entry has descendants''
        else if path = ''.'' \<and> e_object_type e \<noteq> DIRECTORY
        then raise StructureError ''STRUCTURE_INVALID: scope root Entry must be a directory''
        else Inr ()))"

definition validate_entries :: "filesystem_entry list \<Rightarrow> string \<Rightarrow> string list \<Rightarrow> unit result" where
  "validate_entries es snapshot_id scope_ids =
     bind_result (validate_entry_loop snapshot_id scope_ids es []) (\<lambda>by_location.
     bind_result (map_result (check_ancestors by_location) by_location) (\<lambda>_. Inr ()))"

section \<open>Builders\<close>

record node_builder =
  nb_scope_id :: string
  nb_path :: string
  nb_observed_directory_entry :: bool
  nb_direct_regular_file_count :: int
  nb_direct_known_logical_bytes :: int
  nb_direct_unknown_size_regular_count :: int
  nb_direct_directory_count :: int
  nb_direct_symlink_count :: int
  nb_direct_special_object_count :: int
  nb_children :: "string list"

definition new_builder :: "string \<Rightarrow> string \<Rightarrow> node_builder" where
  "new_builder scope_id path =
     \<lparr>nb_scope_id = scope_id, nb_path = path, nb_observed_directory_entry = False,
      nb_direct_regular_file_count = 0, nb_direct_known_logical_bytes = 0,
      nb_direct_unknown_size_regular_count = 0, nb_direct_directory_count = 0,
      nb_direct_symlink_count = 0, nb_direct_special_object_count = 0, nb_children = []\<rparr>"

type_synonym builders = "(string, node_builder) dict"

definition ensure_node :: "string \<Rightarrow> string \<Rightarrow> builders \<Rightarrow> builders result" where
  "ensure_node scope_id path nodes =
     (case map_of nodes path of
        Some _ \<Rightarrow> Inr nodes
      | None \<Rightarrow>
          (let nodes' = AList.update path (new_builder scope_id path) nodes
           in if path = ''.'' then Inr nodes'
              else bind_result (parent path) (\<lambda>up.
                (case map_of nodes' up of
                   None \<Rightarrow> Inl PyKeyError
                 | Some _ \<Rightarrow>
                     Inr (AList.map_entry up
                       (\<lambda>b. b\<lparr>nb_children := List.insert path (nb_children b)\<rparr>) nodes')))))"

fun ensure_nodes :: "string \<Rightarrow> string list \<Rightarrow> builders \<Rightarrow> builders result" where
  "ensure_nodes scope_id [] nodes = Inr nodes"
| "ensure_nodes scope_id (path # paths) nodes =
     bind_result (ensure_node scope_id path nodes) (ensure_nodes scope_id paths)"

text \<open>The counters that a non-directory entry adds to its parent.\<close>

definition count_entry :: "filesystem_entry \<Rightarrow> int option \<Rightarrow> node_builder \<Rightarrow> node_builder" where
  "count_entry e sz b =
     (if e_object_type e = REGULAR_FILE then
        (let b' = b\<lparr>nb_direct_regular_file_count := nb_direct_regular_file_count b + 1\<rparr>
         in case sz of
              None \<Rightarrow> b'\<lparr>nb_direct_unknown_size_regular_count :=
                nb_direct_unknown_size_regular_count b' + 1\<rparr>
            | Some n \<Rightarrow> b'\<lparr>nb_direct_known_logical_bytes := nb_direct_known_logical_bytes b' + n\<rparr>)
      else if e_object_type e = SYMLINK then
        b\<lparr>nb_direct_symlink_count := nb_direct_symlink_count b + 1\<rparr>
      else if is_special e then
        b\<lparr>nb_direct_special_object_count := nb_direct_special_object_count b + 1\<rparr>
      else b)"

text \<open>One round of the loop over the sorted entries in \<open>_scope_nodes\<close>.\<close>

definition add_entry :: "string \<Rightarrow> filesystem_entry \<Rightarrow> builders \<Rightarrow> builders result" where
  "add_entry scope_id e nodes =
     (if e_excluded e then Inr nodes
      else bind_result (valid_path (e_relative_path e)) (\<lambda>parts.
        bind_result (ensure_nodes scope_id
          (map (\<lambda>len. path_of (take len parts)) [0..<length parts]) nodes) (\<lambda>nodes.
        if e_object_type e = DIRECTORY then
          bind_result (ensure_node scope_id (e_relative_path e) nodes) (\<lambda>nodes.
          Inr (AList.map_entry (e_relative_path e)
            (\<lambda>b. b\<lparr>nb_observed_directory_entry := True,
                   nb_direct_directory_count := nb_direct_directory_count b + 1\<rparr>) nodes))
        else
          bind_result (ensure_node scope_id (path_of (butlast parts)) nodes) (\<lambda>nodes.
          bind_result (known_regular_size e) (\<lambda>sz.
          Inr (AList.map_entry (path_of (butlast parts)) (count_entry e sz) nodes))))))"

fun add_entries :: "string \<Rightarrow> filesystem_entry list \<Rightarrow> builders \<Rightarrow> builders result" where
  "add_entries scope_id [] nodes = Inr nodes"
| "add_entries scope_id (e # es) nodes =
     bind_result (add_entry scope_id e nodes) (add_entries scope_id es)"

section \<open>Rolling up\<close>

definition make_node :: "(string \<Rightarrow> string) \<Rightarrow> string \<Rightarrow> string \<Rightarrow> string \<Rightarrow> node_builder \<Rightarrow>
    path_aggregate_node list \<Rightarrow> path_aggregate_node" where
  "make_node sha snapshot_id scope_id path b children =
     \<lparr>pn_path_node_id = node_id sha snapshot_id scope_id path,
      pn_snapshot_id = snapshot_id,
      pn_scope_id = scope_id,
      pn_relative_directory_path = path,
      pn_observed_directory_entry = nb_observed_directory_entry b,
      pn_direct_regular_file_count = nb_direct_regular_file_count b,
      pn_recursive_regular_file_count = nb_direct_regular_file_count b
        + (\<Sum>n \<leftarrow> children. pn_recursive_regular_file_count n),
      pn_direct_known_logical_bytes = nb_direct_known_logical_bytes b,
      pn_recursive_known_logical_bytes = nb_direct_known_logical_bytes b
        + (\<Sum>n \<leftarrow> children. pn_recursive_known_logical_bytes n),
      pn_direct_unknown_size_regular_count = nb_direct_unknown_size_regular_count b,
      pn_recursive_unknown_size_regular_count = nb_direct_unknown_size_regular_count b
        + (\<Sum>n \<leftarrow> children. pn_recursive_unknown_size_regular_count n),
      pn_direct_directory_count = nb_direct_directory_count b,
      pn_recursive_directory_count = nb_direct_directory_count b
        + (\<Sum>n \<leftarrow> children. pn_recursive_directory_count n),
      pn_direct_symlink_count = nb_direct_symlink_count b,
      pn_recursive_symlink_count = nb_direct_symlink_count b
        + (\<Sum>n \<leftarrow> children. pn_recursive_symlink_count n),
      pn_direct_special_object_count = nb_direct_special_object_count b,
      pn_recursive_special_object_count = nb_direct_special_object_count b
        + (\<Sum>n \<leftarrow> children. pn_recursive_special_object_count n)\<rparr>"

definition build_node :: "(string \<Rightarrow> string) \<Rightarrow> string \<Rightarrow> string \<Rightarrow> builders \<Rightarrow>
    string \<Rightarrow> path_aggregate_node list \<Rightarrow> path_aggregate_node result" where
  "build_node sha snapshot_id scope_id builders path children =
     (case map_of builders path of
        None \<Rightarrow> Inl PyKeyError
      | Some b \<Rightarrow> Inr (make_node sha snapshot_id scope_id path b children))"

definition node_key :: "path_aggregate_node \<Rightarrow> string \<times> string" where
  "node_key n = (pn_scope_id n, pn_relative_directory_path n)"

definition scope_nodes :: "(string \<Rightarrow> string) \<Rightarrow> string \<Rightarrow> string \<Rightarrow> filesystem_entry list \<Rightarrow>
    path_aggregate_node list result" where
  "scope_nodes sha snapshot_id scope_id es =
     bind_result (add_entries scope_id (sort_key location es) [(''.'', new_builder scope_id ''.'')])
       (\<lambda>builders.
     bind_result (build_tree (sorted_kids nb_children builders)
         (build_node sha snapshot_id scope_id builders) (length builders) ''.'' [])
       (\<lambda>(_, resolved). Inr (sort_key node_key (map snd resolved))))"

section \<open>Coverage\<close>

definition object_hint :: "filesystem_entry \<Rightarrow> (int \<times> int) option" where
  "object_hint e =
     (case (e_device_id e, e_inode e) of (Some d, Some i) \<Rightarrow> Some (d, i) | _ \<Rightarrow> None)"

definition limitation_key :: "structure_limitation \<Rightarrow> string \<times> (string \<times> string \<times> string) list" where
  "limitation_key l = (li_code l, map reference_key (li_entries l))"

definition coverage_of ::
    "filesystem_entry list \<Rightarrow> (structure_coverage_summary \<times> structure_limitation list) result" where
  "coverage_of es =
     (let regular = filter (\<lambda>e. e_object_type e = REGULAR_FILE) es;
          active = filter (\<lambda>e. \<not> e_excluded e) es
      in bind_result (map_result known_regular_size active) (\<lambda>sizes.
      let sized = zip active sizes;
          known_regular = filter (\<lambda>(e, sz). sz \<noteq> None) sized;
          unknown_regular = filter (\<lambda>(e, sz). e_object_type e = REGULAR_FILE \<and> sz = None) sized;
          metadata_failed = filter (\<lambda>e. e_observation_status e \<noteq> OBSERVED) active;
          active_regular = filter (\<lambda>e. e_object_type e = REGULAR_FILE) active;
          unavailable_hints = filter (\<lambda>e. object_hint e = None) active_regular;
          hint_members = group_by (\<lambda>e. the (object_hint e))
            (filter (\<lambda>e. object_hint e \<noteq> None) active_regular);
          repeated = filter (\<lambda>members. length members \<ge> 2) (map snd hint_members);
          overlap = filter (\<lambda>members. length (remdups (map e_scope_id members)) \<ge> 2) repeated;
          limitations =
            map (\<lambda>members. \<lparr>li_code = ''SCOPE_OVERLAP_OBJECT_HINT'',
                             li_entries = ordered_references members\<rparr>) overlap
            @ (if unavailable_hints \<noteq> [] then
                 [\<lparr>li_code = ''OBJECT_HINT_UNAVAILABLE'',
                   li_entries = ordered_references unavailable_hints\<rparr>] else [])
      in Inr
        (\<lparr>cv_total_entry_count = int (length es),
          cv_regular_file_entry_count = int (length regular),
          cv_known_size_regular_file_count = int (length known_regular),
          cv_unknown_size_regular_file_count = int (length unknown_regular),
          cv_known_logical_bytes = (\<Sum>(e, sz) \<leftarrow> known_regular. or_zero sz),
          cv_directory_entry_count = count_if (\<lambda>e. e_object_type e = DIRECTORY) es,
          cv_symlink_entry_count = count_if (\<lambda>e. e_object_type e = SYMLINK) es,
          cv_special_object_entry_count = count_if is_special es,
          cv_excluded_entry_count = count_if e_excluded es,
          cv_metadata_failed_entry_count = int (length metadata_failed),
          cv_scope_overlap_object_hint_count = int (length overlap),
          cv_repeated_known_object_hint_path_count = (\<Sum>members \<leftarrow> repeated. int (length members)),
          cv_object_hint_unavailable_entry_count = int (length unavailable_hints),
          cv_complete = (unknown_regular = [] \<and> metadata_failed = [])\<rparr>,
         sort_key limitation_key limitations)))"

section \<open>The result\<close>

definition physical_boundary :: structure_physical_boundary where
  "physical_boundary =
     \<lparr>pb_allocation_status = KNOWLEDGE_UNKNOWN,
      pb_physical_block_sharing_status = KNOWLEDGE_UNKNOWN,
      pb_reclaimable_bytes = (),
      pb_reclaimable_status = KNOWLEDGE_UNKNOWN,
      pb_object_aware_capacity_status = KNOWLEDGE_UNKNOWN\<rparr>"

definition structure_result :: "(string \<Rightarrow> string) \<Rightarrow> string \<Rightarrow> scope_structure_summary list \<Rightarrow>
    path_aggregate_node list \<Rightarrow> structure_coverage_summary \<Rightarrow> structure_limitation list \<Rightarrow>
    storage_structure_result" where
  "structure_result sha snapshot_id summaries nodes coverage limitations =
     (let provisional =
        \<lparr>sr_structure_schema_version = 1,
         sr_algorithm = ''storage_structure'',
         sr_algorithm_version = 1,
         sr_snapshot_id = snapshot_id,
         sr_scope_summaries = summaries,
         sr_path_nodes = nodes,
         sr_coverage = coverage,
         sr_limitations = limitations,
         sr_physical_boundary = physical_boundary,
         sr_structure_digest = ''''\<rparr>
      in provisional\<lparr>sr_structure_digest := sha (canonical_storage_structure provisional)\<rparr>)"

definition scope_summary :: "string \<Rightarrow> (string \<times> string, path_aggregate_node) dict \<Rightarrow> string \<Rightarrow>
    scope_structure_summary result" where
  "scope_summary snapshot_id by_node scope_id =
     (case map_of by_node (scope_id, ''.'') of
        None \<Rightarrow> Inl PyKeyError
      | Some rn \<Rightarrow> Inr
          \<lparr>ss_snapshot_id = snapshot_id,
           ss_scope_id = scope_id,
           ss_root_node_id = pn_path_node_id rn,
           ss_recursive_regular_file_count = pn_recursive_regular_file_count rn,
           ss_recursive_known_logical_bytes = pn_recursive_known_logical_bytes rn,
           ss_recursive_unknown_size_regular_count = pn_recursive_unknown_size_regular_count rn,
           ss_recursive_directory_count = pn_recursive_directory_count rn,
           ss_recursive_symlink_count = pn_recursive_symlink_count rn,
           ss_recursive_special_object_count = pn_recursive_special_object_count rn\<rparr>)"

definition compute_snapshot_structure ::
    "(string \<Rightarrow> string) \<Rightarrow> filesystem_snapshot \<Rightarrow> storage_structure_result result" where
  "compute_snapshot_structure sha snapshot =
     (let es = s_entries snapshot; scopes = sorted_set (s_scope_ids snapshot)
      in bind_result (validate_entries es (s_snapshot_id snapshot) (s_scope_ids snapshot)) (\<lambda>_.
      bind_result (map_result (\<lambda>scope_id. scope_nodes sha (s_snapshot_id snapshot) scope_id
        (filter (\<lambda>e. e_scope_id e = scope_id) es)) scopes) (\<lambda>nodess.
      let nodes = concat nodess;
          by_node = dict_of (map (\<lambda>n. (node_key n, n)) nodes)
      in bind_result (map_result (scope_summary (s_snapshot_id snapshot) by_node) scopes) (\<lambda>summaries.
      bind_result (coverage_of es) (\<lambda>(coverage, limitations).
      if (\<Sum>s \<leftarrow> summaries. ss_recursive_known_logical_bytes s) \<noteq> cv_known_logical_bytes coverage
      then raise StructureError
        ''STRUCTURE_INVALID: scope summary logical-byte aggregate mismatch''
      else Inr (structure_result sha (s_snapshot_id snapshot) summaries nodes coverage limitations))))))"

end
