(* ===== verification/Storage_Growth.thy ===== *)
theory Storage_Growth
  imports Storage_Structure
begin

text \<open>
  \<open>storage_growth.py\<close>: the growth of logical bytes between two Snapshots, by location, by
  directory and by scope. Every regular location of either Snapshot gives one contribution;
  its metrics are added to the builder of its parent directory and rolled up over the union
  of the directories of both structures. The code re-checks two accounting identities on
  every node and on the whole result and raises when one fails; the theory
  \<open>Storage_Growth_Correct\<close> shows that they cannot fail.
\<close>

section \<open>Result types (models.py)\<close>

datatype growth_contribution_kind =
    ADDED_LOCATION
  | REMOVED_LOCATION
  | SAME_LOCATION_SIZE_INCREASE
  | SAME_LOCATION_SIZE_DECREASE
  | SAME_LOCATION_SIZE_UNCHANGED
  | SIZE_UNKNOWN

definition growth_contribution_kind_value :: "growth_contribution_kind \<Rightarrow> string" where
  "growth_contribution_kind_value k =
     (case k of
        ADDED_LOCATION \<Rightarrow> ''ADDED_LOCATION''
      | REMOVED_LOCATION \<Rightarrow> ''REMOVED_LOCATION''
      | SAME_LOCATION_SIZE_INCREASE \<Rightarrow> ''SAME_LOCATION_SIZE_INCREASE''
      | SAME_LOCATION_SIZE_DECREASE \<Rightarrow> ''SAME_LOCATION_SIZE_DECREASE''
      | SAME_LOCATION_SIZE_UNCHANGED \<Rightarrow> ''SAME_LOCATION_SIZE_UNCHANGED''
      | SIZE_UNKNOWN \<Rightarrow> ''SIZE_UNKNOWN'')"

record growth_contribution =
  gc_growth_contribution_id :: string
  gc_kind :: growth_contribution_kind
  gc_entry_references :: "snapshot_entry_reference list"
  gc_known_byte_delta :: "int option"
  gc_reason_codes :: "string list"

record path_growth_node =
  gn_growth_node_id :: string
  gn_base_snapshot_id :: string
  gn_target_snapshot_id :: string
  gn_scope_id :: string
  gn_relative_directory_path :: string
  gn_direct_base_known_logical_bytes :: int
  gn_recursive_base_known_logical_bytes :: int
  gn_direct_target_known_logical_bytes :: int
  gn_recursive_target_known_logical_bytes :: int
  gn_direct_known_net_logical_delta :: int
  gn_recursive_known_net_logical_delta :: int
  gn_direct_added_logical_bytes :: int
  gn_recursive_added_logical_bytes :: int
  gn_direct_added_location_count :: int
  gn_recursive_added_location_count :: int
  gn_direct_removed_logical_bytes :: int
  gn_recursive_removed_logical_bytes :: int
  gn_direct_removed_location_count :: int
  gn_recursive_removed_location_count :: int
  gn_direct_same_location_increase_bytes :: int
  gn_recursive_same_location_increase_bytes :: int
  gn_direct_same_location_increase_count :: int
  gn_recursive_same_location_increase_count :: int
  gn_direct_same_location_decrease_bytes :: int
  gn_recursive_same_location_decrease_bytes :: int
  gn_direct_same_location_decrease_count :: int
  gn_recursive_same_location_decrease_count :: int
  gn_direct_same_location_unchanged_count :: int
  gn_recursive_same_location_unchanged_count :: int
  gn_direct_unknown_size_contribution_count :: int
  gn_recursive_unknown_size_contribution_count :: int
  gn_decomposition_complete :: bool

record scope_growth_summary =
  gs_base_snapshot_id :: string
  gs_target_snapshot_id :: string
  gs_scope_id :: string
  gs_root_node_id :: string
  gs_base_recursive_known_logical_bytes :: int
  gs_target_recursive_known_logical_bytes :: int
  gs_known_net_logical_delta :: int
  gs_added_logical_bytes :: int
  gs_added_location_count :: int
  gs_removed_logical_bytes :: int
  gs_removed_location_count :: int
  gs_same_location_increase_bytes :: int
  gs_same_location_increase_count :: int
  gs_same_location_decrease_bytes :: int
  gs_same_location_decrease_count :: int
  gs_same_location_unchanged_count :: int
  gs_unknown_size_contribution_count :: int
  gs_decomposition_complete :: bool

record growth_coverage_summary =
  gv_base_total_entry_count :: int
  gv_target_total_entry_count :: int
  gv_base_known_size_regular_file_count :: int
  gv_target_known_size_regular_file_count :: int
  gv_base_unknown_size_regular_file_count :: int
  gv_target_unknown_size_regular_file_count :: int
  gv_co_present_comparable_regular_location_count :: int
  gv_added_known_size_location_count :: int
  gv_added_unknown_size_location_count :: int
  gv_removed_known_size_location_count :: int
  gv_removed_unknown_size_location_count :: int
  gv_same_location_known_size_comparable_count :: int
  gv_same_location_unknown_size_count :: int
  gv_unknown_size_contribution_count :: int
  gv_base_scope_overlap_object_hint_count :: int
  gv_target_scope_overlap_object_hint_count :: int
  gv_known_net_logical_delta :: int
  gv_decomposition_complete :: bool

record storage_growth_result =
  gr_growth_schema_version :: int
  gr_algorithm :: string
  gr_algorithm_version :: int
  gr_base_snapshot_id :: string
  gr_target_snapshot_id :: string
  gr_scope_summaries :: "scope_growth_summary list"
  gr_path_nodes :: "path_growth_node list"
  gr_contributions :: "growth_contribution list"
  gr_coverage :: growth_coverage_summary
  gr_physical_boundary :: structure_physical_boundary
  gr_growth_digest :: string

section \<open>Metrics\<close>

text \<open>\<open>_Metrics\<close> and its \<open>add\<close>.\<close>

record metrics =
  m_known_net_logical_delta :: int
  m_added_logical_bytes :: int
  m_added_location_count :: int
  m_removed_logical_bytes :: int
  m_removed_location_count :: int
  m_same_location_increase_bytes :: int
  m_same_location_increase_count :: int
  m_same_location_decrease_bytes :: int
  m_same_location_decrease_count :: int
  m_same_location_unchanged_count :: int
  m_unknown_size_contribution_count :: int

definition no_metrics :: metrics where
  "no_metrics =
     \<lparr>m_known_net_logical_delta = 0,
      m_added_logical_bytes = 0,
      m_added_location_count = 0,
      m_removed_logical_bytes = 0,
      m_removed_location_count = 0,
      m_same_location_increase_bytes = 0,
      m_same_location_increase_count = 0,
      m_same_location_decrease_bytes = 0,
      m_same_location_decrease_count = 0,
      m_same_location_unchanged_count = 0,
      m_unknown_size_contribution_count = 0\<rparr>"

definition metrics_add :: "metrics \<Rightarrow> metrics \<Rightarrow> metrics" where
  "metrics_add m other =
     \<lparr>m_known_net_logical_delta = m_known_net_logical_delta m + m_known_net_logical_delta other,
      m_added_logical_bytes = m_added_logical_bytes m + m_added_logical_bytes other,
      m_added_location_count = m_added_location_count m + m_added_location_count other,
      m_removed_logical_bytes = m_removed_logical_bytes m + m_removed_logical_bytes other,
      m_removed_location_count = m_removed_location_count m + m_removed_location_count other,
      m_same_location_increase_bytes = m_same_location_increase_bytes m + m_same_location_increase_bytes other,
      m_same_location_increase_count = m_same_location_increase_count m + m_same_location_increase_count other,
      m_same_location_decrease_bytes = m_same_location_decrease_bytes m + m_same_location_decrease_bytes other,
      m_same_location_decrease_count = m_same_location_decrease_count m + m_same_location_decrease_count other,
      m_same_location_unchanged_count = m_same_location_unchanged_count m + m_same_location_unchanged_count other,
      m_unknown_size_contribution_count = m_unknown_size_contribution_count m + m_unknown_size_contribution_count other\<rparr>"

text \<open>\<open>for x in xs: metrics.add(x)\<close> from a start value.\<close>

definition add_all :: "metrics \<Rightarrow> metrics list \<Rightarrow> metrics" where
  "add_all m ms = foldl metrics_add m ms"

section \<open>Canonical data\<close>

definition growth_node_id :: "(string \<Rightarrow> string) \<Rightarrow> string \<Rightarrow> string \<Rightarrow> string \<Rightarrow> string \<Rightarrow> string" where
  "growth_node_id sha base_snapshot_id target_snapshot_id scope_id path = sha (canonical_json (JObj
     [(''growth_schema_version'', JInt 1),
      (''algorithm'', JStr ''storage_growth''),
      (''algorithm_version'', JInt 1),
      (''base_snapshot_id'', JStr base_snapshot_id),
      (''target_snapshot_id'', JStr target_snapshot_id),
      (''scope_id'', JStr scope_id),
      (''relative_directory_path'', JStr path)]))"

definition contribution_data :: "growth_contribution \<Rightarrow> bool \<Rightarrow> json" where
  "contribution_data c include_id = JObj
     ((if include_id then [(''growth_contribution_id'', JStr (gc_growth_contribution_id c))] else [])
      @ [(''kind'', JStr (growth_contribution_kind_value (gc_kind c))),
         (''entry_references'', JArr (map reference_data (gc_entry_references c))),
         (''known_byte_delta'',
           (case gc_known_byte_delta c of None \<Rightarrow> JNull | Some n \<Rightarrow> JInt n)),
         (''reason_codes'', JArr (map JStr (gc_reason_codes c)))])"

definition contribution_id :: "(string \<Rightarrow> string) \<Rightarrow> growth_contribution_kind \<Rightarrow>
    snapshot_entry_reference list \<Rightarrow> int option \<Rightarrow> string list \<Rightarrow> string" where
  "contribution_id sha kind references known_byte_delta reason_codes =
     (let provisional = \<lparr>gc_growth_contribution_id = '''', gc_kind = kind,
        gc_entry_references = references, gc_known_byte_delta = known_byte_delta,
        gc_reason_codes = reason_codes\<rparr>
      in sha (canonical_json (JObj
        [(''growth_schema_version'', JInt 1),
         (''algorithm'', JStr ''storage_growth''),
         (''algorithm_version'', JInt 1),
         (''contribution'', contribution_data provisional False)])))"

definition contribution :: "(string \<Rightarrow> string) \<Rightarrow> growth_contribution_kind \<Rightarrow>
    filesystem_entry option \<Rightarrow> filesystem_entry option \<Rightarrow> int option \<Rightarrow> string list \<Rightarrow>
    growth_contribution" where
  "contribution sha kind base target known_byte_delta reason_codes =
     (let references = (case base of None \<Rightarrow> [] | Some e \<Rightarrow> [entry_reference e])
        @ (case target of None \<Rightarrow> [] | Some e \<Rightarrow> [entry_reference e])
      in \<lparr>gc_growth_contribution_id =
            contribution_id sha kind references known_byte_delta reason_codes,
          gc_kind = kind, gc_entry_references = references,
          gc_known_byte_delta = known_byte_delta, gc_reason_codes = reason_codes\<rparr>)"

definition growth_node_data :: "path_growth_node \<Rightarrow> json" where
  "growth_node_data n = JObj
     [(''growth_node_id'', JStr (gn_growth_node_id n)),
      (''base_snapshot_id'', JStr (gn_base_snapshot_id n)),
      (''target_snapshot_id'', JStr (gn_target_snapshot_id n)),
      (''scope_id'', JStr (gn_scope_id n)),
      (''relative_directory_path'', JStr (gn_relative_directory_path n)),
      (''direct_base_known_logical_bytes'', JInt (gn_direct_base_known_logical_bytes n)),
      (''recursive_base_known_logical_bytes'', JInt (gn_recursive_base_known_logical_bytes n)),
      (''direct_target_known_logical_bytes'', JInt (gn_direct_target_known_logical_bytes n)),
      (''recursive_target_known_logical_bytes'', JInt (gn_recursive_target_known_logical_bytes n)),
      (''direct_known_net_logical_delta'', JInt (gn_direct_known_net_logical_delta n)),
      (''recursive_known_net_logical_delta'', JInt (gn_recursive_known_net_logical_delta n)),
      (''direct_added_logical_bytes'', JInt (gn_direct_added_logical_bytes n)),
      (''recursive_added_logical_bytes'', JInt (gn_recursive_added_logical_bytes n)),
      (''direct_added_location_count'', JInt (gn_direct_added_location_count n)),
      (''recursive_added_location_count'', JInt (gn_recursive_added_location_count n)),
      (''direct_removed_logical_bytes'', JInt (gn_direct_removed_logical_bytes n)),
      (''recursive_removed_logical_bytes'', JInt (gn_recursive_removed_logical_bytes n)),
      (''direct_removed_location_count'', JInt (gn_direct_removed_location_count n)),
      (''recursive_removed_location_count'', JInt (gn_recursive_removed_location_count n)),
      (''direct_same_location_increase_bytes'', JInt (gn_direct_same_location_increase_bytes n)),
      (''recursive_same_location_increase_bytes'', JInt (gn_recursive_same_location_increase_bytes n)),
      (''direct_same_location_increase_count'', JInt (gn_direct_same_location_increase_count n)),
      (''recursive_same_location_increase_count'', JInt (gn_recursive_same_location_increase_count n)),
      (''direct_same_location_decrease_bytes'', JInt (gn_direct_same_location_decrease_bytes n)),
      (''recursive_same_location_decrease_bytes'', JInt (gn_recursive_same_location_decrease_bytes n)),
      (''direct_same_location_decrease_count'', JInt (gn_direct_same_location_decrease_count n)),
      (''recursive_same_location_decrease_count'', JInt (gn_recursive_same_location_decrease_count n)),
      (''direct_same_location_unchanged_count'', JInt (gn_direct_same_location_unchanged_count n)),
      (''recursive_same_location_unchanged_count'', JInt (gn_recursive_same_location_unchanged_count n)),
      (''direct_unknown_size_contribution_count'', JInt (gn_direct_unknown_size_contribution_count n)),
      (''recursive_unknown_size_contribution_count'', JInt (gn_recursive_unknown_size_contribution_count n)),
      (''decomposition_complete'', JBool (gn_decomposition_complete n))]"

definition growth_scope_data :: "scope_growth_summary \<Rightarrow> json" where
  "growth_scope_data s = JObj
     [(''base_snapshot_id'', JStr (gs_base_snapshot_id s)),
      (''target_snapshot_id'', JStr (gs_target_snapshot_id s)),
      (''scope_id'', JStr (gs_scope_id s)),
      (''root_node_id'', JStr (gs_root_node_id s)),
      (''base_recursive_known_logical_bytes'', JInt (gs_base_recursive_known_logical_bytes s)),
      (''target_recursive_known_logical_bytes'', JInt (gs_target_recursive_known_logical_bytes s)),
      (''known_net_logical_delta'', JInt (gs_known_net_logical_delta s)),
      (''added_logical_bytes'', JInt (gs_added_logical_bytes s)),
      (''added_location_count'', JInt (gs_added_location_count s)),
      (''removed_logical_bytes'', JInt (gs_removed_logical_bytes s)),
      (''removed_location_count'', JInt (gs_removed_location_count s)),
      (''same_location_increase_bytes'', JInt (gs_same_location_increase_bytes s)),
      (''same_location_increase_count'', JInt (gs_same_location_increase_count s)),
      (''same_location_decrease_bytes'', JInt (gs_same_location_decrease_bytes s)),
      (''same_location_decrease_count'', JInt (gs_same_location_decrease_count s)),
      (''same_location_unchanged_count'', JInt (gs_same_location_unchanged_count s)),
      (''unknown_size_contribution_count'', JInt (gs_unknown_size_contribution_count s)),
      (''decomposition_complete'', JBool (gs_decomposition_complete s))]"

definition growth_coverage_data :: "growth_coverage_summary \<Rightarrow> json" where
  "growth_coverage_data c = JObj
     [(''base_total_entry_count'', JInt (gv_base_total_entry_count c)),
      (''target_total_entry_count'', JInt (gv_target_total_entry_count c)),
      (''base_known_size_regular_file_count'', JInt (gv_base_known_size_regular_file_count c)),
      (''target_known_size_regular_file_count'', JInt (gv_target_known_size_regular_file_count c)),
      (''base_unknown_size_regular_file_count'', JInt (gv_base_unknown_size_regular_file_count c)),
      (''target_unknown_size_regular_file_count'', JInt (gv_target_unknown_size_regular_file_count c)),
      (''co_present_comparable_regular_location_count'', JInt (gv_co_present_comparable_regular_location_count c)),
      (''added_known_size_location_count'', JInt (gv_added_known_size_location_count c)),
      (''added_unknown_size_location_count'', JInt (gv_added_unknown_size_location_count c)),
      (''removed_known_size_location_count'', JInt (gv_removed_known_size_location_count c)),
      (''removed_unknown_size_location_count'', JInt (gv_removed_unknown_size_location_count c)),
      (''same_location_known_size_comparable_count'', JInt (gv_same_location_known_size_comparable_count c)),
      (''same_location_unknown_size_count'', JInt (gv_same_location_unknown_size_count c)),
      (''unknown_size_contribution_count'', JInt (gv_unknown_size_contribution_count c)),
      (''base_scope_overlap_object_hint_count'', JInt (gv_base_scope_overlap_object_hint_count c)),
      (''target_scope_overlap_object_hint_count'', JInt (gv_target_scope_overlap_object_hint_count c)),
      (''known_net_logical_delta'', JInt (gv_known_net_logical_delta c)),
      (''decomposition_complete'', JBool (gv_decomposition_complete c))]"

text \<open>\<open>_physical_data\<close> is the function of the same name of storage_structure.py.\<close>

definition canonical_storage_growth :: "storage_growth_result \<Rightarrow> string" where
  "canonical_storage_growth r = canonical_json (JObj
     [(''domain'', JStr ''local_steward.storage_growth.v1''),
      (''growth_schema_version'', JInt (gr_growth_schema_version r)),
      (''algorithm'', JStr (gr_algorithm r)),
      (''algorithm_version'', JInt (gr_algorithm_version r)),
      (''base_snapshot_id'', JStr (gr_base_snapshot_id r)),
      (''target_snapshot_id'', JStr (gr_target_snapshot_id r)),
      (''scope_summaries'', JArr (map growth_scope_data (gr_scope_summaries r))),
      (''path_nodes'', JArr (map growth_node_data (gr_path_nodes r))),
      (''contributions'', JArr (map (\<lambda>c. contribution_data c True) (gr_contributions r))),
      (''coverage'', growth_coverage_data (gr_coverage r)),
      (''physical_boundary'', physical_data (gr_physical_boundary r))])"

section \<open>Contributions\<close>

definition validate_pair :: "filesystem_snapshot \<Rightarrow> filesystem_snapshot \<Rightarrow> unit result" where
  "validate_pair base target =
     (if s_snapshot_id base = s_snapshot_id target then
        raise GrowthError ''GROWTH_INVALID: base and target Snapshot IDs must be distinct''
      else if s_completed_at base > s_started_at target then
        raise GrowthError ''GROWTH_INVALID: base Snapshot must not follow target Snapshot''
      else Inr ())"

type_synonym regular_entries = "(string \<times> string, filesystem_entry) dict"

definition regular_entries :: "filesystem_snapshot \<Rightarrow> regular_entries" where
  "regular_entries snapshot = dict_of (map (\<lambda>e. (location e, e))
     (filter (\<lambda>e. \<not> e_excluded e \<and> e_object_type e = REGULAR_FILE) (s_entries snapshot)))"

definition optional_size :: "filesystem_entry option \<Rightarrow> int option result" where
  "optional_size e = (case e of None \<Rightarrow> Inr None | Some e \<Rightarrow> known_regular_size e)"

definition classify :: "(string \<Rightarrow> string) \<Rightarrow> filesystem_entry option \<Rightarrow> filesystem_entry option \<Rightarrow>
    growth_contribution result" where
  "classify sha base target =
     bind_result (optional_size base) (\<lambda>base_size.
     bind_result (optional_size target) (\<lambda>target_size. Inr
       (case (base, target) of
          (None, _) \<Rightarrow>
            (case target_size of
               None \<Rightarrow> contribution sha SIZE_UNKNOWN None target None [''SIZE_COVERAGE_INCOMPLETE'']
             | Some n \<Rightarrow> contribution sha ADDED_LOCATION None target (Some n) [])
        | (_, None) \<Rightarrow>
            (case base_size of
               None \<Rightarrow> contribution sha SIZE_UNKNOWN base None None [''SIZE_COVERAGE_INCOMPLETE'']
             | Some n \<Rightarrow> contribution sha REMOVED_LOCATION base None (Some (- n)) [])
        | (Some _, Some _) \<Rightarrow>
            (case (base_size, target_size) of
               (Some b, Some t) \<Rightarrow>
                 if t > b then
                   contribution sha SAME_LOCATION_SIZE_INCREASE base target (Some (t - b)) []
                 else if t < b then
                   contribution sha SAME_LOCATION_SIZE_DECREASE base target (Some (t - b)) []
                 else contribution sha SAME_LOCATION_SIZE_UNCHANGED base target (Some 0) []
             | _ \<Rightarrow> contribution sha SIZE_UNKNOWN base target None [''SIZE_COVERAGE_INCOMPLETE'']))))"

definition metrics_for :: "growth_contribution \<Rightarrow> metrics" where
  "metrics_for c =
     (let delta = or_zero (gc_known_byte_delta c)
      in case gc_kind c of
           ADDED_LOCATION \<Rightarrow> no_metrics\<lparr>m_added_location_count := 1,
             m_added_logical_bytes := delta, m_known_net_logical_delta := delta\<rparr>
         | REMOVED_LOCATION \<Rightarrow> no_metrics\<lparr>m_removed_location_count := 1,
             m_removed_logical_bytes := - delta, m_known_net_logical_delta := delta\<rparr>
         | SAME_LOCATION_SIZE_INCREASE \<Rightarrow> no_metrics\<lparr>m_same_location_increase_count := 1,
             m_same_location_increase_bytes := delta, m_known_net_logical_delta := delta\<rparr>
         | SAME_LOCATION_SIZE_DECREASE \<Rightarrow> no_metrics\<lparr>m_same_location_decrease_count := 1,
             m_same_location_decrease_bytes := - delta, m_known_net_logical_delta := delta\<rparr>
         | SAME_LOCATION_SIZE_UNCHANGED \<Rightarrow> no_metrics\<lparr>m_same_location_unchanged_count := 1\<rparr>
         | SIZE_UNKNOWN \<Rightarrow> no_metrics\<lparr>m_unknown_size_contribution_count := 1\<rparr>)"

definition regular_counts :: "regular_entries \<Rightarrow> (int \<times> int) result" where
  "regular_counts es =
     bind_result (map_result known_regular_size (map snd es)) (\<lambda>sizes.
     let known = count_if (\<lambda>sz. sz \<noteq> None) sizes in Inr (known, int (length es) - known))"

record located_contribution =
  lc_scope_id :: string
  lc_relative_path :: string
  lc_contribution :: growth_contribution

section \<open>Nodes\<close>

type_synonym structure_nodes = "(string \<times> string, path_aggregate_node) dict"

definition structure_nodes :: "storage_structure_result \<Rightarrow> structure_nodes" where
  "structure_nodes r = dict_of (map (\<lambda>n. (node_key n, n)) (sr_path_nodes r))"

definition node_from :: "(string \<Rightarrow> string) \<Rightarrow> string \<Rightarrow> string \<Rightarrow> string \<Rightarrow> string \<Rightarrow>
    metrics \<Rightarrow> metrics \<Rightarrow> structure_nodes \<Rightarrow> structure_nodes \<Rightarrow> bool \<Rightarrow> path_growth_node" where
  "node_from sha base_snapshot_id target_snapshot_id scope_id path direct recursive
     base_nodes target_nodes is_complete =
     (let base = map_of base_nodes (scope_id, path);
          target = map_of target_nodes (scope_id, path)
      in \<lparr>gn_growth_node_id = growth_node_id sha base_snapshot_id target_snapshot_id scope_id path,
          gn_base_snapshot_id = base_snapshot_id,
          gn_target_snapshot_id = target_snapshot_id,
          gn_scope_id = scope_id,
          gn_relative_directory_path = path,
          gn_direct_base_known_logical_bytes = (case base of None \<Rightarrow> 0 | Some n \<Rightarrow> pn_direct_known_logical_bytes n),
          gn_recursive_base_known_logical_bytes = (case base of None \<Rightarrow> 0 | Some n \<Rightarrow> pn_recursive_known_logical_bytes n),
          gn_direct_target_known_logical_bytes = (case target of None \<Rightarrow> 0 | Some n \<Rightarrow> pn_direct_known_logical_bytes n),
          gn_recursive_target_known_logical_bytes = (case target of None \<Rightarrow> 0 | Some n \<Rightarrow> pn_recursive_known_logical_bytes n),
          gn_direct_known_net_logical_delta = m_known_net_logical_delta direct,
          gn_recursive_known_net_logical_delta = m_known_net_logical_delta recursive,
          gn_direct_added_logical_bytes = m_added_logical_bytes direct,
          gn_recursive_added_logical_bytes = m_added_logical_bytes recursive,
          gn_direct_added_location_count = m_added_location_count direct,
          gn_recursive_added_location_count = m_added_location_count recursive,
          gn_direct_removed_logical_bytes = m_removed_logical_bytes direct,
          gn_recursive_removed_logical_bytes = m_removed_logical_bytes recursive,
          gn_direct_removed_location_count = m_removed_location_count direct,
          gn_recursive_removed_location_count = m_removed_location_count recursive,
          gn_direct_same_location_increase_bytes = m_same_location_increase_bytes direct,
          gn_recursive_same_location_increase_bytes = m_same_location_increase_bytes recursive,
          gn_direct_same_location_increase_count = m_same_location_increase_count direct,
          gn_recursive_same_location_increase_count = m_same_location_increase_count recursive,
          gn_direct_same_location_decrease_bytes = m_same_location_decrease_bytes direct,
          gn_recursive_same_location_decrease_bytes = m_same_location_decrease_bytes recursive,
          gn_direct_same_location_decrease_count = m_same_location_decrease_count direct,
          gn_recursive_same_location_decrease_count = m_same_location_decrease_count recursive,
          gn_direct_same_location_unchanged_count = m_same_location_unchanged_count direct,
          gn_recursive_same_location_unchanged_count = m_same_location_unchanged_count recursive,
          gn_direct_unknown_size_contribution_count = m_unknown_size_contribution_count direct,
          gn_recursive_unknown_size_contribution_count = m_unknown_size_contribution_count recursive,
          gn_decomposition_complete = is_complete\<rparr>)"

text \<open>The recursive metrics of a child node, as they are added to its parent's.\<close>

definition recursive_metrics :: "path_growth_node \<Rightarrow> metrics" where
  "recursive_metrics n =
     \<lparr>m_known_net_logical_delta = gn_recursive_known_net_logical_delta n,
      m_added_logical_bytes = gn_recursive_added_logical_bytes n,
      m_added_location_count = gn_recursive_added_location_count n,
      m_removed_logical_bytes = gn_recursive_removed_logical_bytes n,
      m_removed_location_count = gn_recursive_removed_location_count n,
      m_same_location_increase_bytes = gn_recursive_same_location_increase_bytes n,
      m_same_location_increase_count = gn_recursive_same_location_increase_count n,
      m_same_location_decrease_bytes = gn_recursive_same_location_decrease_bytes n,
      m_same_location_decrease_count = gn_recursive_same_location_decrease_count n,
      m_same_location_unchanged_count = gn_recursive_same_location_unchanged_count n,
      m_unknown_size_contribution_count = gn_recursive_unknown_size_contribution_count n\<rparr>"

record growth_builder =
  gb_children :: "string list"
  gb_direct :: metrics

type_synonym growth_builders = "(string, growth_builder) dict"

text \<open>
  The builders of a scope: one for every path of either structure and the root. The code
  iterates over a set of paths; here it is a list without duplicates, and no result
  depends on its order.
\<close>

definition scope_paths :: "structure_nodes \<Rightarrow> structure_nodes \<Rightarrow> string \<Rightarrow> string list" where
  "scope_paths base_nodes target_nodes scope_id =
     remdups (''.'' # map snd (filter (\<lambda>k. fst k = scope_id) (map fst (base_nodes) @ map fst (target_nodes))))"

definition fresh_builders :: "string list \<Rightarrow> growth_builders" where
  "fresh_builders paths =
     dict_of (map (\<lambda>path. (path, \<lparr>gb_children = [], gb_direct = no_metrics\<rparr>)) paths)"

fun link_children :: "string list \<Rightarrow> growth_builders \<Rightarrow> growth_builders result" where
  "link_children [] builders = Inr builders"
| "link_children (path # paths) builders =
     (if path = ''.'' then link_children paths builders
      else bind_result (parent path) (\<lambda>up.
        (case map_of builders up of
           None \<Rightarrow> Inl PyKeyError
         | Some _ \<Rightarrow> link_children paths (AList.map_entry up
             (\<lambda>b. b\<lparr>gb_children := List.insert path (gb_children b)\<rparr>) builders))))"

fun add_contributions :: "string \<Rightarrow> located_contribution list \<Rightarrow> growth_builders \<Rightarrow>
    growth_builders result" where
  "add_contributions scope_id [] builders = Inr builders"
| "add_contributions scope_id (c # cs) builders =
     (if lc_scope_id c \<noteq> scope_id then add_contributions scope_id cs builders
      else bind_result (parent (lc_relative_path c)) (\<lambda>up.
        (case map_of builders up of
           None \<Rightarrow> Inl PyKeyError
         | Some _ \<Rightarrow> add_contributions scope_id cs (AList.map_entry up
             (\<lambda>b. b\<lparr>gb_direct := metrics_add (gb_direct b) (metrics_for (lc_contribution c))\<rparr>)
             builders))))"

text \<open>The part of \<open>build\<close> after the children: the node and its two checks.\<close>

definition check_node :: "path_growth_node \<Rightarrow> path_growth_node result" where
  "check_node n =
     (if gn_recursive_known_net_logical_delta n \<noteq>
          gn_recursive_added_logical_bytes n - gn_recursive_removed_logical_bytes n
          + gn_recursive_same_location_increase_bytes n - gn_recursive_same_location_decrease_bytes n
      then raise GrowthError ''GROWTH_INVALID: node growth decomposition mismatch''
      else if gn_decomposition_complete n \<and> gn_recursive_known_net_logical_delta n \<noteq>
          gn_recursive_target_known_logical_bytes n - gn_recursive_base_known_logical_bytes n
      then raise GrowthError ''GROWTH_INVALID: node target-minus-base identity mismatch''
      else Inr n)"

definition build_growth_node :: "(string \<Rightarrow> string) \<Rightarrow> string \<Rightarrow> string \<Rightarrow> string \<Rightarrow>
    structure_nodes \<Rightarrow> structure_nodes \<Rightarrow> growth_builders \<Rightarrow>
    string \<Rightarrow> path_growth_node list \<Rightarrow> path_growth_node result" where
  "build_growth_node sha base_id target_id scope_id base_nodes target_nodes builders path children =
     (case map_of builders path of
        None \<Rightarrow> Inl PyKeyError
      | Some b \<Rightarrow>
          (let recursive = add_all (metrics_add no_metrics (gb_direct b)) (map recursive_metrics children);
               is_complete = (m_unknown_size_contribution_count recursive = 0)
           in check_node (node_from sha base_id target_id scope_id path (gb_direct b) recursive
                base_nodes target_nodes is_complete)))"

definition growth_node_key :: "path_growth_node \<Rightarrow> string \<times> string" where
  "growth_node_key n = (gn_scope_id n, gn_relative_directory_path n)"

definition growth_scope_nodes :: "(string \<Rightarrow> string) \<Rightarrow> storage_structure_result \<Rightarrow>
    storage_structure_result \<Rightarrow> string \<Rightarrow> located_contribution list \<Rightarrow> path_growth_node list result" where
  "growth_scope_nodes sha base target scope_id contributions =
     (let base_nodes = structure_nodes base; target_nodes = structure_nodes target;
          paths = scope_paths base_nodes target_nodes scope_id
      in bind_result (link_children paths (fresh_builders paths)) (\<lambda>linked.
         bind_result (add_contributions scope_id contributions linked) (\<lambda>builders.
         bind_result (build_tree (sorted_kids gb_children builders)
           (build_growth_node sha (sr_snapshot_id base) (sr_snapshot_id target) scope_id
              base_nodes target_nodes builders) (length builders) ''.'' [])
         (\<lambda>(_, resolved). Inr (sort_key growth_node_key (map snd resolved))))))"

section \<open>Coverage\<close>

definition growth_coverage :: "filesystem_snapshot \<Rightarrow> filesystem_snapshot \<Rightarrow>
    storage_structure_result \<Rightarrow> storage_structure_result \<Rightarrow> regular_entries \<Rightarrow> regular_entries \<Rightarrow>
    located_contribution list \<Rightarrow> growth_coverage_summary result" where
  "growth_coverage base_snapshot target_snapshot base_structure target_structure
     base_regular target_regular contributions =
     bind_result (regular_counts base_regular) (\<lambda>(base_known, base_unknown).
     bind_result (regular_counts target_regular) (\<lambda>(target_known, target_unknown).
     let items = map lc_contribution contributions;
         count_kind = (\<lambda>k. count_if (\<lambda>c. gc_kind c = k) items);
         common = filter (\<lambda>l. map_of target_regular l \<noteq> None) (map fst base_regular)
     in bind_result (map_result (\<lambda>l. optional_size (map_of base_regular l)) common) (\<lambda>base_sizes.
        bind_result (map_result (\<lambda>l. optional_size (map_of target_regular l)) common) (\<lambda>target_sizes.
     let pairs = zip base_sizes target_sizes;
         comparable = count_if (\<lambda>(b, t). b \<noteq> None \<and> t \<noteq> None) pairs;
         same_unknown = count_if (\<lambda>(b, t). b = None \<or> t = None) pairs;
         known_net = (\<Sum>c \<leftarrow> items. or_zero (gc_known_byte_delta c));
         unknown_count = count_kind SIZE_UNKNOWN;
         unknown_on = (\<lambda>sid. count_if (\<lambda>c. gc_kind c = SIZE_UNKNOWN
           \<and> length (gc_entry_references c) = 1
           \<and> ref_snapshot_id (hd (gc_entry_references c)) = sid) items)
     in Inr
       \<lparr>gv_base_total_entry_count = int (length (s_entries base_snapshot)),
        gv_target_total_entry_count = int (length (s_entries target_snapshot)),
        gv_base_known_size_regular_file_count = base_known,
        gv_target_known_size_regular_file_count = target_known,
        gv_base_unknown_size_regular_file_count = base_unknown,
        gv_target_unknown_size_regular_file_count = target_unknown,
        gv_co_present_comparable_regular_location_count = comparable,
        gv_added_known_size_location_count = count_kind ADDED_LOCATION,
        gv_added_unknown_size_location_count = unknown_on (s_snapshot_id target_snapshot),
        gv_removed_known_size_location_count = count_kind REMOVED_LOCATION,
        gv_removed_unknown_size_location_count = unknown_on (s_snapshot_id base_snapshot),
        gv_same_location_known_size_comparable_count = comparable,
        gv_same_location_unknown_size_count = same_unknown,
        gv_unknown_size_contribution_count = unknown_count,
        gv_base_scope_overlap_object_hint_count =
          cv_scope_overlap_object_hint_count (sr_coverage base_structure),
        gv_target_scope_overlap_object_hint_count =
          cv_scope_overlap_object_hint_count (sr_coverage target_structure),
        gv_known_net_logical_delta = known_net,
        gv_decomposition_complete = (unknown_count = 0)\<rparr>))))"

section \<open>The result\<close>

definition growth_result :: "(string \<Rightarrow> string) \<Rightarrow> string \<Rightarrow> string \<Rightarrow> scope_growth_summary list \<Rightarrow>
    path_growth_node list \<Rightarrow> growth_contribution list \<Rightarrow> growth_coverage_summary \<Rightarrow>
    storage_growth_result" where
  "growth_result sha base_id target_id summaries nodes contributions coverage =
     (let provisional =
        \<lparr>gr_growth_schema_version = 1, gr_algorithm = ''storage_growth'', gr_algorithm_version = 1,
         gr_base_snapshot_id = base_id, gr_target_snapshot_id = target_id,
         gr_scope_summaries = summaries, gr_path_nodes = nodes,
         gr_contributions = contributions, gr_coverage = coverage,
         gr_physical_boundary = physical_boundary, gr_growth_digest = ''''\<rparr>
      in provisional\<lparr>gr_growth_digest := sha (canonical_storage_growth provisional)\<rparr>)"

definition growth_summary :: "string \<Rightarrow> string \<Rightarrow> (string \<times> string, path_growth_node) dict \<Rightarrow> string \<Rightarrow>
    scope_growth_summary result" where
  "growth_summary base_id target_id by_node scope_id =
     (case map_of by_node (scope_id, ''.'') of
        None \<Rightarrow> Inl PyKeyError
      | Some rn \<Rightarrow> Inr
          \<lparr>gs_base_snapshot_id = base_id,
           gs_target_snapshot_id = target_id,
           gs_scope_id = scope_id,
           gs_root_node_id = gn_growth_node_id rn,
           gs_base_recursive_known_logical_bytes = gn_recursive_base_known_logical_bytes rn,
           gs_target_recursive_known_logical_bytes = gn_recursive_target_known_logical_bytes rn,
           gs_known_net_logical_delta = gn_recursive_known_net_logical_delta rn,
           gs_added_logical_bytes = gn_recursive_added_logical_bytes rn,
           gs_added_location_count = gn_recursive_added_location_count rn,
           gs_removed_logical_bytes = gn_recursive_removed_logical_bytes rn,
           gs_removed_location_count = gn_recursive_removed_location_count rn,
           gs_same_location_increase_bytes = gn_recursive_same_location_increase_bytes rn,
           gs_same_location_increase_count = gn_recursive_same_location_increase_count rn,
           gs_same_location_decrease_bytes = gn_recursive_same_location_decrease_bytes rn,
           gs_same_location_decrease_count = gn_recursive_same_location_decrease_count rn,
           gs_same_location_unchanged_count = gn_recursive_same_location_unchanged_count rn,
           gs_unknown_size_contribution_count = gn_recursive_unknown_size_contribution_count rn,
           gs_decomposition_complete = gn_decomposition_complete rn\<rparr>)"

text \<open>\<open>except StructureError as error: raise GrowthError(...)\<close>; other exceptions pass.\<close>

definition structure_or_growth_error :: "(string \<Rightarrow> string) \<Rightarrow> filesystem_snapshot \<Rightarrow>
    storage_structure_result result" where
  "structure_or_growth_error sha snapshot =
     (case compute_snapshot_structure sha snapshot of
        Inr r \<Rightarrow> Inr r
      | Inl (Raise StructureError m) \<Rightarrow>
          raise GrowthError ''GROWTH_INVALID: Snapshot structure is invalid''
      | Inl x \<Rightarrow> Inl x)"

definition locate :: "(string \<Rightarrow> string) \<Rightarrow> regular_entries \<Rightarrow> regular_entries \<Rightarrow>
    string \<times> string \<Rightarrow> located_contribution result" where
  "locate sha base_regular target_regular l =
     bind_result (classify sha (map_of base_regular l) (map_of target_regular l)) (\<lambda>c.
     Inr \<lparr>lc_scope_id = fst l, lc_relative_path = snd l, lc_contribution = c\<rparr>)"

definition compute_snapshot_growth :: "(string \<Rightarrow> string) \<Rightarrow> filesystem_snapshot \<Rightarrow>
    filesystem_snapshot \<Rightarrow> storage_growth_result result" where
  "compute_snapshot_growth sha base target =
     bind_result (validate_pair base target) (\<lambda>_.
     bind_result (structure_or_growth_error sha base) (\<lambda>base_structure.
     bind_result (structure_or_growth_error sha target) (\<lambda>target_structure.
     let base_regular = regular_entries base; target_regular = regular_entries target;
         locations = sorted_set (map fst base_regular @ map fst target_regular);
         scope_ids = sorted_set (s_scope_ids base @ s_scope_ids target)
     in bind_result (map_result (locate sha base_regular target_regular) locations) (\<lambda>located.
        bind_result (map_result (\<lambda>scope_id.
          growth_scope_nodes sha base_structure target_structure scope_id located) scope_ids) (\<lambda>nodess.
     let nodes = concat nodess; by_node = dict_of (map (\<lambda>n. (growth_node_key n, n)) nodes)
     in bind_result (map_result (growth_summary (s_snapshot_id base) (s_snapshot_id target) by_node)
          scope_ids) (\<lambda>summaries.
        bind_result (growth_coverage base target base_structure target_structure
          base_regular target_regular located) (\<lambda>coverage.
     if (\<Sum>s \<leftarrow> summaries. gs_known_net_logical_delta s) \<noteq> gv_known_net_logical_delta coverage then
       raise GrowthError ''GROWTH_INVALID: global growth aggregate mismatch''
     else if gv_decomposition_complete coverage \<and> gv_known_net_logical_delta coverage \<noteq>
         cv_known_logical_bytes (sr_coverage target_structure)
         - cv_known_logical_bytes (sr_coverage base_structure) then
       raise GrowthError ''GROWTH_INVALID: global target-minus-base identity mismatch''
     else Inr (growth_result sha (s_snapshot_id base) (s_snapshot_id target) summaries nodes
       (map lc_contribution located) coverage))))))))"

end
