(* ===== verification/Steward_Examples.thy ===== *)
theory Steward_Examples
  imports Steward_Models
begin

text \<open>
  Small concrete entries and snapshots for the witness theorems: fields that a property
  does not speak about have fixed plain values.
\<close>

definition plain_entry :: "string \<Rightarrow> string \<Rightarrow> string \<Rightarrow> filesystem_object_type \<Rightarrow> int option \<Rightarrow>
    filesystem_entry" where
  "plain_entry snapshot_id scope_id path kind sz =
     \<lparr>e_entry_id = ''id'', e_snapshot_id = snapshot_id, e_scope_id = scope_id,
      e_relative_path = path, e_object_type = kind, e_device_id = Some 1, e_inode = None,
      e_mode = Some 0, e_uid = Some 0, e_gid = Some 0, e_size_bytes = sz,
      e_mtime_ns = Some 0, e_ctime_ns = Some 0, e_birthtime_ns = Some 0, e_link_count = Some 1,
      e_symlink_target_raw = None, e_readable = True, e_writable = True, e_executable = False,
      e_observation_status = OBSERVED, e_error_code = None, e_error_message = None,
      e_excluded = False, e_v2 = None\<rparr>"

definition plain_snapshot :: "string \<Rightarrow> string \<Rightarrow> string \<Rightarrow> string list \<Rightarrow>
    filesystem_entry list \<Rightarrow> filesystem_snapshot" where
  "plain_snapshot snapshot_id started completed scope_ids es =
     \<lparr>s_snapshot_id = snapshot_id, s_run_id = ''run'', s_created_at = completed,
      s_started_at = started, s_completed_at = completed, s_status = SNAPSHOT_COMPLETE,
      s_consistency = BEST_EFFORT_POINT_IN_TIME, s_config_digest = ''cfg'',
      s_scope_ids = scope_ids,
      s_budget = \<lparr>b_max_entries = 100, b_max_total_stat_bytes = None,
                   b_max_duration_seconds = 600, b_max_depth = None\<rparr>,
      s_entry_count = int (length es), s_observed_count = int (length es), s_error_count = 0,
      s_excluded_count = 0, s_total_regular_file_bytes = 0, s_max_depth_observed = 0,
      s_entries_digest = ''ed'', s_snapshot_digest = ''sd'', s_evidence_id = None,
      s_evidence_relative_path = None, s_entries = es, s_v2 = None\<rparr>"

text \<open>A regular file of size 3 with an object hint and a payload digest read directly.\<close>

definition hashed_payload :: "string \<Rightarrow> payload_observation" where
  "hashed_payload digest =
     \<lparr>p_status = HASHED, p_algorithm = Some ''sha256'', p_algorithm_version = Some 1,
      p_digest = Some digest, p_bytes_hashed = Some 3, p_provenance = Some DIRECT_READ,
      p_reused_from_snapshot_id = None, p_failure_code = None, p_os_error_code = None\<rparr>"

definition hashed_entry :: "string \<Rightarrow> string \<Rightarrow> string \<Rightarrow> int \<Rightarrow> int \<Rightarrow> string \<Rightarrow> filesystem_entry" where
  "hashed_entry snapshot_id scope_id path inode birth digest =
     (plain_entry snapshot_id scope_id path REGULAR_FILE (Some 3))
       \<lparr>e_inode := Some inode, e_birthtime_ns := Some birth,
        e_v2 := Some \<lparr>v2_allocated_size_bytes = Some 4096,
                      v2_payload_observation = hashed_payload digest\<rparr>\<rparr>"

lemmas plain_simps = plain_entry_def plain_snapshot_def

end
