(* ===== verification/Storage_Structure_Correct.thy ===== *)
theory Storage_Structure_Correct
  imports Storage_Structure Steward_Examples
begin

text \<open>
  Correctness of \<open>storage_structure.py\<close>. \<open>spec_node\<close> says directly, by counting entries,
  what a node is to hold; the builder fold and the memoised roll-up are shown to compute
  exactly these nodes, so validated entries never raise, the cross-check of the totals
  never fires and the result does not depend on the order of the entries.
\<close>

section \<open>What a node is to hold\<close>

text \<open>An entry counts at its home: a directory at itself, any other object at its parent.\<close>

definition entry_parts :: "filesystem_entry \<Rightarrow> string list" where
  "entry_parts e = (case valid_path (e_relative_path e) of Inl _ \<Rightarrow> [] | Inr parts \<Rightarrow> parts)"

definition home :: "filesystem_entry \<Rightarrow> string list" where
  "home e = (if e_object_type e = DIRECTORY then entry_parts e else butlast (entry_parts e))"

definition known_bytes :: "filesystem_entry \<Rightarrow> int" where
  "known_bytes e = (case known_regular_size e of Inr (Some n) \<Rightarrow> n | _ \<Rightarrow> 0)"

definition size_unknown :: "filesystem_entry \<Rightarrow> bool" where
  "size_unknown e \<longleftrightarrow> e_object_type e = REGULAR_FILE \<and> known_regular_size e = Inr None"

definition active :: "filesystem_entry list \<Rightarrow> filesystem_entry list" where
  "active es = filter (\<lambda>e. \<not> e_excluded e) es"

definition own :: "string list \<Rightarrow> filesystem_entry list \<Rightarrow> filesystem_entry list" where
  "own d es = filter (\<lambda>e. home e = d) (active es)"

definition below :: "string list \<Rightarrow> filesystem_entry list \<Rightarrow> filesystem_entry list" where
  "below d es = filter (\<lambda>e. prefix d (home e)) (active es)"

definition structure_dirs :: "filesystem_entry list \<Rightarrow> string list list" where
  "structure_dirs es = [] # concat (map (\<lambda>e. prefixes (home e)) (active es))"

definition spec_node :: "(string \<Rightarrow> string) \<Rightarrow> string \<Rightarrow> string \<Rightarrow> filesystem_entry list \<Rightarrow>
    string list \<Rightarrow> path_aggregate_node" where
  "spec_node sha snapshot_id scope_id es d =
     \<lparr>pn_path_node_id = node_id sha snapshot_id scope_id (path_of d),
      pn_snapshot_id = snapshot_id,
      pn_scope_id = scope_id,
      pn_relative_directory_path = path_of d,
      pn_observed_directory_entry = (\<exists>e \<in> set (own d es). e_object_type e = DIRECTORY),
      pn_direct_regular_file_count = count_if (\<lambda>e. e_object_type e = REGULAR_FILE) (own d es),
      pn_recursive_regular_file_count = count_if (\<lambda>e. e_object_type e = REGULAR_FILE) (below d es),
      pn_direct_known_logical_bytes = (\<Sum>e \<leftarrow> own d es. known_bytes e),
      pn_recursive_known_logical_bytes = (\<Sum>e \<leftarrow> below d es. known_bytes e),
      pn_direct_unknown_size_regular_count = count_if size_unknown (own d es),
      pn_recursive_unknown_size_regular_count = count_if size_unknown (below d es),
      pn_direct_directory_count = count_if (\<lambda>e. e_object_type e = DIRECTORY) (own d es),
      pn_recursive_directory_count = count_if (\<lambda>e. e_object_type e = DIRECTORY) (below d es),
      pn_direct_symlink_count = count_if (\<lambda>e. e_object_type e = SYMLINK) (own d es),
      pn_recursive_symlink_count = count_if (\<lambda>e. e_object_type e = SYMLINK) (below d es),
      pn_direct_special_object_count = count_if is_special (own d es),
      pn_recursive_special_object_count = count_if is_special (below d es)\<rparr>"

definition spec_nodes :: "(string \<Rightarrow> string) \<Rightarrow> string \<Rightarrow> string \<Rightarrow> filesystem_entry list \<Rightarrow>
    path_aggregate_node list" where
  "spec_nodes sha snapshot_id scope_id es =
     map (spec_node sha snapshot_id scope_id es) (sort_key path_of (remdups (structure_dirs es)))"

section \<open>The fold over the entries\<close>

definition spec_builder :: "string \<Rightarrow> filesystem_entry list \<Rightarrow> string list \<Rightarrow> node_builder" where
  "spec_builder scope_id es d =
     \<lparr>nb_scope_id = scope_id, nb_path = path_of d,
      nb_observed_directory_entry = (\<exists>e \<in> set (own d es). e_object_type e = DIRECTORY),
      nb_direct_regular_file_count = count_if (\<lambda>e. e_object_type e = REGULAR_FILE) (own d es),
      nb_direct_known_logical_bytes = (\<Sum>e \<leftarrow> own d es. known_bytes e),
      nb_direct_unknown_size_regular_count = count_if size_unknown (own d es),
      nb_direct_directory_count = count_if (\<lambda>e. e_object_type e = DIRECTORY) (own d es),
      nb_direct_symlink_count = count_if (\<lambda>e. e_object_type e = SYMLINK) (own d es),
      nb_direct_special_object_count = count_if is_special (own d es),
      nb_children = []\<rparr>"

definition valid_entry :: "filesystem_entry \<Rightarrow> bool" where
  "valid_entry e \<longleftrightarrow> (case valid_path (e_relative_path e) of Inl _ \<Rightarrow> False | Inr _ \<Rightarrow> True)
     \<and> (case known_regular_size e of Inl _ \<Rightarrow> False | Inr _ \<Rightarrow> True)"

definition builders_ok :: "string \<Rightarrow> filesystem_entry list \<Rightarrow> builders \<Rightarrow> bool" where
  "builders_ok scope_id es nodes \<longleftrightarrow>
     tree_dict nb_children nodes \<and> (\<forall>e \<in> set (active es). home e \<in> dirs_of nodes)
     \<and> (\<forall>d \<in> dirs_of nodes. \<forall>b. map_of nodes (path_of d) = Some b \<longrightarrow>
          b\<lparr>nb_children := []\<rparr> = spec_builder scope_id es d)"

lemma valid_entryE:
  assumes "valid_entry e"
  obtains parts sz where "e_relative_path e = path_of parts" "good_parts parts"
    "entry_parts e = parts" "known_regular_size e = Inr sz"
  using assms
  by (auto simp: valid_entry_def entry_parts_def valid_path_Inr_iff split: sum.splits)

lemma active_simps [simp]:
  "active [] = []"
  "active (es @ es') = active es @ active es'"
  "active (e # es) = (if e_excluded e then active es else e # active es)"
  by (simp_all add: active_def)

lemma active_scope: "active (filter P es) = filter P (active es)"
  by (induction es) auto

lemma own_snoc:
  "own d (es @ [e]) = (if \<not> e_excluded e \<and> home e = d then own d es @ [e] else own d es)"
  by (simp add: own_def)

lemma spec_builder_fresh:
  "\<forall>e \<in> set (active es). home e \<noteq> d \<Longrightarrow> spec_builder scope_id es d = new_builder scope_id (path_of d)"
  by (simp add: spec_builder_def new_builder_def own_def)

lemma builders_ok_start: "builders_ok scope_id [] [(''.'', new_builder scope_id ''.'')]"
proof -
  have "dirs_of [(''.'', new_builder scope_id ''.'')] = {[]}"
    by (auto simp: dirs_of_def)
  then show ?thesis
    by (simp add: builders_ok_def tree_dict_def dict_wf_def parent_closed_def child_dirs_def
        new_builder_def spec_builder_def own_def)
qed

lemma ensure_node_ok:
  assumes ok: "builders_ok scope_id es nodes" and good: "good_parts d"
    and up: "d = [] \<or> butlast d \<in> dirs_of nodes"
  shows "\<exists>nodes'. ensure_node scope_id (path_of d) nodes = Inr nodes'
    \<and> builders_ok scope_id es nodes' \<and> dirs_of nodes' = insert d (dirs_of nodes)"
proof (cases "d \<in> dirs_of nodes")
  case True
  then obtain b where "map_of nodes (path_of d) = Some b" using dirs_of_lookup by blast
  with True ok show ?thesis by (auto simp: ensure_node_def)
next
  case False
  have wf: "tree_dict nb_children nodes" using ok by (simp add: builders_ok_def)
  with False have "d \<noteq> []" by (auto simp: tree_dict_def)
  with up have up: "butlast d \<in> dirs_of nodes" by simp
  then obtain bu where bu: "map_of nodes (path_of (butlast d)) = Some bu"
    using dirs_of_lookup by blast
  have none: "map_of nodes (path_of d) = None"
    using False good by (auto simp: dirs_of_def map_of_eq_None_iff)
  let ?f = "\<lambda>b. b\<lparr>nb_children := List.insert (path_of d) (nb_children b)\<rparr>"
  let ?nodes = "AList.map_entry (path_of (butlast d)) ?f
      (AList.update (path_of d) (new_builder scope_id (path_of d)) nodes)"
  have "ensure_node scope_id (path_of d) nodes = Inr ?nodes"
    using none good \<open>d \<noteq> []\<close> bu by (simp add: ensure_node_def Let_def map_of_update)
  moreover have "tree_dict nb_children ?nodes"
    using wf good \<open>d \<noteq> []\<close> False up
    by (rule tree_dict_add_leaf) (simp_all add: new_builder_def)
  moreover have dirs: "dirs_of ?nodes = insert d (dirs_of nodes)" using good by simp
  moreover have "b\<lparr>nb_children := []\<rparr> = spec_builder scope_id es q"
    if q: "q \<in> insert d (dirs_of nodes)" and b: "map_of ?nodes (path_of q) = Some b" for q b
  proof (cases "q = d")
    case True
    have "path_of d \<noteq> path_of (butlast d)"
      using False up good by (auto simp: path_of_eq_iff)
    with b True have "b = new_builder scope_id (path_of d)"
      by (simp add: map_of_map_entry map_of_update)
    moreover have "spec_builder scope_id es d = new_builder scope_id (path_of d)"
      using ok False by (intro spec_builder_fresh) (auto simp: builders_ok_def)
    ultimately show ?thesis using True by (simp add: new_builder_def)
  next
    case False
    with q have q: "q \<in> dirs_of nodes" by simp
    with False good have "path_of q \<noteq> path_of d" by (simp add: path_of_eq_iff dirs_of_good)
    with b obtain b0 where "map_of nodes (path_of q) = Some b0"
      "b\<lparr>nb_children := []\<rparr> = b0\<lparr>nb_children := []\<rparr>"
      by (auto simp: map_of_map_entry map_of_update split: if_splits option.splits)
    with q ok show ?thesis by (simp add: builders_ok_def)
  qed
  ultimately show ?thesis
    using ok by (intro exI [of _ ?nodes]) (simp add: builders_ok_def)
qed

lemma ensure_nodes_append:
  "ensure_nodes scope_id (xs @ ys) nodes =
     bind_result (ensure_nodes scope_id xs nodes) (ensure_nodes scope_id ys)"
  by (induction xs arbitrary: nodes) (auto simp: bind_result_def split: sum.splits)

lemma ensure_prefixes_ok:
  assumes "builders_ok scope_id es nodes" "good_parts parts"
  shows "n \<le> length parts \<Longrightarrow>
    \<exists>nodes'. ensure_nodes scope_id (map (\<lambda>len. path_of (take len parts)) [0..<n]) nodes = Inr nodes'
      \<and> builders_ok scope_id es nodes'
      \<and> dirs_of nodes' = dirs_of nodes \<union> (\<lambda>len. take len parts) ` {0..<n}"
proof (induction n)
  case 0
  then show ?case using assms(1) by simp
next
  case (Suc n)
  then obtain nodes1 where 1:
    "ensure_nodes scope_id (map (\<lambda>len. path_of (take len parts)) [0..<n]) nodes = Inr nodes1"
    "builders_ok scope_id es nodes1"
    "dirs_of nodes1 = dirs_of nodes \<union> (\<lambda>len. take len parts) ` {0..<n}"
    by auto
  have "take n parts = [] \<or> butlast (take n parts) \<in> dirs_of nodes1"
    using Suc.prems 1(3) by (cases n) (auto simp: butlast_take)
  with ensure_node_ok [OF 1(2), of "take n parts"] assms(2)
  obtain nodes2 where
    "ensure_node scope_id (path_of (take n parts)) nodes1 = Inr nodes2"
    "builders_ok scope_id es nodes2" "dirs_of nodes2 = insert (take n parts) (dirs_of nodes1)"
    by auto
  with 1 show ?case
    by (auto simp: ensure_nodes_append atLeast0_lessThan_Suc)
qed

lemma set_prefixes_take: "set (prefixes xs) = (\<lambda>n. take n xs) ` {0..<Suc (length xs)}"
proof -
  have "p \<in> (\<lambda>n. take n xs) ` {0..<Suc (length xs)}" if "prefix p xs" for p
    using that by (intro image_eqI [of _ _ "length p"]) (auto simp: prefix_def)
  then show ?thesis by (auto simp: take_is_prefix)
qed

lemma builders_ok_count:
  assumes ok: "builders_ok scope_id es nodes" and e: "\<not> e_excluded e" "home e \<in> dirs_of nodes"
    and f: "\<And>b cs. f (b\<lparr>nb_children := cs\<rparr>) = (f b)\<lparr>nb_children := cs\<rparr>"
      "\<And>b. nb_children (f b) = nb_children b"
      "f (spec_builder scope_id es (home e)) = spec_builder scope_id (es @ [e]) (home e)"
  shows "builders_ok scope_id (es @ [e]) (AList.map_entry (path_of (home e)) f nodes)"
    (is "builders_ok _ _ ?nodes")
proof -
  have "b\<lparr>nb_children := []\<rparr> = spec_builder scope_id (es @ [e]) q"
    if q: "q \<in> dirs_of nodes" and b: "map_of ?nodes (path_of q) = Some b" for q b
  proof (cases "q = home e")
    case True
    with b obtain b0 where b0: "map_of nodes (path_of q) = Some b0" "b = f b0"
      by (auto simp: map_of_map_entry split: option.splits)
    with ok q have "b0\<lparr>nb_children := []\<rparr> = spec_builder scope_id es q"
      by (simp add: builders_ok_def)
    then show ?thesis using b0 True f(1) [where b = b0 and cs = "[]"] f(3) by simp
  next
    case False
    with q e have "path_of q \<noteq> path_of (home e)" by (simp add: path_of_eq_iff dirs_of_good)
    with b ok q have "b\<lparr>nb_children := []\<rparr> = spec_builder scope_id es q"
      by (simp add: map_of_map_entry builders_ok_def)
    then show ?thesis using False by (simp add: spec_builder_def own_snoc)
  qed
  then show ?thesis
    using ok e f(2) by (auto simp: builders_ok_def intro!: tree_dict_map_entry)
qed

lemma add_entry_ok:
  assumes ok: "builders_ok scope_id es nodes" and "valid_entry e"
  shows "\<exists>nodes'. add_entry scope_id e nodes = Inr nodes' \<and> builders_ok scope_id (es @ [e]) nodes'
    \<and> dirs_of nodes' = dirs_of nodes \<union> (if e_excluded e then {} else set (prefixes (home e)))"
proof -
  from assms(2) obtain parts sz where e: "e_relative_path e = path_of parts" "good_parts parts"
    "entry_parts e = parts" "known_regular_size e = Inr sz"
    by (rule valid_entryE)
  obtain nodes1 where 1:
    "ensure_nodes scope_id (map (\<lambda>len. path_of (take len parts)) [0..<length parts]) nodes = Inr nodes1"
    "builders_ok scope_id es nodes1"
    "dirs_of nodes1 = dirs_of nodes \<union> (\<lambda>len. take len parts) ` {0..<length parts}"
    using ensure_prefixes_ok [OF ok e(2), of "length parts"] by auto
  have up: "parts = [] \<or> butlast parts \<in> dirs_of nodes1"
    using 1(3) by (cases parts) (auto simp: butlast_conv_take)
  have root: "[] \<in> dirs_of nodes1"
    using 1(2) by (simp add: builders_ok_def tree_dict_def)
  have same: "spec_builder scope_id (es @ [e]) d = spec_builder scope_id es d" if "e_excluded e" for d
    using that by (simp add: spec_builder_def own_snoc)
  show ?thesis
  proof (cases "e_excluded e")
    case True
    then show ?thesis using ok same by (simp add: add_entry_def builders_ok_def)
  next
    case False
    have home_up: "home e = [] \<or> butlast (home e) \<in> dirs_of nodes1"
    proof (cases "e_object_type e = DIRECTORY")
      case True
      then show ?thesis using up e(3) by (simp add: home_def)
    next
      case notdir: False
      have "parent_closed (dirs_of nodes1)" using 1(2) by (simp add: builders_ok_def tree_dict_def)
      then show ?thesis
        using notdir up e(3) by (auto simp: home_def parent_closed_def)
    qed
    have good: "good_parts (home e)" using e by (simp add: home_def)
    obtain nodes2 where 2: "ensure_node scope_id (path_of (home e)) nodes1 = Inr nodes2"
      "builders_ok scope_id es nodes2" "dirs_of nodes2 = insert (home e) (dirs_of nodes1)"
      using ensure_node_ok [OF 1(2) good home_up] by blast
    have "insert (home e) ((\<lambda>len. take len parts) ` {0..<length parts}) = set (prefixes (home e))"
    proof (cases "e_object_type e = DIRECTORY \<or> parts = []")
      case True
      then show ?thesis
        using e(3) unfolding set_prefixes_take by (auto simp: home_def atLeast0_lessThan_Suc)
    next
      case notdir: False
      then have len: "length parts = Suc (length (home e))" "home e = butlast parts"
        using e(3) by (auto simp: home_def)
      then have "(\<lambda>len. take len parts) ` {0..<length parts}
          = (\<lambda>len. take len (home e)) ` {0..<Suc (length (home e))}"
        by (intro image_cong) (auto simp: take_butlast)
      then have "(\<lambda>len. take len parts) ` {0..<length parts} = set (prefixes (home e))"
        by (simp only: set_prefixes_take)
      then show ?thesis by (simp add: insert_absorb)
    qed
    then have dirs: "dirs_of nodes2 = dirs_of nodes \<union> set (prefixes (home e))"
      using 1(3) 2(3) by (simp del: set_prefixes_eq) blast
    have home_in: "home e \<in> dirs_of nodes2" using 2(3) by simp
    show ?thesis
    proof (cases "e_object_type e = DIRECTORY")
      case True
      let ?f = "\<lambda>b. b\<lparr>nb_observed_directory_entry := True,
                   nb_direct_directory_count := nb_direct_directory_count b + 1\<rparr>"
      have "add_entry scope_id e nodes = Inr (AList.map_entry (path_of (home e)) ?f nodes2)"
        using False True e 1(1) 2(1) by (simp add: add_entry_def home_def)
      moreover have "?f (spec_builder scope_id es (home e)) = spec_builder scope_id (es @ [e]) (home e)"
        using False True
        by (simp add: spec_builder_def own_snoc known_bytes_def size_unknown_def known_regular_size_def
            is_special_def)
      ultimately show ?thesis
        using builders_ok_count [OF 2(2) False home_in, of ?f] dirs by (simp add: False)
    next
      case notdir: False
      let ?f = "count_entry e sz"
      have "add_entry scope_id e nodes = Inr (AList.map_entry (path_of (home e)) ?f nodes2)"
        using False notdir e 1(1) 2(1) by (simp add: add_entry_def home_def)
      moreover have "?f (spec_builder scope_id es (home e)) = spec_builder scope_id (es @ [e]) (home e)"
        using False notdir e(4)
        by (cases sz) (auto simp: spec_builder_def own_snoc known_bytes_def size_unknown_def count_entry_def
            is_special_def known_regular_size_def split: if_splits option.splits)
      moreover have "?f (b\<lparr>nb_children := cs\<rparr>) = (?f b)\<lparr>nb_children := cs\<rparr>"
        "nb_children (?f b) = nb_children b" for b cs
        by (simp_all add: count_entry_def Let_def split: option.split)
      ultimately show ?thesis
        using builders_ok_count [OF 2(2) False home_in, of ?f] dirs by (simp add: False)
    qed
  qed
qed

lemma add_entries_ok:
  assumes "builders_ok scope_id es0 nodes" "\<forall>e \<in> set es. valid_entry e"
  shows "\<exists>nodes'. add_entries scope_id es nodes = Inr nodes' \<and> builders_ok scope_id (es0 @ es) nodes'
    \<and> dirs_of nodes' = dirs_of nodes \<union> (\<Union>e \<in> set (active es). set (prefixes (home e)))"
  using assms
proof (induction es arbitrary: es0 nodes)
  case (Cons e es)
  from Cons.prems obtain nodes1 where 1: "add_entry scope_id e nodes = Inr nodes1"
    "builders_ok scope_id (es0 @ [e]) nodes1"
    "dirs_of nodes1 = dirs_of nodes \<union> (if e_excluded e then {} else set (prefixes (home e)))"
    using add_entry_ok [of scope_id es0 nodes e] by auto
  from Cons.IH [OF 1(2)] Cons.prems(2) obtain nodes2 where
    "add_entries scope_id es nodes1 = Inr nodes2" "builders_ok scope_id (es0 @ e # es) nodes2"
    "dirs_of nodes2 = dirs_of nodes1 \<union> (\<Union>e \<in> set (active es). set (prefixes (home e)))"
    by auto
  with 1 show ?case by auto
qed simp

lemma set_structure_dirs:
  "set (structure_dirs es) = insert [] (\<Union>e \<in> set (active es). set (prefixes (home e)))"
  by (simp add: structure_dirs_def)

lemma add_entries_start:
  assumes "\<forall>e \<in> set es. valid_entry e"
  obtains nodes where
    "add_entries scope_id es [(''.'', new_builder scope_id ''.'')] = Inr nodes"
    "builders_ok scope_id es nodes" "dirs_of nodes = set (structure_dirs es)"
proof -
  have "dirs_of [(''.'', new_builder scope_id ''.'')] = {[]}" by (auto simp: dirs_of_def)
  with add_entries_ok [OF builders_ok_start [of scope_id] assms] that show thesis
    unfolding set_structure_dirs by force
qed

section \<open>The roll-up\<close>

interpretation structure_tree:
  directory_tree "tree_dict nb_children" dirs_of "sorted_kids nb_children"
  by (rule tree_dict_directory_tree)

text \<open>A total below a directory is its own share and the totals of its children.\<close>

lemma sum_below:
  fixes w :: "filesystem_entry \<Rightarrow> 'm :: comm_monoid_add"
  assumes ok: "builders_ok scope_id es nodes" and d: "d \<in> dirs_of nodes"
    and ds: "distinct ds" "set ds = child_dirs (dirs_of nodes) d"
  shows "(\<Sum>e \<leftarrow> own d es. w e) + (\<Sum>c \<leftarrow> ds. \<Sum>e \<leftarrow> below c es. w e) = (\<Sum>e \<leftarrow> below d es. w e)"
proof -
  have homes: "\<And>e. e \<in> set (active es) \<Longrightarrow> home e \<in> dirs_of nodes"
    and closed: "parent_closed (dirs_of nodes)"
    using ok by (auto simp: builders_ok_def tree_dict_def)
  have total: "(\<Sum>e \<leftarrow> below q es. w e) = (\<Sum>p \<in> subtree (dirs_of nodes) q. \<Sum>e \<leftarrow> own p es. w e)" for q
    using sum_subtree_items [where w = w and d = q, OF finite_dirs_of homes] by (simp add: own_def below_def)
  have "(\<Sum>c \<leftarrow> ds. \<Sum>e \<leftarrow> below c es. w e)
      = (\<Sum>c \<in> child_dirs (dirs_of nodes) d. \<Sum>e \<leftarrow> below c es. w e)"
    using ds by (simp add: sum_list_distinct_conv_sum_set)
  then show ?thesis
    using sum_subtree [OF finite_dirs_of closed d, of "\<lambda>p. \<Sum>e \<leftarrow> own p es. w e"]
    by (simp add: total)
qed

lemma count_below:
  assumes "builders_ok scope_id es nodes" "d \<in> dirs_of nodes"
    "distinct ds" "set ds = child_dirs (dirs_of nodes) d"
  shows "count_if P (own d es) + (\<Sum>c \<leftarrow> ds. count_if P (below c es)) = count_if P (below d es)"
  using sum_below [OF assms, of "\<lambda>e. if P e then 1 else 0 :: int"] by (simp add: count_if_def)

lemma build_node_spec:
  assumes ok: "builders_ok scope_id es nodes" and d: "d \<in> dirs_of nodes"
    and ds: "distinct ds" "set ds = child_dirs (dirs_of nodes) d"
  shows "build_node sha snapshot_id scope_id nodes (path_of d) (map (spec_node sha snapshot_id scope_id es) ds)
    = Inr (spec_node sha snapshot_id scope_id es d)"
proof -
  obtain b where b: "map_of nodes (path_of d) = Some b" using dirs_of_lookup [OF d] by blast
  with ok d have "b\<lparr>nb_children := []\<rparr> = spec_builder scope_id es d"
    by (simp add: builders_ok_def)
  then have fields:
    "nb_observed_directory_entry b = (\<exists>e \<in> set (own d es). e_object_type e = DIRECTORY)"
    "nb_direct_regular_file_count b = count_if (\<lambda>e. e_object_type e = REGULAR_FILE) (own d es)"
    "nb_direct_known_logical_bytes b = (\<Sum>e \<leftarrow> own d es. known_bytes e)"
    "nb_direct_unknown_size_regular_count b = count_if size_unknown (own d es)"
    "nb_direct_directory_count b = count_if (\<lambda>e. e_object_type e = DIRECTORY) (own d es)"
    "nb_direct_symlink_count b = count_if (\<lambda>e. e_object_type e = SYMLINK) (own d es)"
    "nb_direct_special_object_count b = count_if is_special (own d es)"
    by (cases b; simp add: spec_builder_def)+
  show ?thesis
    using b fields
    by (simp add: build_node_def make_node_def spec_node_def comp_def
        sum_below [OF ok d ds] count_below [OF ok d ds])
qed

text \<open>The nodes of a scope are the specified ones, and computing them never raises.\<close>

lemma scope_nodes_spec:
  assumes "\<forall>e \<in> set es. valid_entry e"
  shows "scope_nodes sha snapshot_id scope_id es
    = Inr (spec_nodes sha snapshot_id scope_id (sort_key location es))"
proof -
  let ?es = "sort_key location es" and ?spec = "spec_node sha snapshot_id scope_id (sort_key location es)"
  from assms have "\<forall>e \<in> set ?es. valid_entry e" by simp
  then obtain nodes where nodes:
    "add_entries scope_id ?es [(''.'', new_builder scope_id ''.'')] = Inr nodes"
    "builders_ok scope_id ?es nodes" "dirs_of nodes = set (structure_dirs ?es)"
    by (rule add_entries_start)
  have wf: "tree_dict nb_children nodes" using nodes(2) by (simp add: builders_ok_def)
  obtain nd res where res:
    "build_tree (sorted_kids nb_children nodes) (build_node sha snapshot_id scope_id nodes)
       (length nodes) ''.'' [] = Inr (nd, res)"
    "dict_wf res" "fst ` set res = path_of ` dirs_of nodes"
    "\<forall>d \<in> dirs_of nodes. \<exists>nd. map_of res (path_of d) = Some nd \<and> nd = ?spec d"
    using structure_tree.build_tree_root [OF wf inj_on_dirs_of, where ok = "\<lambda>d nd. nd = ?spec d"
        and mk = "build_node sha snapshot_id scope_id nodes" and n = "length nodes"]
      build_node_spec [OF nodes(2)] card_dirs_of [OF wf]
    unfolding list_all2_map_iff by simp metis
  have "\<forall>d \<in> dirs_of nodes. map_of res (path_of d) = Some (?spec d)" using res(4) by simp
  then have "sort_key node_key (map snd res) = spec_nodes sha snapshot_id scope_id ?es"
    unfolding spec_nodes_def
    by (rule sorted_memo [OF res(2,3) finite_dirs_of inj_on_dirs_of _ nodes(3) [symmetric]])
      (simp add: node_key_def spec_node_def)
  then show ?thesis
    using nodes(1) res(1) by (simp add: scope_nodes_def)
qed

section \<open>Order of the entries\<close>

lemma active_mset: "mset es = mset es' \<Longrightarrow> mset (active es) = mset (active es')"
  by (simp add: active_def)

lemma spec_node_mset:
  assumes "mset es = mset es'"
  shows "spec_node sha snapshot_id scope_id es d = spec_node sha snapshot_id scope_id es' d"
proof -
  have same: "mset (own d es) = mset (own d es')" "mset (below d es) = mset (below d es')"
    using active_mset [OF assms] by (simp_all add: own_def below_def)
  moreover have "(\<Sum>e \<leftarrow> own d es. known_bytes e) = (\<Sum>e \<leftarrow> own d es'. known_bytes e)"
    "(\<Sum>e \<leftarrow> below d es. known_bytes e) = (\<Sum>e \<leftarrow> below d es'. known_bytes e)"
    using same by (auto intro: sum_list_mset_cong)
  ultimately show ?thesis
    by (simp add: spec_node_def count_if_mset [OF same(1)] count_if_mset [OF same(2)]
        mset_eq_setD [OF same(1)])
qed

lemma spec_nodes_mset:
  assumes "mset es = mset es'"
    and "\<forall>e \<in> set es. valid_entry e"
  shows "spec_nodes sha snapshot_id scope_id es = spec_nodes sha snapshot_id scope_id es'"
proof -
  have "set (structure_dirs es) = set (structure_dirs es')"
    using mset_eq_setD [OF active_mset [OF assms(1)]] by (simp add: set_structure_dirs)
  moreover have "inj_on path_of (set (structure_dirs es))"
    using assms(2) by (rule add_entries_start) (metis inj_on_dirs_of)
  ultimately have "sort_key path_of (remdups (structure_dirs es))
      = sort_key path_of (remdups (structure_dirs es'))"
    by (intro sort_key_inj_key_eq) (simp_all add: set_eq_iff_mset_remdups_eq)
  then show ?thesis
    unfolding spec_nodes_def by (simp add: spec_node_mset [OF assms(1)])
qed

lemma scope_nodes_Inr:
  assumes "\<forall>e \<in> set es. valid_entry e"
  shows "scope_nodes sha snapshot_id scope_id es = Inr (spec_nodes sha snapshot_id scope_id es)"
  using scope_nodes_spec [OF assms] spec_nodes_mset [of "sort_key location es" es] assms by simp

section \<open>Validation\<close>

text \<open>What \<open>_validate_entries\<close> accepts: every entry belongs to the Snapshot and to a declared
  scope, has a canonical path and no negative size; locations are distinct; and only a
  directory is a scope root or has entries below it.\<close>

definition entry_facts_ok :: "string \<Rightarrow> string list \<Rightarrow> filesystem_entry \<Rightarrow> bool" where
  "entry_facts_ok snapshot_id scope_ids e \<longleftrightarrow>
     e_snapshot_id e = snapshot_id \<and> e_scope_id e \<in> set scope_ids
     \<and> (case valid_path (e_relative_path e) of Inl _ \<Rightarrow> False | Inr _ \<Rightarrow> True)
     \<and> (case e_size_bytes e of None \<Rightarrow> True | Some n \<Rightarrow> 0 \<le> n)"

definition hierarchy_ok :: "filesystem_entry list \<Rightarrow> filesystem_entry \<Rightarrow> bool" where
  "hierarchy_ok es e \<longleftrightarrow>
     (entry_parts e = [] \<longrightarrow> e_object_type e = DIRECTORY)
     \<and> (\<forall>a \<in> set es. e_scope_id a = e_scope_id e \<and> entry_parts a \<noteq> []
          \<and> strict_prefix (entry_parts a) (entry_parts e) \<longrightarrow> e_object_type a = DIRECTORY)"

definition wf_entries :: "string \<Rightarrow> string list \<Rightarrow> filesystem_entry list \<Rightarrow> bool" where
  "wf_entries snapshot_id scope_ids es \<longleftrightarrow>
     (\<forall>e \<in> set es. entry_facts_ok snapshot_id scope_ids e) \<and> distinct (map location es)
     \<and> (\<forall>e \<in> set es. hierarchy_ok es e)"

lemma validate_entry_loop_iff:
  "validate_entry_loop snapshot_id scope_ids es m = Inr m' \<longleftrightarrow>
     (\<forall>e \<in> set es. entry_facts_ok snapshot_id scope_ids e) \<and> distinct (map location es)
     \<and> location ` set es \<inter> fst ` set m = {} \<and> m' = m @ map (\<lambda>e. (location e, e)) es"
proof (induction es arbitrary: m)
  case (Cons e es)
  then show ?case
    by (cases "entry_facts_ok snapshot_id scope_ids e"; cases "location e \<in> fst ` set m")
      (auto simp: entry_facts_ok_def update_fresh image_iff split: sum.splits option.splits)
qed auto

lemma entry_facts_ok_path:
  assumes "entry_facts_ok snapshot_id scope_ids e"
  shows "valid_path (e_relative_path e) = Inr (entry_parts e)"
    "e_relative_path e = path_of (entry_parts e)" "good_parts (entry_parts e)" "valid_entry e"
  using assms valid_path_Inr_iff [of "e_relative_path e" "entry_parts e"]
  by (auto simp: entry_facts_ok_def entry_parts_def valid_entry_def known_regular_size_def
      split: sum.splits option.splits)

lemma check_ancestors_iff:
  assumes facts: "\<forall>e \<in> set es. entry_facts_ok snapshot_id scope_ids e"
    and dist: "distinct (map location es)" and e: "e \<in> set es"
  shows "check_ancestors (map (\<lambda>e. (location e, e)) es) (location e, e) = Inr u \<longleftrightarrow> hierarchy_ok es e"
proof -
  let ?parts = "entry_parts e" and ?m = "map (\<lambda>e. (location e, e)) es"
  note path = entry_facts_ok_path [OF bspec [OF facts]]
  have look: "map_of ?m k = Some a \<longleftrightarrow> a \<in> set es \<and> location a = k" for k a
    using dist by (subst map_of_eq_Some_iff) (auto simp: comp_def)
  have case_look: "(case map_of ?m k of None \<Rightarrow> False | Some ancestor \<Rightarrow> e_object_type ancestor \<noteq> DIRECTORY)
      \<longleftrightarrow> (\<exists>a \<in> set es. location a = k \<and> e_object_type a \<noteq> DIRECTORY)" for k
  proof (cases "map_of ?m k")
    case None
    then have "\<not> (a \<in> set es \<and> location a = k)" for a
      unfolding look [symmetric] by simp
    with None show ?thesis by (auto simp del: map_of_eq_None_iff)
  next
    case (Some a)
    then have "a' \<in> set es \<and> location a' = k \<longleftrightarrow> a' = a" for a'
      unfolding look [symmetric] by auto
    then show ?thesis unfolding Some option.case by metis
  qed
  have loc: "location a = (e_scope_id e, path_of (take len ?parts))
      \<longleftrightarrow> e_scope_id a = e_scope_id e \<and> entry_parts a = take len ?parts" if "a \<in> set es" for a len
    using path(2,3) e that by (simp add: location_def path_of_eq_iff)
  have "(\<exists>len \<in> set [1..<length ?parts].
       case map_of ?m (e_scope_id e, path_of (take len ?parts)) of
         None \<Rightarrow> False | Some ancestor \<Rightarrow> e_object_type ancestor \<noteq> DIRECTORY)
    \<longleftrightarrow> (\<exists>len \<in> {1..<length ?parts}. \<exists>a \<in> set es. e_scope_id a = e_scope_id e
          \<and> entry_parts a = take len ?parts \<and> e_object_type a \<noteq> DIRECTORY)"
    using loc by (simp add: case_look cong: bex_cong_simp)
  also have "\<dots> \<longleftrightarrow> (\<exists>a \<in> set es. e_scope_id a = e_scope_id e \<and> entry_parts a \<noteq> []
       \<and> strict_prefix (entry_parts a) ?parts \<and> e_object_type a \<noteq> DIRECTORY)"
  proof -
    have "(\<exists>len \<in> {1..<length ?parts}. q = take len ?parts) \<longleftrightarrow> q \<noteq> [] \<and> strict_prefix q ?parts" for q
    proof
      assume "q \<noteq> [] \<and> strict_prefix q ?parts"
      then have "q = take (length q) ?parts" "length q \<in> {1..<length ?parts}"
        by (auto simp: strict_prefix_def prefix_def Suc_le_eq)
      then show "\<exists>len \<in> {1..<length ?parts}. q = take len ?parts" by blast
    qed (auto simp: strict_prefix_def take_is_prefix dest: arg_cong [of _ _ length])
    then show ?thesis by blast
  qed
  finally have anc: "(\<exists>len \<in> set [1..<length ?parts].
       case map_of ?m (e_scope_id e, path_of (take len ?parts)) of
         None \<Rightarrow> False | Some ancestor \<Rightarrow> e_object_type ancestor \<noteq> DIRECTORY)
    \<longleftrightarrow> (\<exists>a \<in> set es. e_scope_id a = e_scope_id e \<and> entry_parts a \<noteq> []
       \<and> strict_prefix (entry_parts a) ?parts \<and> e_object_type a \<noteq> DIRECTORY)" .
  have "e_relative_path e = ''.'' \<longleftrightarrow> ?parts = []" using path(2,3) [OF e] by simp
  then show ?thesis
    using path(1) [OF e] anc by (auto simp: check_ancestors_def hierarchy_ok_def location_def)
qed

lemma validate_entries_iff:
  "validate_entries es snapshot_id scope_ids = Inr u \<longleftrightarrow> wf_entries snapshot_id scope_ids es"
proof (cases "(\<forall>e \<in> set es. entry_facts_ok snapshot_id scope_ids e) \<and> distinct (map location es)")
  case True
  then have loop: "validate_entry_loop snapshot_id scope_ids es [] = Inr (map (\<lambda>e. (location e, e)) es)"
    by (simp add: validate_entry_loop_iff)
  have "(\<exists>us. map_result (check_ancestors m) (map (\<lambda>e. (location e, e)) xs) = Inr us)
      \<longleftrightarrow> (\<forall>e \<in> set xs. check_ancestors m (location e, e) = Inr ())" for m xs
    by (induction xs) (auto simp: bind_result_Inr_iff)
  then show ?thesis
    using True check_ancestors_iff [of es snapshot_id scope_ids]
    by (simp add: validate_entries_def loop bind_result_Inr_iff wf_entries_def)
next
  case False
  then have "validate_entry_loop snapshot_id scope_ids es [] \<noteq> Inr m" for m
    by (auto simp: validate_entry_loop_iff)
  with False show ?thesis
    by (auto simp: validate_entries_def bind_result_Inr_iff wf_entries_def)
qed

section \<open>Coverage\<close>

lemma known_size_result:
  "valid_entry e \<Longrightarrow> known_regular_size e =
     Inr (if e_object_type e = REGULAR_FILE \<and> \<not> size_unknown e then Some (known_bytes e) else None)"
  by (auto simp: valid_entry_def known_bytes_def size_unknown_def known_regular_size_def
      split: sum.splits option.splits if_splits)

lemma known_bytes_zero: "\<not> (e_object_type e = REGULAR_FILE \<and> \<not> size_unknown e) \<Longrightarrow> known_bytes e = 0"
  by (auto simp: known_bytes_def size_unknown_def known_regular_size_def)

lemma known_bytes_nonneg: "0 \<le> known_bytes e"
  by (simp add: known_bytes_def known_regular_size_def split: option.splits)

lemma sum_list_filter_zero:
  fixes w :: "'a \<Rightarrow> 'n :: comm_monoid_add"
  shows "(\<And>x. x \<in> set xs \<Longrightarrow> \<not> P x \<Longrightarrow> w x = 0) \<Longrightarrow> (\<Sum>x \<leftarrow> filter P xs. w x) = (\<Sum>x \<leftarrow> xs. w x)"
  by (induction xs) auto

text \<open>What the coverage needs of a group of entries with one object hint: its size, the number
  of its scopes and its references.\<close>

definition hint_groups :: "filesystem_entry list \<Rightarrow> filesystem_entry list list" where
  "hint_groups es = map snd (group_by (\<lambda>e. the (object_hint e))
     (filter (\<lambda>e. object_hint e \<noteq> None) (filter (\<lambda>e. e_object_type e = REGULAR_FILE) (active es))))"

definition group_facts :: "filesystem_entry list \<Rightarrow> nat \<times> nat \<times> snapshot_entry_reference list" where
  "group_facts ms = (length ms, length (remdups (map e_scope_id ms)), ordered_references ms)"

definition unhinted :: "filesystem_entry list \<Rightarrow> filesystem_entry list" where
  "unhinted es = filter (\<lambda>e. object_hint e = None) (filter (\<lambda>e. e_object_type e = REGULAR_FILE) (active es))"

definition spec_limitations :: "filesystem_entry list \<Rightarrow> structure_limitation list" where
  "spec_limitations es =
     map (\<lambda>(_, _, refs). \<lparr>li_code = ''SCOPE_OVERLAP_OBJECT_HINT'', li_entries = refs\<rparr>)
       (filter (\<lambda>(n, k, _). 2 \<le> n \<and> 2 \<le> k) (map group_facts (hint_groups es)))
     @ (if unhinted es \<noteq> [] then
          [\<lparr>li_code = ''OBJECT_HINT_UNAVAILABLE'', li_entries = ordered_references (unhinted es)\<rparr>] else [])"

definition spec_coverage :: "filesystem_entry list \<Rightarrow> structure_coverage_summary" where
  "spec_coverage es =
     \<lparr>cv_total_entry_count = int (length es),
      cv_regular_file_entry_count = count_if (\<lambda>e. e_object_type e = REGULAR_FILE) es,
      cv_known_size_regular_file_count =
        count_if (\<lambda>e. e_object_type e = REGULAR_FILE \<and> \<not> size_unknown e) (active es),
      cv_unknown_size_regular_file_count = count_if size_unknown (active es),
      cv_known_logical_bytes = (\<Sum>e \<leftarrow> active es. known_bytes e),
      cv_directory_entry_count = count_if (\<lambda>e. e_object_type e = DIRECTORY) es,
      cv_symlink_entry_count = count_if (\<lambda>e. e_object_type e = SYMLINK) es,
      cv_special_object_entry_count = count_if is_special es,
      cv_excluded_entry_count = count_if e_excluded es,
      cv_metadata_failed_entry_count = count_if (\<lambda>e. e_observation_status e \<noteq> OBSERVED) (active es),
      cv_scope_overlap_object_hint_count =
        count_if (\<lambda>(n, k, _). 2 \<le> n \<and> 2 \<le> k) (map group_facts (hint_groups es)),
      cv_repeated_known_object_hint_path_count =
        (\<Sum>(n, _, _) \<leftarrow> filter (\<lambda>(n, _, _). 2 \<le> n) (map group_facts (hint_groups es)). int n),
      cv_object_hint_unavailable_entry_count = int (length (unhinted es)),
      cv_complete = (\<forall>e \<in> set (active es). \<not> size_unknown e \<and> e_observation_status e = OBSERVED)\<rparr>"

text \<open>The coverage never raises on valid entries, and it counts what it says.\<close>

lemma coverage_of_spec:
  assumes "\<forall>e \<in> set es. valid_entry e"
  shows "coverage_of es = Inr (spec_coverage es, sort_key limitation_key (spec_limitations es))"
proof -
  let ?known = "\<lambda>e. e_object_type e = REGULAR_FILE \<and> \<not> size_unknown e"
  let ?size = "\<lambda>e. if ?known e then Some (known_bytes e) else None"
  have sizes: "map_result known_regular_size (active es) = Inr (map ?size (active es))"
    using assms by (intro map_result_total known_size_result) (simp add: active_def)
  have zipped: "zip (active es) (map ?size (active es)) = map (\<lambda>e. (e, ?size e)) (active es)"
    by (simp add: zip_map2 zip_same_conv_map)
  have sum: "(\<Sum>e \<leftarrow> filter ?known (active es). known_bytes e) = (\<Sum>e \<leftarrow> active es. known_bytes e)"
    by (rule sum_list_filter_zero) (simp add: known_bytes_zero)
  have known: "filter (\<lambda>(e, sz). sz \<noteq> None) (map (\<lambda>e. (e, ?size e)) xs)
      = map (\<lambda>e. (e, Some (known_bytes e))) (filter ?known xs)" for xs
    by (induction xs) auto
  have unknown: "filter (\<lambda>(e, sz). e_object_type e = REGULAR_FILE \<and> sz = None)
      (map (\<lambda>e. (e, ?size e)) xs) = map (\<lambda>e. (e, None)) (filter size_unknown xs)" for xs
    by (induction xs) (auto simp: size_unknown_def)
  show ?thesis
    unfolding coverage_of_def active_def [symmetric] sizes bind_result_simps zipped Let_def known unknown
      hint_groups_def [symmetric] unhinted_def [symmetric] spec_coverage_def spec_limitations_def
    by (simp add: comp_def count_if_length count_if_map sum filter_empty_conv filter_map group_facts_def
        ball_conj_distrib)
qed

section \<open>The whole result\<close>

definition in_scope :: "string \<Rightarrow> filesystem_entry list \<Rightarrow> filesystem_entry list" where
  "in_scope scope_id es = filter (\<lambda>e. e_scope_id e = scope_id) es"

definition spec_path_nodes :: "(string \<Rightarrow> string) \<Rightarrow> filesystem_snapshot \<Rightarrow> path_aggregate_node list" where
  "spec_path_nodes sha s =
     concat (map (\<lambda>scope_id. spec_nodes sha (s_snapshot_id s) scope_id (in_scope scope_id (s_entries s)))
       (sorted_set (s_scope_ids s)))"

definition spec_summary :: "(string \<Rightarrow> string) \<Rightarrow> filesystem_snapshot \<Rightarrow> string \<Rightarrow> scope_structure_summary" where
  "spec_summary sha s scope_id =
     (let es = active (in_scope scope_id (s_entries s)) in
     \<lparr>ss_snapshot_id = s_snapshot_id s, ss_scope_id = scope_id,
      ss_root_node_id = node_id sha (s_snapshot_id s) scope_id ''.'',
      ss_recursive_regular_file_count = count_if (\<lambda>e. e_object_type e = REGULAR_FILE) es,
      ss_recursive_known_logical_bytes = (\<Sum>e \<leftarrow> es. known_bytes e),
      ss_recursive_unknown_size_regular_count = count_if size_unknown es,
      ss_recursive_directory_count = count_if (\<lambda>e. e_object_type e = DIRECTORY) es,
      ss_recursive_symlink_count = count_if (\<lambda>e. e_object_type e = SYMLINK) es,
      ss_recursive_special_object_count = count_if is_special es\<rparr>)"

lemma below_root [simp]: "below [] es = active es"
  by (simp add: below_def)

lemma wf_entries_valid: "wf_entries sid scope_ids es \<Longrightarrow> \<forall>e \<in> set es. valid_entry e"
  using entry_facts_ok_path(4) by (auto simp: wf_entries_def)

lemma in_scope_valid: "\<forall>e \<in> set es. valid_entry e \<Longrightarrow> \<forall>e \<in> set (in_scope scope_id es). valid_entry e"
  by (simp add: in_scope_def)

lemma spec_nodes_keys:
  assumes "\<forall>e \<in> set es. valid_entry e"
  shows "distinct (map node_key (spec_nodes sha sid scope_id es))"
    "node_key ` set (spec_nodes sha sid scope_id es) = (\<lambda>d. (scope_id, path_of d)) ` set (structure_dirs es)"
    "spec_node sha sid scope_id es [] \<in> set (spec_nodes sha sid scope_id es)"
proof -
  have key: "node_key (spec_node sha sid scope_id es d) = (scope_id, path_of d)" for d
    by (simp add: node_key_def spec_node_def)
  have "inj_on path_of (set (structure_dirs es))"
    using assms by (rule add_entries_start) (metis inj_on_dirs_of)
  then show "distinct (map node_key (spec_nodes sha sid scope_id es))"
    by (simp add: spec_nodes_def distinct_map comp_def key inj_on_def)
  show "node_key ` set (spec_nodes sha sid scope_id es)
      = (\<lambda>d. (scope_id, path_of d)) ` set (structure_dirs es)"
    by (simp add: spec_nodes_def image_image key)
  show "spec_node sha sid scope_id es [] \<in> set (spec_nodes sha sid scope_id es)"
    by (simp add: spec_nodes_def structure_dirs_def)
qed

lemma spec_path_nodes_keys:
  assumes "\<forall>e \<in> set (s_entries s). valid_entry e"
  shows "distinct (map node_key (spec_path_nodes sha s))"
proof -
  let ?ns = "\<lambda>scope_id. spec_nodes sha (s_snapshot_id s) scope_id (in_scope scope_id (s_entries s))"
  note keys = spec_nodes_keys [OF in_scope_valid [OF assms]]
  have "distinct (map node_key (concat (map ?ns scopes)))" if "distinct scopes" for scopes
    using that
  proof (induction scopes)
    case (Cons c scopes)
    have "node_key ` set (?ns c) \<inter> node_key ` (\<Union>c' \<in> set scopes. set (?ns c')) = {}"
      using Cons.prems by (auto simp: image_UN keys(2))
    with Cons keys(1) show ?case by simp
  qed simp
  then show ?thesis by (simp add: spec_path_nodes_def)
qed

lemma scope_summary_spec:
  assumes valid: "\<forall>e \<in> set (s_entries s). valid_entry e" and scope: "scope_id \<in> set (s_scope_ids s)"
  shows "scope_summary (s_snapshot_id s) (dict_of (map (\<lambda>n. (node_key n, n)) (spec_path_nodes sha s))) scope_id
    = Inr (spec_summary sha s scope_id)"
proof -
  let ?es = "in_scope scope_id (s_entries s)"
  let ?rn = "spec_node sha (s_snapshot_id s) scope_id ?es []"
  have "?rn \<in> set (spec_path_nodes sha s)"
    using spec_nodes_keys(3) [OF in_scope_valid [OF valid]] scope
    by (auto simp: spec_path_nodes_def intro!: bexI [of _ scope_id])
  moreover have "node_key ?rn = (scope_id, ''.'')" by (simp add: node_key_def spec_node_def)
  ultimately have "map_of (dict_of (map (\<lambda>n. (node_key n, n)) (spec_path_nodes sha s))) (scope_id, ''.'')
      = Some ?rn"
    using map_of_dict_of_key [OF spec_path_nodes_keys [OF valid], where x = ?rn and g = "\<lambda>n. n"] by simp
  then show ?thesis
    unfolding scope_summary_def option.case
    by (simp only: option.case) (simp add: spec_summary_def spec_node_def Let_def)
qed

lemma sum_scopes:
  fixes w :: "filesystem_entry \<Rightarrow> 'm :: comm_monoid_add"
  assumes "distinct scopes" "\<forall>e \<in> set es. e_scope_id e \<in> set scopes"
  shows "(\<Sum>c \<leftarrow> scopes. \<Sum>e \<leftarrow> active (in_scope c es). w e) = (\<Sum>e \<leftarrow> active es. w e)"
proof -
  have "active (in_scope c es) = filter (\<lambda>e. e_scope_id e = c) (active es)" for c
    by (simp add: active_def in_scope_def conj_commute)
  then show ?thesis
    using sum_list_partition [OF assms(1), of "active es" e_scope_id w] assms(2)
    by (simp add: active_def)
qed

lemma compute_snapshot_structure_spec:
  assumes "wf_entries (s_snapshot_id s) (s_scope_ids s) (s_entries s)"
  shows "\<exists>c ls. coverage_of (s_entries s) = Inr (c, ls)
    \<and> compute_snapshot_structure sha s = Inr (structure_result sha (s_snapshot_id s)
        (map (spec_summary sha s) (sorted_set (s_scope_ids s))) (spec_path_nodes sha s) c ls)"
proof -
  let ?es = "s_entries s" and ?scopes = "sorted_set (s_scope_ids s)"
  note valid = wf_entries_valid [OF assms]
  have v: "validate_entries ?es (s_snapshot_id s) (s_scope_ids s) = Inr ()"
    using assms by (simp add: validate_entries_iff)
  have n: "map_result (\<lambda>scope_id. scope_nodes sha (s_snapshot_id s) scope_id
      (filter (\<lambda>e. e_scope_id e = scope_id) ?es)) ?scopes
    = Inr (map (\<lambda>c. spec_nodes sha (s_snapshot_id s) c (in_scope c ?es)) ?scopes)"
    using in_scope_valid [OF valid]
    by (intro map_result_total) (simp add: scope_nodes_Inr in_scope_def)
  have m: "map_result (scope_summary (s_snapshot_id s)
      (dict_of (map (\<lambda>n. (node_key n, n)) (spec_path_nodes sha s)))) ?scopes
    = Inr (map (spec_summary sha s) ?scopes)"
    using scope_summary_spec [OF valid] by (intro map_result_total) simp
  obtain c ls where c: "coverage_of ?es = Inr (c, ls)"
    "cv_known_logical_bytes c = (\<Sum>e \<leftarrow> active ?es. known_bytes e)"
    using coverage_of_spec [OF valid] by (auto simp: spec_coverage_def)
  have "(\<Sum>s \<leftarrow> map (spec_summary sha s) ?scopes. ss_recursive_known_logical_bytes s)
      = (\<Sum>c \<leftarrow> ?scopes. \<Sum>e \<leftarrow> active (in_scope c ?es). known_bytes e)"
    by (simp add: spec_summary_def comp_def Let_def)
  also have "\<dots> = (\<Sum>e \<leftarrow> active ?es. known_bytes e)"
    using assms by (intro sum_scopes) (auto simp: wf_entries_def entry_facts_ok_def)
  finally show ?thesis
    using c by (simp add: compute_snapshot_structure_def Let_def v n m flip: spec_path_nodes_def)
qed

lemma compute_snapshot_structure_InrD:
  assumes "compute_snapshot_structure sha s = Inr r"
  shows "wf_entries (s_snapshot_id s) (s_scope_ids s) (s_entries s)"
  using assms validate_entries_iff [of "s_entries s" "s_snapshot_id s" "s_scope_ids s" "()"]
  by (auto simp: compute_snapshot_structure_def bind_result_Inr_iff Let_def)

lemma compute_snapshot_structure_parts:
  assumes "compute_snapshot_structure sha s = Inr r"
  obtains c ls where "coverage_of (s_entries s) = Inr (c, ls)"
    "r = structure_result sha (s_snapshot_id s)
        (map (spec_summary sha s) (sorted_set (s_scope_ids s))) (spec_path_nodes sha s) c ls"
  using compute_snapshot_structure_spec [OF compute_snapshot_structure_InrD [OF assms], of sha] assms
  by auto

lemma structure_result_simps [simp]:
  "sr_snapshot_id (structure_result sha sid ss ns c ls) = sid"
  "sr_scope_summaries (structure_result sha sid ss ns c ls) = ss"
  "sr_path_nodes (structure_result sha sid ss ns c ls) = ns"
  "sr_coverage (structure_result sha sid ss ns c ls) = c"
  "sr_limitations (structure_result sha sid ss ns c ls) = ls"
  by (simp_all add: structure_result_def Let_def)

section \<open>Errors\<close>

text \<open>The errors of \<open>_valid_path\<close> and \<open>_validate_entries\<close>.\<close>

definition structure_input_errors :: "string list" where
  "structure_input_errors =
     [''STRUCTURE_INVALID: entry snapshot identity does not match input'',
      ''STRUCTURE_INVALID: entry scope is not declared by Snapshot'',
      ''STRUCTURE_INVALID: relative path must be scope-relative'',
      ''STRUCTURE_INVALID: relative path hierarchy is invalid'',
      ''STRUCTURE_INVALID: duplicate scoped Entry reference'',
      ''STRUCTURE_INVALID: Entry size must be non-negative'',
      ''STRUCTURE_INVALID: non-directory Entry has descendants'',
      ''STRUCTURE_INVALID: scope root Entry must be a directory'']"

definition structure_input_error :: "exn \<Rightarrow> bool" where
  "structure_input_error x \<longleftrightarrow> x \<in> Raise StructureError ` set structure_input_errors"

lemma structure_input_error_simps [simp]:
  "structure_input_error (Raise StructureError ''STRUCTURE_INVALID: entry snapshot identity does not match input'')"
  "structure_input_error (Raise StructureError ''STRUCTURE_INVALID: entry scope is not declared by Snapshot'')"
  "structure_input_error (Raise StructureError ''STRUCTURE_INVALID: relative path must be scope-relative'')"
  "structure_input_error (Raise StructureError ''STRUCTURE_INVALID: relative path hierarchy is invalid'')"
  "structure_input_error (Raise StructureError ''STRUCTURE_INVALID: duplicate scoped Entry reference'')"
  "structure_input_error (Raise StructureError ''STRUCTURE_INVALID: Entry size must be non-negative'')"
  "structure_input_error (Raise StructureError ''STRUCTURE_INVALID: non-directory Entry has descendants'')"
  "structure_input_error (Raise StructureError ''STRUCTURE_INVALID: scope root Entry must be a directory'')"
  by (simp_all add: structure_input_error_def structure_input_errors_def)

lemma valid_path_error: "valid_path p = Inl x \<Longrightarrow> structure_input_error x"
  by (auto simp: valid_path_def parse_path_def Let_def split: if_splits)

lemma validate_entry_loop_error:
  "validate_entry_loop sid scopes es m = Inl x \<Longrightarrow> structure_input_error x"
proof (induction es arbitrary: m)
  case (Cons e es)
  then show ?case
    by (auto simp: bind_result_Inl_iff valid_path_error split: if_splits)
qed simp

lemma check_ancestors_error:
  "check_ancestors m i = Inl x \<Longrightarrow> structure_input_error x"
  by (auto simp: check_ancestors_def bind_result_Inl_iff valid_path_error
      split: prod.splits if_splits)

lemma map_result_InlD: "map_result f xs = Inl x \<Longrightarrow> \<exists>y \<in> set xs. f y = Inl x"
  by (induction xs) (auto simp: bind_result_Inl_iff)

lemma validate_entries_error:
  "validate_entries es sid scopes = Inl x \<Longrightarrow> structure_input_error x"
  by (auto simp: validate_entries_def bind_result_Inl_iff validate_entry_loop_error
      dest!: map_result_InlD check_ancestors_error)

lemma compute_snapshot_structure_error:
  assumes "\<not> wf_entries (s_snapshot_id s) (s_scope_ids s) (s_entries s)"
  shows "\<exists>x. compute_snapshot_structure sha s = Inl x \<and> structure_input_error x"
proof -
  have "validate_entries (s_entries s) (s_snapshot_id s) (s_scope_ids s) \<noteq> Inr ()"
    using assms by (simp add: validate_entries_iff)
  then obtain x where x: "validate_entries (s_entries s) (s_snapshot_id s) (s_scope_ids s) = Inl x"
    by (cases "validate_entries (s_entries s) (s_snapshot_id s) (s_scope_ids s)") auto
  with validate_entries_error [OF x] show ?thesis
    by (simp add: compute_snapshot_structure_def Let_def)
qed


text \<open>C1: refinement. Whenever a structure is computed, its path nodes are, scope by scope in order
  and sorted by path, exactly the nodes obtained by counting for every directory the entries that
  live in it and the entries that live below it, and its scope summaries are the counts over the
  whole scope.\<close>

theorem structure_refines_spec:
  assumes "compute_snapshot_structure sha s = Inr r"
  shows "(sr_path_nodes r = spec_path_nodes sha s)
    \<and> (sr_scope_summaries r = map (spec_summary sha s) (sorted_set (s_scope_ids s)))"
  using assms by (auto elim: compute_snapshot_structure_parts)

definition example_snapshot :: filesystem_snapshot where
  "example_snapshot = plain_snapshot ''s1'' ''t0'' ''t1'' [''home'']
     [plain_entry ''s1'' ''home'' ''a/b.txt'' REGULAR_FILE (Some 5),
      plain_entry ''s1'' ''home'' ''a'' DIRECTORY None,
      plain_entry ''s1'' ''home'' ''c.txt'' REGULAR_FILE (Some 7)]"

lemma example_snapshot_wf:
  "wf_entries (s_snapshot_id example_snapshot) (s_scope_ids example_snapshot) (s_entries example_snapshot)"
  by code_simp

theorem structure_refines_spec_witness:
  "\<exists>r. compute_snapshot_structure (\<lambda>_. ''h'') example_snapshot = Inr r
     \<and> sr_path_nodes r = spec_path_nodes (\<lambda>_. ''h'') example_snapshot
     \<and> map pn_recursive_known_logical_bytes (sr_path_nodes r) = [12, 5]"
proof -
  obtain r where r: "compute_snapshot_structure (\<lambda>_. ''h'') example_snapshot = Inr r"
    using compute_snapshot_structure_spec [OF example_snapshot_wf] by blast
  moreover have "map pn_recursive_known_logical_bytes (spec_path_nodes (\<lambda>_. ''h'') example_snapshot) = [12, 5]"
    by code_simp
  ultimately show ?thesis using structure_refines_spec [OF r, THEN conjunct1] by simp
qed

section \<open>Recursive totals and the children of a node\<close>

definition children_of :: "path_aggregate_node list \<Rightarrow> path_aggregate_node \<Rightarrow> path_aggregate_node list" where
  "children_of ns n = filter (\<lambda>c. pn_scope_id c = pn_scope_id n
     \<and> pn_relative_directory_path c \<noteq> ''.''
     \<and> parent (pn_relative_directory_path c) = Inr (pn_relative_directory_path n)) ns"

lemma filter_concat_one:
  assumes "distinct scopes" "sc \<in> set scopes" "\<And>c n. n \<in> set (F c) \<Longrightarrow> P n \<Longrightarrow> c = sc"
  shows "filter P (concat (map F scopes)) = filter P (F sc)"
proof -
  have "filter P (F c) = []" if "c \<noteq> sc" for c
    using assms(3) that by (auto simp: filter_empty_conv)
  then have none: "filter P (concat (map F cs)) = []" if "sc \<notin> set cs" for cs
    using that by (induction cs) auto
  from assms(1,2) show ?thesis
  proof (induction scopes)
    case (Cons c cs)
    then show ?case using none [of "[c]"] none [of cs] by (cases "c = sc") auto
  qed simp
qed

lemma children_of_spec:
  assumes valid: "\<forall>e \<in> set (s_entries s). valid_entry e"
    and n: "n \<in> set (spec_path_nodes sha s)"
  obtains scope_id d ds nodes where "builders_ok scope_id (in_scope scope_id (s_entries s)) nodes"
    "d \<in> dirs_of nodes" "distinct ds" "set ds = child_dirs (dirs_of nodes) d"
    "n = spec_node sha (s_snapshot_id s) scope_id (in_scope scope_id (s_entries s)) d"
    "children_of (spec_path_nodes sha s) n
      = map (spec_node sha (s_snapshot_id s) scope_id (in_scope scope_id (s_entries s))) ds"
proof -
  let ?spec = "\<lambda>c. spec_node sha (s_snapshot_id s) c (in_scope c (s_entries s))"
  let ?F = "\<lambda>c. spec_nodes sha (s_snapshot_id s) c (in_scope c (s_entries s))"
  have scope: "pn_scope_id n = c" if "n \<in> set (?F c)" for n c
    using that by (auto simp: spec_nodes_def spec_node_def)
  from n obtain sc where sc: "sc \<in> set (s_scope_ids s)" "n \<in> set (?F sc)"
    by (auto simp: spec_path_nodes_def)
  let ?es = "in_scope sc (s_entries s)"
  obtain nodes where nodes: "builders_ok sc ?es nodes" "dirs_of nodes = set (structure_dirs ?es)"
    using in_scope_valid [OF valid] by (rule add_entries_start)
  from sc(2) nodes(2) obtain d where d: "d \<in> dirs_of nodes" "n = ?spec sc d"
    by (auto simp: spec_nodes_def)
  define ds where "ds = filter (\<lambda>c. c \<noteq> [] \<and> butlast c = d) (sort_key path_of (remdups (structure_dirs ?es)))"
  have "children_of (spec_path_nodes sha s) n = filter (\<lambda>c. pn_relative_directory_path c \<noteq> ''.''
      \<and> parent (pn_relative_directory_path c) = Inr (path_of d)) (?F sc)"
    unfolding children_of_def spec_path_nodes_def
    by (subst filter_concat_one [where sc = sc])
      (use sc scope d in \<open>auto simp: spec_node_def intro!: filter_cong\<close>)
  also have "\<dots> = map (?spec sc) ds"
  proof -
    have "path_of c \<noteq> ''.'' \<and> parent (path_of c) = Inr (path_of d) \<longleftrightarrow> c \<noteq> [] \<and> butlast c = d"
      if "c \<in> dirs_of nodes" for c
      using dirs_of_good [OF that] dirs_of_good [OF d(1)] by (simp add: path_of_eq_iff)
    then show ?thesis
      unfolding spec_nodes_def ds_def filter_map comp_def
      by (intro arg_cong [where f = "map (?spec sc)"] filter_cong) (auto simp: spec_node_def nodes(2))
  qed
  finally have "children_of (spec_path_nodes sha s) n = map (?spec sc) ds" .
  moreover have "distinct ds" "set ds = child_dirs (dirs_of nodes) d"
    by (auto simp: ds_def child_dirs_def nodes(2))
  ultimately show thesis using that nodes(1) d by blast
qed

lemma spec_node_rollup:
  assumes ok: "builders_ok scope_id es nodes" "d \<in> dirs_of nodes"
    "distinct ds" "set ds = child_dirs (dirs_of nodes) d"
  shows
    "pn_recursive_regular_file_count (spec_node sha sid scope_id es d) = pn_direct_regular_file_count (spec_node sha sid scope_id es d)
      + (\<Sum>c \<leftarrow> map (spec_node sha sid scope_id es) ds. pn_recursive_regular_file_count c)"
    "pn_recursive_known_logical_bytes (spec_node sha sid scope_id es d) = pn_direct_known_logical_bytes (spec_node sha sid scope_id es d)
      + (\<Sum>c \<leftarrow> map (spec_node sha sid scope_id es) ds. pn_recursive_known_logical_bytes c)"
    "pn_recursive_unknown_size_regular_count (spec_node sha sid scope_id es d) = pn_direct_unknown_size_regular_count (spec_node sha sid scope_id es d)
      + (\<Sum>c \<leftarrow> map (spec_node sha sid scope_id es) ds. pn_recursive_unknown_size_regular_count c)"
    "pn_recursive_directory_count (spec_node sha sid scope_id es d) = pn_direct_directory_count (spec_node sha sid scope_id es d)
      + (\<Sum>c \<leftarrow> map (spec_node sha sid scope_id es) ds. pn_recursive_directory_count c)"
    "pn_recursive_symlink_count (spec_node sha sid scope_id es d) = pn_direct_symlink_count (spec_node sha sid scope_id es d)
      + (\<Sum>c \<leftarrow> map (spec_node sha sid scope_id es) ds. pn_recursive_symlink_count c)"
    "pn_recursive_special_object_count (spec_node sha sid scope_id es d) = pn_direct_special_object_count (spec_node sha sid scope_id es d)
      + (\<Sum>c \<leftarrow> map (spec_node sha sid scope_id es) ds. pn_recursive_special_object_count c)"
  by (simp_all add: spec_node_def comp_def count_below [OF ok] sum_below [OF ok])

text \<open>C3: the roll-up invariant of the published nodes. In a computed structure the recursive
  counters of every node are its direct counters plus the sum of the recursive counters of
  the nodes whose parent path it is.\<close>

theorem structure_rollup:
  assumes "compute_snapshot_structure sha s = Inr r" and "n \<in> set (sr_path_nodes r)"
  shows "(pn_recursive_regular_file_count n = pn_direct_regular_file_count n
      + (\<Sum>c \<leftarrow> children_of (sr_path_nodes r) n. pn_recursive_regular_file_count c))
    \<and> (pn_recursive_known_logical_bytes n = pn_direct_known_logical_bytes n
      + (\<Sum>c \<leftarrow> children_of (sr_path_nodes r) n. pn_recursive_known_logical_bytes c))
    \<and> (pn_recursive_unknown_size_regular_count n = pn_direct_unknown_size_regular_count n
      + (\<Sum>c \<leftarrow> children_of (sr_path_nodes r) n. pn_recursive_unknown_size_regular_count c))
    \<and> (pn_recursive_directory_count n = pn_direct_directory_count n
      + (\<Sum>c \<leftarrow> children_of (sr_path_nodes r) n. pn_recursive_directory_count c))
    \<and> (pn_recursive_symlink_count n = pn_direct_symlink_count n
      + (\<Sum>c \<leftarrow> children_of (sr_path_nodes r) n. pn_recursive_symlink_count c))
    \<and> (pn_recursive_special_object_count n = pn_direct_special_object_count n
      + (\<Sum>c \<leftarrow> children_of (sr_path_nodes r) n. pn_recursive_special_object_count c))"
proof -
  have ns: "sr_path_nodes r = spec_path_nodes sha s"
    using assms(1) by (auto elim: compute_snapshot_structure_parts)
  note valid = wf_entries_valid [OF compute_snapshot_structure_InrD [OF assms(1)]]
  from assms(2) ns have "n \<in> set (spec_path_nodes sha s)" by simp
  then obtain scope_id d ds nodes where
    ok: "builders_ok scope_id (in_scope scope_id (s_entries s)) nodes"
      "d \<in> dirs_of nodes" "distinct ds" "set ds = child_dirs (dirs_of nodes) d"
    and n: "n = spec_node sha (s_snapshot_id s) scope_id (in_scope scope_id (s_entries s)) d"
    and cs: "children_of (spec_path_nodes sha s) n
      = map (spec_node sha (s_snapshot_id s) scope_id (in_scope scope_id (s_entries s))) ds"
    by (rule children_of_spec [OF valid])
  have s1: "pn_recursive_regular_file_count n = pn_direct_regular_file_count n
      + (\<Sum>c \<leftarrow> children_of (sr_path_nodes r) n. pn_recursive_regular_file_count c)"
    unfolding ns cs unfolding n by (rule spec_node_rollup [OF ok])
  have s2: "pn_recursive_known_logical_bytes n = pn_direct_known_logical_bytes n
      + (\<Sum>c \<leftarrow> children_of (sr_path_nodes r) n. pn_recursive_known_logical_bytes c)"
    unfolding ns cs unfolding n by (rule spec_node_rollup [OF ok])
  have s3: "pn_recursive_unknown_size_regular_count n = pn_direct_unknown_size_regular_count n
      + (\<Sum>c \<leftarrow> children_of (sr_path_nodes r) n. pn_recursive_unknown_size_regular_count c)"
    unfolding ns cs unfolding n by (rule spec_node_rollup [OF ok])
  have s4: "pn_recursive_directory_count n = pn_direct_directory_count n
      + (\<Sum>c \<leftarrow> children_of (sr_path_nodes r) n. pn_recursive_directory_count c)"
    unfolding ns cs unfolding n by (rule spec_node_rollup [OF ok])
  have s5: "pn_recursive_symlink_count n = pn_direct_symlink_count n
      + (\<Sum>c \<leftarrow> children_of (sr_path_nodes r) n. pn_recursive_symlink_count c)"
    unfolding ns cs unfolding n by (rule spec_node_rollup [OF ok])
  have s6: "pn_recursive_special_object_count n = pn_direct_special_object_count n
      + (\<Sum>c \<leftarrow> children_of (sr_path_nodes r) n. pn_recursive_special_object_count c)"
    unfolding ns cs unfolding n by (rule spec_node_rollup [OF ok])
  show ?thesis using s1 s2 s3 s4 s5 s6 by blast
qed

theorem structure_rollup_witness:
  "\<exists>r n. compute_snapshot_structure (\<lambda>_. ''h'') example_snapshot = Inr r \<and> n \<in> set (sr_path_nodes r)
     \<and> pn_recursive_known_logical_bytes n = 12
     \<and> pn_recursive_known_logical_bytes n = pn_direct_known_logical_bytes n
         + (\<Sum>c \<leftarrow> children_of (sr_path_nodes r) n. pn_recursive_known_logical_bytes c)"
proof -
  let ?n = "hd (spec_path_nodes (\<lambda>_. ''h'') example_snapshot)"
  obtain r where r: "compute_snapshot_structure (\<lambda>_. ''h'') example_snapshot = Inr r"
    "sr_path_nodes r = spec_path_nodes (\<lambda>_. ''h'') example_snapshot"
    using compute_snapshot_structure_spec [OF example_snapshot_wf, of "\<lambda>_. ''h''"] by auto
  have "spec_path_nodes (\<lambda>_. ''h'') example_snapshot \<noteq> [] \<and> pn_recursive_known_logical_bytes ?n = 12"
    by code_simp
  then have n: "?n \<in> set (sr_path_nodes r)" "pn_recursive_known_logical_bytes ?n = 12"
    using r(2) by auto
  show ?thesis using r(1) n structure_rollup [OF r(1) n(1), THEN conjunct2, THEN conjunct1] by blast
qed

section \<open>Independence of the order of the entries\<close>

lemma mset_group_by_members:
  "image_mset F (mset (map snd (group_by f xs)))
     = image_mset (\<lambda>k. F (filter (\<lambda>x. f x = k) xs)) (mset_set (f ` set xs))"
proof -
  let ?g = "\<lambda>k. (k, filter (\<lambda>x. f x = k) xs)"
  have "distinct (group_by f xs)"
    using group_by_wf [of f xs] by (simp add: dict_wf_def distinct_map)
  then have "mset (group_by f xs) = mset_set (set (group_by f xs))"
    by (simp add: mset_set_set)
  also have "set (group_by f xs) = ?g ` f ` set xs"
    by (auto simp: mem_group_by)
  also have "mset_set (?g ` f ` set xs) = image_mset ?g (mset_set (f ` set xs))"
    by (simp add: inj_on_def image_mset_mset_set)
  finally show ?thesis by (simp add: multiset.map_comp comp_def)
qed

lemma mset_group_by_cong:
  assumes "mset xs = mset ys" "\<And>as bs. mset as = mset bs \<Longrightarrow> F as = F bs"
  shows "image_mset F (mset (map snd (group_by f xs))) = image_mset F (mset (map snd (group_by f ys)))"
  unfolding mset_group_by_members using assms mset_eq_setD [OF assms(1)]
  by (auto intro!: image_mset_cong)

lemma limitation_key_inject [simp]: "limitation_key l = limitation_key l' \<longleftrightarrow> l = l'"
proof
  assume same: "limitation_key l = limitation_key l'"
  have "inj reference_key" by (simp add: inj_def)
  with same show "l = l'" by (cases l; cases l') (auto simp: limitation_key_def map_injective)
qed simp

lemma group_facts_mset:
  assumes "mset as = mset bs"
  shows "group_facts as = group_facts bs"
  using mset_eq_length [OF assms] mset_eq_setD [OF assms] ordered_references_mset [OF assms]
  by (simp add: group_facts_def length_remdups_card_conv)

lemma hint_group_facts_mset:
  assumes "mset es = mset es'"
  shows "mset (map group_facts (hint_groups es)) = mset (map group_facts (hint_groups es'))"
proof -
  let ?hinted = "\<lambda>es. filter (\<lambda>e. object_hint e \<noteq> None) (filter (\<lambda>e. e_object_type e = REGULAR_FILE) (active es))"
  have "mset (?hinted es) = mset (?hinted es')"
    using active_mset [OF assms] by simp
  then have "image_mset group_facts (mset (map snd (group_by (\<lambda>e. the (object_hint e)) (?hinted es))))
      = image_mset group_facts (mset (map snd (group_by (\<lambda>e. the (object_hint e)) (?hinted es'))))"
    by (rule mset_group_by_cong) (rule group_facts_mset)
  then show ?thesis unfolding hint_groups_def mset_map [of group_facts] .
qed

lemma spec_limitations_mset:
  assumes "mset es = mset es'"
  shows "mset (spec_limitations es) = mset (spec_limitations es')"
proof -
  have "mset (unhinted es) = mset (unhinted es')"
    using active_mset [OF assms] by (simp add: unhinted_def)
  then have "unhinted es = [] \<longleftrightarrow> unhinted es' = []"
    "ordered_references (unhinted es) = ordered_references (unhinted es')"
    by (metis mset_zero_iff, metis ordered_references_mset)
  then show ?thesis
    using hint_group_facts_mset [OF assms] by (simp add: spec_limitations_def del: mset_map) simp
qed

lemma spec_coverage_mset:
  assumes "mset es = mset es'"
  shows "spec_coverage es = spec_coverage es'"
proof -
  note act = active_mset [OF assms] and groups = hint_group_facts_mset [OF assms]
  have "mset (unhinted es) = mset (unhinted es')" using act by (simp add: unhinted_def)
  then have "length (unhinted es) = length (unhinted es')" by (rule mset_eq_length)
  moreover have "(\<Sum>(n, _, _) \<leftarrow> filter (\<lambda>(n, _, _). 2 \<le> n) (map group_facts (hint_groups es)). int n)
      = (\<Sum>(n, _, _) \<leftarrow> filter (\<lambda>(n, _, _). 2 \<le> n) (map group_facts (hint_groups es')). int n)"
    using groups by (intro sum_list_mset_cong) (simp del: mset_map)
  moreover have "(\<Sum>e \<leftarrow> active es. known_bytes e) = (\<Sum>e \<leftarrow> active es'. known_bytes e)"
    using act by (rule sum_list_mset_cong)
  ultimately show ?thesis
    unfolding spec_coverage_def
    by (simp only: count_if_mset [OF assms] count_if_mset [OF act] count_if_mset [OF groups]
        mset_eq_length [OF assms] mset_eq_setD [OF act])
qed

lemma coverage_of_mset:
  assumes "mset es = mset es'" and "\<forall>e \<in> set es. valid_entry e"
  shows "coverage_of es = coverage_of es'"
proof -
  have "\<forall>e \<in> set es'. valid_entry e" using assms mset_eq_setD by metis
  moreover have "sort_key limitation_key (spec_limitations es) = sort_key limitation_key (spec_limitations es')"
    using spec_limitations_mset [OF assms(1)] by (intro sort_key_inj_key_eq) (simp_all add: inj_on_def)
  ultimately show ?thesis
    using assms by (simp add: coverage_of_spec spec_coverage_mset [OF assms(1)])
qed

lemma wf_entries_mset:
  assumes "mset es = mset es'"
  shows "wf_entries sid scopes es \<longleftrightarrow> wf_entries sid scopes es'"
proof -
  have "mset (map location es) = mset (map location es')" using assms by simp
  then have "distinct (map location es) \<longleftrightarrow> distinct (map location es')"
    by (rule mset_eq_imp_distinct_iff)
  then show ?thesis
    using mset_eq_setD [OF assms] by (simp add: wf_entries_def hierarchy_ok_def)
qed

text \<open>C12: determinism. The structure of a Snapshot, digests and identifiers included, does not depend
  on the order in which its entries are listed, and neither does whether the input is accepted.\<close>

theorem structure_order_independent:
  assumes "mset es' = mset (s_entries s)"
  shows "compute_snapshot_structure sha (s\<lparr>s_entries := es'\<rparr>) = Inr r
     \<longleftrightarrow> compute_snapshot_structure sha s = Inr r"
proof (cases "wf_entries (s_snapshot_id s) (s_scope_ids s) (s_entries s)")
  case True
  let ?s = "s\<lparr>s_entries := es'\<rparr>"
  have wf: "wf_entries (s_snapshot_id ?s) (s_scope_ids ?s) (s_entries ?s)"
    using True wf_entries_mset [OF assms] by simp
  note valid = wf_entries_valid [OF wf] wf_entries_valid [OF True]
  have scoped: "mset (in_scope c es') = mset (in_scope c (s_entries s))" for c
    using assms by (simp add: in_scope_def)
  have "spec_path_nodes sha ?s = spec_path_nodes sha s"
    using in_scope_valid [OF valid(1)] by (simp add: spec_path_nodes_def spec_nodes_mset [OF scoped])
  moreover have "spec_summary sha ?s = spec_summary sha s"
  proof
    fix c
    note act = active_mset [OF scoped [of c]]
    show "spec_summary sha ?s c = spec_summary sha s c"
      by (simp add: spec_summary_def Let_def count_if_mset [OF act] sum_list_mset_cong [OF act])
  qed
  moreover have "coverage_of es' = coverage_of (s_entries s)"
    using assms valid(1) by (intro coverage_of_mset) simp_all
  ultimately show ?thesis
    using compute_snapshot_structure_spec [OF wf, of sha] compute_snapshot_structure_spec [OF True, of sha]
    by auto
next
  case False
  moreover have "\<not> wf_entries (s_snapshot_id s) (s_scope_ids s) es'"
    using False wf_entries_mset [OF assms] by simp
  ultimately show ?thesis
    using compute_snapshot_structure_InrD [of sha s r]
      compute_snapshot_structure_InrD [of sha "s\<lparr>s_entries := es'\<rparr>" r] by auto
qed

theorem structure_order_independent_witness:
  "\<exists>r. compute_snapshot_structure (\<lambda>_. ''h'')
         (example_snapshot\<lparr>s_entries := rev (s_entries example_snapshot)\<rparr>) = Inr r
     \<and> compute_snapshot_structure (\<lambda>_. ''h'') example_snapshot = Inr r"
proof -
  obtain r where r: "compute_snapshot_structure (\<lambda>_. ''h'') example_snapshot = Inr r"
    using compute_snapshot_structure_spec [OF example_snapshot_wf] by blast
  then show ?thesis
    using structure_order_independent [of "rev (s_entries example_snapshot)" example_snapshot] by auto
qed

text \<open>The coverage of a computed structure partitions the entries: regular files are of known
  size, of unknown size or excluded; every entry is a regular file, a directory, a symbolic link or
  a special object; the known logical bytes are the sum of the scope totals; and the coverage is
  complete exactly when no active entry failed to be observed or lacks a size.\<close>

lemma structure_coverage_partition:
  assumes "compute_snapshot_structure sha s = Inr r"
  shows "(cv_known_size_regular_file_count (sr_coverage r) + cv_unknown_size_regular_file_count (sr_coverage r)
      + count_if (\<lambda>e. e_excluded e \<and> e_object_type e = REGULAR_FILE) (s_entries s)
      = cv_regular_file_entry_count (sr_coverage r))
    \<and> (cv_regular_file_entry_count (sr_coverage r) + cv_directory_entry_count (sr_coverage r)
      + cv_symlink_entry_count (sr_coverage r) + cv_special_object_entry_count (sr_coverage r)
      = cv_total_entry_count (sr_coverage r))
    \<and> ((\<Sum>m \<leftarrow> sr_scope_summaries r. ss_recursive_known_logical_bytes m)
      = cv_known_logical_bytes (sr_coverage r))
    \<and> (cv_complete (sr_coverage r) \<longleftrightarrow> cv_unknown_size_regular_file_count (sr_coverage r) = 0
      \<and> cv_metadata_failed_entry_count (sr_coverage r) = 0)"
proof -
  note wf = compute_snapshot_structure_InrD [OF assms]
  note valid = wf_entries_valid [OF wf]
  have r: "sr_coverage r = spec_coverage (s_entries s)"
    "sr_scope_summaries r = map (spec_summary sha s) (sorted_set (s_scope_ids s))"
    using assms coverage_of_spec [OF valid] by (auto elim!: compute_snapshot_structure_parts)
  have "count_if (\<lambda>e. e_object_type e = REGULAR_FILE \<and> \<not> size_unknown e) (active es)
      + count_if size_unknown (active es) + count_if (\<lambda>e. e_excluded e \<and> e_object_type e = REGULAR_FILE) es
      = count_if (\<lambda>e. e_object_type e = REGULAR_FILE) es" for es
    by (induction es) (auto simp: size_unknown_def)
  then have s1: "cv_known_size_regular_file_count (sr_coverage r) + cv_unknown_size_regular_file_count (sr_coverage r)
      + count_if (\<lambda>e. e_excluded e \<and> e_object_type e = REGULAR_FILE) (s_entries s)
      = cv_regular_file_entry_count (sr_coverage r)"
    by (simp add: r spec_coverage_def)
  have "count_if (\<lambda>e. e_object_type e = REGULAR_FILE) es + count_if (\<lambda>e. e_object_type e = DIRECTORY) es
      + count_if (\<lambda>e. e_object_type e = SYMLINK) es + count_if is_special es = int (length es)" for es
    by (induction es) (auto simp: is_special_def)
  then have s2: "cv_regular_file_entry_count (sr_coverage r) + cv_directory_entry_count (sr_coverage r)
      + cv_symlink_entry_count (sr_coverage r) + cv_special_object_entry_count (sr_coverage r)
      = cv_total_entry_count (sr_coverage r)"
    by (simp add: r spec_coverage_def)
  have "(\<Sum>c \<leftarrow> sorted_set (s_scope_ids s). \<Sum>e \<leftarrow> active (in_scope c (s_entries s)). known_bytes e)
      = (\<Sum>e \<leftarrow> active (s_entries s). known_bytes e)"
    using wf by (intro sum_scopes) (auto simp: wf_entries_def entry_facts_ok_def)
  then have s3: "(\<Sum>m \<leftarrow> sr_scope_summaries r. ss_recursive_known_logical_bytes m)
      = cv_known_logical_bytes (sr_coverage r)"
    by (simp add: r spec_coverage_def spec_summary_def Let_def comp_def)
  have s4: "cv_complete (sr_coverage r) \<longleftrightarrow> cv_unknown_size_regular_file_count (sr_coverage r) = 0
      \<and> cv_metadata_failed_entry_count (sr_coverage r) = 0"
    by (auto simp: r spec_coverage_def count_if_length filter_empty_conv)
  show ?thesis using s1 s2 s3 s4 by blast
qed

end
