(* ===== verification/Storage_Growth_Correct.thy ===== *)
theory Storage_Growth_Correct
  imports Storage_Growth Storage_Structure_Correct
begin

text \<open>
  Correctness of \<open>storage_growth.py\<close>. Every regular location has a kind and a delta, read off
  the two Snapshots directly; \<open>spec_growth_node\<close> sums them over the locations in and below a
  directory. The builders and the roll-up compute exactly these nodes, both accounting
  identities hold for them, so on valid Snapshots the computation never raises.
\<close>

section \<open>Metrics as a commutative monoid\<close>

instantiation unit :: comm_monoid_add
begin

definition zero_unit :: unit where "0 = ()"
definition plus_unit :: "unit \<Rightarrow> unit \<Rightarrow> unit" where "a + b = ()"

instance by standard simp_all

end

instantiation metrics_ext :: (comm_monoid_add) comm_monoid_add
begin

definition zero_metrics_ext :: "'a metrics_ext" where
  "0 = \<lparr>m_known_net_logical_delta = 0,
        m_added_logical_bytes = 0,
        m_added_location_count = 0,
        m_removed_logical_bytes = 0,
        m_removed_location_count = 0,
        m_same_location_increase_bytes = 0,
        m_same_location_increase_count = 0,
        m_same_location_decrease_bytes = 0,
        m_same_location_decrease_count = 0,
        m_same_location_unchanged_count = 0,
        m_unknown_size_contribution_count = 0, \<dots> = 0\<rparr>"

definition plus_metrics_ext :: "'a metrics_ext \<Rightarrow> 'a metrics_ext \<Rightarrow> 'a metrics_ext" where
  "a + b = \<lparr>m_known_net_logical_delta = m_known_net_logical_delta a + m_known_net_logical_delta b,
        m_added_logical_bytes = m_added_logical_bytes a + m_added_logical_bytes b,
        m_added_location_count = m_added_location_count a + m_added_location_count b,
        m_removed_logical_bytes = m_removed_logical_bytes a + m_removed_logical_bytes b,
        m_removed_location_count = m_removed_location_count a + m_removed_location_count b,
        m_same_location_increase_bytes = m_same_location_increase_bytes a + m_same_location_increase_bytes b,
        m_same_location_increase_count = m_same_location_increase_count a + m_same_location_increase_count b,
        m_same_location_decrease_bytes = m_same_location_decrease_bytes a + m_same_location_decrease_bytes b,
        m_same_location_decrease_count = m_same_location_decrease_count a + m_same_location_decrease_count b,
        m_same_location_unchanged_count = m_same_location_unchanged_count a + m_same_location_unchanged_count b,
        m_unknown_size_contribution_count = m_unknown_size_contribution_count a + m_unknown_size_contribution_count b,
        \<dots> = metrics.more a + metrics.more b\<rparr>"

instance
proof
  fix a b c :: "'a metrics_ext"
  show "a + b + c = a + (b + c)" by (simp add: plus_metrics_ext_def add.assoc)
  show "a + b = b + a" by (simp add: plus_metrics_ext_def add.commute)
  show "0 + a = a" by (cases a) (simp add: plus_metrics_ext_def zero_metrics_ext_def)
qed

end

lemma metrics_add_plus [simp]: "metrics_add a b = a + b"
  by (simp add: metrics_add_def plus_metrics_ext_def plus_unit_def)

lemma no_metrics_zero [simp]: "no_metrics = 0"
  by (simp add: no_metrics_def zero_metrics_ext_def zero_unit_def)

lemma metrics_simps [simp]:
  "m_known_net_logical_delta (0 :: metrics) = 0"
  "m_known_net_logical_delta (a + b) = m_known_net_logical_delta a + m_known_net_logical_delta b"
  "m_added_logical_bytes (0 :: metrics) = 0"
  "m_added_logical_bytes (a + b) = m_added_logical_bytes a + m_added_logical_bytes b"
  "m_added_location_count (0 :: metrics) = 0"
  "m_added_location_count (a + b) = m_added_location_count a + m_added_location_count b"
  "m_removed_logical_bytes (0 :: metrics) = 0"
  "m_removed_logical_bytes (a + b) = m_removed_logical_bytes a + m_removed_logical_bytes b"
  "m_removed_location_count (0 :: metrics) = 0"
  "m_removed_location_count (a + b) = m_removed_location_count a + m_removed_location_count b"
  "m_same_location_increase_bytes (0 :: metrics) = 0"
  "m_same_location_increase_bytes (a + b) = m_same_location_increase_bytes a + m_same_location_increase_bytes b"
  "m_same_location_increase_count (0 :: metrics) = 0"
  "m_same_location_increase_count (a + b) = m_same_location_increase_count a + m_same_location_increase_count b"
  "m_same_location_decrease_bytes (0 :: metrics) = 0"
  "m_same_location_decrease_bytes (a + b) = m_same_location_decrease_bytes a + m_same_location_decrease_bytes b"
  "m_same_location_decrease_count (0 :: metrics) = 0"
  "m_same_location_decrease_count (a + b) = m_same_location_decrease_count a + m_same_location_decrease_count b"
  "m_same_location_unchanged_count (0 :: metrics) = 0"
  "m_same_location_unchanged_count (a + b) = m_same_location_unchanged_count a + m_same_location_unchanged_count b"
  "m_unknown_size_contribution_count (0 :: metrics) = 0"
  "m_unknown_size_contribution_count (a + b) = m_unknown_size_contribution_count a + m_unknown_size_contribution_count b"
  for a b :: metrics
  by (simp_all add: zero_metrics_ext_def plus_metrics_ext_def)

lemma add_all_sum [simp]: "add_all m ms = m + sum_list ms"
  unfolding add_all_def by (induction ms arbitrary: m) (simp_all add: add.assoc)

lemma metrics_sum_list:
  "m_known_net_logical_delta (\<Sum>x \<leftarrow> xs. f x) = (\<Sum>x \<leftarrow> xs. m_known_net_logical_delta (f x))"
  "m_added_logical_bytes (\<Sum>x \<leftarrow> xs. f x) = (\<Sum>x \<leftarrow> xs. m_added_logical_bytes (f x))"
  "m_added_location_count (\<Sum>x \<leftarrow> xs. f x) = (\<Sum>x \<leftarrow> xs. m_added_location_count (f x))"
  "m_removed_logical_bytes (\<Sum>x \<leftarrow> xs. f x) = (\<Sum>x \<leftarrow> xs. m_removed_logical_bytes (f x))"
  "m_removed_location_count (\<Sum>x \<leftarrow> xs. f x) = (\<Sum>x \<leftarrow> xs. m_removed_location_count (f x))"
  "m_same_location_increase_bytes (\<Sum>x \<leftarrow> xs. f x) = (\<Sum>x \<leftarrow> xs. m_same_location_increase_bytes (f x))"
  "m_same_location_increase_count (\<Sum>x \<leftarrow> xs. f x) = (\<Sum>x \<leftarrow> xs. m_same_location_increase_count (f x))"
  "m_same_location_decrease_bytes (\<Sum>x \<leftarrow> xs. f x) = (\<Sum>x \<leftarrow> xs. m_same_location_decrease_bytes (f x))"
  "m_same_location_decrease_count (\<Sum>x \<leftarrow> xs. f x) = (\<Sum>x \<leftarrow> xs. m_same_location_decrease_count (f x))"
  "m_same_location_unchanged_count (\<Sum>x \<leftarrow> xs. f x) = (\<Sum>x \<leftarrow> xs. m_same_location_unchanged_count (f x))"
  "m_unknown_size_contribution_count (\<Sum>x \<leftarrow> xs. f x) = (\<Sum>x \<leftarrow> xs. m_unknown_size_contribution_count (f x))"
  for f :: "'x \<Rightarrow> metrics"
  by (induction xs) simp_all

section \<open>The builders of a scope\<close>

definition regular_home :: "string \<times> string \<Rightarrow> string list" where
  "regular_home l = (case valid_path (snd l) of Inl _ \<Rightarrow> [] | Inr parts \<Rightarrow> butlast parts)"

definition located_at :: "located_contribution \<Rightarrow> string \<times> string" where
  "located_at c = (lc_scope_id c, lc_relative_path c)"

abbreviation share :: "located_contribution \<Rightarrow> metrics" where
  "share c \<equiv> metrics_for (lc_contribution c)"

definition linked :: "string list set \<Rightarrow> string list set \<Rightarrow> growth_builders \<Rightarrow> bool" where
  "linked D L builders \<longleftrightarrow> dict_wf builders \<and> fst ` set builders = path_of ` D
     \<and> (\<forall>d \<in> D. \<exists>b. map_of builders (path_of d) = Some b \<and> gb_direct b = 0
          \<and> set (gb_children b) = path_of ` {c \<in> L. c \<noteq> [] \<and> butlast c = d})"

lemma linked_fresh: "set ps = path_of ` D \<Longrightarrow> linked D {} (fresh_builders ps)"
  by (auto simp: linked_def fresh_builders_def keys_dict_of image_image map_of_dict_of_const)

lemma link_children_ok:
  assumes "\<forall>d \<in> D. good_parts d" "parent_closed D" "linked D L builders" "set ds \<subseteq> D"
  shows "\<exists>builders'. link_children (map path_of ds) builders = Inr builders'
    \<and> linked D (L \<union> set ds) builders'"
  using assms(3,4)
proof (induction ds arbitrary: L builders)
  case (Cons d ds)
  have good: "good_parts d" using Cons.prems(2) assms(1) by simp
  show ?case
  proof (cases "d = []")
    case True
    then have "{c \<in> insert d L. c \<noteq> [] \<and> butlast c = q} = {c \<in> L. c \<noteq> [] \<and> butlast c = q}" for q
      by auto
    then have "linked D (insert d L) builders"
      using Cons.prems(1) by (simp add: linked_def)
    from Cons.IH [OF this] Cons.prems(2) True show ?thesis by simp
  next
    case False
    let ?f = "\<lambda>b. b\<lparr>gb_children := List.insert (path_of d) (gb_children b)\<rparr>"
    let ?builders = "AList.map_entry (path_of (butlast d)) ?f builders"
    have up: "butlast d \<in> D"
      using Cons.prems(2) assms(2) False by (simp add: parent_closed_def)
    then obtain b where b: "map_of builders (path_of (butlast d)) = Some b"
      using Cons.prems(1) by (auto simp: linked_def)
    have "\<exists>b. map_of ?builders (path_of q) = Some b \<and> gb_direct b = 0
        \<and> set (gb_children b) = path_of ` {c \<in> insert d L. c \<noteq> [] \<and> butlast c = q}"
      if q: "q \<in> D" for q
    proof -
      obtain bq where bq: "map_of builders (path_of q) = Some bq" "gb_direct bq = 0"
        "set (gb_children bq) = path_of ` {c \<in> L. c \<noteq> [] \<and> butlast c = q}"
        using Cons.prems(1) q by (auto simp: linked_def)
      show ?thesis
      proof (cases "q = butlast d")
        case True
        then have "{c \<in> insert d L. c \<noteq> [] \<and> butlast c = q} = insert d {c \<in> L. c \<noteq> [] \<and> butlast c = q}"
          using False by auto
        with True bq show ?thesis by (simp add: map_of_map_entry)
      next
        case neq: False
        then have "{c \<in> insert d L. c \<noteq> [] \<and> butlast c = q} = {c \<in> L. c \<noteq> [] \<and> butlast c = q}"
          by auto
        moreover have "path_of q \<noteq> path_of (butlast d)"
          using neq q up assms(1) by (simp add: path_of_eq_iff)
        ultimately show ?thesis using bq by (simp add: map_of_map_entry)
      qed
    qed
    then have "linked D (insert d L) ?builders"
      using Cons.prems(1) by (simp add: linked_def)
    from Cons.IH [OF this] Cons.prems(2) show ?thesis
      using False good b by simp
  qed
qed simp

definition filled :: "string \<Rightarrow> string list set \<Rightarrow> located_contribution list \<Rightarrow> growth_builders \<Rightarrow> bool" where
  "filled scope_id D cs builders \<longleftrightarrow>
     tree_dict gb_children builders \<and> dirs_of builders = D
     \<and> (\<forall>d \<in> D. \<forall>b. map_of builders (path_of d) = Some b \<longrightarrow>
          gb_direct b = (\<Sum>c \<leftarrow> filter (\<lambda>c. lc_scope_id c = scope_id \<and> regular_home (located_at c) = d) cs. share c))"

lemma linked_filled:
  assumes "\<forall>d \<in> D. good_parts d" "parent_closed D" "[] \<in> D" "linked D D builders"
  shows "filled scope_id D [] builders"
proof -
  have "d \<in> D" if "good_parts d" "path_of d \<in> path_of ` D" for d
    using that assms(1) by (auto simp: path_of_eq_iff)
  then have dirs: "dirs_of builders = D"
    using assms(1,4) by (auto simp: dirs_of_def linked_def)
  have at: "set (gb_children b) = path_of ` child_dirs D d \<and> gb_direct b = 0"
    if "d \<in> D" "map_of builders (path_of d) = Some b" for d b
    using assms(4) that by (auto simp: linked_def child_dirs_def)
  have "tree_dict gb_children builders"
    unfolding tree_dict_def dirs using assms(2,3,4) at by (simp add: linked_def)
  then show ?thesis
    unfolding filled_def using dirs at by simp
qed

text \<open>A contribution can be added when its path is valid and its parent is there.\<close>

definition addable :: "string \<Rightarrow> string list set \<Rightarrow> located_contribution \<Rightarrow> bool" where
  "addable scope_id D c \<longleftrightarrow> lc_scope_id c = scope_id \<longrightarrow>
     (\<exists>parts. valid_path (lc_relative_path c) = Inr parts \<and> butlast parts \<in> D)"

lemma add_contributions_ok:
  assumes "filled scope_id D cs0 builders" "\<forall>c \<in> set cs. addable scope_id D c"
  shows "\<exists>builders'. add_contributions scope_id cs builders = Inr builders'
    \<and> filled scope_id D (cs0 @ cs) builders'"
  using assms
proof (induction cs arbitrary: cs0 builders)
  case (Cons c cs)
  show ?case
  proof (cases "lc_scope_id c = scope_id")
    case False
    then have "filled scope_id D (cs0 @ [c]) builders" using Cons.prems(1) by (simp add: filled_def)
    from Cons.IH [OF this] Cons.prems(2) False show ?thesis by simp
  next
    case True
    then obtain parts where parts: "valid_path (lc_relative_path c) = Inr parts" "butlast parts \<in> D"
      using Cons.prems(2) by (auto simp: addable_def)
    then have home: "regular_home (located_at c) = butlast parts"
      by (simp add: regular_home_def located_at_def)
    have up: "parent (lc_relative_path c) = Inr (path_of (butlast parts))"
      using parts(1) by (simp add: parent_def)
    have D: "dirs_of builders = D" using Cons.prems(1) by (simp add: filled_def)
    then obtain b where b: "map_of builders (path_of (butlast parts)) = Some b"
      using parts(2) dirs_of_lookup by blast
    let ?f = "\<lambda>b. b\<lparr>gb_direct := metrics_add (gb_direct b) (share c)\<rparr>"
    let ?builders = "AList.map_entry (path_of (butlast parts)) ?f builders"
    have direct: "gb_direct b' = (\<Sum>c \<leftarrow> filter (\<lambda>c. lc_scope_id c = scope_id
        \<and> regular_home (located_at c) = d) (cs0 @ [c]). share c)"
      if d: "d \<in> D" and b': "map_of ?builders (path_of d) = Some b'" for d b'
    proof (cases "d = butlast parts")
      case True
      with b' b have "b' = ?f b" by (simp add: map_of_map_entry)
      moreover have "gb_direct b = (\<Sum>c \<leftarrow> filter (\<lambda>c. lc_scope_id c = scope_id
        \<and> regular_home (located_at c) = d) cs0. share c)"
        using Cons.prems(1) d b True by (simp add: filled_def)
      ultimately show ?thesis using True \<open>lc_scope_id c = scope_id\<close> home by simp
    next
      case False
      then have "path_of d \<noteq> path_of (butlast parts)"
        using d parts(2) D dirs_of_good by (metis path_of_eq_iff)
      with b' have "map_of builders (path_of d) = Some b'" by (simp add: map_of_map_entry)
      with Cons.prems(1) d False home show ?thesis by (simp add: filled_def)
    qed
    have "filled scope_id D (cs0 @ [c]) ?builders"
      unfolding filled_def
    proof (intro conjI ballI allI impI)
      show "tree_dict gb_children ?builders"
        using Cons.prems(1) by (intro tree_dict_map_entry) (simp_all add: filled_def)
      show "dirs_of ?builders = D" using D by simp
    qed (rule direct)
    from Cons.IH [OF this] Cons.prems(2) obtain builders' where
      "add_contributions scope_id cs ?builders = Inr builders'"
      "filled scope_id D (cs0 @ c # cs) builders'" by auto
    moreover have "add_contributions scope_id (c # cs) builders = add_contributions scope_id cs ?builders"
      unfolding add_contributions.simps up bind_result_simps b option.case using True by simp
    ultimately show ?thesis by simp
  qed
qed simp

section \<open>What a location contributes\<close>

definition bytes_at :: "filesystem_snapshot \<Rightarrow> string \<times> string \<Rightarrow> int" where
  "bytes_at s l = (case map_of (regular_entries s) l of None \<Rightarrow> 0 | Some e \<Rightarrow> known_bytes e)"

definition location_kind :: "filesystem_snapshot \<Rightarrow> filesystem_snapshot \<Rightarrow> string \<times> string \<Rightarrow>
    growth_contribution_kind" where
  "location_kind base target l =
     (case (map_of (regular_entries base) l, map_of (regular_entries target) l) of
        (None, None) \<Rightarrow> SIZE_UNKNOWN
      | (None, Some t) \<Rightarrow> if size_unknown t then SIZE_UNKNOWN else ADDED_LOCATION
      | (Some b, None) \<Rightarrow> if size_unknown b then SIZE_UNKNOWN else REMOVED_LOCATION
      | (Some b, Some t) \<Rightarrow>
          if size_unknown b \<or> size_unknown t then SIZE_UNKNOWN
          else if known_bytes t > known_bytes b then SAME_LOCATION_SIZE_INCREASE
          else if known_bytes t < known_bytes b then SAME_LOCATION_SIZE_DECREASE
          else SAME_LOCATION_SIZE_UNCHANGED)"

definition location_delta :: "filesystem_snapshot \<Rightarrow> filesystem_snapshot \<Rightarrow> string \<times> string \<Rightarrow> int" where
  "location_delta base target l = bytes_at target l - bytes_at base l"

definition growth_locations :: "filesystem_snapshot \<Rightarrow> filesystem_snapshot \<Rightarrow> (string \<times> string) list" where
  "growth_locations base target =
     sorted_set (map fst (regular_entries base) @ map fst (regular_entries target))"

definition spec_contribution :: "(string \<Rightarrow> string) \<Rightarrow> filesystem_snapshot \<Rightarrow> filesystem_snapshot \<Rightarrow>
    string \<times> string \<Rightarrow> growth_contribution" where
  "spec_contribution sha base target l =
     (let kind = location_kind base target l
      in contribution sha kind (map_of (regular_entries base) l) (map_of (regular_entries target) l)
           (if kind = SIZE_UNKNOWN then None else Some (location_delta base target l))
           (if kind = SIZE_UNKNOWN then [''SIZE_COVERAGE_INCOMPLETE''] else []))"

definition spec_located :: "(string \<Rightarrow> string) \<Rightarrow> filesystem_snapshot \<Rightarrow> filesystem_snapshot \<Rightarrow>
    string \<times> string \<Rightarrow> located_contribution" where
  "spec_located sha base target l =
     \<lparr>lc_scope_id = fst l, lc_relative_path = snd l, lc_contribution = spec_contribution sha base target l\<rparr>"

text \<open>The metrics of a list of locations: sums of deltas and counts by kind.\<close>

definition spec_metrics :: "filesystem_snapshot \<Rightarrow> filesystem_snapshot \<Rightarrow> (string \<times> string) list \<Rightarrow> metrics" where
  "spec_metrics base target ls =
     (let kind = location_kind base target; delta = location_delta base target
      in \<lparr>m_known_net_logical_delta = (\<Sum>l \<leftarrow> filter (\<lambda>l. kind l \<noteq> SIZE_UNKNOWN) ls. delta l),
          m_added_logical_bytes = (\<Sum>l \<leftarrow> filter (\<lambda>l. kind l = ADDED_LOCATION) ls. delta l),
          m_added_location_count = count_if (\<lambda>l. kind l = ADDED_LOCATION) ls,
          m_removed_logical_bytes = (\<Sum>l \<leftarrow> filter (\<lambda>l. kind l = REMOVED_LOCATION) ls. - delta l),
          m_removed_location_count = count_if (\<lambda>l. kind l = REMOVED_LOCATION) ls,
          m_same_location_increase_bytes =
            (\<Sum>l \<leftarrow> filter (\<lambda>l. kind l = SAME_LOCATION_SIZE_INCREASE) ls. delta l),
          m_same_location_increase_count = count_if (\<lambda>l. kind l = SAME_LOCATION_SIZE_INCREASE) ls,
          m_same_location_decrease_bytes =
            (\<Sum>l \<leftarrow> filter (\<lambda>l. kind l = SAME_LOCATION_SIZE_DECREASE) ls. - delta l),
          m_same_location_decrease_count = count_if (\<lambda>l. kind l = SAME_LOCATION_SIZE_DECREASE) ls,
          m_same_location_unchanged_count = count_if (\<lambda>l. kind l = SAME_LOCATION_SIZE_UNCHANGED) ls,
          m_unknown_size_contribution_count = count_if (\<lambda>l. kind l = SIZE_UNKNOWN) ls\<rparr>)"

lemma spec_metrics_Nil [simp]: "spec_metrics base target [] = 0"
  by (simp add: spec_metrics_def zero_metrics_ext_def zero_unit_def)

lemma spec_metrics_Cons:
  "spec_metrics base target (l # ls) = spec_metrics base target [l] + spec_metrics base target ls"
  unfolding spec_metrics_def Let_def by (simp add: plus_metrics_ext_def plus_unit_def)

lemma sum_spec_metrics: "(\<Sum>l \<leftarrow> ls. spec_metrics base target [l]) = spec_metrics base target ls"
proof (induction ls)
  case (Cons l ls)
  then show ?case using spec_metrics_Cons [of base target l ls] by simp
qed simp

lemma regular_entries_SomeD:
  assumes "map_of (regular_entries s) l = Some e"
  shows "e \<in> set (s_entries s)" "\<not> e_excluded e" "e_object_type e = REGULAR_FILE" "location e = l"
  using assms by (auto simp: regular_entries_def map_of_dict_of dest!: map_of_SomeD)

lemma optional_size_ok:
  assumes "\<forall>e \<in> set (s_entries s). valid_entry e"
  shows "optional_size (map_of (regular_entries s) l) =
     Inr (case map_of (regular_entries s) l of None \<Rightarrow> None
          | Some e \<Rightarrow> if size_unknown e then None else Some (known_bytes e))"
  using assms known_size_result regular_entries_SomeD
  by (cases "map_of (regular_entries s) l") (auto simp: optional_size_def)

lemma optional_size_Some:
  assumes "\<forall>e \<in> set (s_entries s). valid_entry e" "map_of (regular_entries s) l = Some e"
  shows "optional_size (Some e) = Inr (if size_unknown e then None else Some (known_bytes e))"
  using optional_size_ok [OF assms(1), of l] assms(2) by simp

lemma growth_locations_known:
  "l \<in> set (growth_locations base target) \<longleftrightarrow>
     map_of (regular_entries base) l \<noteq> None \<or> map_of (regular_entries target) l \<noteq> None"
  by (simp add: growth_locations_def map_of_eq_None_iff)

lemma locate_ok:
  assumes "\<forall>e \<in> set (s_entries base). valid_entry e" "\<forall>e \<in> set (s_entries target). valid_entry e"
    and "l \<in> set (growth_locations base target)"
  shows "locate sha (regular_entries base) (regular_entries target) l = Inr (spec_located sha base target l)"
proof -
  have "classify sha (map_of (regular_entries base) l) (map_of (regular_entries target) l)
      = Inr (spec_contribution sha base target l)"
    using assms(3) unfolding growth_locations_known
    by (cases "map_of (regular_entries base) l"; cases "map_of (regular_entries target) l")
      (simp_all add: classify_def optional_size_Some [OF assms(1), where l = l] optional_size_Some [OF assms(2), where l = l]
        optional_size_def [of None]
        spec_contribution_def location_kind_def location_delta_def bytes_at_def Let_def)
  then show ?thesis by (simp add: locate_def spec_located_def)
qed

lemma spec_located_simps [simp]:
  "lc_scope_id (spec_located sha base target l) = fst l"
  "lc_relative_path (spec_located sha base target l) = snd l"
  "located_at (spec_located sha base target l) = l"
  "gc_kind (lc_contribution (spec_located sha base target l)) = location_kind base target l"
  "gc_known_byte_delta (lc_contribution (spec_located sha base target l))
     = (if location_kind base target l = SIZE_UNKNOWN then None else Some (location_delta base target l))"
  by (simp_all add: spec_located_def located_at_def spec_contribution_def contribution_def Let_def)

lemma unchanged_delta:
  "location_kind base target l = SAME_LOCATION_SIZE_UNCHANGED \<Longrightarrow> location_delta base target l = 0"
  by (auto simp: location_kind_def location_delta_def bytes_at_def split: option.splits if_splits)

lemma share_spec: "share (spec_located sha base target l) = spec_metrics base target [l]"
  using unchanged_delta [of base target l]
  by (cases "location_kind base target l")
    (simp_all add: metrics_for_def spec_metrics_def Let_def zero_metrics_ext_def)

section \<open>What a node is to hold\<close>

definition growth_dirs :: "filesystem_snapshot \<Rightarrow> filesystem_snapshot \<Rightarrow> string \<Rightarrow> string list list" where
  "growth_dirs base target scope_id =
     structure_dirs (in_scope scope_id (s_entries base))
     @ structure_dirs (in_scope scope_id (s_entries target))"

definition own_locations :: "filesystem_snapshot \<Rightarrow> filesystem_snapshot \<Rightarrow> string \<Rightarrow> string list \<Rightarrow>
    (string \<times> string) list" where
  "own_locations base target scope_id d =
     filter (\<lambda>l. fst l = scope_id \<and> regular_home l = d) (growth_locations base target)"

definition below_locations :: "filesystem_snapshot \<Rightarrow> filesystem_snapshot \<Rightarrow> string \<Rightarrow> string list \<Rightarrow>
    (string \<times> string) list" where
  "below_locations base target scope_id d =
     filter (\<lambda>l. fst l = scope_id \<and> prefix d (regular_home l)) (growth_locations base target)"

definition spec_growth_node :: "(string \<Rightarrow> string) \<Rightarrow> filesystem_snapshot \<Rightarrow> filesystem_snapshot \<Rightarrow>
    string \<Rightarrow> string list \<Rightarrow> path_growth_node" where
  "spec_growth_node sha base target scope_id d =
     (let direct = spec_metrics base target (own_locations base target scope_id d);
          recursive = spec_metrics base target (below_locations base target scope_id d)
      in \<lparr>gn_growth_node_id = growth_node_id sha (s_snapshot_id base) (s_snapshot_id target) scope_id (path_of d),
          gn_base_snapshot_id = s_snapshot_id base,
          gn_target_snapshot_id = s_snapshot_id target,
          gn_scope_id = scope_id,
          gn_relative_directory_path = path_of d,
          gn_direct_base_known_logical_bytes = (\<Sum>e \<leftarrow> own d (in_scope scope_id (s_entries base)). known_bytes e),
          gn_recursive_base_known_logical_bytes = (\<Sum>e \<leftarrow> below d (in_scope scope_id (s_entries base)). known_bytes e),
          gn_direct_target_known_logical_bytes = (\<Sum>e \<leftarrow> own d (in_scope scope_id (s_entries target)). known_bytes e),
          gn_recursive_target_known_logical_bytes = (\<Sum>e \<leftarrow> below d (in_scope scope_id (s_entries target)). known_bytes e),
          gn_direct_known_net_logical_delta = m_known_net_logical_delta direct,
          gn_recursive_known_net_logical_delta = m_known_net_logical_delta recursive,
          gn_direct_added_logical_bytes = m_added_logical_bytes direct,
          gn_recursive_added_logical_bytes = m_added_logical_bytes recursive,
          gn_direct_added_location_count = m_added_location_count direct,
          gn_recursive_added_location_count = m_added_location_count recursive,
          gn_direct_removed_logical_bytes = m_removed_logical_bytes direct,
          gn_recursive_removed_logical_bytes = m_removed_logical_bytes recursive,
          gn_direct_removed_location_count = m_removed_location_count direct,
          gn_recursive_removed_location_count = m_removed_location_count recursive,
          gn_direct_same_location_increase_bytes = m_same_location_increase_bytes direct,
          gn_recursive_same_location_increase_bytes = m_same_location_increase_bytes recursive,
          gn_direct_same_location_increase_count = m_same_location_increase_count direct,
          gn_recursive_same_location_increase_count = m_same_location_increase_count recursive,
          gn_direct_same_location_decrease_bytes = m_same_location_decrease_bytes direct,
          gn_recursive_same_location_decrease_bytes = m_same_location_decrease_bytes recursive,
          gn_direct_same_location_decrease_count = m_same_location_decrease_count direct,
          gn_recursive_same_location_decrease_count = m_same_location_decrease_count recursive,
          gn_direct_same_location_unchanged_count = m_same_location_unchanged_count direct,
          gn_recursive_same_location_unchanged_count = m_same_location_unchanged_count recursive,
          gn_direct_unknown_size_contribution_count = m_unknown_size_contribution_count direct,
          gn_recursive_unknown_size_contribution_count = m_unknown_size_contribution_count recursive,
          gn_decomposition_complete = (m_unknown_size_contribution_count recursive = 0)\<rparr>)"

definition spec_growth_nodes :: "(string \<Rightarrow> string) \<Rightarrow> filesystem_snapshot \<Rightarrow> filesystem_snapshot \<Rightarrow>
    string \<Rightarrow> path_growth_node list" where
  "spec_growth_nodes sha base target scope_id =
     map (spec_growth_node sha base target scope_id)
       (sort_key path_of (remdups (growth_dirs base target scope_id)))"

lemma recursive_metrics_spec:
  "recursive_metrics (spec_growth_node sha base target c d)
     = spec_metrics base target (below_locations base target c d)"
  by (simp add: recursive_metrics_def spec_growth_node_def Let_def)

definition growth_ok :: "filesystem_snapshot \<Rightarrow> bool" where
  "growth_ok s \<longleftrightarrow> wf_entries (s_snapshot_id s) (s_scope_ids s) (s_entries s)"

lemma growth_ok_valid: "growth_ok s \<Longrightarrow> \<forall>e \<in> set (s_entries s). valid_entry e"
  unfolding growth_ok_def by (rule wf_entries_valid)

text \<open>The structure nodes that the growth looks up.\<close>

lemma keys_spec_path_nodes:
  assumes "growth_ok s"
  shows "node_key ` set (spec_path_nodes sha s)
    = {(c, path_of d) |c d. c \<in> set (s_scope_ids s) \<and> d \<in> set (structure_dirs (in_scope c (s_entries s)))}"
proof -
  let ?F = "\<lambda>c. spec_nodes sha (s_snapshot_id s) c (in_scope c (s_entries s))"
  have "node_key ` set (spec_path_nodes sha s) = (\<Union>c \<in> set (s_scope_ids s). node_key ` set (?F c))"
    by (simp add: spec_path_nodes_def image_UN)
  also have "\<dots> = (\<Union>c \<in> set (s_scope_ids s).
      (\<lambda>d. (c, path_of d)) ` set (structure_dirs (in_scope c (s_entries s))))"
    by (simp only: spec_nodes_keys(2) [OF in_scope_valid [OF growth_ok_valid [OF assms]]])
  finally show ?thesis by blast
qed

lemma dirs_good:
  assumes "growth_ok s" "d \<in> set (structure_dirs (in_scope c (s_entries s)))"
  shows "good_parts d"
proof -
  have "\<forall>e \<in> set (in_scope c (s_entries s)). valid_entry e"
    by (rule in_scope_valid [OF growth_ok_valid [OF assms(1)]])
  then obtain nodes where "add_entries c (in_scope c (s_entries s)) [(''.'', new_builder c ''.'')] = Inr nodes"
    "builders_ok c (in_scope c (s_entries s)) nodes"
    "dirs_of nodes = set (structure_dirs (in_scope c (s_entries s)))"
    by (rule add_entries_start [where scope_id = c])
  with assms(2) show ?thesis using dirs_of_good by blast
qed

lemma structure_nodes_lookup:
  assumes ok: "growth_ok s" and r: "sr_path_nodes r = spec_path_nodes sha s" and good: "good_parts d"
  shows "map_of (structure_nodes r) (c, path_of d) =
    (if c \<in> set (s_scope_ids s) \<and> d \<in> set (structure_dirs (in_scope c (s_entries s)))
     then Some (spec_node sha (s_snapshot_id s) c (in_scope c (s_entries s)) d) else None)"
proof (cases "c \<in> set (s_scope_ids s) \<and> d \<in> set (structure_dirs (in_scope c (s_entries s)))")
  case True
  let ?n = "spec_node sha (s_snapshot_id s) c (in_scope c (s_entries s)) d"
  have "?n \<in> set (spec_path_nodes sha s)"
    using True by (auto simp: spec_path_nodes_def spec_nodes_def intro!: bexI [of _ c])
  moreover have "node_key ?n = (c, path_of d)" by (simp add: node_key_def spec_node_def)
  ultimately show ?thesis
    using True map_of_dict_of_key [OF spec_path_nodes_keys [OF growth_ok_valid [OF ok]],
        where x = ?n and g = "\<lambda>n. n"]
    by (simp add: structure_nodes_def r)
next
  case False
  then have "(c, path_of d) \<notin> node_key ` set (spec_path_nodes sha s)"
    using dirs_good [OF ok] good by (auto simp: keys_spec_path_nodes [OF ok] path_of_eq_iff)
  then have "(c, path_of d) \<notin> fst ` set (structure_nodes r)"
    by (simp add: structure_nodes_def r keys_dict_of image_image)
  with False show ?thesis by (auto simp: map_of_eq_None_iff)
qed

lemma below_outside:
  assumes "d \<notin> set (structure_dirs es)"
  shows "own d es = []" "below d es = []"
  using assms by (auto simp: own_def below_def set_structure_dirs filter_empty_conv)

lemma in_scope_undeclared:
  assumes "growth_ok s" "c \<notin> set (s_scope_ids s)"
  shows "in_scope c (s_entries s) = []"
  using assms by (auto simp: growth_ok_def wf_entries_def entry_facts_ok_def in_scope_def filter_empty_conv)

lemma structure_nodes_bytes:
  assumes ok: "growth_ok s" and r: "sr_path_nodes r = spec_path_nodes sha s" and good: "good_parts d"
  shows "(case map_of (structure_nodes r) (c, path_of d) of None \<Rightarrow> 0
        | Some n \<Rightarrow> pn_direct_known_logical_bytes n) = (\<Sum>e \<leftarrow> own d (in_scope c (s_entries s)). known_bytes e)"
    and "(case map_of (structure_nodes r) (c, path_of d) of None \<Rightarrow> 0
        | Some n \<Rightarrow> pn_recursive_known_logical_bytes n) = (\<Sum>e \<leftarrow> below d (in_scope c (s_entries s)). known_bytes e)"
  unfolding structure_nodes_lookup [OF ok r good]
  using below_outside [of d "in_scope c (s_entries s)"] in_scope_undeclared [OF ok, of c]
  by (auto simp: spec_node_def own_def below_def)

lemma set_scope_paths:
  assumes "growth_ok base" "sr_path_nodes br = spec_path_nodes sha base"
    and "growth_ok target" "sr_path_nodes tr = spec_path_nodes sha target"
  shows "set (scope_paths (structure_nodes br) (structure_nodes tr) c) = path_of ` set (growth_dirs base target c)"
proof -
  have keys: "snd ` {k \<in> fst ` set (structure_nodes r). fst k = c} \<union> {''.''}
      = path_of ` set (structure_dirs (in_scope c (s_entries s)))"
    if "growth_ok s" "sr_path_nodes r = spec_path_nodes sha s" for s r
  proof -
    have "fst ` set (structure_nodes r)
        = {(c, path_of d) |c d. c \<in> set (s_scope_ids s) \<and> d \<in> set (structure_dirs (in_scope c (s_entries s)))}"
      using keys_spec_path_nodes [OF that(1), of sha]
      by (simp add: structure_nodes_def that(2) keys_dict_of image_image)
    moreover have "structure_dirs (in_scope c (s_entries s)) = [[]]" if "c \<notin> set (s_scope_ids s)"
      using in_scope_undeclared [OF \<open>growth_ok s\<close> that] by (simp add: structure_dirs_def)
    moreover have "[] \<in> set (structure_dirs (in_scope c (s_entries s)))"
      by (simp add: structure_dirs_def)
    ultimately show ?thesis
      by (cases "c \<in> set (s_scope_ids s)") (force simp: image_iff)+
  qed
  have "set (scope_paths (structure_nodes br) (structure_nodes tr) c)
      = (snd ` {k \<in> fst ` set (structure_nodes br). fst k = c} \<union> {''.''})
        \<union> (snd ` {k \<in> fst ` set (structure_nodes tr). fst k = c} \<union> {''.''})"
    by (auto simp: scope_paths_def)
  then show ?thesis
    unfolding keys [OF assms(1,2)] keys [OF assms(3,4)] by (simp add: growth_dirs_def image_Un)
qed

section \<open>The accounting identities\<close>

lemma spec_metrics_balanced:
  "m_known_net_logical_delta (spec_metrics base target ls) =
     m_added_logical_bytes (spec_metrics base target ls) - m_removed_logical_bytes (spec_metrics base target ls)
     + m_same_location_increase_bytes (spec_metrics base target ls)
     - m_same_location_decrease_bytes (spec_metrics base target ls)"
proof (induction ls)
  case (Cons l ls)
  have "m_known_net_logical_delta (spec_metrics base target [l]) =
     m_added_logical_bytes (spec_metrics base target [l]) - m_removed_logical_bytes (spec_metrics base target [l])
     + m_same_location_increase_bytes (spec_metrics base target [l])
     - m_same_location_decrease_bytes (spec_metrics base target [l])"
    using unchanged_delta [of base target l]
    by (cases "location_kind base target l") (simp_all add: spec_metrics_def Let_def)
  with Cons show ?case by (simp add: spec_metrics_Cons [of base target l ls])
qed simp

lemma spec_metrics_known:
  assumes "m_unknown_size_contribution_count (spec_metrics base target ls) = 0"
  shows "m_known_net_logical_delta (spec_metrics base target ls)
    = (\<Sum>l \<leftarrow> ls. bytes_at target l) - (\<Sum>l \<leftarrow> ls. bytes_at base l)"
proof -
  have "filter (\<lambda>l. location_kind base target l = SIZE_UNKNOWN) ls = []"
    using assms by (simp add: spec_metrics_def Let_def count_if_length)
  then have "filter (\<lambda>l. location_kind base target l \<noteq> SIZE_UNKNOWN) ls = ls"
    by (simp add: filter_empty_conv filter_id_conv)
  moreover have "(\<Sum>l \<leftarrow> ls. location_delta base target l)
      = (\<Sum>l \<leftarrow> ls. bytes_at target l) - (\<Sum>l \<leftarrow> ls. bytes_at base l)"
    by (induction ls) (simp_all add: location_delta_def)
  ultimately show ?thesis by (simp add: spec_metrics_def Let_def)
qed

text \<open>Bytes summed over entries and over locations agree.\<close>

definition regulars :: "filesystem_snapshot \<Rightarrow> filesystem_entry list" where
  "regulars s = filter (\<lambda>e. \<not> e_excluded e \<and> e_object_type e = REGULAR_FILE) (s_entries s)"

lemma regular_entries_location:
  assumes "growth_ok s" "e \<in> set (regulars s)"
  shows "map_of (regular_entries s) (location e) = Some e"
proof -
  have "distinct (map location (s_entries s))" using assms(1) by (simp add: growth_ok_def wf_entries_def)
  then have "distinct (map location (regulars s))"
    unfolding regulars_def by (rule distinct_map_filter)
  then show ?thesis
    using map_of_dict_of_key [OF _ assms(2), of location "\<lambda>e. e"]
    by (simp add: regular_entries_def regulars_def)
qed

lemma sum_regular_locations:
  assumes ok: "growth_ok s" and L: "distinct L" "fst ` set (regular_entries s) \<subseteq> set L"
  shows "(\<Sum>e \<leftarrow> filter (\<lambda>e. P (location e)) (regulars s). known_bytes e) = (\<Sum>l \<leftarrow> filter P L. bytes_at s l)"
proof -
  let ?es = "filter (\<lambda>e. P (location e)) (regulars s)"
  have dist: "distinct (map location ?es)"
    using ok unfolding growth_ok_def wf_entries_def regulars_def by (intro distinct_map_filter) simp
  have bytes: "bytes_at s (location e) = known_bytes e" if "e \<in> set ?es" for e
    using that regular_entries_location [OF ok] by (simp add: bytes_at_def)
  have keys: "fst ` set (regular_entries s) = location ` set (regulars s)"
    by (simp add: regular_entries_def regulars_def keys_dict_of image_image)
  have "(\<Sum>e \<leftarrow> ?es. known_bytes e) = (\<Sum>l \<leftarrow> map location ?es. bytes_at s l)"
    unfolding map_map comp_def by (intro arg_cong [where f = sum_list] map_cong) (auto simp: bytes)
  also have "\<dots> = sum (bytes_at s) (set (map location ?es))"
    by (rule sum_list_distinct_conv_sum_set [OF dist])
  also have "\<dots> = sum (bytes_at s) (set (filter P L))"
  proof (rule sum.mono_neutral_left)
    show "set (map location ?es) \<subseteq> set (filter P L)" using L(2) keys by auto
    show "\<forall>l \<in> set (filter P L) - set (map location ?es). bytes_at s l = 0"
    proof
      fix l assume l: "l \<in> set (filter P L) - set (map location ?es)"
      then have "l \<notin> fst ` set (regular_entries s)" using keys by auto
      then show "bytes_at s l = 0" by (simp add: bytes_at_def map_of_eq_None_iff [THEN iffD2])
    qed
  qed simp
  also have "\<dots> = (\<Sum>l \<leftarrow> filter P L. bytes_at s l)"
    using L(1) by (simp add: sum_list_distinct_conv_sum_set)
  finally show ?thesis .
qed

lemma home_regular: "e_object_type e = REGULAR_FILE \<Longrightarrow> home e = regular_home (location e)"
  by (simp add: home_def entry_parts_def regular_home_def location_def split: sum.split)

lemma distinct_growth_locations [simp]: "distinct (growth_locations base target)"
  by (simp add: growth_locations_def)

lemma sum_below_locations:
  assumes ok: "growth_ok s" and s: "s = base \<or> s = target"
  shows "(\<Sum>e \<leftarrow> below d (in_scope c (s_entries s)). known_bytes e)
    = (\<Sum>l \<leftarrow> below_locations base target c d. bytes_at s l)"
proof -
  let ?P = "\<lambda>l. fst l = c \<and> prefix d (regular_home l)"
  have "(\<Sum>e \<leftarrow> below d (in_scope c (s_entries s)). known_bytes e)
      = (\<Sum>e \<leftarrow> filter (\<lambda>e. e_object_type e = REGULAR_FILE) (below d (in_scope c (s_entries s))). known_bytes e)"
    by (rule sum_list_filter_zero [symmetric]) (simp add: known_bytes_def known_regular_size_def)
  also have "filter (\<lambda>e. e_object_type e = REGULAR_FILE) (below d (in_scope c (s_entries s)))
      = filter (\<lambda>e. ?P (location e)) (regulars s)"
    by (auto simp: below_def active_def in_scope_def regulars_def home_regular location_def
        intro!: filter_cong)
  also have "(\<Sum>e \<leftarrow> filter (\<lambda>e. ?P (location e)) (regulars s). known_bytes e)
      = (\<Sum>l \<leftarrow> filter ?P (growth_locations base target). bytes_at s l)"
    using s by (intro sum_regular_locations [OF ok]) (auto simp: growth_locations_def)
  finally show ?thesis by (simp add: below_locations_def)
qed

text \<open>Both checks of \<open>build\<close> pass on the specified node.\<close>

lemma check_node_spec:
  assumes "growth_ok base" "growth_ok target"
  shows "check_node (spec_growth_node sha base target c d) = Inr (spec_growth_node sha base target c d)"
proof -
  let ?m = "spec_metrics base target (below_locations base target c d)"
  have "m_unknown_size_contribution_count ?m = 0 \<Longrightarrow> m_known_net_logical_delta ?m =
      (\<Sum>e \<leftarrow> below d (in_scope c (s_entries target)). known_bytes e)
      - (\<Sum>e \<leftarrow> below d (in_scope c (s_entries base)). known_bytes e)"
    using spec_metrics_known [of base target "below_locations base target c d"]
      sum_below_locations [OF assms(1), of base target d c] sum_below_locations [OF assms(2), of base target d c]
    by simp
  then show ?thesis
    using spec_metrics_balanced [of base target "below_locations base target c d"]
    by (simp add: check_node_def spec_growth_node_def Let_def)
qed

section \<open>The nodes of a scope\<close>

interpretation growth_tree:
  directory_tree "tree_dict gb_children" dirs_of "sorted_kids gb_children"
  by (rule tree_dict_directory_tree)

lemma parent_closed_structure_dirs: "parent_closed (set (structure_dirs es))"
  unfolding parent_closed_def
proof (intro ballI impI)
  fix d assume "d \<in> set (structure_dirs es)" "d \<noteq> []"
  then obtain e where e: "e \<in> set (active es)" "prefix d (home e)"
    by (auto simp: set_structure_dirs)
  have "prefix (butlast d) (home e)"
    by (rule prefix_order.trans [OF prefixeq_butlast e(2)])
  with e(1) show "butlast d \<in> set (structure_dirs es)" by (auto simp: set_structure_dirs)
qed

lemma parent_closed_Un: "parent_closed A \<Longrightarrow> parent_closed B \<Longrightarrow> parent_closed (A \<union> B)"
  by (auto simp: parent_closed_def)

lemma growth_dirs_ok:
  assumes "growth_ok base" "growth_ok target"
  shows "\<forall>d \<in> set (growth_dirs base target c). good_parts d"
    "parent_closed (set (growth_dirs base target c))" "[] \<in> set (growth_dirs base target c)"
proof -
  show "\<forall>d \<in> set (growth_dirs base target c). good_parts d"
    using dirs_good [OF assms(1)] dirs_good [OF assms(2)] by (auto simp: growth_dirs_def)
  show "parent_closed (set (growth_dirs base target c))"
    by (simp add: growth_dirs_def parent_closed_Un parent_closed_structure_dirs)
  show "[] \<in> set (growth_dirs base target c)"
    by (simp add: growth_dirs_def set_structure_dirs)
qed

lemma spec_located_addable:
  assumes "growth_ok base" "growth_ok target" "l \<in> set (growth_locations base target)"
  shows "addable c (set (growth_dirs base target c)) (spec_located sha base target l)"
proof -
  have entry: "\<exists>parts. valid_path (snd l) = Inr parts \<and> butlast parts \<in> set (structure_dirs (in_scope (fst l) (s_entries s)))"
    if "growth_ok s" "map_of (regular_entries s) l = Some e" for s e
  proof -
    note e = regular_entries_SomeD [OF that(2)]
    have facts: "entry_facts_ok (s_snapshot_id s) (s_scope_ids s) e"
      using that(1) e(1) by (simp add: growth_ok_def wf_entries_def)
    have l: "fst l = e_scope_id e" "snd l = e_relative_path e" using e(4) by (auto simp: location_def)
    have "e \<in> set (active (in_scope (fst l) (s_entries s)))"
      using e l by (simp add: active_def in_scope_def)
    moreover have "home e = butlast (entry_parts e)" using e(3) by (simp add: home_def)
    ultimately have "butlast (entry_parts e) \<in> set (structure_dirs (in_scope (fst l) (s_entries s)))"
      unfolding set_structure_dirs by (metis (no_types, lifting) UN_I in_set_prefixes insertCI prefix_order.order_refl)
    then show ?thesis using entry_facts_ok_path(1) [OF facts] l by auto
  qed
  show ?thesis
    using assms(3) entry assms(1,2) unfolding growth_locations_known addable_def
    by (fastforce simp: growth_dirs_def)
qed

lemma scope_builders:
  assumes "growth_ok base" "sr_path_nodes br = spec_path_nodes sha base"
    and "growth_ok target" "sr_path_nodes tr = spec_path_nodes sha target"
  obtains linked builders where
    "link_children (scope_paths (structure_nodes br) (structure_nodes tr) c)
       (fresh_builders (scope_paths (structure_nodes br) (structure_nodes tr) c)) = Inr linked"
    "add_contributions c (map (spec_located sha base target) (growth_locations base target)) linked = Inr builders"
    "filled c (set (growth_dirs base target c))
       (map (spec_located sha base target) (growth_locations base target)) builders"
proof -
  let ?D = "set (growth_dirs base target c)"
  let ?ps = "scope_paths (structure_nodes br) (structure_nodes tr) c"
  note dirs = growth_dirs_ok [OF assms(1,3), of c]
  have ps: "set ?ps = path_of ` ?D" by (rule set_scope_paths [OF assms])
  define ds where "ds = map (inv_into ?D path_of) ?ps"
  have ds: "map path_of ds = ?ps" "set ds = ?D"
  proof -
    have inj: "inj_on path_of ?D" using dirs(1) by (rule inj_on_path_of)
    show "map path_of ds = ?ps"
      unfolding ds_def map_map by (rule map_idI) (simp add: ps f_inv_into_f)
    show "set ds = ?D"
      using inj by (simp add: ds_def ps inv_into_image_cancel)
  qed
  obtain b where b: "link_children ?ps (fresh_builders ?ps) = Inr b" "linked ?D ?D b"
    using link_children_ok [OF dirs(1,2) linked_fresh [OF ps], of ds] ds by auto
  have start: "filled c ?D [] b" using dirs b(2) by (intro linked_filled)
  have "\<forall>x \<in> set (map (spec_located sha base target) (growth_locations base target)). addable c ?D x"
    using spec_located_addable [OF assms(1,3)] by simp
  from add_contributions_ok [OF start this] obtain builders where
    "add_contributions c (map (spec_located sha base target) (growth_locations base target)) b = Inr builders"
    "filled c ?D (map (spec_located sha base target) (growth_locations base target)) builders"
    by auto
  with b(1) that show thesis by blast
qed

lemma spec_metrics_below:
  assumes D: "finite D" "parent_closed D" "d \<in> D" "distinct ds" "set ds = child_dirs D d"
    and homes: "\<And>l. l \<in> set (growth_locations base target) \<Longrightarrow> fst l = c \<Longrightarrow> regular_home l \<in> D"
  shows "spec_metrics base target (own_locations base target c d)
      + (\<Sum>q \<leftarrow> ds. spec_metrics base target (below_locations base target c q))
    = spec_metrics base target (below_locations base target c d)"
proof -
  let ?ls = "filter (\<lambda>l. fst l = c) (growth_locations base target)"
  let ?w = "\<lambda>l. spec_metrics base target [l]"
  have homes': "\<And>l. l \<in> set ?ls \<Longrightarrow> regular_home l \<in> D" using homes by simp
  have total: "spec_metrics base target (below_locations base target c q)
      = (\<Sum>p \<in> subtree D q. spec_metrics base target (own_locations base target c p))" for q
    using sum_subtree_items [where w = ?w and d = q and xs = ?ls and home = regular_home, OF D(1) homes']
    by (simp add: sum_spec_metrics own_locations_def below_locations_def)
  have "(\<Sum>q \<leftarrow> ds. spec_metrics base target (below_locations base target c q))
      = (\<Sum>q \<in> child_dirs D d. spec_metrics base target (below_locations base target c q))"
    using D(4,5) by (simp add: sum_list_distinct_conv_sum_set)
  then show ?thesis
    using sum_subtree [OF D(1,2,3), of "\<lambda>p. spec_metrics base target (own_locations base target c p)"]
    by (simp only: total)
qed

text \<open>The structures that the growth is computed from.\<close>

definition growth_inputs :: "(string \<Rightarrow> string) \<Rightarrow> filesystem_snapshot \<Rightarrow> storage_structure_result \<Rightarrow>
    filesystem_snapshot \<Rightarrow> storage_structure_result \<Rightarrow> bool" where
  "growth_inputs sha base br target tr \<longleftrightarrow> growth_ok base \<and> growth_ok target
     \<and> sr_path_nodes br = spec_path_nodes sha base \<and> sr_snapshot_id br = s_snapshot_id base
     \<and> sr_path_nodes tr = spec_path_nodes sha target \<and> sr_snapshot_id tr = s_snapshot_id target"

lemma build_growth_node_spec:
  assumes inputs: "growth_inputs sha base br target tr"
    and builders: "filled c (set (growth_dirs base target c))
       (map (spec_located sha base target) (growth_locations base target)) builders"
    and d: "d \<in> dirs_of builders" and ds: "distinct ds" "set ds = child_dirs (dirs_of builders) d"
  shows "build_growth_node sha (sr_snapshot_id br) (sr_snapshot_id tr) c (structure_nodes br) (structure_nodes tr)
      builders (path_of d) (map (spec_growth_node sha base target c) ds)
    = Inr (spec_growth_node sha base target c d)"
proof -
  have ok: "growth_ok base" "growth_ok target" and ids: "sr_snapshot_id br = s_snapshot_id base"
    "sr_snapshot_id tr = s_snapshot_id target"
    and ns: "sr_path_nodes br = spec_path_nodes sha base" "sr_path_nodes tr = spec_path_nodes sha target"
    using inputs by (simp_all add: growth_inputs_def)
  let ?D = "set (growth_dirs base target c)" and ?L = "growth_locations base target"
  note dirs = growth_dirs_ok [OF ok, of c]
  have D: "dirs_of builders = ?D" using builders by (simp add: filled_def)
  with d dirs(1) have good: "good_parts d" by blast
  obtain b where b: "map_of builders (path_of d) = Some b" using dirs_of_lookup [OF d] by blast
  have "gb_direct b = (\<Sum>x \<leftarrow> filter (\<lambda>x. lc_scope_id x = c \<and> regular_home (located_at x) = d)
      (map (spec_located sha base target) ?L). share x)"
    using builders d b D unfolding filled_def by blast
  also have "\<dots> = spec_metrics base target (own_locations base target c d)"
    by (simp add: filter_map comp_def own_locations_def share_spec sum_spec_metrics)
  finally have direct: "gb_direct b = spec_metrics base target (own_locations base target c d)" .
  have homes: "regular_home l \<in> ?D" if "l \<in> set ?L" "fst l = c" for l
    using spec_located_addable [OF ok that(1), of c sha] that(2)
    by (auto simp: addable_def regular_home_def)
  have "gb_direct b + (\<Sum>n \<leftarrow> map (spec_growth_node sha base target c) ds. recursive_metrics n)
      = spec_metrics base target (below_locations base target c d)"
    using spec_metrics_below [OF finite_set dirs(2) _ ds(1) ds(2) [unfolded D] homes] d D direct
    by (simp add: comp_def recursive_metrics_spec)
  then have rec: "add_all (metrics_add no_metrics (gb_direct b))
      (map recursive_metrics (map (spec_growth_node sha base target c) ds))
      = spec_metrics base target (below_locations base target c d)"
    by simp
  have "node_from sha (sr_snapshot_id br) (sr_snapshot_id tr) c (path_of d) (gb_direct b)
      (spec_metrics base target (below_locations base target c d)) (structure_nodes br) (structure_nodes tr)
      (m_unknown_size_contribution_count (spec_metrics base target (below_locations base target c d)) = 0)
    = spec_growth_node sha base target c d"
    unfolding node_from_def spec_growth_node_def Let_def direct ids
      structure_nodes_bytes [OF ok(1) ns(1) good] structure_nodes_bytes [OF ok(2) ns(2) good] ..
  then show ?thesis
    unfolding build_growth_node_def b option.case rec Let_def by (simp add: check_node_spec [OF ok])
qed

lemma growth_scope_nodes_spec:
  assumes inputs: "growth_inputs sha base br target tr"
  shows "growth_scope_nodes sha br tr c (map (spec_located sha base target) (growth_locations base target))
    = Inr (spec_growth_nodes sha base target c)"
proof -
  have ok: "growth_ok base" "growth_ok target"
    and ns: "sr_path_nodes br = spec_path_nodes sha base" "sr_path_nodes tr = spec_path_nodes sha target"
    using inputs by (simp_all add: growth_inputs_def)
  obtain linked builders where b:
    "link_children (scope_paths (structure_nodes br) (structure_nodes tr) c)
       (fresh_builders (scope_paths (structure_nodes br) (structure_nodes tr) c)) = Inr linked"
    "add_contributions c (map (spec_located sha base target) (growth_locations base target)) linked = Inr builders"
    "filled c (set (growth_dirs base target c))
       (map (spec_located sha base target) (growth_locations base target)) builders"
    by (rule scope_builders [OF ok(1) ns(1) ok(2) ns(2)])
  have wf: "tree_dict gb_children builders" and D: "dirs_of builders = set (growth_dirs base target c)"
    using b(3) by (simp_all add: filled_def)
  let ?mk = "build_growth_node sha (sr_snapshot_id br) (sr_snapshot_id tr) c
      (structure_nodes br) (structure_nodes tr) builders"
  obtain nd res where res:
    "build_tree (sorted_kids gb_children builders) ?mk (length builders) ''.'' [] = Inr (nd, res)"
    "dict_wf res" "fst ` set res = path_of ` dirs_of builders"
    "\<forall>d \<in> dirs_of builders. map_of res (path_of d) = Some (spec_growth_node sha base target c d)"
    using growth_tree.build_tree_root [OF wf inj_on_dirs_of, where mk = ?mk and n = "length builders"
        and ok = "\<lambda>d nd. nd = spec_growth_node sha base target c d"]
      build_growth_node_spec [OF inputs b(3)] card_dirs_of [OF wf]
    unfolding list_all2_map_iff by simp metis
  have "sort_key growth_node_key (map snd res) = spec_growth_nodes sha base target c"
    unfolding spec_growth_nodes_def
    by (rule sorted_memo [OF res(2,3) finite_dirs_of inj_on_dirs_of res(4) D [symmetric]])
      (simp add: growth_node_key_def spec_growth_node_def Let_def)
  then show ?thesis
    using b(1,2) res(1) by (simp add: growth_scope_nodes_def Let_def)
qed

section \<open>Coverage\<close>

lemma regular_entries_wf [simp]: "dict_wf (regular_entries s)"
  by (simp add: regular_entries_def)

lemma regular_counts_ok:
  assumes "\<forall>e \<in> set (s_entries s). valid_entry e"
  shows "\<exists>known. regular_counts (regular_entries s) = Inr (known, int (length (regular_entries s)) - known)"
proof -
  have "valid_entry e" if "(l, e) \<in> set (regular_entries s)" for l e
  proof -
    have "map_of (regular_entries s) l = Some e"
      using that by (rule dict_values_conv [OF regular_entries_wf, THEN iffD1])
    then show ?thesis using assms by (blast dest: regular_entries_SomeD(1))
  qed
  then have "\<forall>e \<in> set (map snd (regular_entries s)). valid_entry e" by auto
  then have "map_result known_regular_size (map snd (regular_entries s)) = Inr (map
      (\<lambda>e. if e_object_type e = REGULAR_FILE \<and> \<not> size_unknown e then Some (known_bytes e) else None)
      (map snd (regular_entries s)))"
    by (intro map_result_total known_size_result) blast
  then show ?thesis by (simp add: regular_counts_def Let_def)
qed

text \<open>The coverage in terms of the kinds of the locations.\<close>

definition count_kind :: "filesystem_snapshot \<Rightarrow> filesystem_snapshot \<Rightarrow> growth_contribution_kind \<Rightarrow> int" where
  "count_kind base target k = count_if (\<lambda>l. location_kind base target l = k) (growth_locations base target)"

definition known_at :: "filesystem_snapshot \<Rightarrow> string \<times> string \<Rightarrow> bool" where
  "known_at s l \<longleftrightarrow> (case map_of (regular_entries s) l of None \<Rightarrow> False | Some e \<Rightarrow> \<not> size_unknown e)"

definition present_at :: "filesystem_snapshot \<Rightarrow> string \<times> string \<Rightarrow> bool" where
  "present_at s l \<longleftrightarrow> (case map_of (regular_entries s) l of None \<Rightarrow> False | Some _ \<Rightarrow> True)"

lemma count_if_distinct_cong:
  assumes "distinct xs" "distinct ys" "{x \<in> set xs. P x} = {y \<in> set ys. Q y}"
  shows "count_if P xs = count_if Q ys"
proof -
  have "card (set (filter P xs)) = card (set (filter Q ys))" using assms(3) by simp
  then show ?thesis
    using assms(1,2) by (simp add: count_if_length distinct_card del: set_filter)
qed

lemma sum_known_deltas:
  "(\<Sum>l \<leftarrow> ls. or_zero (if location_kind base target l = SIZE_UNKNOWN then None
      else Some (location_delta base target l)))
    = m_known_net_logical_delta (spec_metrics base target ls)"
  by (induction ls) (simp_all add: spec_metrics_def Let_def)

lemma growth_coverage_spec:
  assumes ok: "growth_ok base" "growth_ok target" and ids: "s_snapshot_id base \<noteq> s_snapshot_id target"
  shows "\<exists>cov. growth_coverage base target br tr (regular_entries base) (regular_entries target)
      (map (spec_located sha base target) (growth_locations base target)) = Inr cov
    \<and> gv_known_net_logical_delta cov
        = m_known_net_logical_delta (spec_metrics base target (growth_locations base target))
    \<and> gv_unknown_size_contribution_count cov = count_kind base target SIZE_UNKNOWN
    \<and> (gv_decomposition_complete cov \<longleftrightarrow> count_kind base target SIZE_UNKNOWN = 0)
    \<and> gv_added_known_size_location_count cov = count_kind base target ADDED_LOCATION
    \<and> gv_removed_known_size_location_count cov = count_kind base target REMOVED_LOCATION
    \<and> gv_same_location_known_size_comparable_count cov
        = count_if (\<lambda>l. known_at base l \<and> known_at target l) (growth_locations base target)
    \<and> gv_same_location_unknown_size_count cov
        = count_if (\<lambda>l. present_at base l \<and> present_at target l \<and> location_kind base target l = SIZE_UNKNOWN)
            (growth_locations base target)
    \<and> gv_added_unknown_size_location_count cov
        = count_if (\<lambda>l. \<not> present_at base l \<and> location_kind base target l = SIZE_UNKNOWN)
            (growth_locations base target)
    \<and> gv_removed_unknown_size_location_count cov
        = count_if (\<lambda>l. \<not> present_at target l \<and> location_kind base target l = SIZE_UNKNOWN)
            (growth_locations base target)"
proof -
  let ?L = "growth_locations base target"
  note valid = growth_ok_valid [OF ok(1)] growth_ok_valid [OF ok(2)]
  obtain kb where kb: "regular_counts (regular_entries base) = Inr (kb, int (length (regular_entries base)) - kb)"
    using regular_counts_ok [OF valid(1)] by blast
  obtain kt where kt: "regular_counts (regular_entries target) = Inr (kt, int (length (regular_entries target)) - kt)"
    using regular_counts_ok [OF valid(2)] by blast
  let ?common = "filter (\<lambda>l. map_of (regular_entries target) l \<noteq> None) (map fst (regular_entries base))"
  let ?size = "\<lambda>s l. case map_of (regular_entries s) l of None \<Rightarrow> None
          | Some e \<Rightarrow> if size_unknown e then None else Some (known_bytes e)"
  have sizes: "map_result (\<lambda>l. optional_size (map_of (regular_entries base) l)) ?common = Inr (map (?size base) ?common)"
    "map_result (\<lambda>l. optional_size (map_of (regular_entries target) l)) ?common = Inr (map (?size target) ?common)"
    using optional_size_ok [OF valid(1)] optional_size_ok [OF valid(2)] by (auto intro!: map_result_total)
  have pairs: "zip (map (?size base) xs) (map (?size target) xs) = map (\<lambda>l. (?size base l, ?size target l)) xs" for xs
    by (induction xs) auto
  have known: "?size s l = None \<longleftrightarrow> \<not> known_at s l" for s l
    by (simp add: known_at_def split: option.split)
  have dist: "distinct ?common"
    using regular_entries_wf [of base] by (simp add: dict_wf_def)
  have in_common: "l \<in> set ?common \<longleftrightarrow> l \<in> set ?L \<and> present_at base l \<and> present_at target l" for l
    by (auto simp: growth_locations_known present_at_def map_of_eq_None_iff image_iff
        split: option.splits) (metis fst_conv map_of_SomeD weak_map_of_SomeI not_None_eq)+
  have kind: "location_kind base target l = SIZE_UNKNOWN \<longleftrightarrow> \<not> known_at base l \<or> \<not> known_at target l"
    if "present_at base l" "present_at target l" for l
    using that by (auto simp: location_kind_def present_at_def known_at_def split: option.splits if_splits)
  have present: "known_at s l \<Longrightarrow> present_at s l" for s l
    by (auto simp: known_at_def present_at_def split: option.splits)
  have comparable: "count_if (\<lambda>(b, t). b \<noteq> None \<and> t \<noteq> None) (map (\<lambda>l. (?size base l, ?size target l)) ?common)
      = count_if (\<lambda>l. known_at base l \<and> known_at target l) ?L"
    unfolding count_if_map prod.case known
    by (rule count_if_distinct_cong [OF dist distinct_growth_locations]) (use in_common present in auto)
  have unknown: "count_if (\<lambda>(b, t). b = None \<or> t = None) (map (\<lambda>l. (?size base l, ?size target l)) ?common)
      = count_if (\<lambda>l. present_at base l \<and> present_at target l \<and> location_kind base target l = SIZE_UNKNOWN) ?L"
    unfolding count_if_map prod.case known
    by (rule count_if_distinct_cong [OF dist distinct_growth_locations]) (use in_common kind in auto)
  have refs: "gc_entry_references (lc_contribution (spec_located sha base target l))
      = (case map_of (regular_entries base) l of None \<Rightarrow> [] | Some e \<Rightarrow> [entry_reference e])
        @ (case map_of (regular_entries target) l of None \<Rightarrow> [] | Some e \<Rightarrow> [entry_reference e])" for l
    by (simp add: spec_located_def spec_contribution_def contribution_def Let_def)
  have sid: "e_snapshot_id e = s_snapshot_id s" if "growth_ok s" "map_of (regular_entries s) l = Some e" for s l e
    using that regular_entries_SomeD(1) [OF that(2)]
    by (simp add: growth_ok_def wf_entries_def entry_facts_ok_def)
  have one_ref: "count_if (\<lambda>l. location_kind base target l = SIZE_UNKNOWN
        \<and> length (gc_entry_references (lc_contribution (spec_located sha base target l))) = 1
        \<and> ref_snapshot_id (hd (gc_entry_references (lc_contribution (spec_located sha base target l)))) = i) ?L
      = count_if (\<lambda>l. \<not> present_at s l \<and> location_kind base target l = SIZE_UNKNOWN) ?L"
    if "i = s_snapshot_id target \<and> s = base \<or> i = s_snapshot_id base \<and> s = target" for i s
  proof (rule count_if_cong)
    fix l assume "l \<in> set ?L"
    then show "(location_kind base target l = SIZE_UNKNOWN
        \<and> length (gc_entry_references (lc_contribution (spec_located sha base target l))) = 1
        \<and> ref_snapshot_id (hd (gc_entry_references (lc_contribution (spec_located sha base target l)))) = i)
      = (\<not> present_at s l \<and> location_kind base target l = SIZE_UNKNOWN)"
      using that ids sid [OF ok(1), of l] sid [OF ok(2), of l]
      unfolding refs growth_locations_known present_at_def
      by (cases "map_of (regular_entries base) l"; cases "map_of (regular_entries target) l") auto
  qed
  show ?thesis
    unfolding growth_coverage_def kb kt bind_result_simps prod.case Let_def sizes pairs comparable unknown
    by (simp add: count_if_map count_kind_def sum_known_deltas [unfolded comp_def] one_ref comp_def
        del: One_nat_def)
qed

section \<open>The whole result\<close>

definition growth_scopes :: "filesystem_snapshot \<Rightarrow> filesystem_snapshot \<Rightarrow> string list" where
  "growth_scopes base target = sorted_set (s_scope_ids base @ s_scope_ids target)"

definition spec_growth_path_nodes :: "(string \<Rightarrow> string) \<Rightarrow> filesystem_snapshot \<Rightarrow> filesystem_snapshot \<Rightarrow>
    path_growth_node list" where
  "spec_growth_path_nodes sha base target =
     concat (map (spec_growth_nodes sha base target) (growth_scopes base target))"

definition spec_growth_summary :: "(string \<Rightarrow> string) \<Rightarrow> filesystem_snapshot \<Rightarrow> filesystem_snapshot \<Rightarrow>
    string \<Rightarrow> scope_growth_summary" where
  "spec_growth_summary sha base target scope_id =
     (let m = spec_metrics base target (filter (\<lambda>l. fst l = scope_id) (growth_locations base target))
      in \<lparr>gs_base_snapshot_id = s_snapshot_id base,
          gs_target_snapshot_id = s_snapshot_id target,
          gs_scope_id = scope_id,
          gs_root_node_id = growth_node_id sha (s_snapshot_id base) (s_snapshot_id target) scope_id ''.'',
          gs_base_recursive_known_logical_bytes = (\<Sum>e \<leftarrow> active (in_scope scope_id (s_entries base)). known_bytes e),
          gs_target_recursive_known_logical_bytes = (\<Sum>e \<leftarrow> active (in_scope scope_id (s_entries target)). known_bytes e),
          gs_known_net_logical_delta = m_known_net_logical_delta m,
          gs_added_logical_bytes = m_added_logical_bytes m,
          gs_added_location_count = m_added_location_count m,
          gs_removed_logical_bytes = m_removed_logical_bytes m,
          gs_removed_location_count = m_removed_location_count m,
          gs_same_location_increase_bytes = m_same_location_increase_bytes m,
          gs_same_location_increase_count = m_same_location_increase_count m,
          gs_same_location_decrease_bytes = m_same_location_decrease_bytes m,
          gs_same_location_decrease_count = m_same_location_decrease_count m,
          gs_same_location_unchanged_count = m_same_location_unchanged_count m,
          gs_unknown_size_contribution_count = m_unknown_size_contribution_count m,
          gs_decomposition_complete = (m_unknown_size_contribution_count m = 0)\<rparr>)"

lemma growth_nodes_keys:
  assumes "growth_ok base" "growth_ok target"
  shows "distinct (map growth_node_key (spec_growth_path_nodes sha base target))"
proof -
  have key: "growth_node_key (spec_growth_node sha base target c d) = (c, path_of d)" for c d
    by (simp add: growth_node_key_def spec_growth_node_def Let_def)
  have keys: "distinct (map growth_node_key (spec_growth_nodes sha base target c))"
    "growth_node_key ` set (spec_growth_nodes sha base target c) \<subseteq> {c} \<times> UNIV" for c
  proof -
    have "inj_on path_of (set (growth_dirs base target c))"
      using growth_dirs_ok(1) [OF assms] by (rule inj_on_path_of)
    then show "distinct (map growth_node_key (spec_growth_nodes sha base target c))"
      by (simp add: spec_growth_nodes_def distinct_map comp_def key inj_on_def)
    show "growth_node_key ` set (spec_growth_nodes sha base target c) \<subseteq> {c} \<times> UNIV"
      by (auto simp: spec_growth_nodes_def key)
  qed
  have "distinct (map growth_node_key (concat (map (spec_growth_nodes sha base target) scopes)))"
    if "distinct scopes" for scopes
    using that
  proof (induction scopes)
    case (Cons c scopes)
    have "growth_node_key ` set (spec_growth_nodes sha base target c)
        \<inter> growth_node_key ` (\<Union>c' \<in> set scopes. set (spec_growth_nodes sha base target c')) = {}"
    proof -
      have "c' = c" if "k \<in> growth_node_key ` set (spec_growth_nodes sha base target c)"
        "k \<in> growth_node_key ` set (spec_growth_nodes sha base target c')" for k c'
        using that subsetD [OF keys(2) [of c], of k] subsetD [OF keys(2) [of c'], of k] by auto
      with Cons.prems show ?thesis by (auto simp: image_UN)
    qed
    with Cons keys(1) show ?case by simp
  qed simp
  then show ?thesis by (simp add: spec_growth_path_nodes_def growth_scopes_def)
qed

lemma growth_summary_spec:
  assumes ok: "growth_ok base" "growth_ok target" and c: "c \<in> set (growth_scopes base target)"
  shows "growth_summary (s_snapshot_id base) (s_snapshot_id target)
      (dict_of (map (\<lambda>n. (growth_node_key n, n)) (spec_growth_path_nodes sha base target))) c
    = Inr (spec_growth_summary sha base target c)"
proof -
  let ?n = "spec_growth_node sha base target c []"
  have "?n \<in> set (spec_growth_path_nodes sha base target)"
    using c growth_dirs_ok(3) [OF ok]
    by (auto simp: spec_growth_path_nodes_def spec_growth_nodes_def intro!: bexI [of _ c])
  moreover have "growth_node_key ?n = (c, ''.'')"
    by (simp add: growth_node_key_def spec_growth_node_def Let_def)
  ultimately have look: "map_of (dict_of (map (\<lambda>n. (growth_node_key n, n))
      (spec_growth_path_nodes sha base target))) (c, ''.'') = Some ?n"
    using map_of_dict_of_key [OF growth_nodes_keys [OF ok], where x = ?n and g = "\<lambda>n. n"] by simp
  have "below_locations base target c [] = filter (\<lambda>l. fst l = c) (growth_locations base target)"
    by (simp add: below_locations_def)
  then show ?thesis
    unfolding growth_summary_def look option.case
    by (simp add: spec_growth_summary_def spec_growth_node_def Let_def)
qed

lemma sum_growth_scopes:
  assumes "growth_ok base" "growth_ok target"
  shows "(\<Sum>c \<leftarrow> growth_scopes base target. spec_metrics base target
      (filter (\<lambda>l. fst l = c) (growth_locations base target)))
    = spec_metrics base target (growth_locations base target)"
proof -
  have "fst l \<in> set (growth_scopes base target)" if l: "l \<in> set (growth_locations base target)" for l
  proof -
    have "fst l \<in> set (s_scope_ids s)" if "growth_ok s" "map_of (regular_entries s) l = Some e" for s e
      using that regular_entries_SomeD(1,4) [OF that(2)]
      by (auto simp: growth_ok_def wf_entries_def entry_facts_ok_def location_def)
    with l assms show ?thesis unfolding growth_locations_known by (auto simp: growth_scopes_def)
  qed
  then show ?thesis
    using sum_list_partition [of "growth_scopes base target" "growth_locations base target" fst
        "\<lambda>l. spec_metrics base target [l]"]
    by (simp add: sum_spec_metrics growth_scopes_def)
qed

lemma total_bytes:
  assumes ok: "growth_ok s" and s: "s = base \<or> s = target"
  shows "(\<Sum>e \<leftarrow> active (s_entries s). known_bytes e) = (\<Sum>l \<leftarrow> growth_locations base target. bytes_at s l)"
proof -
  have "(\<Sum>e \<leftarrow> active (s_entries s). known_bytes e)
      = (\<Sum>e \<leftarrow> filter (\<lambda>e. e_object_type e = REGULAR_FILE) (active (s_entries s)). known_bytes e)"
    by (rule sum_list_filter_zero [symmetric]) (simp add: known_bytes_def known_regular_size_def)
  also have "\<dots> = (\<Sum>e \<leftarrow> filter (\<lambda>e. True) (regulars s). known_bytes e)"
    by (simp add: active_def regulars_def conj_commute)
  also have "\<dots> = (\<Sum>l \<leftarrow> filter (\<lambda>l. True) (growth_locations base target). bytes_at s l)"
    using s by (intro sum_regular_locations [OF ok, where P = "\<lambda>_. True"]) (auto simp: growth_locations_def)
  finally show ?thesis by simp
qed

lemma structure_of_ok:
  assumes "growth_ok s"
  obtains r where "structure_or_growth_error sha s = Inr r" "sr_path_nodes r = spec_path_nodes sha s"
    "sr_snapshot_id r = s_snapshot_id s"
    "cv_known_logical_bytes (sr_coverage r) = (\<Sum>e \<leftarrow> active (s_entries s). known_bytes e)"
proof -
  obtain c ls where c: "coverage_of (s_entries s) = Inr (c, ls)"
    "compute_snapshot_structure sha s = Inr (structure_result sha (s_snapshot_id s)
        (map (spec_summary sha s) (sorted_set (s_scope_ids s))) (spec_path_nodes sha s) c ls)"
    using compute_snapshot_structure_spec [OF assms [unfolded growth_ok_def]] by blast
  moreover have "c = spec_coverage (s_entries s)"
    using c(1) coverage_of_spec [OF growth_ok_valid [OF assms]] by simp
  moreover have "cv_known_logical_bytes (spec_coverage (s_entries s)) = (\<Sum>e \<leftarrow> active (s_entries s). known_bytes e)"
    by (simp add: spec_coverage_def)
  ultimately show thesis
    using that [of "structure_result sha (s_snapshot_id s) (map (spec_summary sha s)
        (sorted_set (s_scope_ids s))) (spec_path_nodes sha s) c ls"]
    by (simp add: structure_or_growth_error_def)
qed

definition growth_pair_ok :: "filesystem_snapshot \<Rightarrow> filesystem_snapshot \<Rightarrow> bool" where
  "growth_pair_ok base target \<longleftrightarrow> s_snapshot_id base \<noteq> s_snapshot_id target
     \<and> s_completed_at base \<le> s_started_at target \<and> growth_ok base \<and> growth_ok target"

lemma compute_snapshot_growth_spec:
  assumes pair: "growth_pair_ok base target"
  shows "\<exists>br tr cov. structure_or_growth_error sha base = Inr br \<and> structure_or_growth_error sha target = Inr tr
    \<and> growth_coverage base target br tr (regular_entries base) (regular_entries target)
        (map (spec_located sha base target) (growth_locations base target)) = Inr cov
    \<and> compute_snapshot_growth sha base target = Inr (growth_result sha (s_snapshot_id base) (s_snapshot_id target)
        (map (spec_growth_summary sha base target) (growth_scopes base target))
        (spec_growth_path_nodes sha base target)
        (map (spec_contribution sha base target) (growth_locations base target)) cov)"
proof -
  have ok: "growth_ok base" "growth_ok target" and ids: "s_snapshot_id base \<noteq> s_snapshot_id target"
    and v: "validate_pair base target = Inr ()"
    using pair by (auto simp: growth_pair_ok_def validate_pair_def)
  let ?L = "growth_locations base target"
  obtain br where br: "structure_or_growth_error sha base = Inr br" "sr_path_nodes br = spec_path_nodes sha base"
    "sr_snapshot_id br = s_snapshot_id base"
    "cv_known_logical_bytes (sr_coverage br) = (\<Sum>e \<leftarrow> active (s_entries base). known_bytes e)"
    by (rule structure_of_ok [OF ok(1)])
  obtain tr where tr: "structure_or_growth_error sha target = Inr tr" "sr_path_nodes tr = spec_path_nodes sha target"
    "sr_snapshot_id tr = s_snapshot_id target"
    "cv_known_logical_bytes (sr_coverage tr) = (\<Sum>e \<leftarrow> active (s_entries target). known_bytes e)"
    by (rule structure_of_ok [OF ok(2)])
  have inputs: "growth_inputs sha base br target tr"
    using ok br tr by (simp add: growth_inputs_def)
  have loc: "map_result (locate sha (regular_entries base) (regular_entries target)) ?L
      = Inr (map (spec_located sha base target) ?L)"
    using locate_ok [OF growth_ok_valid [OF ok(1)] growth_ok_valid [OF ok(2)]] by (rule map_result_total)
  have nodes: "map_result (\<lambda>c. growth_scope_nodes sha br tr c (map (spec_located sha base target) ?L))
      (growth_scopes base target) = Inr (map (spec_growth_nodes sha base target) (growth_scopes base target))"
    by (rule map_result_total) (rule growth_scope_nodes_spec [OF inputs])
  have sums: "map_result (growth_summary (s_snapshot_id base) (s_snapshot_id target)
      (dict_of (map (\<lambda>n. (growth_node_key n, n)) (spec_growth_path_nodes sha base target)))) (growth_scopes base target)
      = Inr (map (spec_growth_summary sha base target) (growth_scopes base target))"
    by (rule map_result_total) (rule growth_summary_spec [OF ok])
  obtain cov where cov: "growth_coverage base target br tr (regular_entries base) (regular_entries target)
      (map (spec_located sha base target) ?L) = Inr cov"
    "gv_known_net_logical_delta cov = m_known_net_logical_delta (spec_metrics base target ?L)"
    "gv_decomposition_complete cov \<longleftrightarrow> count_kind base target SIZE_UNKNOWN = 0"
    using growth_coverage_spec [OF ok ids, of br tr sha] by blast
  have agg: "(\<Sum>s \<leftarrow> map (spec_growth_summary sha base target) (growth_scopes base target). gs_known_net_logical_delta s)
      = gv_known_net_logical_delta cov"
    unfolding cov(2) sum_growth_scopes [OF ok, symmetric] metrics_sum_list
    by (simp add: comp_def spec_growth_summary_def Let_def)
  have identity: "gv_known_net_logical_delta cov
      = cv_known_logical_bytes (sr_coverage tr) - cv_known_logical_bytes (sr_coverage br)"
    if "gv_decomposition_complete cov"
  proof -
    have "m_unknown_size_contribution_count (spec_metrics base target ?L) = 0"
      using that cov(3) by (simp add: count_kind_def spec_metrics_def Let_def)
    then show ?thesis
      unfolding cov(2) br(4) tr(4) using spec_metrics_known [of base target ?L]
        total_bytes [OF ok(1), of base target] total_bytes [OF ok(2), of base target] by simp
  qed
  have "compute_snapshot_growth sha base target = Inr (growth_result sha (s_snapshot_id base) (s_snapshot_id target)
      (map (spec_growth_summary sha base target) (growth_scopes base target))
      (spec_growth_path_nodes sha base target) (map lc_contribution (map (spec_located sha base target) ?L)) cov)"
    unfolding compute_snapshot_growth_def v bind_result_simps br(1) tr(1) Let_def
      growth_locations_def [symmetric] growth_scopes_def [symmetric] loc nodes
      spec_growth_path_nodes_def [symmetric] sums cov(1) using agg identity by simp
  moreover have "map lc_contribution (map (spec_located sha base target) ?L) = map (spec_contribution sha base target) ?L"
    by (simp add: spec_located_def)
  ultimately show ?thesis using br(1) tr(1) cov(1) by metis
qed

lemma structure_or_growth_error_InrD:
  "structure_or_growth_error sha s = Inr r \<Longrightarrow> growth_ok s"
  using compute_snapshot_structure_InrD [of sha s r]
  by (auto simp: structure_or_growth_error_def growth_ok_def split: sum.splits exn.splits error_class.splits)

lemma structure_or_growth_error_cases:
  assumes "\<not> growth_ok s"
  shows "structure_or_growth_error sha s = raise GrowthError ''GROWTH_INVALID: Snapshot structure is invalid''"
  using compute_snapshot_structure_error [of s sha] assms
  by (auto simp: structure_or_growth_error_def growth_ok_def structure_input_error_def)

definition growth_input_errors :: "string list" where
  "growth_input_errors =
     [''GROWTH_INVALID: base and target Snapshot IDs must be distinct'',
      ''GROWTH_INVALID: base Snapshot must not follow target Snapshot'',
      ''GROWTH_INVALID: Snapshot structure is invalid'']"

text \<open>\<open>compute_snapshot_growth\<close> is total with exactly the documented errors. It returns a result if
  and only if the two Snapshots are distinct, the base does not complete after the target starts and
  both have well-formed entries; otherwise it raises one of the three input \<open>GrowthError\<close>s. The four
  internal consistency checks (node decomposition, node target-minus-base, global aggregate and
  global target-minus-base) never fire, and no \<open>KeyError\<close> or exhausted recursion occurs.\<close>

lemma compute_snapshot_growth_total:
  "case compute_snapshot_growth sha base target of
     Inr r \<Rightarrow> growth_pair_ok base target
   | Inl x \<Rightarrow> \<not> growth_pair_ok base target
       \<and> x \<in> Raise GrowthError ` set growth_input_errors"
proof (cases "growth_pair_ok base target")
  case True
  then show ?thesis using compute_snapshot_growth_spec [of base target sha] by auto
next
  case False
  then consider "s_snapshot_id base = s_snapshot_id target"
    | "s_snapshot_id base \<noteq> s_snapshot_id target" "\<not> s_completed_at base \<le> s_started_at target"
    | "s_snapshot_id base \<noteq> s_snapshot_id target" "s_completed_at base \<le> s_started_at target" "\<not> growth_ok base"
    | "s_snapshot_id base \<noteq> s_snapshot_id target" "s_completed_at base \<le> s_started_at target"
      "growth_ok base" "\<not> growth_ok target"
    by (auto simp: growth_pair_ok_def)
  then have "compute_snapshot_growth sha base target \<in> Inl ` Raise GrowthError ` set growth_input_errors"
  proof cases
    case 4
    obtain br where "structure_or_growth_error sha base = Inr br"
      by (rule structure_of_ok [OF 4(3), of sha])
    with 4 show ?thesis
      by (simp add: compute_snapshot_growth_def validate_pair_def structure_or_growth_error_cases
          growth_input_errors_def)
  qed (simp_all add: compute_snapshot_growth_def validate_pair_def structure_or_growth_error_cases
        growth_input_errors_def)
  with False show ?thesis by auto
qed

lemma compute_snapshot_growth_parts:
  assumes "compute_snapshot_growth sha base target = Inr r"
  obtains br tr cov where "growth_pair_ok base target"
    "structure_or_growth_error sha base = Inr br" "structure_or_growth_error sha target = Inr tr"
    "growth_coverage base target br tr (regular_entries base) (regular_entries target)
        (map (spec_located sha base target) (growth_locations base target)) = Inr cov"
    "r = growth_result sha (s_snapshot_id base) (s_snapshot_id target)
        (map (spec_growth_summary sha base target) (growth_scopes base target))
        (spec_growth_path_nodes sha base target)
        (map (spec_contribution sha base target) (growth_locations base target)) cov"
proof -
  have ok: "growth_pair_ok base target"
  proof (rule ccontr)
    assume "\<not> growth_pair_ok base target"
    then have "validate_pair base target \<noteq> Inr () \<or> \<not> growth_ok base \<or> \<not> growth_ok target"
      by (auto simp: growth_pair_ok_def validate_pair_def not_le)
    with assms show False
      by (auto simp: compute_snapshot_growth_def bind_result_Inr_iff Let_def
          dest: structure_or_growth_error_InrD)
  qed
  with compute_snapshot_growth_spec [OF ok, of sha] assms that show thesis by auto
qed

lemma growth_result_simps [simp]:
  "gr_scope_summaries (growth_result sha bid tid ss ns cs cov) = ss"
  "gr_path_nodes (growth_result sha bid tid ss ns cs cov) = ns"
  "gr_contributions (growth_result sha bid tid ss ns cs cov) = cs"
  "gr_coverage (growth_result sha bid tid ss ns cs cov) = cov"
  by (simp_all add: growth_result_def Let_def)

text \<open>C2: refinement. A computed growth lists, in the order of the locations, one contribution for
  every location that is a regular file in either Snapshot, of the kind and delta read off the two
  entries; its path nodes are, for every scope and every directory of either structure, the sums of
  these deltas and counts over the locations in and below the directory; and its scope summaries
  are the sums over the scope.\<close>

theorem growth_refines_spec:
  assumes "compute_snapshot_growth sha base target = Inr r"
  shows "(gr_contributions r = map (spec_contribution sha base target) (growth_locations base target))
    \<and> (gr_path_nodes r = spec_growth_path_nodes sha base target)
    \<and> (gr_scope_summaries r = map (spec_growth_summary sha base target) (growth_scopes base target))"
  using assms by (auto elim: compute_snapshot_growth_parts)

definition example_target :: filesystem_snapshot where
  "example_target = plain_snapshot ''s2'' ''t2'' ''t3'' [''home'']
     [plain_entry ''s2'' ''home'' ''a/b.txt'' REGULAR_FILE (Some 9),
      plain_entry ''s2'' ''home'' ''a'' DIRECTORY None,
      plain_entry ''s2'' ''home'' ''d/e.txt'' REGULAR_FILE (Some 4)]"

lemma example_pair_ok: "growth_pair_ok example_snapshot example_target"
  by code_simp

theorem growth_refines_spec_witness:
  "\<exists>r. compute_snapshot_growth (\<lambda>_. ''h'') example_snapshot example_target = Inr r
     \<and> map gc_kind (gr_contributions r)
         = [SAME_LOCATION_SIZE_INCREASE, REMOVED_LOCATION, ADDED_LOCATION]"
proof -
  obtain r where r: "compute_snapshot_growth (\<lambda>_. ''h'') example_snapshot example_target = Inr r"
    using compute_snapshot_growth_spec [OF example_pair_ok] by blast
  moreover have "map (location_kind example_snapshot example_target)
      (growth_locations example_snapshot example_target)
    = [SAME_LOCATION_SIZE_INCREASE, REMOVED_LOCATION, ADDED_LOCATION]"
    by code_simp
  ultimately show ?thesis
    using growth_refines_spec [OF r, THEN conjunct1]
    by (auto simp: spec_contribution_def contribution_def Let_def comp_def)
qed

lemma present_of_location:
  "l \<in> set (growth_locations base target) \<Longrightarrow> present_at base l \<or> present_at target l"
  unfolding growth_locations_known by (auto simp: present_at_def split: option.splits)

lemma unknown_parts:
  assumes "\<forall>l \<in> set ls. present_at base l \<or> present_at target l"
  shows "count_if (\<lambda>l. \<not> present_at base l \<and> K l) ls + count_if (\<lambda>l. \<not> present_at target l \<and> K l) ls
      + count_if (\<lambda>l. present_at base l \<and> present_at target l \<and> K l) ls = count_if K ls"
  using assms by (induction ls) auto

lemma known_kinds:
  "known_at base l \<and> known_at target l \<longleftrightarrow> location_kind base target l \<in>
     {SAME_LOCATION_SIZE_INCREASE, SAME_LOCATION_SIZE_DECREASE, SAME_LOCATION_SIZE_UNCHANGED}"
  by (auto simp: known_at_def location_kind_def split: option.splits if_splits)

lemma kinds_partition:
  "count_if (\<lambda>l. location_kind base target l = ADDED_LOCATION) ls
   + count_if (\<lambda>l. location_kind base target l = REMOVED_LOCATION) ls
   + count_if (\<lambda>l. known_at base l \<and> known_at target l) ls
   + count_if (\<lambda>l. location_kind base target l = SIZE_UNKNOWN) ls = int (length ls)"
proof (induction ls)
  case (Cons l ls)
  then show ?case
    unfolding known_kinds by (cases "location_kind base target l") simp_all
qed simp

lemma growth_complete_iff:
  assumes "compute_snapshot_growth sha base target = Inr r"
  shows "gv_decomposition_complete (gr_coverage r) \<longleftrightarrow> count_kind base target SIZE_UNKNOWN = 0"
proof -
  obtain br tr cov where ok: "growth_pair_ok base target"
    and cov: "growth_coverage base target br tr (regular_entries base) (regular_entries target)
        (map (spec_located sha base target) (growth_locations base target)) = Inr cov"
    and r: "gr_coverage r = cov"
    using assms by (auto elim: compute_snapshot_growth_parts)
  have oks: "growth_ok base" "growth_ok target" "s_snapshot_id base \<noteq> s_snapshot_id target"
    using ok by (simp_all add: growth_pair_ok_def)
  show ?thesis using growth_coverage_spec [OF oks, of br tr sha, unfolded cov] r by simp
qed

text \<open>C4: the accounts of a computed growth balance. The scope deltas add up to the delta of the
  coverage; when no size is unknown that delta is the target's known bytes minus the base's; every
  contribution is an addition, a removal, a comparable location or one of unknown size; and the
  locations of unknown size are the added, the removed and the co-present ones.\<close>

theorem growth_accounts_balance:
  assumes "compute_snapshot_growth sha base target = Inr r"
  shows "((\<Sum>m \<leftarrow> gr_scope_summaries r. gs_known_net_logical_delta m) = gv_known_net_logical_delta (gr_coverage r))
    \<and> (gv_decomposition_complete (gr_coverage r) \<longrightarrow> gv_known_net_logical_delta (gr_coverage r)
      = (\<Sum>e \<leftarrow> active (s_entries target). known_bytes e) - (\<Sum>e \<leftarrow> active (s_entries base). known_bytes e))
    \<and> (int (length (gr_contributions r)) = gv_added_known_size_location_count (gr_coverage r)
      + gv_removed_known_size_location_count (gr_coverage r)
      + gv_same_location_known_size_comparable_count (gr_coverage r)
      + gv_unknown_size_contribution_count (gr_coverage r))
    \<and> (gv_unknown_size_contribution_count (gr_coverage r) = gv_added_unknown_size_location_count (gr_coverage r)
      + gv_removed_unknown_size_location_count (gr_coverage r)
      + gv_same_location_unknown_size_count (gr_coverage r))"
proof -
  let ?L = "growth_locations base target"
  obtain br tr cov where ok: "growth_pair_ok base target"
    and cov: "growth_coverage base target br tr (regular_entries base) (regular_entries target)
        (map (spec_located sha base target) ?L) = Inr cov"
    and r: "r = growth_result sha (s_snapshot_id base) (s_snapshot_id target)
        (map (spec_growth_summary sha base target) (growth_scopes base target))
        (spec_growth_path_nodes sha base target) (map (spec_contribution sha base target) ?L) cov"
    using assms by (rule compute_snapshot_growth_parts)
  have oks: "growth_ok base" "growth_ok target" "s_snapshot_id base \<noteq> s_snapshot_id target"
    using ok by (simp_all add: growth_pair_ok_def)
  note c = growth_coverage_spec [OF oks, of br tr sha, unfolded cov, simplified]
  have s1: "(\<Sum>m \<leftarrow> gr_scope_summaries r. gs_known_net_logical_delta m) = gv_known_net_logical_delta (gr_coverage r)"
    using c sum_growth_scopes [OF oks(1,2), THEN arg_cong, of m_known_net_logical_delta]
    by (simp add: r metrics_sum_list comp_def spec_growth_summary_def Let_def)
  have s2: "gv_known_net_logical_delta (gr_coverage r)
      = (\<Sum>e \<leftarrow> active (s_entries target). known_bytes e) - (\<Sum>e \<leftarrow> active (s_entries base). known_bytes e)"
    if "gv_decomposition_complete (gr_coverage r)"
    using that c spec_metrics_known [of base target ?L]
      total_bytes [OF oks(1), of base target] total_bytes [OF oks(2), of base target]
    by (simp add: r count_kind_def spec_metrics_def Let_def)
  have s3: "int (length (gr_contributions r)) = gv_added_known_size_location_count (gr_coverage r)
      + gv_removed_known_size_location_count (gr_coverage r)
      + gv_same_location_known_size_comparable_count (gr_coverage r)
      + gv_unknown_size_contribution_count (gr_coverage r)"
    using c kinds_partition [of base target ?L] by (simp add: r count_kind_def)
  have s4: "gv_unknown_size_contribution_count (gr_coverage r) = gv_added_unknown_size_location_count (gr_coverage r)
      + gv_removed_unknown_size_location_count (gr_coverage r)
      + gv_same_location_unknown_size_count (gr_coverage r)"
    using c unknown_parts [of ?L base target "\<lambda>l. location_kind base target l = SIZE_UNKNOWN"] present_of_location
    by (simp add: r count_kind_def)
  show ?thesis using s1 s2 s3 s4 by blast
qed

theorem growth_accounts_balance_witness:
  "\<exists>r. compute_snapshot_growth (\<lambda>_. ''h'') example_snapshot example_target = Inr r
     \<and> gv_decomposition_complete (gr_coverage r) \<and> gv_known_net_logical_delta (gr_coverage r) = 1"
proof -
  obtain r where r: "compute_snapshot_growth (\<lambda>_. ''h'') example_snapshot example_target = Inr r"
    using compute_snapshot_growth_spec [OF example_pair_ok] by blast
  moreover have "gv_decomposition_complete (gr_coverage r)"
  proof -
    have "count_kind example_snapshot example_target SIZE_UNKNOWN = 0" by code_simp
    then show ?thesis using growth_complete_iff [OF r] by simp
  qed
  moreover have "(\<Sum>e \<leftarrow> active (s_entries example_target). known_bytes e)
      - (\<Sum>e \<leftarrow> active (s_entries example_snapshot). known_bytes e) = 1"
    by code_simp
  ultimately show ?thesis using growth_accounts_balance [OF r, THEN conjunct2, THEN conjunct1] by auto
qed

end
