(* ===== verification/Snapshot_Relations.thy ===== *)
theory Snapshot_Relations
  imports Canonical_Json
begin

text \<open>
  \<open>snapshot_relations.py\<close>: the relations between the Entries of two Snapshots. An Entry at
  the same location on both sides gets one same-location relation; Entries at one side only
  are paired by their object hint (device, inode, birth time) into a rename or cross-scope
  candidate when the payload digests agree and neither side has aliases, and into an
  ambiguity group otherwise. The theory holds the definitions; \<open>Snapshot_Relations_Correct\<close>
  has the theorems.
\<close>

section \<open>Types (models.py)\<close>

datatype relation_certainty = FACT | CANDIDATE | AMBIGUOUS | CERTAINTY_UNKNOWN

fun relation_certainty_value :: "relation_certainty \<Rightarrow> string" where
  "relation_certainty_value FACT = ''FACT''"
| "relation_certainty_value CANDIDATE = ''CANDIDATE''"
| "relation_certainty_value AMBIGUOUS = ''AMBIGUOUS''"
| "relation_certainty_value CERTAINTY_UNKNOWN = ''UNKNOWN''"

datatype relation_kind =
    SAME_LOCATION_CONTINUITY
  | SAME_LOCATION_METADATA_CHANGED
  | SAME_LOCATION_CONTENT_CHANGED
  | SAME_LOCATION_CONTENT_UNKNOWN
  | SAME_LOCATION_OBJECT_HINT_CHANGED
  | SAME_LOCATION_TYPE_CHANGED
  | SAME_LOCATION_SYMLINK_TARGET_CHANGED
  | RENAME_CANDIDATE
  | CROSS_SCOPE_TRANSITION_CANDIDATE
  | AMBIGUOUS_LOCATION_TRANSITION

fun relation_kind_value :: "relation_kind \<Rightarrow> string" where
  "relation_kind_value SAME_LOCATION_CONTINUITY = ''SAME_LOCATION_CONTINUITY''"
| "relation_kind_value SAME_LOCATION_METADATA_CHANGED = ''SAME_LOCATION_METADATA_CHANGED''"
| "relation_kind_value SAME_LOCATION_CONTENT_CHANGED = ''SAME_LOCATION_CONTENT_CHANGED''"
| "relation_kind_value SAME_LOCATION_CONTENT_UNKNOWN = ''SAME_LOCATION_CONTENT_UNKNOWN''"
| "relation_kind_value SAME_LOCATION_OBJECT_HINT_CHANGED = ''SAME_LOCATION_OBJECT_HINT_CHANGED''"
| "relation_kind_value SAME_LOCATION_TYPE_CHANGED = ''SAME_LOCATION_TYPE_CHANGED''"
| "relation_kind_value SAME_LOCATION_SYMLINK_TARGET_CHANGED = ''SAME_LOCATION_SYMLINK_TARGET_CHANGED''"
| "relation_kind_value RENAME_CANDIDATE = ''RENAME_CANDIDATE''"
| "relation_kind_value CROSS_SCOPE_TRANSITION_CANDIDATE = ''CROSS_SCOPE_TRANSITION_CANDIDATE''"
| "relation_kind_value AMBIGUOUS_LOCATION_TRANSITION = ''AMBIGUOUS_LOCATION_TRANSITION''"

record relation_ambiguity_group =
  rg_ambiguity_group_id :: string
  rg_source_entries :: "snapshot_entry_reference list"
  rg_target_entries :: "snapshot_entry_reference list"

record relation_item =
  ri_relation_id :: string
  ri_kind :: relation_kind
  ri_certainty :: relation_certainty
  ri_reason_codes :: "string list"
  ri_ambiguity_group_id :: "string option"
  ri_source_entries :: "snapshot_entry_reference list"
  ri_target_entries :: "snapshot_entry_reference list"

record relation_set =
  rs_relation_schema_version :: int
  rs_algorithm :: string
  rs_algorithm_version :: int
  rs_base_snapshot_id :: string
  rs_target_snapshot_id :: string
  rs_relations :: "relation_item list"
  rs_ambiguity_groups :: "relation_ambiguity_group list"
  rs_relation_set_digest :: string

section \<open>Items and their canonical content\<close>

definition relation_reference_data :: "snapshot_entry_reference \<Rightarrow> json" where
  "relation_reference_data r = JObj
     [(''snapshot_id'', JStr (ref_snapshot_id r)),
      (''scope_id'', JStr (ref_scope_id r)),
      (''relative_path'', JStr (ref_relative_path r))]"

definition item_content :: "relation_kind \<Rightarrow> relation_certainty \<Rightarrow> string list \<Rightarrow> string option \<Rightarrow>
    snapshot_entry_reference list \<Rightarrow> snapshot_entry_reference list \<Rightarrow> (string \<times> json) list" where
  "item_content kind certainty reason_codes ambiguity_group_id source_entries target_entries =
     [(''kind'', JStr (relation_kind_value kind)),
      (''certainty'', JStr (relation_certainty_value certainty)),
      (''reason_codes'', JArr (map JStr reason_codes)),
      (''ambiguity_group_id'', (case ambiguity_group_id of None \<Rightarrow> JNull | Some i \<Rightarrow> JStr i)),
      (''source_entries'', JArr (map relation_reference_data source_entries)),
      (''target_entries'', JArr (map relation_reference_data target_entries))]"

definition ambiguity_group_id :: "(string \<Rightarrow> string) \<Rightarrow> snapshot_entry_reference list \<Rightarrow>
    snapshot_entry_reference list \<Rightarrow> string" where
  "ambiguity_group_id sha source_entries target_entries = sha (canonical_json (JObj
     [(''source_entries'', JArr (map relation_reference_data source_entries)),
      (''target_entries'', JArr (map relation_reference_data target_entries))]))"

definition make_relation_item :: "(string \<Rightarrow> string) \<Rightarrow> relation_kind \<Rightarrow> relation_certainty \<Rightarrow>
    snapshot_entry_reference list \<Rightarrow> snapshot_entry_reference list \<Rightarrow> string option \<Rightarrow> relation_item" where
  "make_relation_item sha kind certainty source_entries target_entries group_id =
     (let reason_codes = [relation_kind_value kind]
      in \<lparr>ri_relation_id = sha (canonical_json (JObj
            (item_content kind certainty reason_codes group_id source_entries target_entries))),
          ri_kind = kind,
          ri_certainty = certainty,
          ri_reason_codes = reason_codes,
          ri_ambiguity_group_id = group_id,
          ri_source_entries = source_entries,
          ri_target_entries = target_entries\<rparr>)"

definition item_sort_key :: "relation_item \<Rightarrow> string \<times> string \<times> (string \<times> string \<times> string) list \<times>
    (string \<times> string \<times> string) list \<times> string" where
  "item_sort_key i =
     (relation_kind_value (ri_kind i), relation_certainty_value (ri_certainty i),
      map reference_key (ri_source_entries i), map reference_key (ri_target_entries i),
      (case ri_ambiguity_group_id i of None \<Rightarrow> '''' | Some g \<Rightarrow> g))"

definition group_sort_key :: "relation_ambiguity_group \<Rightarrow>
    (string \<times> string \<times> string) list \<times> (string \<times> string \<times> string) list \<times> string" where
  "group_sort_key g =
     (map reference_key (rg_source_entries g), map reference_key (rg_target_entries g),
      rg_ambiguity_group_id g)"

definition canonical_relation_set :: "relation_set \<Rightarrow> string" where
  "canonical_relation_set rs = canonical_json (JObj
     [(''domain'', JStr ''local_steward.cross_snapshot_relation.v1''),
      (''relation_schema_version'', JInt (rs_relation_schema_version rs)),
      (''algorithm'', JStr (rs_algorithm rs)),
      (''algorithm_version'', JInt (rs_algorithm_version rs)),
      (''base_snapshot_id'', JStr (rs_base_snapshot_id rs)),
      (''target_snapshot_id'', JStr (rs_target_snapshot_id rs)),
      (''relations'', JArr (map (\<lambda>i. JObj ((''relation_id'', JStr (ri_relation_id i))
         # item_content (ri_kind i) (ri_certainty i) (ri_reason_codes i) (ri_ambiguity_group_id i)
             (ri_source_entries i) (ri_target_entries i))) (rs_relations rs))),
      (''ambiguity_groups'', JArr (map (\<lambda>g. JObj
         [(''ambiguity_group_id'', JStr (rg_ambiguity_group_id g)),
          (''source_entries'', JArr (map relation_reference_data (rg_source_entries g))),
          (''target_entries'', JArr (map relation_reference_data (rg_target_entries g)))])
         (rs_ambiguity_groups rs)))])"

definition make_relation_set :: "(string \<Rightarrow> string) \<Rightarrow> string \<Rightarrow> string \<Rightarrow> relation_item list \<Rightarrow>
    relation_ambiguity_group list \<Rightarrow> relation_set" where
  "make_relation_set sha base_id target_id relations groups =
     (let provisional =
        \<lparr>rs_relation_schema_version = 1,
         rs_algorithm = ''cross_snapshot_relation'',
         rs_algorithm_version = 1,
         rs_base_snapshot_id = base_id,
         rs_target_snapshot_id = target_id,
         rs_relations = sort_key item_sort_key relations,
         rs_ambiguity_groups = sort_key group_sort_key groups,
         rs_relation_set_digest = ''''\<rparr>
      in provisional\<lparr>rs_relation_set_digest := sha (canonical_relation_set provisional)\<rparr>)"

section \<open>Facts of an Entry\<close>

type_synonym located_entries = "(string \<times> string, filesystem_entry) dict"

fun index_relation_entries :: "string \<Rightarrow> filesystem_entry list \<Rightarrow> located_entries \<Rightarrow>
    located_entries result" where
  "index_relation_entries snapshot_id [] m = Inr m"
| "index_relation_entries snapshot_id (e # es) m =
     (if e_snapshot_id e \<noteq> snapshot_id then
        raise RelationError ''RELATION_INVALID: entry snapshot identity does not match input''
      else if location e \<in> fst ` set m then
        raise RelationError ''RELATION_INVALID: duplicate scoped location in Snapshot''
      else index_relation_entries snapshot_id es (AList.update (location e) e m))"

definition is_sha256_hex :: "string \<Rightarrow> bool" where
  "is_sha256_hex d \<longleftrightarrow> length d = 64 \<and> list_all (\<lambda>c. c \<in> set ''0123456789abcdef'') d"

definition successful_payload_digest :: "bool \<Rightarrow> filesystem_entry \<Rightarrow> string option" where
  "successful_payload_digest reused_payloads_verified e =
     (case e_v2 e of
        None \<Rightarrow> None
      | Some v2 \<Rightarrow>
          (let p = v2_payload_observation v2
           in if p_status p \<notin> {HASHED, EMPTY_FILE_HASHED} then None
              else if p_algorithm p \<noteq> Some ''sha256'' \<or> p_algorithm_version p \<noteq> Some 1 then None
              else (case p_digest p of
                  None \<Rightarrow> None
                | Some digest \<Rightarrow>
                    if \<not> is_sha256_hex digest then None
                    else if p_bytes_hashed p \<noteq> e_size_bytes e then None
                    else if p_provenance p = Some DIRECT_READ then Some digest
                    else if p_provenance p = Some REUSED_FROM_VERIFIED_SNAPSHOT
                      \<and> reused_payloads_verified \<and> p_reused_from_snapshot_id p \<noteq> None
                    then Some digest
                    else None)))"

definition object_hint_equal :: "filesystem_entry \<Rightarrow> filesystem_entry \<Rightarrow> bool" where
  "object_hint_equal base target =
     (if e_device_id base = None \<or> e_inode base = None
         \<or> e_device_id target = None \<or> e_inode target = None then False
      else if (e_device_id base, e_inode base) \<noteq> (e_device_id target, e_inode target) then False
      else \<not> (e_birthtime_ns base \<noteq> None \<and> e_birthtime_ns target \<noteq> None
        \<and> e_birthtime_ns base \<noteq> e_birthtime_ns target))"

definition metadata_changed :: "filesystem_entry \<Rightarrow> filesystem_entry \<Rightarrow> bool" where
  "metadata_changed base target \<longleftrightarrow>
     e_mode base \<noteq> e_mode target \<or> e_uid base \<noteq> e_uid target \<or> e_gid base \<noteq> e_gid target
     \<or> e_size_bytes base \<noteq> e_size_bytes target \<or> e_mtime_ns base \<noteq> e_mtime_ns target
     \<or> e_ctime_ns base \<noteq> e_ctime_ns target \<or> e_link_count base \<noteq> e_link_count target
     \<or> e_readable base \<noteq> e_readable target \<or> e_writable base \<noteq> e_writable target
     \<or> e_executable base \<noteq> e_executable target
     \<or> e_observation_status base \<noteq> e_observation_status target
     \<or> e_error_code base \<noteq> e_error_code target
     \<or> e_error_message base \<noteq> e_error_message target
     \<or> e_excluded base \<noteq> e_excluded target"

section \<open>Same-location relations\<close>

definition same_location_relation :: "(string \<Rightarrow> string) \<Rightarrow> bool \<Rightarrow> filesystem_entry \<Rightarrow>
    filesystem_entry \<Rightarrow> relation_item option" where
  "same_location_relation sha reused_payloads_verified base target =
     (if e_observation_status base \<noteq> OBSERVED \<or> e_observation_status target \<noteq> OBSERVED then None
      else
        (let item = (\<lambda>kind certainty. Some (make_relation_item sha kind certainty
               [entry_reference base] [entry_reference target] None));
             base_payload = successful_payload_digest reused_payloads_verified base;
             target_payload = successful_payload_digest reused_payloads_verified target
         in if e_object_type base \<noteq> e_object_type target then item SAME_LOCATION_TYPE_CHANGED FACT
            else if e_object_type base = SYMLINK
              \<and> e_symlink_target_raw base \<noteq> e_symlink_target_raw target
            then item SAME_LOCATION_SYMLINK_TARGET_CHANGED FACT
            else if e_object_type base = REGULAR_FILE \<and> \<not> object_hint_equal base target
            then item SAME_LOCATION_OBJECT_HINT_CHANGED FACT
            else if e_object_type base = REGULAR_FILE
              \<and> (base_payload = None \<or> target_payload = None)
            then item SAME_LOCATION_CONTENT_UNKNOWN CERTAINTY_UNKNOWN
            else if e_object_type base = REGULAR_FILE \<and> base_payload \<noteq> target_payload
            then item SAME_LOCATION_CONTENT_CHANGED FACT
            else if metadata_changed base target then item SAME_LOCATION_METADATA_CHANGED FACT
            else item SAME_LOCATION_CONTINUITY FACT))"

section \<open>Transitions\<close>

definition transition_eligible :: "filesystem_entry \<Rightarrow> bool" where
  "transition_eligible e \<longleftrightarrow>
     e_object_type e = REGULAR_FILE \<and> e_observation_status e = OBSERVED \<and> \<not> e_excluded e
     \<and> e_device_id e \<noteq> None \<and> e_inode e \<noteq> None \<and> e_birthtime_ns e \<noteq> None"

text \<open>The keys are used only where the optional fields are present.\<close>

definition transition_key :: "filesystem_entry \<Rightarrow> int \<times> int \<times> int" where
  "transition_key e = (the (e_device_id e), the (e_inode e), the (e_birthtime_ns e))"

definition alias_key :: "filesystem_entry \<Rightarrow> int \<times> int" where
  "alias_key e = (the (e_device_id e), the (e_inode e))"

definition by_hint :: "filesystem_entry list \<Rightarrow> (int \<times> int \<times> int, filesystem_entry list) dict" where
  "by_hint es = group_by transition_key (filter transition_eligible es)"

definition by_alias :: "filesystem_entry list \<Rightarrow> (int \<times> int, filesystem_entry list) dict" where
  "by_alias es = group_by alias_key (filter (\<lambda>e. e_device_id e \<noteq> None \<and> e_inode e \<noteq> None) es)"

text \<open>One round of the loop over the hints: nothing, a candidate, or an ambiguity with its group.\<close>

definition relate_hint :: "(string \<Rightarrow> string) \<Rightarrow> bool \<Rightarrow>
    (int \<times> int \<times> int, filesystem_entry list) dict \<Rightarrow> (int \<times> int \<times> int, filesystem_entry list) dict \<Rightarrow>
    (int \<times> int, filesystem_entry list) dict \<Rightarrow> (int \<times> int, filesystem_entry list) dict \<Rightarrow>
    int \<times> int \<times> int \<Rightarrow> (relation_item \<times> relation_ambiguity_group option) option result" where
  "relate_hint sha reused base_by_hint target_by_hint base_aliases target_aliases hint =
     (case (map_of base_by_hint hint, map_of target_by_hint hint) of
        (Some base_es, Some target_es) \<Rightarrow>
          (let sources = sort_key location base_es; targets = sort_key location target_es;
               source_references = ordered_references sources;
               target_references = ordered_references targets;
               source_digests = map (successful_payload_digest reused) sources;
               target_digests = map (successful_payload_digest reused) targets;
               alias_hint = (case hint of (device, inode, _) \<Rightarrow> (device, inode))
           in if None \<in> set source_digests \<or> None \<in> set target_digests then Inr None
              else (case (map_of base_aliases alias_hint, map_of target_aliases alias_hint) of
                (Some base_as, Some target_as) \<Rightarrow>
                  (let source_aliases = sort_key location base_as;
                       target_aliases_for_hint = sort_key location target_as;
                       aliases = (length source_aliases > 1 \<or> length target_aliases_for_hint > 1)
                   in if aliases \<or> length (remdups (source_digests @ target_digests)) \<noteq> 1 then
                        (let component_sources =
                               (if aliases then ordered_references source_aliases else source_references);
                             component_targets =
                               (if aliases then ordered_references target_aliases_for_hint
                                else target_references);
                             group_id = ambiguity_group_id sha component_sources component_targets
                         in Inr (Some
                           (make_relation_item sha AMBIGUOUS_LOCATION_TRANSITION AMBIGUOUS
                              component_sources component_targets (Some group_id),
                            Some \<lparr>rg_ambiguity_group_id = group_id,
                                  rg_source_entries = component_sources,
                                  rg_target_entries = component_targets\<rparr>)))
                      else (case (sources, targets) of
                        (source # _, target # _) \<Rightarrow> Inr (Some
                          (make_relation_item sha
                             (if e_scope_id source = e_scope_id target then RENAME_CANDIDATE
                              else CROSS_SCOPE_TRANSITION_CANDIDATE)
                             CANDIDATE source_references target_references None, None))
                      | _ \<Rightarrow> Inl PyIndexError))
              | _ \<Rightarrow> Inl PyKeyError))
      | _ \<Rightarrow> Inl PyKeyError)"

definition transition_relations :: "(string \<Rightarrow> string) \<Rightarrow> bool \<Rightarrow> filesystem_entry list \<Rightarrow>
    filesystem_entry list \<Rightarrow> filesystem_entry list \<Rightarrow> filesystem_entry list \<Rightarrow>
    (relation_item list \<times> relation_ambiguity_group list) result" where
  "transition_relations sha reused base_entries target_entries base_all target_all =
     (let base_by_hint = by_hint base_entries; target_by_hint = by_hint target_entries;
          hints = sorted_set (filter (\<lambda>h. h \<in> fst ` set target_by_hint) (map fst base_by_hint))
      in bind_result (map_result (relate_hint sha reused base_by_hint target_by_hint
           (by_alias base_all) (by_alias target_all)) hints) (\<lambda>found.
         let found = List.map_filter id found
         in Inr (map fst found, List.map_filter snd found)))"

section \<open>The relation set\<close>

definition validate_relation_pair :: "filesystem_snapshot \<Rightarrow> filesystem_snapshot \<Rightarrow> unit result" where
  "validate_relation_pair base target =
     (if s_snapshot_id base = s_snapshot_id target then
        raise RelationError ''RELATION_INVALID: base and target Snapshot IDs must be distinct''
      else if s_completed_at base > s_started_at target then
        raise RelationError ''RELATION_INVALID: base Snapshot must not follow target Snapshot''
      else Inr ())"

definition compute_snapshot_relations :: "(string \<Rightarrow> string) \<Rightarrow> filesystem_snapshot \<Rightarrow>
    filesystem_snapshot \<Rightarrow> bool \<Rightarrow> bool \<Rightarrow> relation_set result" where
  "compute_snapshot_relations sha base target adjacent_valid_snapshots reused_payloads_verified =
     bind_result (validate_relation_pair base target) (\<lambda>_.
     bind_result (index_relation_entries (s_snapshot_id base) (s_entries base) []) (\<lambda>base_locations.
     bind_result (index_relation_entries (s_snapshot_id target) (s_entries target) []) (\<lambda>target_locations.
     let common = sorted_set (filter (\<lambda>l. l \<in> fst ` set target_locations) (map fst base_locations));
         same = List.map_filter (\<lambda>l.
           same_location_relation sha reused_payloads_verified
             (the (map_of base_locations l)) (the (map_of target_locations l))) common
     in if \<not> adjacent_valid_snapshots
        then Inr (make_relation_set sha (s_snapshot_id base) (s_snapshot_id target) same [])
        else bind_result (transition_relations sha reused_payloads_verified
               (map snd (filter (\<lambda>(l, _). l \<notin> fst ` set target_locations) base_locations))
               (map snd (filter (\<lambda>(l, _). l \<notin> fst ` set base_locations) target_locations))
               (map snd base_locations) (map snd target_locations)) (\<lambda>(transitions, groups).
             Inr (make_relation_set sha (s_snapshot_id base) (s_snapshot_id target)
               (same @ transitions) groups)))))"

end
