(* ===== verification/Duplicate_Analysis.thy ===== *)
theory Duplicate_Analysis
  imports Storage_Structure Snapshot_Relations
begin

text \<open>
  \<open>duplicate_analysis.py\<close>: the regular files of one Snapshot grouped by payload digest and
  size, their storage units (one per device and inode, or one per path when the object hint is
  missing), the hard link alias sets, the integrity conflicts between facts that should agree, and
  the coverage. The theory holds the definitions; \<open>Duplicate_Analysis_Correct\<close> has the theorems.
\<close>

section \<open>Types (models.py)\<close>

record payload_unknown_reason_count =
  uc_code :: string
  uc_count :: int

record hard_link_alias_set =
  hl_alias_set_id :: string
  hl_device_id :: int
  hl_inode :: int
  hl_member_entries :: "snapshot_entry_reference list"

record storage_unit =
  su_device_id :: "int option"
  su_inode :: "int option"
  su_member_entries :: "snapshot_entry_reference list"
  su_membership_known :: bool
  su_integrity_conflicted :: bool
  su_logical_size_bytes :: "int option"
  su_allocated_size_bytes :: "int option"

record payload_equality_group =
  pg_payload_group_id :: string
  pg_algorithm :: string
  pg_algorithm_version :: int
  pg_digest :: string
  pg_logical_size_bytes :: int
  pg_member_entries :: "snapshot_entry_reference list"
  pg_alias_set_ids :: "string list"
  pg_storage_units :: "storage_unit list"
  pg_known_storage_unit_count :: int
  pg_unknown_storage_unit_count :: int
  pg_is_exact_duplicate :: bool
  pg_path_logical_bytes :: int
  pg_known_unit_logical_bytes :: int
  pg_logical_redundant_bytes :: "int option"

record coverage_summary =
  dc_total_entry_count :: int
  dc_total_regular_entry_count :: int
  dc_payload_analyzable_regular_entry_count :: int
  dc_payload_unknown_regular_entry_count :: int
  dc_analyzable_logical_bytes :: int
  dc_unknown_logical_bytes :: int
  dc_payload_status_counts :: "payload_unknown_reason_count list"
  dc_payload_unknown_reason_counts :: "payload_unknown_reason_count list"
  dc_alias_path_count :: int
  dc_known_storage_unit_count :: int
  dc_unknown_storage_unit_membership_count :: int

text \<open>\<open>reclaimable_bytes\<close> has the type \<open>None\<close>, so it is no field.\<close>

record physical_storage_summary =
  ps_allocated_size_bytes_known_sum :: int
  ps_allocated_size_known_unit_count :: int
  ps_allocated_size_unknown_unit_count :: int
  ps_allocation_status :: knowledge_status
  ps_physical_block_sharing_status :: knowledge_status
  ps_reclaimable_status :: knowledge_status

record integrity_conflict =
  ic_code :: string
  ic_entries :: "snapshot_entry_reference list"

record duplicate_analysis_result =
  da_analysis_schema_version :: int
  da_algorithm :: string
  da_algorithm_version :: int
  da_snapshot_id :: string
  da_payload_equality_groups :: "payload_equality_group list"
  da_hard_link_alias_sets :: "hard_link_alias_set list"
  da_coverage :: coverage_summary
  da_physical_storage :: physical_storage_summary
  da_integrity_conflicts :: "integrity_conflict list"
  da_analysis_digest :: string

section \<open>Facts of an Entry\<close>

type_synonym object_hint = "int \<times> int"
type_synonym payload_key = "string \<times> int \<times> string \<times> int"

definition object_hint :: "filesystem_entry \<Rightarrow> object_hint option" where
  "object_hint e =
     (case (e_device_id e, e_inode e) of
        (Some device, Some inode) \<Rightarrow> Some (device, inode)
      | _ \<Rightarrow> None)"

definition observed_regular :: "filesystem_entry \<Rightarrow> bool" where
  "observed_regular e \<longleftrightarrow> e_object_type e = REGULAR_FILE \<and> e_observation_status e = OBSERVED"

definition payload_key :: "bool \<Rightarrow> filesystem_entry \<Rightarrow> payload_key option" where
  "payload_key reused_payloads_verified e =
     (case e_v2 e of
        None \<Rightarrow> None
      | Some v2 \<Rightarrow>
          if \<not> observed_regular e \<or> e_excluded e then None
          else
           (let p = v2_payload_observation v2
            in if p_status p \<notin> {HASHED, EMPTY_FILE_HASHED} then None
               else if p_algorithm p \<noteq> Some ''sha256'' \<or> p_algorithm_version p \<noteq> Some 1 then None
               else (case p_digest p of
                   None \<Rightarrow> None
                 | Some digest \<Rightarrow>
                     if \<not> is_sha256_hex digest then None
                     else (case e_size_bytes e of
                         None \<Rightarrow> None
                       | Some n \<Rightarrow>
                           if p_bytes_hashed p \<noteq> Some n then None
                           else if p_provenance p = Some DIRECT_READ then Some (''sha256'', 1, digest, n)
                           else if p_provenance p = Some REUSED_FROM_VERIFIED_SNAPSHOT
                             \<and> reused_payloads_verified \<and> p_reused_from_snapshot_id p \<noteq> None
                           then Some (''sha256'', 1, digest, n)
                           else None))))"

text \<open>\<open>str.upper\<close> on the ASCII values of the enumeration.\<close>

definition ascii_upper :: "string \<Rightarrow> string" where
  "ascii_upper s = map (\<lambda>c. if CHR ''a'' \<le> c \<and> c \<le> CHR ''z'' then char_of ((of_char c :: nat) - 32) else c) s"

definition unknown_reason :: "bool \<Rightarrow> filesystem_entry \<Rightarrow> string" where
  "unknown_reason reused_payloads_verified e =
     (case e_v2 e of
        None \<Rightarrow> ''V1_PAYLOAD_UNAVAILABLE''
      | Some v2 \<Rightarrow>
          if e_excluded e then ''ENTRY_EXCLUDED''
          else if e_observation_status e \<noteq> OBSERVED then
            ''METADATA_'' @ ascii_upper (filesystem_observation_status_value (e_observation_status e))
          else
           (let p = v2_payload_observation v2
            in if p_status p \<in> {HASHED, EMPTY_FILE_HASHED}
                 \<and> p_provenance p = Some REUSED_FROM_VERIFIED_SNAPSHOT \<and> \<not> reused_payloads_verified
               then ''SOURCE_INVALID_REUSED''
               else (case p_failure_code p of
                   Some code \<Rightarrow> code
                 | None \<Rightarrow>
                     if p_status p \<in> {HASHED, EMPTY_FILE_HASHED} then ''MALFORMED_PAYLOAD_OBSERVATION''
                     else payload_observation_status_value (p_status p))))"

definition payload_status_code :: "filesystem_entry \<Rightarrow> string" where
  "payload_status_code e =
     (case e_v2 e of
        None \<Rightarrow> ''V1_PAYLOAD_UNAVAILABLE''
      | Some v2 \<Rightarrow> payload_observation_status_value (p_status (v2_payload_observation v2)))"

text \<open>\<open>sorted(Counter(codes).items())\<close> as records.\<close>

definition counter_items :: "string list \<Rightarrow> payload_unknown_reason_count list" where
  "counter_items codes =
     map (\<lambda>(code, occurrences). \<lparr>uc_code = code, uc_count = int (length occurrences)\<rparr>)
       (sort_key fst (group_by id codes))"

section \<open>Canonical content\<close>

definition json_optional_int :: "int option \<Rightarrow> json" where
  "json_optional_int n = (case n of None \<Rightarrow> JNull | Some k \<Rightarrow> JInt k)"

definition alias_content :: "int \<Rightarrow> int \<Rightarrow> snapshot_entry_reference list \<Rightarrow> (string \<times> json) list" where
  "alias_content device inode members =
     [(''device_id'', JInt device), (''inode'', JInt inode),
      (''member_entries'', JArr (map reference_data members))]"

definition alias_set :: "(string \<Rightarrow> string) \<Rightarrow> int \<Rightarrow> int \<Rightarrow> filesystem_entry list \<Rightarrow> hard_link_alias_set" where
  "alias_set sha device inode es =
     (let members = ordered_references es
      in \<lparr>hl_alias_set_id = sha (canonical_json (JObj (alias_content device inode members))),
          hl_device_id = device, hl_inode = inode, hl_member_entries = members\<rparr>)"

definition storage_unit_data :: "storage_unit \<Rightarrow> json" where
  "storage_unit_data u = JObj
     [(''device_id'', json_optional_int (su_device_id u)),
      (''inode'', json_optional_int (su_inode u)),
      (''member_entries'', JArr (map reference_data (su_member_entries u))),
      (''membership_known'', JBool (su_membership_known u)),
      (''integrity_conflicted'', JBool (su_integrity_conflicted u)),
      (''logical_size_bytes'', json_optional_int (su_logical_size_bytes u)),
      (''allocated_size_bytes'', json_optional_int (su_allocated_size_bytes u))]"

definition group_content :: "payload_equality_group \<Rightarrow> (string \<times> json) list" where
  "group_content g =
     [(''algorithm'', JStr (pg_algorithm g)),
      (''algorithm_version'', JInt (pg_algorithm_version g)),
      (''digest'', JStr (pg_digest g)),
      (''logical_size_bytes'', JInt (pg_logical_size_bytes g)),
      (''member_entries'', JArr (map reference_data (pg_member_entries g))),
      (''alias_set_ids'', JArr (map JStr (pg_alias_set_ids g))),
      (''storage_units'', JArr (map storage_unit_data (pg_storage_units g))),
      (''known_storage_unit_count'', JInt (pg_known_storage_unit_count g)),
      (''unknown_storage_unit_count'', JInt (pg_unknown_storage_unit_count g)),
      (''is_exact_duplicate'', JBool (pg_is_exact_duplicate g)),
      (''path_logical_bytes'', JInt (pg_path_logical_bytes g)),
      (''known_unit_logical_bytes'', JInt (pg_known_unit_logical_bytes g)),
      (''logical_redundant_bytes'', json_optional_int (pg_logical_redundant_bytes g))]"

definition conflict_data :: "integrity_conflict \<Rightarrow> json" where
  "conflict_data c = JObj
     [(''code'', JStr (ic_code c)), (''entries'', JArr (map reference_data (ic_entries c)))]"

definition reason_count_data :: "payload_unknown_reason_count \<Rightarrow> json" where
  "reason_count_data c = JObj [(''code'', JStr (uc_code c)), (''count'', JInt (uc_count c))]"

definition duplicate_coverage_data :: "coverage_summary \<Rightarrow> json" where
  "duplicate_coverage_data c = JObj
     [(''total_entry_count'', JInt (dc_total_entry_count c)),
      (''total_regular_entry_count'', JInt (dc_total_regular_entry_count c)),
      (''payload_analyzable_regular_entry_count'', JInt (dc_payload_analyzable_regular_entry_count c)),
      (''payload_unknown_regular_entry_count'', JInt (dc_payload_unknown_regular_entry_count c)),
      (''analyzable_logical_bytes'', JInt (dc_analyzable_logical_bytes c)),
      (''unknown_logical_bytes'', JInt (dc_unknown_logical_bytes c)),
      (''payload_status_counts'', JArr (map reason_count_data (dc_payload_status_counts c))),
      (''payload_unknown_reason_counts'', JArr (map reason_count_data (dc_payload_unknown_reason_counts c))),
      (''alias_path_count'', JInt (dc_alias_path_count c)),
      (''known_storage_unit_count'', JInt (dc_known_storage_unit_count c)),
      (''unknown_storage_unit_membership_count'', JInt (dc_unknown_storage_unit_membership_count c))]"

definition physical_storage_data :: "physical_storage_summary \<Rightarrow> json" where
  "physical_storage_data p = JObj
     [(''allocated_size_bytes_known_sum'', JInt (ps_allocated_size_bytes_known_sum p)),
      (''allocated_size_known_unit_count'', JInt (ps_allocated_size_known_unit_count p)),
      (''allocated_size_unknown_unit_count'', JInt (ps_allocated_size_unknown_unit_count p)),
      (''allocation_status'', JStr (knowledge_status_value (ps_allocation_status p))),
      (''physical_block_sharing_status'',
        JStr (knowledge_status_value (ps_physical_block_sharing_status p))),
      (''reclaimable_bytes'', JNull),
      (''reclaimable_status'', JStr (knowledge_status_value (ps_reclaimable_status p)))]"

definition canonical_duplicate_analysis :: "duplicate_analysis_result \<Rightarrow> string" where
  "canonical_duplicate_analysis r = canonical_json (JObj
     [(''domain'', JStr ''local_steward.exact_payload_duplicate_storage.v1''),
      (''analysis_schema_version'', JInt (da_analysis_schema_version r)),
      (''algorithm'', JStr (da_algorithm r)),
      (''algorithm_version'', JInt (da_algorithm_version r)),
      (''snapshot_id'', JStr (da_snapshot_id r)),
      (''payload_equality_groups'', JArr (map (\<lambda>g. JObj
         ((''payload_group_id'', JStr (pg_payload_group_id g)) # group_content g))
         (da_payload_equality_groups r))),
      (''hard_link_alias_sets'', JArr (map (\<lambda>a. JObj
         ((''alias_set_id'', JStr (hl_alias_set_id a))
          # alias_content (hl_device_id a) (hl_inode a) (hl_member_entries a)))
         (da_hard_link_alias_sets r))),
      (''coverage'', duplicate_coverage_data (da_coverage r)),
      (''physical_storage'', physical_storage_data (da_physical_storage r)),
      (''integrity_conflicts'', JArr (map conflict_data (da_integrity_conflicts r)))])"

section \<open>The result\<close>

definition conflict_sort_key :: "integrity_conflict \<Rightarrow> string \<times> (string \<times> string \<times> string) list" where
  "conflict_sort_key c = (ic_code c, map reference_key (ic_entries c))"

definition payload_group_key :: "payload_equality_group \<Rightarrow> payload_key" where
  "payload_group_key g =
     (pg_algorithm g, pg_algorithm_version g, pg_digest g, pg_logical_size_bytes g)"

definition payload_group_sort_key :: "payload_equality_group \<Rightarrow>
    string \<times> int \<times> string \<times> int \<times> (string \<times> string \<times> string) list" where
  "payload_group_sort_key g =
     (pg_algorithm g, pg_algorithm_version g, pg_digest g, pg_logical_size_bytes g,
      map reference_key (pg_member_entries g))"

definition alias_sort_key :: "hard_link_alias_set \<Rightarrow> int \<times> int \<times> (string \<times> string \<times> string) list" where
  "alias_sort_key a = (hl_device_id a, hl_inode a, map reference_key (hl_member_entries a))"

fun check_analysis_entries :: "string \<Rightarrow> filesystem_entry list \<Rightarrow> (string \<times> string) list \<Rightarrow> unit result" where
  "check_analysis_entries snapshot_id [] seen = Inr ()"
| "check_analysis_entries snapshot_id (e # es) seen =
     (if e_snapshot_id e \<noteq> snapshot_id then
        raise DuplicateAnalysisError ''DUPLICATE_INVALID: entry snapshot identity does not match input''
      else if location e \<in> set seen then
        raise DuplicateAnalysisError ''DUPLICATE_INVALID: duplicate scoped location in Snapshot''
      else check_analysis_entries snapshot_id es (location e # seen))"

definition analysis_result :: "(string \<Rightarrow> string) \<Rightarrow> string \<Rightarrow> payload_equality_group list \<Rightarrow>
    hard_link_alias_set list \<Rightarrow> coverage_summary \<Rightarrow> physical_storage_summary \<Rightarrow>
    integrity_conflict list \<Rightarrow> duplicate_analysis_result" where
  "analysis_result sha snapshot_id groups alias_sets coverage physical conflicts =
     (let provisional =
        \<lparr>da_analysis_schema_version = 1,
         da_algorithm = ''exact_payload_duplicate_storage'',
         da_algorithm_version = 1,
         da_snapshot_id = snapshot_id,
         da_payload_equality_groups = sort_key payload_group_sort_key groups,
         da_hard_link_alias_sets = sort_key alias_sort_key alias_sets,
         da_coverage = coverage,
         da_physical_storage = physical,
         da_integrity_conflicts = sort_key conflict_sort_key conflicts,
         da_analysis_digest = ''''\<rparr>
      in provisional\<lparr>da_analysis_digest := sha (canonical_duplicate_analysis provisional)\<rparr>)"

section \<open>Hints, aliases and conflicts\<close>

definition by_object_hint :: "filesystem_entry list \<Rightarrow> (object_hint, filesystem_entry list) dict" where
  "by_object_hint es =
     group_by (\<lambda>e. the (object_hint e)) (filter (\<lambda>e. object_hint e \<noteq> None) es)"

text \<open>The rounds that the loops over \<open>sorted(by_hint.items())\<close> do not skip.\<close>

definition shared_hints :: "(object_hint, filesystem_entry list) dict \<Rightarrow>
    (object_hint \<times> filesystem_entry list) list" where
  "shared_hints hints = filter (\<lambda>(_, members). length members \<ge> 2) (sort_key fst hints)"

text \<open>A set comprehension over the values that are present.\<close>

definition present :: "'a option list \<Rightarrow> 'a list" where
  "present xs = remdups (List.map_filter id xs)"

definition allocated_size :: "filesystem_entry \<Rightarrow> int option" where
  "allocated_size e = (case e_v2 e of None \<Rightarrow> None | Some v2 \<Rightarrow> v2_allocated_size_bytes v2)"

definition hint_conflicts :: "(filesystem_entry \<Rightarrow> payload_key option) \<Rightarrow> filesystem_entry list \<Rightarrow>
    integrity_conflict list" where
  "hint_conflicts key_of members =
     (let references = ordered_references members;
          conflict = (\<lambda>code found. if found then [\<lparr>ic_code = code, ic_entries = references\<rparr>] else [])
      in conflict ''OBJECT_HINT_PAYLOAD_CONFLICT'' (length (present (map key_of members)) > 1)
         @ conflict ''OBJECT_HINT_SIZE_CONFLICT'' (length (present (map e_size_bytes members)) > 1)
         @ conflict ''LINK_COUNT_CONFLICT''
             (\<exists>count \<in> set (present (map e_link_count members)). count < int (length members))
         @ conflict ''ALLOCATED_SIZE_CONFLICT'' (length (present (map allocated_size members)) > 1))"

definition conflicted_hints :: "(filesystem_entry \<Rightarrow> payload_key option) \<Rightarrow>
    (object_hint \<times> filesystem_entry list) list \<Rightarrow> object_hint list" where
  "conflicted_hints key_of shared = map fst (filter (\<lambda>(_, members). hint_conflicts key_of members \<noteq> []) shared)"

text \<open>\<open>key[:3]\<close> and \<open>key[3]\<close>.\<close>

definition digest_of_key :: "payload_key \<Rightarrow> string \<times> int \<times> string" where
  "digest_of_key k = (case k of (algorithm, version, digest, _) \<Rightarrow> (algorithm, version, digest))"

definition size_of_key :: "payload_key \<Rightarrow> int" where
  "size_of_key k = (case k of (_, _, _, n) \<Rightarrow> n)"

text \<open>The members of the digests that are recorded with several sizes.\<close>

definition size_conflict_members :: "(filesystem_entry \<Rightarrow> payload_key) \<Rightarrow> filesystem_entry list \<Rightarrow>
    filesystem_entry list list" where
  "size_conflict_members key_of analyzable =
     filter (\<lambda>members. length (remdups (map (\<lambda>e. size_of_key (key_of e)) members)) > 1)
       (map snd (sort_key fst (group_by (\<lambda>e. digest_of_key (key_of e)) analyzable)))"

section \<open>Groups\<close>

definition known_unit :: "(object_hint, hard_link_alias_set) dict \<Rightarrow> object_hint list \<Rightarrow> int \<Rightarrow>
    object_hint \<times> filesystem_entry list \<Rightarrow> storage_unit" where
  "known_unit aliases conflicted logical_size unit =
     (case unit of (hint, unit_members) \<Rightarrow>
       (let unit_references = (case map_of aliases hint of
              Some found \<Rightarrow> hl_member_entries found
            | None \<Rightarrow> ordered_references unit_members);
            allocations = present (map allocated_size unit_members)
        in \<lparr>su_device_id = Some (fst hint), su_inode = Some (snd hint),
            su_member_entries = unit_references,
            su_membership_known = True,
            su_integrity_conflicted = (hint \<in> set conflicted),
            su_logical_size_bytes = Some logical_size,
            su_allocated_size_bytes =
              (if length allocations = 1 \<and> length unit_members = length unit_references
               then Some (hd allocations) else None)\<rparr>))"

definition unknown_unit :: "int \<Rightarrow> filesystem_entry \<Rightarrow> storage_unit" where
  "unknown_unit logical_size e =
     \<lparr>su_device_id = None, su_inode = None, su_member_entries = [entry_reference e],
      su_membership_known = False, su_integrity_conflicted = False,
      su_logical_size_bytes = Some logical_size, su_allocated_size_bytes = None\<rparr>"

definition unit_sort_key :: "storage_unit \<Rightarrow> bool \<times> int \<times> int \<times> (string \<times> string \<times> string) list" where
  "unit_sort_key u =
     (\<not> su_membership_known u,
      (case su_device_id u of None \<Rightarrow> -1 | Some n \<Rightarrow> n),
      (case su_inode u of None \<Rightarrow> -1 | Some n \<Rightarrow> n),
      map reference_key (su_member_entries u))"

definition payload_units :: "(object_hint, hard_link_alias_set) dict \<Rightarrow> object_hint list \<Rightarrow> int \<Rightarrow>
    filesystem_entry list \<Rightarrow> storage_unit list" where
  "payload_units aliases conflicted logical_size members =
     sort_key unit_sort_key
       (map (known_unit aliases conflicted logical_size) (sort_key fst (by_object_hint members))
        @ map (unknown_unit logical_size)
            (sort_key (\<lambda>e. reference_key (entry_reference e)) (filter (\<lambda>e. object_hint e = None) members)))"

definition group_alias_ids :: "(object_hint, hard_link_alias_set) dict \<Rightarrow> filesystem_entry list \<Rightarrow> string list" where
  "group_alias_ids aliases members =
     sorted_set (List.map_filter (\<lambda>(hint, _). map_option hl_alias_set_id (map_of aliases hint))
       (sort_key fst (by_object_hint members)))"

definition payload_group :: "(string \<Rightarrow> string) \<Rightarrow> (object_hint, hard_link_alias_set) dict \<Rightarrow>
    object_hint list \<Rightarrow> payload_key \<times> filesystem_entry list \<Rightarrow> payload_equality_group" where
  "payload_group sha aliases conflicted item =
     (case item of ((algorithm, version, digest, logical_size), members) \<Rightarrow>
       (let members = sort_key (\<lambda>e. reference_key (entry_reference e)) members;
            units = payload_units aliases conflicted logical_size members;
            known_units = filter (\<lambda>u. su_membership_known u \<and> \<not> su_integrity_conflicted u) units;
            unknown_count = count_if (\<lambda>u. \<not> su_membership_known u) units;
            has_conflict = (\<exists>u \<in> set units. su_integrity_conflicted u);
            group_without_id =
              \<lparr>pg_payload_group_id = '''', pg_algorithm = algorithm, pg_algorithm_version = version,
               pg_digest = digest, pg_logical_size_bytes = logical_size,
               pg_member_entries = ordered_references members,
               pg_alias_set_ids = group_alias_ids aliases members,
               pg_storage_units = units,
               pg_known_storage_unit_count = int (length known_units),
               pg_unknown_storage_unit_count = unknown_count,
               pg_is_exact_duplicate = (length known_units \<ge> 2),
               pg_path_logical_bytes = logical_size * int (length members),
               pg_known_unit_logical_bytes = logical_size * int (length known_units),
               pg_logical_redundant_bytes =
                 (if length known_units \<ge> 2 \<and> unknown_count = 0 \<and> \<not> has_conflict
                  then Some (logical_size * (int (length known_units) - 1)) else None)\<rparr>
        in group_without_id
             \<lparr>pg_payload_group_id := sha (canonical_json (JObj (group_content group_without_id)))\<rparr>))"

section \<open>Physical accounting\<close>

definition unit_allocation :: "object_hint list \<Rightarrow> object_hint \<times> filesystem_entry list \<Rightarrow> int option" where
  "unit_allocation conflicted unit =
     (case unit of (hint, members) \<Rightarrow>
       if hint \<in> set conflicted then None
       else
        (let allocations = present (map allocated_size members)
         in if length allocations = 1 \<and> length allocations = length members
            then Some (hd allocations) else None))"

definition unit_allocations :: "object_hint list \<Rightarrow> filesystem_entry list \<Rightarrow> int option list" where
  "unit_allocations conflicted observed =
     map (unit_allocation conflicted) (by_object_hint observed)
     @ replicate (length (filter (\<lambda>e. object_hint e = None) observed)) None"

definition physical_summary :: "int option list \<Rightarrow> physical_storage_summary" where
  "physical_summary allocations =
     \<lparr>ps_allocated_size_bytes_known_sum = (\<Sum>n \<leftarrow> List.map_filter id allocations. n),
      ps_allocated_size_known_unit_count = count_if (\<lambda>a. a \<noteq> None) allocations,
      ps_allocated_size_unknown_unit_count = count_if (\<lambda>a. a = None) allocations,
      ps_allocation_status = KNOWLEDGE_UNKNOWN,
      ps_physical_block_sharing_status = KNOWLEDGE_UNKNOWN,
      ps_reclaimable_status = KNOWLEDGE_UNKNOWN\<rparr>"

section \<open>The analysis\<close>

text \<open>
  \<open>payload_keys\<close> of the code. It is read only at regular entries, and these are its keys, so the
  lookup \<open>payload_keys[_reference(entry)]\<close> finds a value (\<open>payload_keys_lookup\<close> of
  \<open>Duplicate_Analysis_Correct\<close>).
\<close>

definition payload_keys :: "bool \<Rightarrow> filesystem_entry list \<Rightarrow>
    (snapshot_entry_reference, payload_key option) dict" where
  "payload_keys reused regular_entries =
     dict_of (map (\<lambda>e. (entry_reference e, payload_key reused e)) regular_entries)"

definition compute_snapshot_duplicate_analysis :: "(string \<Rightarrow> string) \<Rightarrow> filesystem_snapshot \<Rightarrow> bool \<Rightarrow>
    duplicate_analysis_result result" where
  "compute_snapshot_duplicate_analysis sha snapshot reused =
     bind_result (check_analysis_entries (s_snapshot_id snapshot) (s_entries snapshot) []) (\<lambda>_.
     let es = s_entries snapshot;
         regular_entries = filter (\<lambda>e. e_object_type e = REGULAR_FILE) es;
         observed = filter (\<lambda>e. observed_regular e \<and> \<not> e_excluded e) regular_entries;
         keys = payload_keys reused regular_entries;
         key_of = (\<lambda>e. the (map_of keys (entry_reference e)));
         analyzable = filter (\<lambda>e. key_of e \<noteq> None) regular_entries;
         unknown = filter (\<lambda>e. key_of e = None) regular_entries;
         hints = by_object_hint observed;
         shared = shared_hints hints;
         alias_sets = map (\<lambda>(hint, members). alias_set sha (fst hint) (snd hint) members) shared;
         aliases_by_hint = dict_of (map (\<lambda>a. ((hl_device_id a, hl_inode a), a)) alias_sets);
         conflicted = conflicted_hints key_of shared;
         size_conflicts = size_conflict_members (\<lambda>e. the (key_of e)) analyzable;
         conflicts = concat (map (\<lambda>(_, members). hint_conflicts key_of members) shared)
           @ map (\<lambda>members. \<lparr>ic_code = ''PAYLOAD_SIZE_CONFLICT'', ic_entries = ordered_references members\<rparr>)
               size_conflicts;
         conflict_references = concat (map ordered_references size_conflicts);
         by_payload = group_by (\<lambda>e. the (key_of e))
           (filter (\<lambda>e. entry_reference e \<notin> set conflict_references) analyzable);
         groups = map (payload_group sha aliases_by_hint conflicted)
           (filter (\<lambda>(_, members). length members \<ge> 2) (sort_key fst by_payload));
         coverage =
           \<lparr>dc_total_entry_count = int (length es),
            dc_total_regular_entry_count = int (length regular_entries),
            dc_payload_analyzable_regular_entry_count = int (length analyzable),
            dc_payload_unknown_regular_entry_count =
              int (length regular_entries) - int (length analyzable),
            dc_analyzable_logical_bytes = (\<Sum>e \<leftarrow> analyzable. or_zero (e_size_bytes e)),
            dc_unknown_logical_bytes = (\<Sum>e \<leftarrow> unknown. or_zero (e_size_bytes e)),
            dc_payload_status_counts = counter_items (map payload_status_code regular_entries),
            dc_payload_unknown_reason_counts = counter_items (map (unknown_reason reused) unknown),
            dc_alias_path_count = (\<Sum>a \<leftarrow> alias_sets. int (length (hl_member_entries a))),
            dc_known_storage_unit_count = int (length hints),
            dc_unknown_storage_unit_membership_count = count_if (\<lambda>e. object_hint e = None) observed\<rparr>
     in Inr (analysis_result sha (s_snapshot_id snapshot) groups alias_sets coverage
          (physical_summary (unit_allocations conflicted observed)) conflicts))"

end
