(* ===== verification/Duplicate_Analysis_Correct.thy ===== *)
theory Duplicate_Analysis_Correct
  imports Duplicate_Analysis Steward_Examples
begin

text \<open>
  Correctness of \<open>duplicate_analysis.py\<close>: the analysis fails only on its documented input errors,
  its groups are exactly the classes of two or more files with one verified payload, its accounts
  and its coverage balance, alias sets are exactly the shared object hints, and conflicts are
  reported exactly where the facts disagree.
\<close>

section \<open>Reading the computation\<close>

text \<open>A payload key stays one value: it is not split into its four components.\<close>

declare split_paired_Ex [simp del] split_paired_All [simp del]

definition analysis_input_ok :: "filesystem_snapshot \<Rightarrow> bool" where
  "analysis_input_ok s \<longleftrightarrow> (\<forall>e \<in> set (s_entries s). e_snapshot_id e = s_snapshot_id s)
     \<and> distinct (map location (s_entries s))"

definition regulars :: "filesystem_snapshot \<Rightarrow> filesystem_entry list" where
  "regulars s = filter (\<lambda>e. e_object_type e = REGULAR_FILE) (s_entries s)"

definition observeds :: "filesystem_snapshot \<Rightarrow> filesystem_entry list" where
  "observeds s = filter (\<lambda>e. observed_regular e \<and> \<not> e_excluded e) (s_entries s)"

definition analyzables :: "bool \<Rightarrow> filesystem_snapshot \<Rightarrow> filesystem_entry list" where
  "analyzables reused s = filter (\<lambda>e. payload_key reused e \<noteq> None) (s_entries s)"

definition shared_in :: "filesystem_snapshot \<Rightarrow> (object_hint \<times> filesystem_entry list) list" where
  "shared_in s = shared_hints (by_object_hint (observeds s))"

definition alias_sets_in :: "(string \<Rightarrow> string) \<Rightarrow> filesystem_snapshot \<Rightarrow> hard_link_alias_set list" where
  "alias_sets_in sha s = map (\<lambda>(hint, members). alias_set sha (fst hint) (snd hint) members) (shared_in s)"

definition aliases_in :: "(string \<Rightarrow> string) \<Rightarrow> filesystem_snapshot \<Rightarrow> (object_hint, hard_link_alias_set) dict" where
  "aliases_in sha s = dict_of (map (\<lambda>a. ((hl_device_id a, hl_inode a), a)) (alias_sets_in sha s))"

definition conflicted_in :: "bool \<Rightarrow> filesystem_snapshot \<Rightarrow> object_hint list" where
  "conflicted_in reused s = conflicted_hints (payload_key reused) (shared_in s)"

definition size_conflicts_in :: "bool \<Rightarrow> filesystem_snapshot \<Rightarrow> filesystem_entry list list" where
  "size_conflicts_in reused s = size_conflict_members (\<lambda>e. the (payload_key reused e)) (analyzables reused s)"

definition conflicts_in :: "bool \<Rightarrow> filesystem_snapshot \<Rightarrow> integrity_conflict list" where
  "conflicts_in reused s =
     concat (map (\<lambda>(_, members). hint_conflicts (payload_key reused) members) (shared_in s))
     @ map (\<lambda>members. \<lparr>ic_code = ''PAYLOAD_SIZE_CONFLICT'', ic_entries = ordered_references members\<rparr>)
         (size_conflicts_in reused s)"

definition groupable :: "bool \<Rightarrow> filesystem_snapshot \<Rightarrow> filesystem_entry list" where
  "groupable reused s = filter (\<lambda>e. entry_reference e
     \<notin> set (concat (map ordered_references (size_conflicts_in reused s)))) (analyzables reused s)"

definition payload_classes :: "bool \<Rightarrow> filesystem_snapshot \<Rightarrow> (payload_key \<times> filesystem_entry list) list" where
  "payload_classes reused s = filter (\<lambda>(_, members). length members \<ge> 2)
     (sort_key fst (group_by (\<lambda>e. the (payload_key reused e)) (groupable reused s)))"

definition groups_in :: "(string \<Rightarrow> string) \<Rightarrow> bool \<Rightarrow> filesystem_snapshot \<Rightarrow> payload_equality_group list" where
  "groups_in sha reused s = map (payload_group sha (aliases_in sha s) (conflicted_in reused s))
     (payload_classes reused s)"

definition duplicate_coverage_in :: "(string \<Rightarrow> string) \<Rightarrow> bool \<Rightarrow> filesystem_snapshot \<Rightarrow> coverage_summary" where
  "duplicate_coverage_in sha reused s =
     \<lparr>dc_total_entry_count = int (length (s_entries s)),
      dc_total_regular_entry_count = int (length (regulars s)),
      dc_payload_analyzable_regular_entry_count = int (length (analyzables reused s)),
      dc_payload_unknown_regular_entry_count = int (length (regulars s)) - int (length (analyzables reused s)),
      dc_analyzable_logical_bytes = (\<Sum>e \<leftarrow> analyzables reused s. or_zero (e_size_bytes e)),
      dc_unknown_logical_bytes =
        (\<Sum>e \<leftarrow> filter (\<lambda>e. payload_key reused e = None) (regulars s). or_zero (e_size_bytes e)),
      dc_payload_status_counts = counter_items (map payload_status_code (regulars s)),
      dc_payload_unknown_reason_counts =
        counter_items (map (unknown_reason reused) (filter (\<lambda>e. payload_key reused e = None) (regulars s))),
      dc_alias_path_count = (\<Sum>a \<leftarrow> alias_sets_in sha s. int (length (hl_member_entries a))),
      dc_known_storage_unit_count = int (length (by_object_hint (observeds s))),
      dc_unknown_storage_unit_membership_count = count_if (\<lambda>e. object_hint e = None) (observeds s)\<rparr>"

lemma check_analysis_entries_cases:
  "check_analysis_entries sid es seen =
     (if (\<forall>e \<in> set es. e_snapshot_id e = sid) \<and> distinct (map location es) \<and> location ` set es \<inter> set seen = {}
      then Inr () else check_analysis_entries sid es seen)
   \<and> (\<not> ((\<forall>e \<in> set es. e_snapshot_id e = sid) \<and> distinct (map location es) \<and> location ` set es \<inter> set seen = {})
      \<longrightarrow> (\<exists>msg. check_analysis_entries sid es seen = raise DuplicateAnalysisError msg))"
proof (induction es arbitrary: seen)
  case (Cons e es)
  show ?case
  proof (cases "e_snapshot_id e = sid \<and> location e \<notin> set seen")
    case True
    then have "check_analysis_entries sid (e # es) seen = check_analysis_entries sid es (location e # seen)"
      by simp
    then show ?thesis using Cons.IH [of "location e # seen"] True by (auto simp: image_iff)
  qed auto
qed simp

lemma payload_key_observed: "payload_key reused e = Some k \<Longrightarrow> observed_regular e \<and> \<not> e_excluded e"
  by (auto simp: payload_key_def Let_def split: option.splits if_splits)

lemma payload_key_facts:
  assumes "payload_key reused e = Some k"
  shows "e_object_type e = REGULAR_FILE" "e_size_bytes e = Some (size_of_key k)"
    "k = (''sha256'', 1, fst (snd (snd k)), size_of_key k)"
  using assms by (auto simp: payload_key_def Let_def size_of_key_def observed_regular_def split: option.splits if_splits)

lemma payload_keys_lookup:
  assumes "analysis_input_ok s" "e \<in> set (regulars s)"
  shows "map_of (payload_keys reused (regulars s)) (entry_reference e) = Some (payload_key reused e)"
proof -
  have "distinct (map entry_reference (s_entries s))"
    using assms(1) by (auto simp: analysis_input_ok_def intro: distinct_references)
  then have "distinct (map entry_reference (regulars s))"
    by (simp add: regulars_def distinct_map_filter)
  then show ?thesis unfolding payload_keys_def using assms(2) by (rule map_of_dict_of_key)
qed

lemma members_by_object_hint: "(h, ms) \<in> set (by_object_hint es) \<Longrightarrow> set ms \<subseteq> set es"
  by (auto simp: by_object_hint_def mem_group_by)

lemma members_shared: "(h, ms) \<in> set (shared_in s) \<Longrightarrow> set ms \<subseteq> set (observeds s)"
  by (auto simp: shared_in_def shared_hints_def dest: members_by_object_hint)

lemma observeds_regular: "set (observeds s) \<subseteq> set (regulars s)"
  by (auto simp: observeds_def regulars_def observed_regular_def)

lemma hint_conflicts_cong:
  assumes "\<And>e. e \<in> set ms \<Longrightarrow> f e = g e"
  shows "hint_conflicts f ms = hint_conflicts g ms"
proof -
  have "map f ms = map g ms" using assms by simp
  then show ?thesis by (simp only: hint_conflicts_def)
qed

lemma group_by_cong:
  assumes "\<And>x. x \<in> set xs \<Longrightarrow> f x = g x"
  shows "group_by f xs = group_by g xs"
  using assms by (induction xs rule: rev_induct) (simp_all add: group_by_snoc)

lemma size_conflict_members_cong:
  assumes "\<And>e. e \<in> set es \<Longrightarrow> f e = g e"
  shows "size_conflict_members f es = size_conflict_members g es"
proof -
  have "group_by (\<lambda>e. digest_of_key (f e)) es = group_by (\<lambda>e. digest_of_key (g e)) es"
    using assms by (intro group_by_cong) simp
  moreover have "map (\<lambda>e. size_of_key (f e)) ms = map (\<lambda>e. size_of_key (g e)) ms"
    if "ms \<in> set (map snd (sort_key fst (group_by (\<lambda>e. digest_of_key (g e)) es)))" for ms
    using that assms by (auto simp: mem_group_by)
  ultimately show ?thesis unfolding size_conflict_members_def by (intro filter_cong) (simp_all only:)
qed

definition duplicate_result_in :: "(string \<Rightarrow> string) \<Rightarrow> bool \<Rightarrow> filesystem_snapshot \<Rightarrow> duplicate_analysis_result" where
  "duplicate_result_in sha reused s = analysis_result sha (s_snapshot_id s) (groups_in sha reused s)
     (alias_sets_in sha s) (duplicate_coverage_in sha reused s)
     (physical_summary (unit_allocations (conflicted_in reused s) (observeds s))) (conflicts_in reused s)"

lemma compute_duplicate_ok:
  assumes ok: "analysis_input_ok s"
  shows "compute_snapshot_duplicate_analysis sha s reused = Inr (duplicate_result_in sha reused s)"
proof -
  let ?regs = "filter (\<lambda>e. e_object_type e = REGULAR_FILE) (s_entries s)"
  let ?key = "\<lambda>e. the (map_of (payload_keys reused ?regs) (entry_reference e))"
  have check: "check_analysis_entries (s_snapshot_id s) (s_entries s) [] = Inr ()"
    using ok check_analysis_entries_cases [of "s_snapshot_id s" "s_entries s" "[]"]
    by (simp add: analysis_input_ok_def)
  have key: "?key e = payload_key reused e" if "e \<in> set (regulars s)" for e
    using payload_keys_lookup [OF ok that] by (simp add: regulars_def)
  have obs: "filter (\<lambda>e. observed_regular e \<and> \<not> e_excluded e) ?regs = observeds s"
    by (auto simp: observeds_def observed_regular_def intro: filter_cong)
  have "filter (\<lambda>e. ?key e \<noteq> None) ?regs = filter (\<lambda>e. payload_key reused e \<noteq> None) ?regs"
    using key by (intro filter_cong) (auto simp: regulars_def)
  also have "\<dots> = analyzables reused s"
    by (auto simp: analyzables_def dest: payload_key_facts(1) intro: filter_cong)
  finally have an: "filter (\<lambda>e. ?key e \<noteq> None) ?regs = analyzables reused s" .
  have un: "filter (\<lambda>e. ?key e = None) ?regs = filter (\<lambda>e. payload_key reused e = None) (regulars s)"
    unfolding regulars_def using key by (intro filter_cong) (auto simp: regulars_def)
  have an_reg: "set (analyzables reused s) \<subseteq> set (regulars s)"
    by (auto simp: analyzables_def regulars_def dest: payload_key_facts(1))
  have sh_reg: "set ms \<subseteq> set (regulars s)" if "(h, ms) \<in> set (shared_in s)" for h ms
    using members_shared [OF that] observeds_regular by blast
  have hc: "hint_conflicts ?key ms = hint_conflicts (payload_key reused) ms" if "(h, ms) \<in> set (shared_in s)" for h ms
    using sh_reg [OF that] by (intro hint_conflicts_cong) (auto intro: key)
  have con: "conflicted_hints ?key (shared_in s) = conflicted_in reused s"
    unfolding conflicted_hints_def conflicted_in_def
    by (intro arg_cong [where f = "map fst"] filter_cong) (auto simp: hc)
  have cat: "concat (map (\<lambda>(_, members). hint_conflicts ?key members) (shared_in s))
      = concat (map (\<lambda>(_, members). hint_conflicts (payload_key reused) members) (shared_in s))"
    by (intro arg_cong [where f = concat] map_cong) (auto simp: hc)
  have sc: "size_conflict_members (\<lambda>e. the (?key e)) (analyzables reused s) = size_conflicts_in reused s"
    unfolding size_conflicts_in_def using an_reg by (intro size_conflict_members_cong) (auto simp: key)
  have gr: "group_by (\<lambda>e. the (?key e)) (groupable reused s)
      = group_by (\<lambda>e. the (payload_key reused e)) (groupable reused s)"
    using an_reg by (intro group_by_cong) (auto simp: key groupable_def)
  show ?thesis
    unfolding compute_snapshot_duplicate_analysis_def check bind_result_simps Let_def obs an un
      shared_in_def [symmetric] alias_sets_in_def [symmetric] aliases_in_def [symmetric] con cat sc
      groupable_def [symmetric] gr
    unfolding duplicate_result_in_def groups_in_def payload_classes_def conflicts_in_def
      duplicate_coverage_in_def regulars_def
    by (rule refl)
qed

lemma compute_duplicate_error:
  assumes "\<not> analysis_input_ok s"
  shows "\<exists>msg. compute_snapshot_duplicate_analysis sha s reused = raise DuplicateAnalysisError msg"
proof -
  obtain msg where "check_analysis_entries (s_snapshot_id s) (s_entries s) [] = raise DuplicateAnalysisError msg"
    using assms check_analysis_entries_cases [of "s_snapshot_id s" "s_entries s" "[]"]
    by (auto simp: analysis_input_ok_def)
  then show ?thesis unfolding compute_snapshot_duplicate_analysis_def by (simp only: bind_result_simps) simp
qed


lemma duplicate_result:
  assumes "compute_snapshot_duplicate_analysis sha s reused = Inr r"
  shows "analysis_input_ok s" "r = duplicate_result_in sha reused s"
proof -
  show ok: "analysis_input_ok s"
    using assms compute_duplicate_error [of s sha reused] by auto
  show "r = duplicate_result_in sha reused s"
    using assms compute_duplicate_ok [OF ok] by simp
qed

lemma result_fields:
  "da_coverage (duplicate_result_in sha reused s) = duplicate_coverage_in sha reused s"
  "da_payload_equality_groups (duplicate_result_in sha reused s)
     = sort_key payload_group_sort_key (groups_in sha reused s)"
  "da_hard_link_alias_sets (duplicate_result_in sha reused s) = sort_key alias_sort_key (alias_sets_in sha s)"
  "da_integrity_conflicts (duplicate_result_in sha reused s) = sort_key conflict_sort_key (conflicts_in reused s)"
  "da_physical_storage (duplicate_result_in sha reused s)
     = physical_summary (unit_allocations (conflicted_in reused s) (observeds s))"
  by (simp_all add: duplicate_result_in_def analysis_result_def Let_def)

section \<open>Classes\<close>

definition size_clash :: "bool \<Rightarrow> filesystem_snapshot \<Rightarrow> payload_key \<Rightarrow> bool" where
  "size_clash reused s k \<longleftrightarrow> (\<exists>e \<in> set (s_entries s). case payload_key reused e of None \<Rightarrow> False
     | Some k' \<Rightarrow> digest_of_key k' = digest_of_key k \<and> k' \<noteq> k)"

abbreviation with_key :: "bool \<Rightarrow> filesystem_snapshot \<Rightarrow> payload_key \<Rightarrow> filesystem_entry list" where
  "with_key reused s k \<equiv> filter (\<lambda>e. payload_key reused e = Some k) (s_entries s)"

lemma key_split: "k = k' \<longleftrightarrow> digest_of_key k = digest_of_key k' \<and> size_of_key k = size_of_key k'"
  by (cases k; cases k') (auto simp: digest_of_key_def size_of_key_def)

lemma several_values: "length (remdups xs) > 1 \<longleftrightarrow> (\<exists>x \<in> set xs. \<exists>y \<in> set xs. x \<noteq> y)"
proof -
  have "length (remdups xs) > 1 \<longleftrightarrow> \<not> card (set xs) \<le> 1"
    by (simp add: length_remdups_card_conv not_le)
  then show ?thesis by (simp add: card_le_Suc0_iff_eq)
qed

lemma size_conflict_members_iff:
  "(\<exists>ms \<in> set (size_conflicts_in reused s). e \<in> set ms)
     \<longleftrightarrow> e \<in> set (s_entries s) \<and> (\<exists>k. payload_key reused e = Some k \<and> size_clash reused s k)" (is "?L = ?R")
proof
  let ?d = "\<lambda>e. digest_of_key (the (payload_key reused e))"
  let ?n = "\<lambda>e. size_of_key (the (payload_key reused e))"
  {
    assume ?L
    then obtain ms where ms: "e \<in> set ms" "ms = filter (\<lambda>x. ?d x = ?d e) (analyzables reused s)"
      and several: "length (remdups (map ?n ms)) > 1"
      by (auto simp: size_conflicts_in_def size_conflict_members_def mem_group_by)
    from ms obtain k where k: "e \<in> set (s_entries s)" "payload_key reused e = Some k"
      by (auto simp: analyzables_def)
    from several obtain x y where "x \<in> set ms" "y \<in> set ms" "?n x \<noteq> ?n y"
      unfolding several_values by auto
    then obtain x where "x \<in> set ms" "?n x \<noteq> ?n e" by metis
    then have "size_clash reused s k"
      using k by (auto simp: size_clash_def ms(2) analyzables_def intro!: bexI [of _ x])
    then show ?R using k by blast
  }
  assume ?R
  then obtain k x k' where k: "e \<in> set (s_entries s)" "payload_key reused e = Some k"
    and x: "x \<in> set (s_entries s)" "payload_key reused x = Some k'" "digest_of_key k' = digest_of_key k" "k' \<noteq> k"
    by (auto simp: size_clash_def split: option.splits)
  let ?ms = "filter (\<lambda>x. ?d x = ?d e) (analyzables reused s)"
  have mem: "e \<in> set ?ms" "x \<in> set ?ms" using k x by (simp_all add: analyzables_def del: not_None_eq)
  have "size_of_key k' \<noteq> size_of_key k" using x(3,4) by (simp add: key_split)
  then have "?n x \<noteq> ?n e" using k x by simp
  then have "length (remdups (map ?n ?ms)) > 1" using mem unfolding several_values by auto
  moreover have "(?d e, ?ms) \<in> set (group_by ?d (analyzables reused s))"
    using mem(1) by (simp add: mem_group_by)
  then have "?ms \<in> set (map snd (group_by ?d (analyzables reused s)))"
    unfolding set_map by (rule rev_image_eqI) simp
  ultimately have "?ms \<in> set (size_conflicts_in reused s)"
    by (simp add: size_conflicts_in_def size_conflict_members_def)
  then show ?L using mem(1) by blast
qed

lemma groupable_iff:
  assumes ok: "analysis_input_ok s"
  shows "groupable reused s = filter (\<lambda>e. case payload_key reused e of None \<Rightarrow> False
     | Some k \<Rightarrow> \<not> size_clash reused s k) (s_entries s)"
proof -
  have inj: "entry_reference e = entry_reference e' \<Longrightarrow> e = e'"
    if "e \<in> set (s_entries s)" "e' \<in> set (s_entries s)" for e e'
    using ok that distinct_references [of "s_entries s"] unfolding analysis_input_ok_def distinct_map inj_on_def by blast
  have "entry_reference e \<notin> set (concat (map ordered_references (size_conflicts_in reused s)))
      \<longleftrightarrow> \<not> size_clash reused s k" if e: "e \<in> set (s_entries s)" "payload_key reused e = Some k" for e k
  proof -
    have "x = e" if "ms \<in> set (size_conflicts_in reused s)" "x \<in> set ms" "entry_reference x = entry_reference e" for ms x
      using that size_conflict_members_iff [of reused s x] inj [of x e] e(1) by blast
    then have "entry_reference e \<in> set (concat (map ordered_references (size_conflicts_in reused s)))
        \<longleftrightarrow> (\<exists>ms \<in> set (size_conflicts_in reused s). e \<in> set ms)"
      by (simp add: image_iff) metis
    then show ?thesis using size_conflict_members_iff [of reused s e] e by simp
  qed
  then show ?thesis
    unfolding groupable_def analyzables_def filter_filter by (intro filter_cong) (auto split: option.splits)
qed

lemma payload_classes_mem:
  assumes ok: "analysis_input_ok s"
  shows "(k, ms) \<in> set (payload_classes reused s)
     \<longleftrightarrow> ms = with_key reused s k \<and> length ms \<ge> 2 \<and> \<not> size_clash reused s k"
proof -
  have same: "filter (\<lambda>e. the (payload_key reused e) = k) (groupable reused s) = with_key reused s k"
    if "\<not> size_clash reused s k"
    unfolding groupable_iff [OF ok] filter_filter using that by (intro filter_cong) (auto split: option.splits)
  have grp: "e \<in> set (groupable reused s) \<longleftrightarrow>
      (\<exists>k. e \<in> set (with_key reused s k) \<and> \<not> size_clash reused s k)" for e
    unfolding groupable_iff [OF ok] by (simp split: option.splits)
  have "k \<in> (\<lambda>e. the (payload_key reused e)) ` set (groupable reused s)
      \<longleftrightarrow> \<not> size_clash reused s k \<and> with_key reused s k \<noteq> []"
  proof
    assume "k \<in> (\<lambda>e. the (payload_key reused e)) ` set (groupable reused s)"
    then obtain e where e: "e \<in> set (groupable reused s)" "the (payload_key reused e) = k" by blast
    from e(1) obtain k' where "e \<in> set (with_key reused s k')" "\<not> size_clash reused s k'"
      unfolding grp by blast
    with e(2) show "\<not> size_clash reused s k \<and> with_key reused s k \<noteq> []" by (auto simp: filter_empty_conv)
  next
    assume k: "\<not> size_clash reused s k \<and> with_key reused s k \<noteq> []"
    then obtain e where "e \<in> set (with_key reused s k)" using list.set_sel(1) by blast
    then have "e \<in> set (groupable reused s)" "the (payload_key reused e) = k" using k grp by auto
    then show "k \<in> (\<lambda>e. the (payload_key reused e)) ` set (groupable reused s)" by blast
  qed
  then have "(k, ms) \<in> set (payload_classes reused s) \<longleftrightarrow> (\<not> size_clash reused s k \<and> with_key reused s k \<noteq> [])
      \<and> ms = filter (\<lambda>e. the (payload_key reused e) = k) (groupable reused s) \<and> length ms \<ge> 2"
    unfolding payload_classes_def set_filter set_sort mem_Collect_eq mem_group_by prod.case by blast
  moreover have "with_key reused s k \<noteq> []" if "ms = with_key reused s k \<and> length ms \<ge> 2" using that by force
  ultimately show ?thesis using same by (cases "size_clash reused s k") (simp, metis)
qed

lemma payload_classes_sorted: "sorted_wrt (<) (map fst (payload_classes reused s))"
proof -
  have "distinct (map fst (group_by f xs))" for f :: "filesystem_entry \<Rightarrow> payload_key" and xs
    using group_by_wf [of f xs] by (simp add: dict_wf_def)
  then have "distinct (map fst (sort_key fst (group_by f xs)))" for f :: "filesystem_entry \<Rightarrow> payload_key" and xs
    by (simp add: distinct_map)
  then have "sorted_wrt (<) (map fst (sort_key fst (group_by f xs)))" for f :: "filesystem_entry \<Rightarrow> payload_key" and xs
    by (simp add: strict_sorted_iff)
  then show ?thesis
    unfolding payload_classes_def by (auto simp: sorted_wrt_map intro: sorted_wrt_filter)
qed

section \<open>Groups\<close>

lemma payload_group_simps [simp]:
  "payload_group_key (payload_group sha al co (k, ms)) = k"
  "pg_member_entries (payload_group sha al co (k, ms)) = ordered_references ms"
  "pg_logical_size_bytes (payload_group sha al co (k, ms)) = size_of_key k"
  "pg_storage_units (payload_group sha al co (k, ms)) = payload_units al co (size_of_key k)
     (sort_key (\<lambda>e. reference_key (entry_reference e)) ms)"
  by (cases k; simp add: payload_group_def payload_group_key_def size_of_key_def Let_def
      ordered_references_mset [of "sort_key (\<lambda>e. reference_key (entry_reference e)) ms" ms])+

lemma map_group_keys: "map payload_group_key (groups_in sha reused s) = map fst (payload_classes reused s)"
  by (auto simp: groups_in_def)

lemma groups_in_sorted: "sort_key payload_group_sort_key (groups_in sha reused s) = groups_in sha reused s"
proof (rule sort_key_id_if_sorted)
  have less: "payload_group_sort_key g \<le> payload_group_sort_key g'" if "payload_group_key g < payload_group_key g'" for g g'
    using that by (auto simp: payload_group_sort_key_def payload_group_key_def less_prod_def less_eq_prod_def)
  have "sorted_wrt (\<lambda>g g'. payload_group_key g < payload_group_key g') (groups_in sha reused s)"
    using payload_classes_sorted [of reused s] unfolding map_group_keys [symmetric, of _ _ sha] sorted_wrt_map .
  then show "sorted (map payload_group_sort_key (groups_in sha reused s))"
    unfolding sorted_map by (rule sorted_wrt_mono_rel [rotated]) (rule less)
qed

lemma groups_result:
  assumes "compute_snapshot_duplicate_analysis sha s reused = Inr r"
  shows "da_payload_equality_groups r = groups_in sha reused s"
  using duplicate_result [OF assms] by (simp add: result_fields groups_in_sorted)

lemma groups_cases:
  assumes "compute_snapshot_duplicate_analysis sha s reused = Inr r" "g \<in> set (da_payload_equality_groups r)"
  obtains k where "\<not> size_clash reused s k" "length (with_key reused s k) \<ge> 2"
    "g = payload_group sha (aliases_in sha s) (conflicted_in reused s) (k, with_key reused s k)"
proof -
  from assms(2) obtain k ms where "(k, ms) \<in> set (payload_classes reused s)"
    "g = payload_group sha (aliases_in sha s) (conflicted_in reused s) (k, ms)"
    unfolding groups_result [OF assms(1)] by (auto simp: groups_in_def)
  with payload_classes_mem [OF duplicate_result(1) [OF assms(1)], of k ms reused] show thesis
    by (intro that [of k]) auto
qed

text \<open>C14: the groups are exactly the classes of equal payload. Their keys (algorithm, version, digest,
  size) increase strictly; a key has a group exactly when at least two Entries carry it and no Entry
  carries the same digest with another size; and the members of a group are the references, in
  order, of all Entries of the Snapshot with the group's key.\<close>

theorem payload_groups_exact:
  assumes "compute_snapshot_duplicate_analysis sha s reused = Inr r"
  shows "sorted_wrt (<) (map payload_group_key (da_payload_equality_groups r))
    \<and> (\<forall>k. k \<in> payload_group_key ` set (da_payload_equality_groups r)
         \<longleftrightarrow> length (with_key reused s k) \<ge> 2 \<and> \<not> size_clash reused s k)
    \<and> list_all (\<lambda>g. pg_member_entries g = ordered_references (with_key reused s (payload_group_key g)))
        (da_payload_equality_groups r)"
proof (intro conjI allI)
  note groups = groups_result [OF assms]
  note classes = payload_classes_mem [OF duplicate_result(1) [OF assms]]
  show "sorted_wrt (<) (map payload_group_key (da_payload_equality_groups r))"
    by (simp only: groups map_group_keys payload_classes_sorted)
  show "k \<in> payload_group_key ` set (da_payload_equality_groups r)
         \<longleftrightarrow> length (with_key reused s k) \<ge> 2 \<and> \<not> size_clash reused s k" for k
  proof -
    have "payload_group_key ` set (da_payload_equality_groups r) = fst ` set (payload_classes reused s)"
      using arg_cong [OF map_group_keys, of set] by (simp add: groups)
    moreover have "k \<in> fst ` set (payload_classes reused s) \<longleftrightarrow> (\<exists>ms. (k, ms) \<in> set (payload_classes reused s))"
      by force
    ultimately show ?thesis by (simp only: classes) blast
  qed
  show "list_all (\<lambda>g. pg_member_entries g = ordered_references (with_key reused s (payload_group_key g)))
        (da_payload_equality_groups r)"
    unfolding list_all_iff by (auto elim: groups_cases [OF assms])
qed

section \<open>Units\<close>

definition hint_members :: "filesystem_snapshot \<Rightarrow> object_hint \<Rightarrow> filesystem_entry list" where
  "hint_members s h = filter (\<lambda>e. object_hint e = Some h) (observeds s)"

lemma mem_by_object_hint:
  "(h, ms) \<in> set (by_object_hint es) \<longleftrightarrow> ms \<noteq> [] \<and> ms = filter (\<lambda>e. object_hint e = Some h) es"
proof -
  have "h \<in> (\<lambda>e. the (object_hint e)) ` set (filter (\<lambda>e. object_hint e \<noteq> None) es)
      \<longleftrightarrow> filter (\<lambda>e. object_hint e = Some h) es \<noteq> []"
    by (force simp: filter_empty_conv)
  moreover have "filter (\<lambda>e. the (object_hint e) = h) (filter (\<lambda>e. object_hint e \<noteq> None) es)
      = filter (\<lambda>e. object_hint e = Some h) es"
    unfolding filter_filter by (intro filter_cong) auto
  ultimately show ?thesis by (auto simp: by_object_hint_def mem_group_by)
qed

lemma distinct_hints: "distinct (map fst (by_object_hint es))"
  using group_by_wf unfolding by_object_hint_def dict_wf_def .

lemma mem_shared_in: "(h, ms) \<in> set (shared_in s) \<longleftrightarrow> ms = hint_members s h \<and> length ms \<ge> 2"
  by (auto simp: shared_in_def shared_hints_def mem_by_object_hint hint_members_def)

lemma distinct_shared: "distinct (map fst (shared_in s))"
  using distinct_hints [of "observeds s"] by (auto simp: shared_in_def shared_hints_def distinct_map intro: inj_on_subset)

lemma alias_set_simps [simp]:
  "hl_device_id (alias_set sha d i es) = d" "hl_inode (alias_set sha d i es) = i"
  "hl_member_entries (alias_set sha d i es) = ordered_references es"
  by (simp_all add: alias_set_def Let_def)

lemma map_of_aliases_in:
  "map_of (aliases_in sha s) h =
     (if length (hint_members s h) \<ge> 2 then Some (alias_set sha (fst h) (snd h) (hint_members s h)) else None)"
proof -
  have eq: "aliases_in sha s = dict_of (map (\<lambda>x. (fst x, alias_set sha (fst (fst x)) (snd (fst x)) (snd x))) (shared_in s))"
    unfolding aliases_in_def alias_sets_in_def map_map
    by (intro arg_cong [where f = dict_of] map_cong) (auto simp: comp_def split_beta)
  show ?thesis
  proof (cases "length (hint_members s h) \<ge> 2")
    case True
    then have "(h, hint_members s h) \<in> set (shared_in s)" by (simp add: mem_shared_in)
    from map_of_dict_of_key [OF distinct_shared this, of "\<lambda>x. alias_set sha (fst (fst x)) (snd (fst x)) (snd x)"] True
    show ?thesis by (simp add: eq)
  next
    case False
    then have "h \<notin> fst ` set (shared_in s)" by (auto simp: mem_shared_in)
    then have "h \<notin> fst ` set (aliases_in sha s)" unfolding eq keys_dict_of by (simp add: image_image)
    then show ?thesis using False by (simp add: map_of_eq_None_iff)
  qed
qed

text \<open>The unit of a hint always lists every observed file with the hint, also those that are not in the group.\<close>

lemma with_key_observed: "set (with_key reused s k) \<subseteq> set (observeds s)"
  by (auto simp: observeds_def dest: payload_key_observed)

lemma known_unit_members:
  assumes es: "mset es = mset (with_key reused s k)" and mem: "(h, ms) \<in> set (by_object_hint es)"
  shows "su_member_entries (known_unit (aliases_in sha s) co n (h, ms)) = ordered_references (hint_members s h)"
proof (cases "length (hint_members s h) \<ge> 2")
  case True
  then show ?thesis by (simp add: known_unit_def Let_def map_of_aliases_in)
next
  case False
  have ms: "ms \<noteq> []" "ms = filter (\<lambda>e. object_hint e = Some h) es"
    using mem by (auto simp: mem_by_object_hint)
  then obtain e where e: "e \<in> set ms" using list.set_sel(1) by blast
  have "set ms \<subseteq> set (hint_members s h)"
    using ms(2) with_key_observed [of reused k s] mset_eq_setD [OF es] by (auto simp: hint_members_def)
  with False e have hm: "hint_members s h = [e]" by (cases "hint_members s h") (auto simp: not_le)
  have "mset ms = mset (filter (\<lambda>e. object_hint e = Some h) (with_key reused s k))"
    unfolding ms(2) mset_filter es ..
  also have "filter (\<lambda>e. object_hint e = Some h) (with_key reused s k)
      = filter (\<lambda>e. payload_key reused e = Some k) (hint_members s h)"
    unfolding hint_members_def observeds_def filter_filter by (intro filter_cong) (auto dest: payload_key_observed)
  finally have "ms = [e]" using e by (cases ms) (auto simp: hm split: if_splits)
  then show ?thesis using False hm by (simp add: known_unit_def Let_def map_of_aliases_in)
qed

lemma count_if_key:
  "distinct (map fst d) \<Longrightarrow> count_if (\<lambda>x. fst x = k) d = (if k \<in> fst ` set d then 1 else 0)"
  by (induction d) auto

lemma count_if_distinct: "distinct xs \<Longrightarrow> count_if (\<lambda>x. x = y) xs = (if y \<in> set xs then 1 else 0)"
  by (induction xs) auto

lemma payload_units_mset:
  "mset (payload_units al co n es) = mset (map (known_unit al co n) (by_object_hint es))
     + mset (map (unknown_unit n) (filter (\<lambda>e. object_hint e = None) es))"
  by (simp add: payload_units_def)

lemma unit_simps [simp]:
  "su_membership_known (known_unit al co n u)" "\<not> su_membership_known (unknown_unit n e)"
  "\<not> su_integrity_conflicted (unknown_unit n e)" "su_member_entries (unknown_unit n e) = [entry_reference e]"
  "su_integrity_conflicted (known_unit al co n u) \<longleftrightarrow> fst u \<in> set co"
  by (simp_all add: known_unit_def unknown_unit_def split_beta Let_def)

lemma count_units:
  "count_if P (payload_units al co n es) = count_if (\<lambda>u. P (known_unit al co n u)) (by_object_hint es)
     + count_if (\<lambda>e. P (unknown_unit n e)) (filter (\<lambda>e. object_hint e = None) es)"
proof -
  have "count_if P (payload_units al co n es)
      = count_if P (map (known_unit al co n) (by_object_hint es) @ map (unknown_unit n) (filter (\<lambda>e. object_hint e = None) es))"
    by (rule count_if_mset) (simp add: payload_units_mset)
  then show ?thesis by (simp add: count_if_map)
qed

lemma length_hints: "length (by_object_hint es) + length (filter (\<lambda>e. object_hint e = None) es) \<le> length es"
proof -
  let ?hs = "filter (\<lambda>e. object_hint e \<noteq> None) es"
  have "length (by_object_hint es) = card (set (map fst (by_object_hint es)))"
    using distinct_card [OF distinct_hints [of es]] by simp
  also have "\<dots> = card ((\<lambda>e. the (object_hint e)) ` set ?hs)"
    unfolding by_object_hint_def keys_group_by ..
  also have "\<dots> \<le> length ?hs"
    by (meson card_image_le card_length finite_set order_trans)
  finally show ?thesis using sum_length_filter_compl [of "\<lambda>e. object_hint e = None" es] by simp
qed

lemma unit_of_member:
  assumes ok: "analysis_input_ok s" and es: "mset es = mset (with_key reused s k)" and e: "e \<in> set es"
  shows "count_if (\<lambda>u. entry_reference e \<in> set (su_member_entries u)) (payload_units (aliases_in sha s) co n es) = 1"
proof -
  have sub: "set es = set (with_key reused s k)" using es by (rule mset_eq_setD)
  have inj: "entry_reference x = entry_reference e \<longleftrightarrow> x = e" if "x \<in> set (s_entries s)" for x
    using ok that e sub distinct_references [of "s_entries s"]
    unfolding analysis_input_ok_def distinct_map inj_on_def by auto
  have known: "entry_reference e \<in> set (su_member_entries (known_unit (aliases_in sha s) co n u))
      \<longleftrightarrow> Some (fst u) = object_hint e" if "u \<in> set (by_object_hint es)" for u
  proof -
    have "su_member_entries (known_unit (aliases_in sha s) co n u) = ordered_references (hint_members s (fst u))"
      using known_unit_members [OF es] that by (cases u) auto
    moreover have "e \<in> set (observeds s)" using e sub with_key_observed by blast
    moreover have "set (observeds s) \<subseteq> set (s_entries s)" by (auto simp: observeds_def)
    ultimately show ?thesis using inj by (simp add: hint_members_def image_iff) (metis subsetD)
  qed
  have "count_if (\<lambda>u. entry_reference e \<in> set (su_member_entries (known_unit (aliases_in sha s) co n u))) (by_object_hint es)
      = count_if (\<lambda>u. Some (fst u) = object_hint e) (by_object_hint es)"
    using known by (intro count_if_cong) simp
  also have "\<dots> = (if object_hint e = None then 0 else 1)"
  proof (cases "object_hint e")
    case (Some h)
    have "(h, filter (\<lambda>e. object_hint e = Some h) es) \<in> set (by_object_hint es)"
      using e Some by (auto simp: mem_by_object_hint filter_empty_conv)
    then have "h \<in> fst ` set (by_object_hint es)" by force
    then show ?thesis using count_if_key [OF distinct_hints, of h es] Some by simp
  qed (simp add: count_if_length)
  finally have 1: "count_if (\<lambda>u. entry_reference e \<in> set (su_member_entries (known_unit (aliases_in sha s) co n u)))
      (by_object_hint es) = (if object_hint e = None then 0 else 1)" .
  have "distinct (s_entries s)" using ok by (auto simp: analysis_input_ok_def distinct_map)
  then have "distinct es" using es by (metis distinct_filter mset_eq_imp_distinct_iff)
  then have "count_if (\<lambda>x. x = e) (filter (\<lambda>e. object_hint e = None) es) = (if object_hint e = None then 1 else 0)"
    using e by (simp add: count_if_distinct)
  moreover have "count_if (\<lambda>x. entry_reference e \<in> set (su_member_entries (unknown_unit n x))) (filter (\<lambda>e. object_hint e = None) es)
      = count_if (\<lambda>x. x = e) (filter (\<lambda>e. object_hint e = None) es)"
    using inj sub by (intro count_if_cong) (auto simp: eq_commute)
  ultimately show ?thesis unfolding count_units using 1 by simp
qed

lemma group_counts:
  assumes g: "g = payload_group sha al co (k, ms)"
  shows "pg_known_storage_unit_count g
      = count_if (\<lambda>u. su_membership_known u \<and> \<not> su_integrity_conflicted u) (pg_storage_units g)"
    "pg_unknown_storage_unit_count g = count_if (\<lambda>u. \<not> su_membership_known u) (pg_storage_units g)"
    "pg_path_logical_bytes g = size_of_key k * int (length ms)"
    "pg_known_unit_logical_bytes g = size_of_key k * pg_known_storage_unit_count g"
    "pg_is_exact_duplicate g \<longleftrightarrow> 2 \<le> pg_known_storage_unit_count g"
    "pg_logical_redundant_bytes g =
      (if 2 \<le> pg_known_storage_unit_count g \<and> pg_unknown_storage_unit_count g = 0
         \<and> (\<forall>u \<in> set (pg_storage_units g). \<not> su_integrity_conflicted u)
       then Some (size_of_key k * (pg_known_storage_unit_count g - 1)) else None)"
  unfolding g by (cases k; simp add: payload_group_def size_of_key_def Let_def count_if_length)+

lemma count_if_all: "(\<And>x. x \<in> set xs \<Longrightarrow> P x) \<Longrightarrow> count_if P xs = int (length xs)"
  by (induction xs) auto

lemma count_if_zero_iff: "count_if P xs = 0 \<longleftrightarrow> (\<forall>x \<in> set xs. \<not> P x)"
  by (auto simp: count_if_length filter_empty_conv)

lemma unit_kinds:
  "int (length (payload_units al co n es))
     = count_if (\<lambda>u. su_membership_known u \<and> \<not> su_integrity_conflicted u) (payload_units al co n es)
       + count_if (\<lambda>u. \<not> su_membership_known u) (payload_units al co n es)
       + count_if su_integrity_conflicted (payload_units al co n es)"
proof -
  have "int (length us) = count_if (\<lambda>u. su_membership_known u \<and> \<not> su_integrity_conflicted u) us
      + count_if (\<lambda>u. \<not> su_membership_known u) us + count_if su_integrity_conflicted us"
    if "\<forall>u \<in> set us. su_integrity_conflicted u \<longrightarrow> su_membership_known u" for us
    using that by (induction us) auto
  moreover have "\<forall>u \<in> set (payload_units al co n es). su_integrity_conflicted u \<longrightarrow> su_membership_known u"
    by (auto simp: payload_units_def)
  ultimately show ?thesis by blast
qed

lemma length_payload_units: "length (payload_units al co n es) \<le> length es"
  using length_hints [of es] by (simp add: payload_units_def)


section \<open>Coverage\<close>

lemma counter_items_sum: "(\<Sum>c \<leftarrow> counter_items codes. uc_count c) = int (length codes)"
proof -
  have "(\<Sum>c \<leftarrow> counter_items codes. uc_count c) = (\<Sum>(k, vs) \<leftarrow> group_by id codes. \<Sum>v \<leftarrow> vs. 1)"
    unfolding counter_items_def map_map by (simp add: comp_def split_def sum_list_triv)
  also have "\<dots> = int (length codes)" unfolding sum_group_by by (simp add: sum_list_triv)
  finally show ?thesis .
qed

lemma filter_analyzables: "analyzables reused s = filter (\<lambda>e. payload_key reused e \<noteq> None) (regulars s)"
  unfolding analyzables_def regulars_def filter_filter by (intro filter_cong) (auto dest: payload_key_facts(1))

lemma sum_list_filter_split:
  "(\<Sum>x \<leftarrow> filter P xs. f x) + (\<Sum>x \<leftarrow> filter (\<lambda>x. \<not> P x) xs. f x) = (\<Sum>x \<leftarrow> xs. f x :: int)"
  by (induction xs) auto

text \<open>The coverage of an analysis partitions the regular files: every one has an analyzable or an
  unknown payload, the status counts add up to all of them and the reason counts to the unknown ones,
  and the two byte totals to the recorded sizes; and the physical summary counts every storage unit,
  known or of unknown membership, once.\<close>

lemma duplicate_coverage_partition:
  assumes "compute_snapshot_duplicate_analysis sha s reused = Inr r"
  shows "dc_total_regular_entry_count (da_coverage r) = count_if (\<lambda>e. e_object_type e = REGULAR_FILE) (s_entries s)
    \<and> dc_payload_analyzable_regular_entry_count (da_coverage r)
        = count_if (\<lambda>e. payload_key reused e \<noteq> None) (s_entries s)
    \<and> dc_payload_analyzable_regular_entry_count (da_coverage r)
        + dc_payload_unknown_regular_entry_count (da_coverage r) = dc_total_regular_entry_count (da_coverage r)
    \<and> (\<Sum>c \<leftarrow> dc_payload_status_counts (da_coverage r). uc_count c) = dc_total_regular_entry_count (da_coverage r)
    \<and> (\<Sum>c \<leftarrow> dc_payload_unknown_reason_counts (da_coverage r). uc_count c)
        = dc_payload_unknown_regular_entry_count (da_coverage r)
    \<and> dc_analyzable_logical_bytes (da_coverage r) + dc_unknown_logical_bytes (da_coverage r)
        = (\<Sum>e \<leftarrow> filter (\<lambda>e. e_object_type e = REGULAR_FILE) (s_entries s). or_zero (e_size_bytes e))
    \<and> ps_allocated_size_known_unit_count (da_physical_storage r)
        + ps_allocated_size_unknown_unit_count (da_physical_storage r)
        = dc_known_storage_unit_count (da_coverage r) + dc_unknown_storage_unit_membership_count (da_coverage r)"
proof -
  note r = duplicate_result(2) [OF assms]
  have lens: "int (length (analyzables reused s)) + int (length (filter (\<lambda>e. payload_key reused e = None) (regulars s)))
      = int (length (regulars s))"
    unfolding filter_analyzables using sum_length_filter_compl [of "\<lambda>e. payload_key reused e \<noteq> None" "regulars s"] by simp
  have bytes: "(\<Sum>e \<leftarrow> analyzables reused s. or_zero (e_size_bytes e))
      + (\<Sum>e \<leftarrow> filter (\<lambda>e. payload_key reused e = None) (regulars s). or_zero (e_size_bytes e))
      = (\<Sum>e \<leftarrow> regulars s. or_zero (e_size_bytes e))"
    unfolding filter_analyzables
    using sum_list_filter_split [of "\<lambda>e. or_zero (e_size_bytes e)" "\<lambda>e. payload_key reused e \<noteq> None" "regulars s"] by simp
  have units: "count_if (\<lambda>a. a \<noteq> None) as + count_if (\<lambda>a. a = None) as = int (length as)" for as :: "int option list"
    by (induction as) auto
  show ?thesis
    unfolding r result_fields duplicate_coverage_in_def physical_summary_def coverage_summary.select_convs
      physical_storage_summary.select_convs counter_items_sum units bytes
    using lens by (simp add: unit_allocations_def count_if_length regulars_def analyzables_def)
qed

section \<open>Alias sets and conflicts\<close>

definition differ :: "('a \<Rightarrow> 'b option) \<Rightarrow> 'a list \<Rightarrow> bool" where
  "differ f xs \<longleftrightarrow> (\<exists>x \<in> set xs. \<exists>y \<in> set xs. f x \<noteq> None \<and> f y \<noteq> None \<and> f x \<noteq> f y)"

lemma set_present: "set (present xs) = {x. Some x \<in> set xs}"
  by (auto simp: present_def set_map_filter)

lemma present_differ: "length (present (map f xs)) > 1 \<longleftrightarrow> differ f xs"
proof -
  have "set (List.map_filter id (map f xs)) = {v. \<exists>x \<in> set xs. f x = Some v}"
    by (induction xs) (auto simp: List.map_filter_def split: option.splits)
  then have "length (present (map f xs)) > 1 \<longleftrightarrow>
      (\<exists>v. (\<exists>x \<in> set xs. f x = Some v) \<and> (\<exists>w. (\<exists>x \<in> set xs. f x = Some w) \<and> v \<noteq> w))"
    unfolding present_def several_values by auto
  also have "\<dots> \<longleftrightarrow> differ f xs" unfolding differ_def by (metis option.distinct(1) option.exhaust option.inject)
  finally show ?thesis .
qed

lemma alias_sets_sorted: "sort_key alias_sort_key (alias_sets_in sha s) = alias_sets_in sha s"
proof (rule sort_key_id_if_sorted)
  have "sorted (map fst (shared_in s))"
    by (auto simp: shared_in_def shared_hints_def intro: sorted_filter)
  with distinct_shared [of s] have "sorted_wrt (\<lambda>x y. fst x < fst y) (shared_in s)"
    by (simp add: strict_sorted_iff flip: sorted_wrt_map)
  then have "sorted_wrt (\<lambda>x y. alias_sort_key (alias_set sha (fst (fst x)) (snd (fst x)) (snd x))
      \<le> alias_sort_key (alias_set sha (fst (fst y)) (snd (fst y)) (snd y))) (shared_in s)"
    by (rule sorted_wrt_mono_rel [rotated]) (auto simp: alias_sort_key_def less_prod_def less_eq_prod_def)
  then show "sorted (map alias_sort_key (alias_sets_in sha s))"
    unfolding alias_sets_in_def sorted_map sorted_wrt_map by (simp add: split_beta)
qed

text \<open>The hard link alias sets are exactly the shared object hints. In increasing order, one set for
  every device and inode that at least two observed, not excluded regular files have, with the
  references of all of them as members; so no file is in two sets, and the alias paths counted by
  the coverage are the members of all sets.\<close>

lemma alias_sets_exact:
  assumes "compute_snapshot_duplicate_analysis sha s reused = Inr r"
  shows "sorted_wrt (<) (map (\<lambda>a. (hl_device_id a, hl_inode a)) (da_hard_link_alias_sets r))
    \<and> (\<forall>h. h \<in> (\<lambda>a. (hl_device_id a, hl_inode a)) ` set (da_hard_link_alias_sets r)
         \<longleftrightarrow> length (hint_members s h) \<ge> 2)
    \<and> list_all (\<lambda>a. hl_member_entries a = ordered_references (hint_members s (hl_device_id a, hl_inode a)))
        (da_hard_link_alias_sets r)
    \<and> dc_alias_path_count (da_coverage r) = (\<Sum>a \<leftarrow> da_hard_link_alias_sets r. int (length (hl_member_entries a)))"
proof (intro conjI allI)
  have a: "da_hard_link_alias_sets r = alias_sets_in sha s"
    using duplicate_result(2) [OF assms] by (simp add: result_fields alias_sets_sorted)
  have keys: "map (\<lambda>a. (hl_device_id a, hl_inode a)) (alias_sets_in sha s) = map fst (shared_in s)"
    by (auto simp: alias_sets_in_def)
  have "sorted (map fst (shared_in s))"
    by (auto simp: shared_in_def shared_hints_def intro: sorted_filter)
  then show "sorted_wrt (<) (map (\<lambda>a. (hl_device_id a, hl_inode a)) (da_hard_link_alias_sets r))"
    unfolding a keys using distinct_shared [of s] by (simp add: strict_sorted_iff)
  show "h \<in> (\<lambda>a. (hl_device_id a, hl_inode a)) ` set (da_hard_link_alias_sets r)
         \<longleftrightarrow> length (hint_members s h) \<ge> 2" for h
  proof -
    have "(\<lambda>a. (hl_device_id a, hl_inode a)) ` set (alias_sets_in sha s) = fst ` set (shared_in s)"
      using arg_cong [OF keys, of set] by simp
    moreover have "h \<in> fst ` set (shared_in s) \<longleftrightarrow> (\<exists>ms. (h, ms) \<in> set (shared_in s))" by force
    ultimately show ?thesis unfolding a by (simp add: mem_shared_in)
  qed
  show "list_all (\<lambda>a. hl_member_entries a = ordered_references (hint_members s (hl_device_id a, hl_inode a)))
        (da_hard_link_alias_sets r)"
    unfolding a by (auto simp: list_all_iff alias_sets_in_def mem_shared_in)
  show "dc_alias_path_count (da_coverage r) = (\<Sum>a \<leftarrow> da_hard_link_alias_sets r. int (length (hl_member_entries a)))"
    using duplicate_result(2) [OF assms] by (simp add: a result_fields duplicate_coverage_in_def)
qed

text \<open>When a conflict of a code is due for the files of one object hint.\<close>

definition hint_conflict_due :: "bool \<Rightarrow> string \<Rightarrow> filesystem_entry list \<Rightarrow> bool" where
  "hint_conflict_due reused code es \<longleftrightarrow>
     code = ''OBJECT_HINT_PAYLOAD_CONFLICT'' \<and> differ (payload_key reused) es
   \<or> code = ''OBJECT_HINT_SIZE_CONFLICT'' \<and> differ e_size_bytes es
   \<or> code = ''LINK_COUNT_CONFLICT''
       \<and> (\<exists>e \<in> set es. case e_link_count e of None \<Rightarrow> False | Some n \<Rightarrow> n < int (length es))
   \<or> code = ''ALLOCATED_SIZE_CONFLICT'' \<and> differ allocated_size es"

lemma conflict_eq: "c = \<lparr>ic_code = a, ic_entries = b\<rparr> \<longleftrightarrow> ic_code c = a \<and> ic_entries c = b"
  by (cases c) auto

lemma mem_if_singleton: "x \<in> set (if b then [y] else []) \<longleftrightarrow> b \<and> x = y"
  by auto

lemma present_ex:
  "(\<exists>n \<in> set (present (map f xs)). P n) \<longleftrightarrow> (\<exists>x \<in> set xs. case f x of None \<Rightarrow> False | Some n \<Rightarrow> P n)"
  by (induction xs) (auto simp: present_def List.map_filter_def split: option.splits)

lemma hint_conflicts_due:
  "c \<in> set (hint_conflicts (payload_key reused) es)
     \<longleftrightarrow> ic_entries c = ordered_references es \<and> hint_conflict_due reused (ic_code c) es"
  unfolding hint_conflicts_def Let_def present_differ present_ex hint_conflict_due_def
    set_append Un_iff mem_if_singleton conflict_eq
  by blast

definition with_digest :: "bool \<Rightarrow> filesystem_snapshot \<Rightarrow> string \<times> int \<times> string \<Rightarrow> filesystem_entry list" where
  "with_digest reused s d = filter (\<lambda>e. case payload_key reused e of None \<Rightarrow> False
     | Some k \<Rightarrow> digest_of_key k = d) (s_entries s)"

lemma mem_size_conflicts:
  "ms \<in> set (size_conflicts_in reused s) \<longleftrightarrow> (\<exists>d. ms = with_digest reused s d \<and> differ (payload_key reused) ms)"
proof -
  let ?d = "\<lambda>e. digest_of_key (the (payload_key reused e))"
  let ?n = "\<lambda>e. size_of_key (the (payload_key reused e))"
  have fd: "filter (\<lambda>e. ?d e = d) (analyzables reused s) = with_digest reused s d" for d
    unfolding analyzables_def with_digest_def filter_filter by (intro filter_cong) (auto split: option.splits)
  have sizes: "length (remdups (map ?n (with_digest reused s d))) > 1 \<longleftrightarrow> differ (payload_key reused) (with_digest reused s d)" for d
  proof -
    have key: "\<exists>k. payload_key reused e = Some k \<and> digest_of_key k = d" if "e \<in> set (with_digest reused s d)" for e
      using that by (auto simp: with_digest_def split: option.splits)
    have "?n e \<noteq> ?n e' \<longleftrightarrow> payload_key reused e \<noteq> payload_key reused e'"
      if "e \<in> set (with_digest reused s d)" "e' \<in> set (with_digest reused s d)" for e e'
      using key [OF that(1)] key [OF that(2)] by (auto simp: key_split)
    moreover have "payload_key reused e \<noteq> None" if "e \<in> set (with_digest reused s d)" for e
      using key [OF that] by auto
    ultimately show ?thesis unfolding several_values differ_def set_map bex_simps(7) by blast
  qed
  have "ms \<in> set (size_conflicts_in reused s)
      \<longleftrightarrow> (\<exists>d. (d, ms) \<in> set (group_by ?d (analyzables reused s))) \<and> length (remdups (map ?n ms)) > 1"
    unfolding size_conflicts_in_def size_conflict_members_def by (auto simp: image_iff Bex_def)
  also have "\<dots> \<longleftrightarrow> (\<exists>d. ms = with_digest reused s d \<and> length (remdups (map ?n ms)) > 1)"
  proof -
    have "d \<in> ?d ` set (analyzables reused s)" if "length (remdups (map ?n (with_digest reused s d))) > 1" for d
    proof -
      have "with_digest reused s d \<noteq> []" using that by auto
      then obtain e where "e \<in> set (with_digest reused s d)" using list.set_sel(1) by blast
      then show ?thesis unfolding fd [symmetric] by auto
    qed
    then show ?thesis unfolding mem_group_by fd by blast
  qed
  finally show ?thesis using sizes by auto
qed

text \<open>C16: an integrity conflict is reported exactly where recorded facts disagree: for the files of one
  object hint that differ in payload key, size or allocated size, or that are more than a recorded
  link count; and for the files of one digest that differ in size. The conflict names all these
  files.\<close>

theorem integrity_conflicts_exact:
  assumes "compute_snapshot_duplicate_analysis sha s reused = Inr r"
  shows "c \<in> set (da_integrity_conflicts r) \<longleftrightarrow>
      (\<exists>h. length (hint_members s h) \<ge> 2 \<and> ic_entries c = ordered_references (hint_members s h)
         \<and> hint_conflict_due reused (ic_code c) (hint_members s h))
    \<or> ic_code c = ''PAYLOAD_SIZE_CONFLICT''
      \<and> (\<exists>d. ic_entries c = ordered_references (with_digest reused s d)
           \<and> differ (payload_key reused) (with_digest reused s d))"
proof -
  have "set (da_integrity_conflicts r) = set (conflicts_in reused s)"
    using duplicate_result(2) [OF assms] by (simp add: result_fields)
  moreover have "c \<in> set (concat (map (\<lambda>(_, members). hint_conflicts (payload_key reused) members) (shared_in s)))
      \<longleftrightarrow> (\<exists>h. length (hint_members s h) \<ge> 2 \<and> ic_entries c = ordered_references (hint_members s h)
         \<and> hint_conflict_due reused (ic_code c) (hint_members s h))"
  proof -
    have "c \<in> set (concat (map (\<lambda>(_, members). hint_conflicts (payload_key reused) members) (shared_in s)))
        \<longleftrightarrow> (\<exists>h ms. (h, ms) \<in> set (shared_in s) \<and> c \<in> set (hint_conflicts (payload_key reused) ms))"
      by (force simp: split_beta)
    then show ?thesis by (simp only: mem_shared_in hint_conflicts_due) blast
  qed
  moreover have "c \<in> set (map (\<lambda>members. \<lparr>ic_code = ''PAYLOAD_SIZE_CONFLICT'', ic_entries = ordered_references members\<rparr>)
         (size_conflicts_in reused s))
      \<longleftrightarrow> ic_code c = ''PAYLOAD_SIZE_CONFLICT''
      \<and> (\<exists>d. ic_entries c = ordered_references (with_digest reused s d)
           \<and> differ (payload_key reused) (with_digest reused s d))"
    unfolding set_map image_iff conflict_eq Bex_def mem_size_conflicts by blast
  ultimately show ?thesis unfolding conflicts_in_def set_append Un_iff by blast
qed

section \<open>Physical accounting\<close>

text \<open>Two links to one file that both report its allocated size.\<close>

definition linked_entry :: "string \<Rightarrow> int \<Rightarrow> int \<Rightarrow> string \<Rightarrow> filesystem_entry" where
  "linked_entry path inode links digest =
     (hashed_entry ''s1'' ''home'' path inode 0 digest)\<lparr>e_link_count := Some links\<rparr>"

definition linked_snapshot :: filesystem_snapshot where
  "linked_snapshot = plain_snapshot ''s1'' ''t0'' ''t1'' [''home'']
     [linked_entry ''a'' 1 2 (replicate 64 CHR ''a''),
      linked_entry ''b'' 2 1 (replicate 64 CHR ''a''),
      linked_entry ''c'' 1 2 (replicate 64 CHR ''a''),
      plain_entry ''s1'' ''home'' ''d'' REGULAR_FILE (Some 9)]"

lemma linked_snapshot_ok: "analysis_input_ok linked_snapshot"
  by code_simp

text \<open>The parts of its analysis, evaluated one by one.\<close>

abbreviation linked_key :: payload_key where
  "linked_key \<equiv> (''sha256'', 1, replicate 64 CHR ''a'', 3)"

lemma linked_facts:
  "conflicted_in False linked_snapshot = []"
  "conflicts_in False linked_snapshot = []"
  "unit_allocations [] (observeds linked_snapshot) = [None, Some 4096, None]"
  "map fst (payload_classes False linked_snapshot) = [linked_key]"
  "map (\<lambda>u. (su_membership_known u, su_integrity_conflicted u, su_allocated_size_bytes u))
     (payload_units (aliases_in (\<lambda>_. ''h'') linked_snapshot) [] 3
       (sort_key (\<lambda>e. reference_key (entry_reference e)) (with_key False linked_snapshot linked_key)))
   = [(True, False, Some 4096), (True, False, Some 4096)]"
  by code_simp+

lemma linked_groups:
  "groups_in (\<lambda>_. ''h'') False linked_snapshot = [payload_group (\<lambda>_. ''h'') (aliases_in (\<lambda>_. ''h'') linked_snapshot) []
     (linked_key, with_key False linked_snapshot linked_key)]"
proof -
  obtain ms where ms: "payload_classes False linked_snapshot = [(linked_key, ms)]"
    using linked_facts(4) by (cases "payload_classes False linked_snapshot") auto
  then have "(linked_key, ms) \<in> set (payload_classes False linked_snapshot)" by simp
  then have "ms = with_key False linked_snapshot linked_key"
    unfolding payload_classes_mem [OF linked_snapshot_ok] by blast
  then show ?thesis by (simp only: groups_in_def ms linked_facts(1) list.map)
qed

lemma linked_result: "compute_snapshot_duplicate_analysis (\<lambda>_. ''h'') linked_snapshot False
    = Inr (duplicate_result_in (\<lambda>_. ''h'') False linked_snapshot)"
  by (rule compute_duplicate_ok [OF linked_snapshot_ok])

text \<open>The physical summary never counts the allocation of a hard-linked file as known, not even when
  all links agree on it. In the example the unit of the two links carries the allocated size 4096 in
  its group, as does that of the file without links, and there is no conflict; yet the summary knows
  the 4096 bytes of one unit only, and reports two units of unknown allocation, the linked file and
  the one without an object hint.\<close>

lemma linked_allocation_unknown:
  "\<exists>r. compute_snapshot_duplicate_analysis (\<lambda>_. ''h'') linked_snapshot False = Inr r
     \<and> map su_allocated_size_bytes (concat (map pg_storage_units (da_payload_equality_groups r)))
         = [Some 4096, Some 4096]
     \<and> da_integrity_conflicts r = []
     \<and> ps_allocated_size_bytes_known_sum (da_physical_storage r) = 4096
     \<and> ps_allocated_size_known_unit_count (da_physical_storage r) = 1
     \<and> ps_allocated_size_unknown_unit_count (da_physical_storage r) = 2"
proof -
  have "map su_allocated_size_bytes (payload_units (aliases_in (\<lambda>_. ''h'') linked_snapshot) [] 3
       (sort_key (\<lambda>e. reference_key (entry_reference e)) (with_key False linked_snapshot linked_key)))
    = [Some 4096, Some 4096]"
    using arg_cong [OF linked_facts(5), of "map (snd \<circ> snd)"] by (simp add: comp_def)
  then show ?thesis
    using linked_result groups_result [OF linked_result]
    by (simp add: result_fields linked_facts(1-3) linked_groups size_of_key_def physical_summary_def
        List.map_filter_def)
qed

theorem payload_groups_exact_witness:
  "\<exists>r. compute_snapshot_duplicate_analysis (\<lambda>_. ''h'') linked_snapshot False = Inr r
     \<and> linked_key \<in> payload_group_key ` set (da_payload_equality_groups r)"
proof -
  have "length (with_key False linked_snapshot linked_key) \<ge> 2" "\<not> size_clash False linked_snapshot linked_key"
    by code_simp+
  then show ?thesis using linked_result payload_groups_exact [OF linked_result] by blast
qed


text \<open>A hint whose link count is too small is a conflict.\<close>

definition unlinked_snapshot :: filesystem_snapshot where
  "unlinked_snapshot = plain_snapshot ''s1'' ''t0'' ''t1'' [''home'']
     [linked_entry ''a'' 1 1 (replicate 64 CHR ''a''), linked_entry ''c'' 1 1 (replicate 64 CHR ''a'')]"

theorem integrity_conflicts_exact_witness:
  "\<exists>r. compute_snapshot_duplicate_analysis (\<lambda>_. ''h'') unlinked_snapshot False = Inr r
     \<and> \<lparr>ic_code = ''LINK_COUNT_CONFLICT'', ic_entries = ordered_references (hint_members unlinked_snapshot (1, 1))\<rparr>
         \<in> set (da_integrity_conflicts r)"
proof -
  have ok: "analysis_input_ok unlinked_snapshot" by code_simp
  have "length (hint_members unlinked_snapshot (1, 1)) \<ge> 2"
    "hint_conflict_due False ''LINK_COUNT_CONFLICT'' (hint_members unlinked_snapshot (1, 1))"
    by code_simp+
  then show ?thesis
    using compute_duplicate_ok [OF ok] integrity_conflicts_exact [OF compute_duplicate_ok [OF ok]]
    by (metis integrity_conflict.select_convs(1,2))
qed

end
