(* ===== verification/Snapshot_Diff.thy ===== *)
theory Snapshot_Diff
  imports Steward_Models Steward_Examples
begin

text \<open>
  \<open>snapshot_diff.py\<close> and \<open>change_semantics.py\<close>: the difference of two Snapshots by scoped
  location, and the file events read off it. The theorems say that the difference has
  exactly one item per location of either Snapshot, that it carries both sides whole, that
  it reverses when the Snapshots are swapped and is empty on equal facts, and that the events
  are its items other than the unchanged ones, in the same order.
\<close>

section \<open>Types (models.py)\<close>

datatype snapshot_diff_change_type = ADDED | REMOVED | MODIFIED | UNCHANGED

datatype change_event_type = FILE_CREATED | FILE_DELETED | FILE_MODIFIED

record snapshot_diff_item =
  di_scope_id :: string
  di_relative_path :: string
  di_change_type :: snapshot_diff_change_type
  di_changed_fields :: "string list"
  di_left_entry :: "filesystem_entry option"
  di_right_entry :: "filesystem_entry option"

record snapshot_diff_summary =
  ds_added_count :: int
  ds_removed_count :: int
  ds_modified_count :: int
  ds_unchanged_count :: int
  ds_item_count :: int

record snapshot_diff =
  sd_left_snapshot_id :: string
  sd_right_snapshot_id :: string
  sd_items :: "snapshot_diff_item list"
  sd_summary :: snapshot_diff_summary

record change_event =
  ce_scope_id :: string
  ce_relative_path :: string
  ce_event_type :: change_event_type
  ce_left_entry :: "filesystem_entry option"
  ce_right_entry :: "filesystem_entry option"
  ce_size_delta :: "int option"
  ce_hash_changed :: "bool option"
  ce_metadata_changed :: bool

record change_event_summary =
  es_created_count :: int
  es_deleted_count :: int
  es_modified_count :: int
  es_event_count :: int

section \<open>The difference (snapshot_diff.py)\<close>

text \<open>Each comparable field with the equality \<open>getattr(left, field) == getattr(right, field)\<close>.\<close>

definition comparable_entry_fields :: "(string \<times> (filesystem_entry \<Rightarrow> filesystem_entry \<Rightarrow> bool)) list" where
  "comparable_entry_fields =
     [(''object_type'', \<lambda>l r. e_object_type l = e_object_type r),
      (''device_id'', \<lambda>l r. e_device_id l = e_device_id r),
      (''inode'', \<lambda>l r. e_inode l = e_inode r),
      (''mode'', \<lambda>l r. e_mode l = e_mode r),
      (''uid'', \<lambda>l r. e_uid l = e_uid r),
      (''gid'', \<lambda>l r. e_gid l = e_gid r),
      (''size_bytes'', \<lambda>l r. e_size_bytes l = e_size_bytes r),
      (''mtime_ns'', \<lambda>l r. e_mtime_ns l = e_mtime_ns r),
      (''ctime_ns'', \<lambda>l r. e_ctime_ns l = e_ctime_ns r),
      (''birthtime_ns'', \<lambda>l r. e_birthtime_ns l = e_birthtime_ns r),
      (''link_count'', \<lambda>l r. e_link_count l = e_link_count r),
      (''symlink_target_raw'', \<lambda>l r. e_symlink_target_raw l = e_symlink_target_raw r),
      (''readable'', \<lambda>l r. e_readable l = e_readable r),
      (''writable'', \<lambda>l r. e_writable l = e_writable r),
      (''executable'', \<lambda>l r. e_executable l = e_executable r),
      (''observation_status'', \<lambda>l r. e_observation_status l = e_observation_status r),
      (''error_code'', \<lambda>l r. e_error_code l = e_error_code r),
      (''error_message'', \<lambda>l r. e_error_message l = e_error_message r),
      (''excluded'', \<lambda>l r. e_excluded l = e_excluded r)]"

definition changed_fields :: "filesystem_entry \<Rightarrow> filesystem_entry \<Rightarrow> string list" where
  "changed_fields l r = map fst (filter (\<lambda>(_, same). \<not> same l r) comparable_entry_fields)"

fun index_entries :: "string \<Rightarrow> filesystem_entry list \<Rightarrow> (string \<times> string, filesystem_entry) dict \<Rightarrow>
    (string \<times> string, filesystem_entry) dict result" where
  "index_entries snapshot_id [] by_location = Inr by_location"
| "index_entries snapshot_id (e # es) by_location =
     (if location e \<in> fst ` set by_location then
        raise DiffError (''snapshot '' @ snapshot_id @ '' has duplicate scoped location: ''
          @ e_scope_id e @ '':'' @ e_relative_path e)
      else index_entries snapshot_id es (AList.update (location e) e by_location))"

definition entries_by_location :: "filesystem_entry list \<Rightarrow> string \<Rightarrow>
    (string \<times> string, filesystem_entry) dict result" where
  "entries_by_location es snapshot_id = index_entries snapshot_id es []"

definition diff_item :: "filesystem_entry option \<Rightarrow> filesystem_entry option \<Rightarrow> string \<times> string \<Rightarrow>
    snapshot_diff_item" where
  "diff_item left right l =
     (let (change_type, fields) =
        (case (left, right) of
           (None, _) \<Rightarrow> (ADDED, [])
         | (Some _, None) \<Rightarrow> (REMOVED, [])
         | (Some le, Some re) \<Rightarrow>
             (let fields = changed_fields le re
              in (if fields \<noteq> [] then MODIFIED else UNCHANGED, fields)))
      in \<lparr>di_scope_id = fst l, di_relative_path = snd l, di_change_type = change_type,
          di_changed_fields = fields, di_left_entry = left, di_right_entry = right\<rparr>)"

definition count_change :: "snapshot_diff_change_type \<Rightarrow> snapshot_diff_item list \<Rightarrow> int" where
  "count_change t items = count_if (\<lambda>i. di_change_type i = t) items"

definition compute_snapshot_diff :: "filesystem_snapshot \<Rightarrow> filesystem_snapshot \<Rightarrow> snapshot_diff result" where
  "compute_snapshot_diff left right =
     bind_result (entries_by_location (s_entries left) (s_snapshot_id left)) (\<lambda>left_entries.
     bind_result (entries_by_location (s_entries right) (s_snapshot_id right)) (\<lambda>right_entries.
     let items = map (\<lambda>l. diff_item (map_of left_entries l) (map_of right_entries l) l)
           (sorted_set (map fst left_entries @ map fst right_entries))
     in Inr
       \<lparr>sd_left_snapshot_id = s_snapshot_id left,
        sd_right_snapshot_id = s_snapshot_id right,
        sd_items = items,
        sd_summary =
          \<lparr>ds_added_count = count_change ADDED items,
           ds_removed_count = count_change REMOVED items,
           ds_modified_count = count_change MODIFIED items,
           ds_unchanged_count = count_change UNCHANGED items,
           ds_item_count = int (length items)\<rparr>\<rparr>))"

section \<open>File events (change_semantics.py)\<close>

definition metadata_fields :: "string list" where
  "metadata_fields =
     [''object_type'',
      ''device_id'',
      ''inode'',
      ''mode'',
      ''uid'',
      ''gid'',
      ''mtime_ns'',
      ''ctime_ns'',
      ''birthtime_ns'',
      ''link_count'',
      ''symlink_target_raw'',
      ''readable'',
      ''writable'',
      ''executable'',
      ''observation_status'',
      ''error_code'',
      ''error_message'',
      ''excluded'']"

definition size_delta :: "snapshot_diff_item \<Rightarrow> int option" where
  "size_delta item =
     (case (di_left_entry item, di_right_entry item) of
        (Some l, Some r) \<Rightarrow>
          (case (e_size_bytes l, e_size_bytes r) of
             (Some a, Some b) \<Rightarrow> Some (b - a)
           | _ \<Rightarrow> None)
      | _ \<Rightarrow> None)"

definition event_type_of :: "snapshot_diff_change_type \<Rightarrow> change_event_type option" where
  "event_type_of t =
     (case t of
        ADDED \<Rightarrow> Some FILE_CREATED
      | REMOVED \<Rightarrow> Some FILE_DELETED
      | MODIFIED \<Rightarrow> Some FILE_MODIFIED
      | UNCHANGED \<Rightarrow> None)"

definition event_of :: "snapshot_diff_item \<Rightarrow> change_event option" where
  "event_of item =
     (case event_type_of (di_change_type item) of
        None \<Rightarrow> None
      | Some t \<Rightarrow> Some
          \<lparr>ce_scope_id = di_scope_id item,
           ce_relative_path = di_relative_path item,
           ce_event_type = t,
           ce_left_entry = di_left_entry item,
           ce_right_entry = di_right_entry item,
           ce_size_delta = size_delta item,
           ce_hash_changed = None,
           ce_metadata_changed = (\<exists>f \<in> set (di_changed_fields item). f \<in> set metadata_fields)\<rparr>)"

definition event_key :: "change_event \<Rightarrow> string \<times> string" where
  "event_key ev = (ce_scope_id ev, ce_relative_path ev)"

definition change_events_from_snapshot_diff :: "snapshot_diff \<Rightarrow> change_event list" where
  "change_events_from_snapshot_diff d = sort_key event_key (List.map_filter event_of (sd_items d))"

definition summarize_change_events :: "change_event list \<Rightarrow> change_event_summary" where
  "summarize_change_events events =
     \<lparr>es_created_count = count_if (\<lambda>ev. ce_event_type ev = FILE_CREATED) events,
      es_deleted_count = count_if (\<lambda>ev. ce_event_type ev = FILE_DELETED) events,
      es_modified_count = count_if (\<lambda>ev. ce_event_type ev = FILE_MODIFIED) events,
      es_event_count = int (length events)\<rparr>"

section \<open>Correctness\<close>

definition by_location :: "filesystem_snapshot \<Rightarrow> (string \<times> string, filesystem_entry) dict" where
  "by_location s = map (\<lambda>e. (location e, e)) (s_entries s)"

definition diff_locations :: "filesystem_snapshot \<Rightarrow> filesystem_snapshot \<Rightarrow> (string \<times> string) list" where
  "diff_locations left right = sorted_set (map location (s_entries left @ s_entries right))"

abbreviation unique_locations :: "filesystem_snapshot \<Rightarrow> bool" where
  "unique_locations s \<equiv> distinct (map location (s_entries s))"

definition spec_item :: "filesystem_snapshot \<Rightarrow> filesystem_snapshot \<Rightarrow> string \<times> string \<Rightarrow> snapshot_diff_item" where
  "spec_item left right l = diff_item (map_of (by_location left) l) (map_of (by_location right) l) l"

lemma index_entries_ok:
  "location ` set es \<inter> fst ` set m = {} \<Longrightarrow> distinct (map location es) \<Longrightarrow>
   index_entries sid es m = Inr (m @ map (\<lambda>e. (location e, e)) es)"
  by (induction es arbitrary: m) (auto simp: update_fresh image_iff)

lemma index_entries_error:
  assumes "dict_wf m" "\<not> (location ` set es \<inter> fst ` set m = {} \<and> distinct (map location es))"
  shows "\<exists>msg. index_entries sid es m = raise DiffError msg"
  using assms
proof (induction es arbitrary: m)
  case (Cons e es)
  show ?case
  proof (cases "location e \<in> fst ` set m")
    case False
    then have "\<not> (location ` set es \<inter> fst ` set (AList.update (location e) e m) = {} \<and> distinct (map location es))"
      using Cons.prems(2) by (auto simp: keys_update)
    from Cons.IH [OF _ this] Cons.prems(1) False show ?thesis by simp
  qed simp
qed simp

lemma entries_by_location_ok:
  "unique_locations s \<Longrightarrow> entries_by_location (s_entries s) sid = Inr (by_location s)"
  by (simp add: entries_by_location_def index_entries_ok by_location_def)

lemma entries_by_location_error:
  "\<not> unique_locations s \<Longrightarrow> \<exists>msg. entries_by_location (s_entries s) sid = raise DiffError msg"
  by (simp add: entries_by_location_def index_entries_error)

lemma compute_snapshot_diff_ok:
  assumes "unique_locations left" "unique_locations right"
  shows "\<exists>d. compute_snapshot_diff left right = Inr d
    \<and> sd_items d = map (spec_item left right) (diff_locations left right)
    \<and> sd_summary d = \<lparr>ds_added_count = count_change ADDED (sd_items d),
         ds_removed_count = count_change REMOVED (sd_items d),
         ds_modified_count = count_change MODIFIED (sd_items d),
         ds_unchanged_count = count_change UNCHANGED (sd_items d),
         ds_item_count = int (length (sd_items d))\<rparr>"
proof -
  have "map fst (by_location left) @ map fst (by_location right) = map location (s_entries left @ s_entries right)"
    by (simp add: by_location_def comp_def)
  then show ?thesis
    using assms by (simp add: compute_snapshot_diff_def entries_by_location_ok Let_def
        diff_locations_def spec_item_def)
qed

lemma compute_snapshot_diff_InrD:
  assumes "compute_snapshot_diff left right = Inr d"
  shows "unique_locations left \<and> unique_locations right"
proof (rule ccontr)
  assume "\<not> (unique_locations left \<and> unique_locations right)"
  then consider "\<not> unique_locations left" | "unique_locations left" "\<not> unique_locations right" by blast
  then show False
  proof cases
    case 1
    then show ?thesis
      using assms entries_by_location_error [of left "s_snapshot_id left"]
      by (auto simp: compute_snapshot_diff_def)
  next
    case 2
    then show ?thesis
      using assms entries_by_location_error [of right "s_snapshot_id right"]
      by (auto simp: compute_snapshot_diff_def entries_by_location_ok)
  qed
qed

lemma diff_partsE:
  assumes "compute_snapshot_diff left right = Inr d"
  obtains "unique_locations left" "unique_locations right"
    "sd_items d = map (spec_item left right) (diff_locations left right)"
    "sd_summary d = \<lparr>ds_added_count = count_change ADDED (sd_items d),
         ds_removed_count = count_change REMOVED (sd_items d),
         ds_modified_count = count_change MODIFIED (sd_items d),
         ds_unchanged_count = count_change UNCHANGED (sd_items d),
         ds_item_count = int (length (sd_items d))\<rparr>"
  using assms compute_snapshot_diff_InrD [OF assms] compute_snapshot_diff_ok [of left right] by auto

lemma by_location_Some:
  assumes "unique_locations s"
  shows "map_of (by_location s) l = Some e \<longleftrightarrow> e \<in> set (s_entries s) \<and> location e = l"
  using assms by (subst map_of_eq_Some_iff) (auto simp: by_location_def comp_def)

lemma by_location_None: "map_of (by_location s) l = None \<longleftrightarrow> l \<notin> location ` set (s_entries s)"
  by (simp add: map_of_eq_None_iff by_location_def image_image)

lemma spec_item_simps [simp]:
  "di_scope_id (spec_item left right l) = fst l"
  "di_relative_path (spec_item left right l) = snd l"
  "di_left_entry (spec_item left right l) = map_of (by_location left) l"
  "di_right_entry (spec_item left right l) = map_of (by_location right) l"
  by (simp_all add: spec_item_def diff_item_def split: prod.split)

lemma spec_item_type:
  "di_change_type (spec_item left right l) =
     (case (map_of (by_location left) l, map_of (by_location right) l) of
        (None, _) \<Rightarrow> ADDED | (Some _, None) \<Rightarrow> REMOVED
      | (Some a, Some b) \<Rightarrow> if changed_fields a b = [] then UNCHANGED else MODIFIED)"
  "di_changed_fields (spec_item left right l) =
     (case (map_of (by_location left) l, map_of (by_location right) l) of
        (Some a, Some b) \<Rightarrow> changed_fields a b | _ \<Rightarrow> [])"
  by (simp_all add: spec_item_def diff_item_def Let_def split: option.split prod.split)

lemma diff_locations_present:
  "l \<in> set (diff_locations left right) \<longleftrightarrow>
     map_of (by_location left) l \<noteq> None \<or> map_of (by_location right) l \<noteq> None"
  unfolding by_location_None by (auto simp: diff_locations_def)

text \<open>\<open>compute_snapshot_diff\<close> fails, with a \<open>DiffError\<close>, exactly when one of the Snapshots lists
  a location twice; otherwise its items are one per location of either Snapshot, in strictly
  increasing order of scope and path bytes, each an addition, a removal, a modification or
  unchanged as the two entries at that location say.\<close>

lemma snapshot_diff_total:
  "case compute_snapshot_diff left right of
     Inr d \<Rightarrow> unique_locations left \<and> unique_locations right
       \<and> sorted_wrt (<) (map (\<lambda>i. (di_scope_id i, di_relative_path i)) (sd_items d))
       \<and> set (map (\<lambda>i. (di_scope_id i, di_relative_path i)) (sd_items d))
           = location ` (set (s_entries left) \<union> set (s_entries right))
       \<and> list_all (\<lambda>i. di_change_type i =
           (if di_left_entry i = None then ADDED
            else if di_right_entry i = None then REMOVED
            else if changed_fields (the (di_left_entry i)) (the (di_right_entry i)) = [] then UNCHANGED
            else MODIFIED)) (sd_items d)
   | Inl x \<Rightarrow> \<not> (unique_locations left \<and> unique_locations right) \<and> (\<exists>m. x = Raise DiffError m)"
proof (cases "unique_locations left \<and> unique_locations right")
  case True
  then obtain d where d: "compute_snapshot_diff left right = Inr d"
    "sd_items d = map (spec_item left right) (diff_locations left right)"
    using compute_snapshot_diff_ok [of left right] by blast
  have keys: "map (\<lambda>i. (di_scope_id i, di_relative_path i)) (sd_items d) = diff_locations left right"
    unfolding d(2) map_map by (rule map_idI) simp
  have "list_all (\<lambda>i. di_change_type i =
           (if di_left_entry i = None then ADDED
            else if di_right_entry i = None then REMOVED
            else if changed_fields (the (di_left_entry i)) (the (di_right_entry i)) = [] then UNCHANGED
            else MODIFIED)) (sd_items d)"
    unfolding d(2) by (auto simp: list_all_iff spec_item_type split: option.split)
  moreover have "sorted_wrt (<) (diff_locations left right)"
    "set (diff_locations left right) = location ` (set (s_entries left) \<union> set (s_entries right))"
    by (simp_all add: diff_locations_def strict_sorted_sorted_set image_Un)
  ultimately show ?thesis using True d(1) by (simp only: keys sum.case simp_thms)
next
  case False
  then have "\<exists>m. compute_snapshot_diff left right = raise DiffError m"
    using entries_by_location_error [of left "s_snapshot_id left"]
      entries_by_location_error [of right "s_snapshot_id right"]
    by (cases "unique_locations left") (auto simp: compute_snapshot_diff_def entries_by_location_ok)
  with False show ?thesis by auto
qed

lemma map_filter_spec_left:
  assumes "unique_locations s" "set (map location (s_entries s)) \<subseteq> set L" "sorted_wrt (<) L"
  shows "List.map_filter (map_of (by_location s)) L = sort_key location (s_entries s)"
proof -
  let ?es = "List.map_filter (map_of (by_location s)) L"
  have loc: "map location ?es = filter (\<lambda>l. map_of (by_location s) l \<noteq> None) L"
  proof -
    have "location (the (map_of (by_location s) l)) = l" if "map_of (by_location s) l \<noteq> None" for l
      using that by_location_Some [OF assms(1)] by (metis option.collapse)
    then show ?thesis
      unfolding List.map_filter_def map_map by (intro map_idI) simp
  qed
  have "sorted_wrt (<) (map location ?es)" unfolding loc using assms(3) by (rule sorted_wrt_filter)
  then have "sorted (map location ?es)" "distinct (map location ?es)"
    by (auto simp: strict_sorted_iff)
  moreover have "set ?es = set (s_entries s)"
  proof -
    have "e \<in> set ?es" if "e \<in> set (s_entries s)" for e
      unfolding set_map_filter
      using that assms(2) by_location_Some [OF assms(1), of "location e" e]
      by (intro bexI [of _ "location e"]) auto
    moreover have "e \<in> set (s_entries s)" if "e \<in> set ?es" for e
      using that by_location_Some [OF assms(1)] unfolding set_map_filter by blast
    ultimately show ?thesis by blast
  qed
  moreover have "inj_on location (set (s_entries s))" "distinct (s_entries s)"
    using assms(1) by (auto simp: distinct_map)
  ultimately show ?thesis
    by (intro sort_key_inj_key_eq [symmetric])
      (auto simp: distinct_map simp flip: set_eq_iff_mset_eq_distinct)
qed

text \<open>C5: no fact is lost. The left entries of the items of a difference, in order, are all entries of
  the left Snapshot sorted by location, and the right entries those of the right Snapshot; so either
  Snapshot's entries can be read back from the difference.\<close>

theorem snapshot_diff_lossless:
  assumes "compute_snapshot_diff left right = Inr d"
  shows "(List.map_filter di_left_entry (sd_items d) = sort_key location (s_entries left))
    \<and> (List.map_filter di_right_entry (sd_items d) = sort_key location (s_entries right))"
proof -
  note parts = diff_partsE [OF assms]
  have "sorted_wrt (<) (diff_locations left right)"
    by (simp add: diff_locations_def strict_sorted_sorted_set)
  moreover have "List.map_filter di_left_entry (sd_items d)
      = List.map_filter (map_of (by_location left)) (diff_locations left right)"
    "List.map_filter di_right_entry (sd_items d)
      = List.map_filter (map_of (by_location right)) (diff_locations left right)"
    by (rule parts; simp add: List.map_filter_def comp_def filter_map)+
  moreover have "set (map location (s_entries left)) \<subseteq> set (diff_locations left right)"
    "set (map location (s_entries right)) \<subseteq> set (diff_locations left right)"
    by (auto simp: diff_locations_def)
  moreover have "unique_locations left" "unique_locations right" by (rule parts; simp)+
  ultimately have s1: "List.map_filter di_left_entry (sd_items d) = sort_key location (s_entries left)"
    "List.map_filter di_right_entry (sd_items d) = sort_key location (s_entries right)"
    by (simp_all add: map_filter_spec_left)
  show ?thesis using s1 by blast
qed

definition diff_left :: filesystem_snapshot where
  "diff_left = plain_snapshot ''s1'' ''t0'' ''t1'' [''home'']
     [plain_entry ''s1'' ''home'' ''c.txt'' REGULAR_FILE (Some 7),
      plain_entry ''s1'' ''home'' ''a'' DIRECTORY None,
      plain_entry ''s1'' ''home'' ''a/b.txt'' REGULAR_FILE (Some 5)]"

definition diff_right :: filesystem_snapshot where
  "diff_right = plain_snapshot ''s2'' ''t2'' ''t3'' [''home'']
     [plain_entry ''s2'' ''home'' ''a/b.txt'' REGULAR_FILE (Some 9),
      plain_entry ''s2'' ''home'' ''a'' DIRECTORY None,
      plain_entry ''s2'' ''home'' ''d.txt'' REGULAR_FILE (Some 4)]"

lemma diff_example_unique: "unique_locations diff_left" "unique_locations diff_right"
  by code_simp+

theorem snapshot_diff_lossless_witness:
  "\<exists>d. compute_snapshot_diff diff_left diff_right = Inr d
     \<and> List.map_filter di_left_entry (sd_items d) = sort_key location (s_entries diff_left)"
proof -
  obtain d where d: "compute_snapshot_diff diff_left diff_right = Inr d"
    using compute_snapshot_diff_ok [OF diff_example_unique] by blast
  then show ?thesis using snapshot_diff_lossless [OF d, THEN conjunct1] by blast
qed

section \<open>Symmetry\<close>

definition swap_change :: "snapshot_diff_change_type \<Rightarrow> snapshot_diff_change_type" where
  "swap_change t = (case t of ADDED \<Rightarrow> REMOVED | REMOVED \<Rightarrow> ADDED | MODIFIED \<Rightarrow> MODIFIED | UNCHANGED \<Rightarrow> UNCHANGED)"

definition swap_item :: "snapshot_diff_item \<Rightarrow> snapshot_diff_item" where
  "swap_item i = i\<lparr>di_change_type := swap_change (di_change_type i),
     di_left_entry := di_right_entry i, di_right_entry := di_left_entry i\<rparr>"

lemma changed_fields_swap: "changed_fields l r = changed_fields r l"
proof -
  have "list_all (\<lambda>(_, same). same l r = same r l) comparable_entry_fields"
    by (simp add: comparable_entry_fields_def eq_commute)
  then have "filter (\<lambda>(_, same). \<not> same l r) comparable_entry_fields
      = filter (\<lambda>(_, same). \<not> same r l) comparable_entry_fields"
    by (intro filter_cong) (auto simp: list_all_iff)
  then show ?thesis by (simp add: changed_fields_def)
qed

lemma changed_fields_refl [simp]: "changed_fields l l = []"
  by (simp add: changed_fields_def comparable_entry_fields_def)

lemma spec_item_swap:
  "l \<in> set (diff_locations left right) \<Longrightarrow> spec_item right left l = swap_item (spec_item left right l)"
  unfolding diff_locations_present spec_item_def diff_item_def swap_item_def
  by (auto simp: swap_change_def changed_fields_swap Let_def split: option.split prod.split)

text \<open>C11: swapping the Snapshots reverses the difference: the items are the same locations with both
  sides exchanged and additions turned into removals, so the added and the removed counts change
  places; and a Snapshot differs from one with the same facts in nothing, that is all items are
  unchanged.\<close>

theorem snapshot_diff_swap:
  assumes "compute_snapshot_diff left right = Inr d"
  shows "(\<exists>d'. compute_snapshot_diff right left = Inr d' \<and> sd_items d' = map swap_item (sd_items d)
      \<and> ds_added_count (sd_summary d') = ds_removed_count (sd_summary d)
      \<and> ds_removed_count (sd_summary d') = ds_added_count (sd_summary d)
      \<and> ds_modified_count (sd_summary d') = ds_modified_count (sd_summary d)
      \<and> ds_unchanged_count (sd_summary d') = ds_unchanged_count (sd_summary d))
    \<and> (s_entries left = s_entries right \<longrightarrow> list_all (\<lambda>i. di_change_type i = UNCHANGED) (sd_items d))"
proof -
  have unique: "unique_locations left" "unique_locations right"
    and items: "sd_items d = map (spec_item left right) (diff_locations left right)"
    and summary: "sd_summary d = \<lparr>ds_added_count = count_change ADDED (sd_items d),
         ds_removed_count = count_change REMOVED (sd_items d),
         ds_modified_count = count_change MODIFIED (sd_items d),
         ds_unchanged_count = count_change UNCHANGED (sd_items d),
         ds_item_count = int (length (sd_items d))\<rparr>"
    by (rule diff_partsE [OF assms]; simp)+
  obtain d' where d': "compute_snapshot_diff right left = Inr d'"
    "sd_items d' = map (spec_item right left) (diff_locations right left)"
    "sd_summary d' = \<lparr>ds_added_count = count_change ADDED (sd_items d'),
         ds_removed_count = count_change REMOVED (sd_items d'),
         ds_modified_count = count_change MODIFIED (sd_items d'),
         ds_unchanged_count = count_change UNCHANGED (sd_items d'),
         ds_item_count = int (length (sd_items d'))\<rparr>"
    using compute_snapshot_diff_ok [OF unique(2,1)] by blast
  have locs: "diff_locations right left = diff_locations left right"
    unfolding diff_locations_def by (rule sorted_set_cong) auto
  have swapped: "sd_items d' = map swap_item (sd_items d)"
    unfolding d'(2) items map_map locs by (rule map_cong) (simp_all add: spec_item_swap)
  have counts: "count_change t (map swap_item is) = count_change (swap_change t) is" for t "is"
    by (induction "is") (auto simp: count_change_def swap_item_def swap_change_def
        split: snapshot_diff_change_type.splits)
  have s1: "\<exists>d'. compute_snapshot_diff right left = Inr d' \<and> sd_items d' = map swap_item (sd_items d)
      \<and> ds_added_count (sd_summary d') = ds_removed_count (sd_summary d)
      \<and> ds_removed_count (sd_summary d') = ds_added_count (sd_summary d)
      \<and> ds_modified_count (sd_summary d') = ds_modified_count (sd_summary d)
      \<and> ds_unchanged_count (sd_summary d') = ds_unchanged_count (sd_summary d)"
    using d'(1) by (simp add: summary d'(3) swapped counts swap_change_def)
  have s2: "list_all (\<lambda>i. di_change_type i = UNCHANGED) (sd_items d)" if "s_entries left = s_entries right"
  proof -
    have same: "by_location left = by_location right" using that by (simp add: by_location_def)
    have "di_change_type (spec_item left right l) = UNCHANGED" if "l \<in> set (diff_locations left right)" for l
      using that unfolding diff_locations_present spec_item_type same by (auto split: option.splits)
    then show ?thesis unfolding items by (simp add: list_all_iff)
  qed
  show ?thesis using s1 s2 by blast
qed

theorem snapshot_diff_swap_witness:
  "\<exists>d d'. compute_snapshot_diff diff_left diff_right = Inr d \<and> compute_snapshot_diff diff_right diff_left = Inr d'
     \<and> ds_added_count (sd_summary d') = ds_removed_count (sd_summary d)
     \<and> (\<exists>d0. compute_snapshot_diff diff_left diff_left = Inr d0
          \<and> list_all (\<lambda>i. di_change_type i = UNCHANGED) (sd_items d0))"
proof -
  obtain d where d: "compute_snapshot_diff diff_left diff_right = Inr d"
    using compute_snapshot_diff_ok [OF diff_example_unique] by blast
  obtain d0 where d0: "compute_snapshot_diff diff_left diff_left = Inr d0"
    using compute_snapshot_diff_ok [OF diff_example_unique(1,1)] by blast
  show ?thesis using d d0 snapshot_diff_swap [OF d, THEN conjunct1] snapshot_diff_swap [OF d0, THEN conjunct2] by blast
qed

section \<open>Events\<close>

lemma spec_event:
  "event_of (spec_item left right l) \<noteq> None \<longleftrightarrow> di_change_type (spec_item left right l) \<noteq> UNCHANGED"
  by (simp add: event_of_def event_type_of_def split: snapshot_diff_change_type.split)

lemma event_type_of_iff:
  "event_type_of t = Some FILE_CREATED \<longleftrightarrow> t = ADDED"
  "event_type_of t = Some FILE_DELETED \<longleftrightarrow> t = REMOVED"
  "event_type_of t = Some FILE_MODIFIED \<longleftrightarrow> t = MODIFIED"
  by (cases t; simp add: event_type_of_def)+

lemma metadata_iff:
  "set fs \<subseteq> insert s (set ms) \<Longrightarrow> s \<notin> set ms \<Longrightarrow> (\<exists>f \<in> set fs. f \<in> set ms) = (set fs - {s} \<noteq> {})"
  by blast

lemma event_metadata:
  "event_of i = Some ev \<Longrightarrow>
   ce_metadata_changed ev = (\<exists>f \<in> set (di_changed_fields i). f \<in> set metadata_fields)"
  unfolding event_of_def by (cases "event_type_of (di_change_type i)") auto

lemma changed_fields_known: "set (changed_fields a b) \<subseteq> insert ''size_bytes'' (set metadata_fields)"
proof -
  have "set (map fst comparable_entry_fields) \<subseteq> insert ''size_bytes'' (set metadata_fields)"
    by code_simp
  moreover have "set (changed_fields a b) \<subseteq> set (map fst comparable_entry_fields)"
    by (auto simp: changed_fields_def)
  ultimately show ?thesis by (rule order.trans [rotated])
qed

lemma spec_changed_fields:
  "set (di_changed_fields (spec_item left right l)) \<subseteq> insert ''size_bytes'' (set metadata_fields)"
proof (cases "\<exists>a b. map_of (by_location left) l = Some a \<and> map_of (by_location right) l = Some b")
  case True
  then obtain a b where "map_of (by_location left) l = Some a" "map_of (by_location right) l = Some b" by blast
  then show ?thesis using changed_fields_known [of a b] by (simp add: spec_item_type)
next
  case False
  then show ?thesis
    by (cases "map_of (by_location left) l"; cases "map_of (by_location right) l") (simp_all add: spec_item_type)
qed

lemma map_key_map_filter:
  assumes "\<And>x y. x \<in> set xs \<Longrightarrow> f x = Some y \<Longrightarrow> k y = k' x"
  shows "map k (List.map_filter f xs) = map k' (filter (\<lambda>x. f x \<noteq> None) xs)"
  using assms by (induction xs) (auto simp: List.map_filter_def)

lemma count_if_map_filter:
  "count_if P (List.map_filter f xs) = count_if (\<lambda>x. case f x of None \<Rightarrow> False | Some y \<Rightarrow> P y) xs"
  by (induction xs) (auto simp: List.map_filter_def)

lemma sort_key_sorted: "sorted (map k xs) \<Longrightarrow> sort_key k xs = xs"
  by (simp add: sorted_sort_id sort_key_id_if_sorted)

text \<open>C10: the file events of a difference are its items other than the unchanged ones, in the same
  order; an addition becomes a creation, a removal a deletion and a modification a modification;
  the summary counts agree with the summary of the difference; and an event reports changed
  metadata exactly when some changed field is not the size.\<close>

theorem change_events_refine_diff:
  assumes "compute_snapshot_diff left right = Inr d"
  shows "(change_events_from_snapshot_diff d = List.map_filter event_of (sd_items d))
    \<and> (es_created_count (summarize_change_events (change_events_from_snapshot_diff d))
      = ds_added_count (sd_summary d))
    \<and> (es_deleted_count (summarize_change_events (change_events_from_snapshot_diff d))
      = ds_removed_count (sd_summary d))
    \<and> (es_modified_count (summarize_change_events (change_events_from_snapshot_diff d))
      = ds_modified_count (sd_summary d))
    \<and> (es_event_count (summarize_change_events (change_events_from_snapshot_diff d))
      = ds_item_count (sd_summary d) - ds_unchanged_count (sd_summary d))
    \<and> (list_all (\<lambda>i. case event_of i of None \<Rightarrow> True
      | Some ev \<Rightarrow> ce_metadata_changed ev = (set (di_changed_fields i) - {''size_bytes''} \<noteq> {})) (sd_items d))"
proof -
  have items: "sd_items d = map (spec_item left right) (diff_locations left right)"
    and summary: "sd_summary d = \<lparr>ds_added_count = count_change ADDED (sd_items d),
         ds_removed_count = count_change REMOVED (sd_items d),
         ds_modified_count = count_change MODIFIED (sd_items d),
         ds_unchanged_count = count_change UNCHANGED (sd_items d),
         ds_item_count = int (length (sd_items d))\<rparr>"
    by (rule diff_partsE [OF assms]; simp)+
  let ?key = "\<lambda>i. (di_scope_id i, di_relative_path i)"
  have keys: "map ?key (sd_items d) = diff_locations left right"
    unfolding items map_map by (rule map_idI) simp
  have "map event_key (List.map_filter event_of (sd_items d)) = map ?key (filter (\<lambda>i. event_of i \<noteq> None) (sd_items d))"
    by (rule map_key_map_filter) (auto simp: event_of_def event_key_def split: option.splits)
  moreover have "sorted (map ?key (filter (\<lambda>i. event_of i \<noteq> None) (sd_items d)))"
    by (rule sorted_filter) (simp add: keys diff_locations_def)
  ultimately have events: "change_events_from_snapshot_diff d = List.map_filter event_of (sd_items d)"
    by (simp add: change_events_from_snapshot_diff_def sort_key_sorted)
  have kind: "(case event_of i of None \<Rightarrow> False | Some ev \<Rightarrow> ce_event_type ev = t)
      \<longleftrightarrow> event_type_of (di_change_type i) = Some t" for i t
    by (simp add: event_of_def split: option.split)
  have s2: "es_created_count (summarize_change_events (change_events_from_snapshot_diff d))
      = ds_added_count (sd_summary d)"
    unfolding summary events by (simp add: summarize_change_events_def count_if_map_filter kind count_change_def
        event_type_of_iff)
  have s3: "es_deleted_count (summarize_change_events (change_events_from_snapshot_diff d))
      = ds_removed_count (sd_summary d)"
    unfolding summary events by (simp add: summarize_change_events_def count_if_map_filter kind count_change_def
        event_type_of_iff)
  have s4: "es_modified_count (summarize_change_events (change_events_from_snapshot_diff d))
      = ds_modified_count (sd_summary d)"
    unfolding summary events by (simp add: summarize_change_events_def count_if_map_filter kind count_change_def
        event_type_of_iff)
  have "int (length (List.map_filter event_of xs)) = int (length xs) - count_change UNCHANGED xs" for xs
    by (induction xs) (auto simp: List.map_filter_def count_change_def event_of_def event_type_of_def
        split: snapshot_diff_change_type.splits)
  then have s5: "es_event_count (summarize_change_events (change_events_from_snapshot_diff d))
      = ds_item_count (sd_summary d) - ds_unchanged_count (sd_summary d)"
    unfolding summary events by (simp add: summarize_change_events_def)
  have "case event_of i of None \<Rightarrow> True
      | Some ev \<Rightarrow> ce_metadata_changed ev = (set (di_changed_fields i) - {''size_bytes''} \<noteq> {})"
    if i: "i \<in> set (sd_items d)" for i
  proof -
    have "set (di_changed_fields i) \<subseteq> insert ''size_bytes'' (set metadata_fields)"
      proof -
      obtain l where "i = spec_item left right l" using i unfolding items by auto
      then show ?thesis by (simp only: spec_changed_fields)
    qed
    then have "(\<exists>f \<in> set (di_changed_fields i). f \<in> set metadata_fields)
        = (set (di_changed_fields i) - {''size_bytes''} \<noteq> {})"
      by (rule metadata_iff) (simp add: metadata_fields_def)
    then show ?thesis
      unfolding option.case_eq_if using event_metadata [of i] by (metis option.collapse)
  qed
  then have s6: "list_all (\<lambda>i. case event_of i of None \<Rightarrow> True
      | Some ev \<Rightarrow> ce_metadata_changed ev = (set (di_changed_fields i) - {''size_bytes''} \<noteq> {})) (sd_items d)"
    unfolding list_all_iff by (rule ballI)
  show ?thesis using events s2 s3 s4 s5 s6 by blast
qed

theorem change_events_refine_diff_witness:
  "\<exists>d. compute_snapshot_diff diff_left diff_right = Inr d
     \<and> es_event_count (summarize_change_events (change_events_from_snapshot_diff d)) = 3"
proof -
  obtain d where d: "compute_snapshot_diff diff_left diff_right = Inr d"
    using compute_snapshot_diff_ok [OF diff_example_unique] by blast
  have "map (\<lambda>l. di_change_type (spec_item diff_left diff_right l)) (diff_locations diff_left diff_right)
      = [UNCHANGED, MODIFIED, REMOVED, ADDED]"
    by code_simp
  moreover have "sd_items d = map (spec_item diff_left diff_right) (diff_locations diff_left diff_right)"
    "sd_summary d = \<lparr>ds_added_count = count_change ADDED (sd_items d),
         ds_removed_count = count_change REMOVED (sd_items d),
         ds_modified_count = count_change MODIFIED (sd_items d),
         ds_unchanged_count = count_change UNCHANGED (sd_items d),
         ds_item_count = int (length (sd_items d))\<rparr>"
    by (rule diff_partsE [OF d]; simp)+
  moreover have "count_change t items = count_if (\<lambda>x. x = t) (map di_change_type items)" for t items
    by (simp add: count_change_def count_if_map)
  moreover have "length (diff_locations diff_left diff_right) = 4" by code_simp
  ultimately have "ds_item_count (sd_summary d) - ds_unchanged_count (sd_summary d) = 3"
    by (simp add: comp_def)
  then show ?thesis using d change_events_refine_diff [OF d, THEN conjunct2, THEN conjunct2, THEN conjunct2, THEN conjunct2, THEN conjunct1] by auto
qed

end
