(* ===== verification/Snapshot_Relations_Correct.thy ===== *)
theory Snapshot_Relations_Correct
  imports Snapshot_Relations Steward_Examples
begin

text \<open>
  Correctness of \<open>snapshot_relations.py\<close>: the computation fails only on its documented input
  errors; it relates every co-present observed location once; a candidate pairs exactly one
  disappeared with one appeared Entry that share object hint and verified payload and have
  no aliases, and no Entry is in two candidates; ambiguity groups and ambiguous relations
  correspond.
\<close>

section \<open>Indexing\<close>

definition relation_input_ok :: "filesystem_snapshot \<Rightarrow> bool" where
  "relation_input_ok s \<longleftrightarrow> (\<forall>e \<in> set (s_entries s). e_snapshot_id e = s_snapshot_id s)
     \<and> distinct (map location (s_entries s))"

definition located :: "filesystem_entry list \<Rightarrow> located_entries" where
  "located es = map (\<lambda>e. (location e, e)) es"

lemma index_relation_entries_cases:
  "index_relation_entries sid es m =
     (if (\<forall>e \<in> set es. e_snapshot_id e = sid) \<and> distinct (map location es)
         \<and> location ` set es \<inter> fst ` set m = {}
      then Inr (m @ located es)
      else index_relation_entries sid es m)
   \<and> (\<not> ((\<forall>e \<in> set es. e_snapshot_id e = sid) \<and> distinct (map location es)
         \<and> location ` set es \<inter> fst ` set m = {}) \<longrightarrow>
       (\<exists>msg. index_relation_entries sid es m = raise RelationError msg))"
proof (induction es arbitrary: m)
  case (Cons e es)
  show ?case
  proof (cases "e_snapshot_id e = sid \<and> location e \<notin> fst ` set m")
    case True
    then have step: "index_relation_entries sid (e # es) m
        = index_relation_entries sid es (m @ [(location e, e)])"
      by (simp add: update_fresh)
    show ?thesis
      unfolding step using Cons.IH [of "m @ [(location e, e)]"] True
      by (auto simp: located_def image_iff)
  qed auto
qed (simp add: located_def)

lemma index_ok: "relation_input_ok s \<Longrightarrow>
    index_relation_entries (s_snapshot_id s) (s_entries s) [] = Inr (located (s_entries s))"
  using index_relation_entries_cases [of "s_snapshot_id s" "s_entries s" "[]"]
  by (simp add: relation_input_ok_def)

lemma index_error: "\<not> relation_input_ok s \<Longrightarrow>
    \<exists>msg. index_relation_entries (s_snapshot_id s) (s_entries s) [] = raise RelationError msg"
  using index_relation_entries_cases [of "s_snapshot_id s" "s_entries s" "[]"]
  by (simp add: relation_input_ok_def)

lemma located_simps [simp]:
  "fst ` set (located es) = location ` set es"
  "map fst (located es) = map location es"
  "map snd (located es) = es"
  by (simp_all add: located_def image_image comp_def)

lemma located_lookup:
  assumes "distinct (map location es)" "e \<in> set es"
  shows "map_of (located es) (location e) = Some e"
  using assms by (subst map_of_eq_Some_iff) (auto simp: located_def comp_def)

definition only_in :: "filesystem_snapshot \<Rightarrow> filesystem_snapshot \<Rightarrow> filesystem_entry list" where
  "only_in s s' = filter (\<lambda>e. location e \<notin> location ` set (s_entries s')) (s_entries s)"

lemma only_in_eq:
  "map snd (filter (\<lambda>(l, _). l \<notin> location ` set (s_entries s')) (located (s_entries s))) = only_in s s'"
  by (simp add: located_def only_in_def filter_map comp_def)

section \<open>Hints\<close>

lemma map_of_by_hint:
  "map_of (by_hint es) h =
     (let m = filter (\<lambda>e. transition_eligible e \<and> transition_key e = h) es in if m = [] then None else Some m)"
  by (auto simp: by_hint_def map_of_group_by Let_def filter_empty_conv conj_commute)

lemma map_of_by_alias:
  "map_of (by_alias es) k =
     (let m = filter (\<lambda>e. e_device_id e \<noteq> None \<and> e_inode e \<noteq> None \<and> alias_key e = k) es
      in if m = [] then None else Some m)"
  by (auto simp: by_alias_def map_of_group_by Let_def filter_empty_conv conj_commute conj_left_commute)

abbreviation hinted :: "filesystem_entry list \<Rightarrow> int \<times> int \<times> int \<Rightarrow> filesystem_entry list" where
  "hinted es h \<equiv> filter (\<lambda>e. transition_eligible e \<and> transition_key e = h) es"

abbreviation aliased :: "filesystem_entry list \<Rightarrow> int \<times> int \<Rightarrow> filesystem_entry list" where
  "aliased es k \<equiv> filter (\<lambda>e. e_device_id e \<noteq> None \<and> e_inode e \<noteq> None \<and> alias_key e = k) es"

definition hint_alias :: "int \<times> int \<times> int \<Rightarrow> int \<times> int" where
  "hint_alias h = (fst h, fst (snd h))"

lemma hinted_aliased: "set (hinted es h) \<subseteq> set (aliased es (hint_alias h))"
  by (auto simp: transition_eligible_def transition_key_def alias_key_def hint_alias_def)

text \<open>What the loop does for a hint that both sides have.\<close>

inductive hint_outcome :: "(string \<Rightarrow> string) \<Rightarrow> bool \<Rightarrow> filesystem_entry list \<Rightarrow> filesystem_entry list \<Rightarrow>
    filesystem_entry list \<Rightarrow> filesystem_entry list \<Rightarrow>
    (relation_item \<times> relation_ambiguity_group option) option \<Rightarrow> bool"
  for sha reused sources targets base_as target_as
where
  unverified: "\<exists>e \<in> set sources \<union> set targets. successful_payload_digest reused e = None \<Longrightarrow>
    hint_outcome sha reused sources targets base_as target_as None"
| ambiguous: "g = \<lparr>rg_ambiguity_group_id = ambiguity_group_id sha src tgt,
        rg_source_entries = src, rg_target_entries = tgt\<rparr> \<Longrightarrow>
    hint_outcome sha reused sources targets base_as target_as
      (Some (make_relation_item sha AMBIGUOUS_LOCATION_TRANSITION AMBIGUOUS src tgt
         (Some (ambiguity_group_id sha src tgt)), Some g))"
| candidate: "sources = [b] \<Longrightarrow> targets = [t] \<Longrightarrow> base_as = [b] \<Longrightarrow> target_as = [t] \<Longrightarrow>
    successful_payload_digest reused b = Some d \<Longrightarrow> successful_payload_digest reused t = Some d \<Longrightarrow>
    hint_outcome sha reused sources targets base_as target_as
      (Some (make_relation_item sha
         (if e_scope_id b = e_scope_id t then RENAME_CANDIDATE else CROSS_SCOPE_TRANSITION_CANDIDATE)
         CANDIDATE [entry_reference b] [entry_reference t] None, None))"

inductive_cases hint_ambiguousE [elim]: "hint_outcome sha reused sources targets base_as target_as (Some (i, Some g))"

lemma singleton_subset:
  assumes "set xs \<subseteq> set ys" "xs \<noteq> []" "distinct xs" "length ys \<le> 1"
  shows "\<exists>x. xs = [x] \<and> ys = [x]"
proof -
  have "card (set xs) \<le> card (set ys)" using assms(1) by (simp add: card_mono)
  also have "\<dots> \<le> 1" using assms(4) card_length [of ys] by linarith
  finally have "length xs \<le> 1" using assms(3) by (simp add: distinct_card)
  with assms(2) obtain x where "xs = [x]" by (cases xs) auto
  with assms(1,4) show ?thesis by (cases ys) auto
qed

lemma relate_hint_outcome:
  assumes sub: "set base_es \<subseteq> set base_all" "set target_es \<subseteq> set target_all"
    and dist: "distinct base_es" "distinct target_es"
    and ne: "hinted base_es h \<noteq> []" "hinted target_es h \<noteq> []"
  shows "\<exists>out. relate_hint sha reused (by_hint base_es) (by_hint target_es) (by_alias base_all) (by_alias target_all) h
      = Inr out
    \<and> hint_outcome sha reused (hinted base_es h) (hinted target_es h)
        (aliased base_all (hint_alias h)) (aliased target_all (hint_alias h)) out"
proof -
  let ?S = "hinted base_es h" and ?T = "hinted target_es h"
  let ?A = "aliased base_all (hint_alias h)" and ?B = "aliased target_all (hint_alias h)"
  have subs: "set ?S \<subseteq> set ?A" "set ?T \<subseteq> set ?B"
    using hinted_aliased [where es = base_es and h = h] hinted_aliased [where es = target_es and h = h] sub by auto
  then have ne': "?A \<noteq> []" "?B \<noteq> []" using ne by (metis empty_set set_empty subset_empty)+
  have look: "map_of (by_hint base_es) h = Some ?S" "map_of (by_hint target_es) h = Some ?T"
    "map_of (by_alias base_all) (hint_alias h) = Some ?A" "map_of (by_alias target_all) (hint_alias h) = Some ?B"
    using ne ne' by (simp_all only: map_of_by_hint map_of_by_alias Let_def if_False)
  have key: "(case h of (device, inode, _) \<Rightarrow> (device, inode)) = hint_alias h"
    by (simp add: hint_alias_def split: prod.split)
  let ?digest = "successful_payload_digest reused"
  show ?thesis
  proof (cases "None \<in> ?digest ` set ?S \<or> None \<in> ?digest ` set ?T")
    case True
    then have "relate_hint sha reused (by_hint base_es) (by_hint target_es) (by_alias base_all) (by_alias target_all) h
        = Inr None"
      unfolding relate_hint_def look by (simp add: Let_def)
    moreover have "hint_outcome sha reused ?S ?T ?A ?B None"
      using True by (intro hint_outcome.unverified) force
    ultimately show ?thesis by blast
  next
    case verified: False
    show ?thesis
    proof (cases "length ?A > 1 \<or> length ?B > 1
        \<or> length (remdups (map ?digest (sort_key location ?S) @ map ?digest (sort_key location ?T))) \<noteq> 1")
      case True
      then have "\<exists>src tgt. relate_hint sha reused (by_hint base_es) (by_hint target_es) (by_alias base_all) (by_alias target_all) h
        = Inr (Some (make_relation_item sha AMBIGUOUS_LOCATION_TRANSITION AMBIGUOUS src tgt
             (Some (ambiguity_group_id sha src tgt)),
           Some \<lparr>rg_ambiguity_group_id = ambiguity_group_id sha src tgt,
             rg_source_entries = src, rg_target_entries = tgt\<rparr>))"
        unfolding relate_hint_def look key prod.case option.case Let_def using verified by auto
      then show ?thesis using hint_outcome.ambiguous by blast
    next
      case False
      then have short: "length ?A \<le> 1" "length ?B \<le> 1" by simp_all
      have "distinct ?S" "distinct ?T" using dist by simp_all
      then obtain b t where one: "?S = [b]" "?A = [b]" "?T = [t]" "?B = [t]"
        using singleton_subset [OF subs(1) ne(1) _ short(1)] singleton_subset [OF subs(2) ne(2) _ short(2)]
        by blast
      then have "length (remdups [?digest b, ?digest t]) = 1"
        using False by (simp add: insort_key_def)
      then have "?digest b = ?digest t" by (simp split: if_splits)
      moreover have "?digest t \<noteq> None" using verified one by force
      ultimately obtain d where d: "?digest b = Some d" "?digest t = Some d" by auto
      have "relate_hint sha reused (by_hint base_es) (by_hint target_es) (by_alias base_all) (by_alias target_all) h
        = Inr (Some (make_relation_item sha
         (if e_scope_id b = e_scope_id t then RENAME_CANDIDATE else CROSS_SCOPE_TRANSITION_CANDIDATE)
         CANDIDATE [entry_reference b] [entry_reference t] None, None))"
        unfolding relate_hint_def look key prod.case option.case Let_def one
        using d by (simp add: ordered_references_def)
      moreover have "hint_outcome sha reused ?S ?T ?A ?B (Some (make_relation_item sha
         (if e_scope_id b = e_scope_id t then RENAME_CANDIDATE else CROSS_SCOPE_TRANSITION_CANDIDATE)
         CANDIDATE [entry_reference b] [entry_reference t] None, None))"
        by (rule hint_outcome.candidate) (use one d in auto)
      ultimately show ?thesis by blast
    qed
  qed
qed

section \<open>The relation set\<close>

definition shared_hints :: "filesystem_entry list \<Rightarrow> filesystem_entry list \<Rightarrow> (int \<times> int \<times> int) list" where
  "shared_hints base_es target_es =
     sorted_set (filter (\<lambda>h. h \<in> fst ` set (by_hint target_es)) (map fst (by_hint base_es)))"

lemma set_shared_hints:
  "h \<in> set (shared_hints base_es target_es) \<longleftrightarrow> hinted base_es h \<noteq> [] \<and> hinted target_es h \<noteq> []"
proof -
  have "h \<in> fst ` set (by_hint es) \<longleftrightarrow> hinted es h \<noteq> []" for es
    using keys_group_by [of transition_key "filter transition_eligible es"]
    by (auto simp: by_hint_def filter_empty_conv)
  then show ?thesis by (simp add: shared_hints_def)
qed

text \<open>The outcomes of the loop, one per shared hint.\<close>

definition transition_outcomes :: "(string \<Rightarrow> string) \<Rightarrow> bool \<Rightarrow> filesystem_snapshot \<Rightarrow> filesystem_snapshot \<Rightarrow>
    (relation_item \<times> relation_ambiguity_group option) option list \<Rightarrow> bool" where
  "transition_outcomes sha reused base target outs \<longleftrightarrow>
     list_all2 (\<lambda>h. hint_outcome sha reused (hinted (only_in base target) h) (hinted (only_in target base) h)
         (aliased (s_entries base) (hint_alias h)) (aliased (s_entries target) (hint_alias h)))
       (shared_hints (only_in base target) (only_in target base)) outs"

lemma transition_relations_ok:
  assumes "relation_input_ok base" "relation_input_ok target"
  obtains outs where "transition_outcomes sha reused base target outs"
    "transition_relations sha reused (only_in base target) (only_in target base) (s_entries base) (s_entries target)
     = Inr (map fst (List.map_filter id outs), List.map_filter snd (List.map_filter id outs))"
proof -
  let ?S = "only_in base target" and ?T = "only_in target base"
  let ?f = "relate_hint sha reused (by_hint ?S) (by_hint ?T) (by_alias (s_entries base)) (by_alias (s_entries target))"
  have dist: "distinct ?S" "distinct ?T"
    using assms by (auto simp: only_in_def relation_input_ok_def distinct_map)
  have sub: "set ?S \<subseteq> set (s_entries base)" "set ?T \<subseteq> set (s_entries target)"
    by (auto simp: only_in_def)
  have "\<forall>h \<in> set (shared_hints ?S ?T). \<exists>out. ?f h = Inr out \<and> hint_outcome sha reused (hinted ?S h) (hinted ?T h)
        (aliased (s_entries base) (hint_alias h)) (aliased (s_entries target) (hint_alias h)) out"
    by (intro ballI relate_hint_outcome [OF sub dist]) (simp_all add: set_shared_hints)
  from bchoice [OF this] obtain out where out: "\<forall>h \<in> set (shared_hints ?S ?T). ?f h = Inr (out h)
      \<and> hint_outcome sha reused (hinted ?S h) (hinted ?T h)
        (aliased (s_entries base) (hint_alias h)) (aliased (s_entries target) (hint_alias h)) (out h)" ..
  have "map_result ?f (shared_hints ?S ?T) = Inr (map out (shared_hints ?S ?T))"
    using out by (intro map_result_total) blast
  then have "transition_relations sha reused ?S ?T (s_entries base) (s_entries target)
     = Inr (map fst (List.map_filter id (map out (shared_hints ?S ?T))),
            List.map_filter snd (List.map_filter id (map out (shared_hints ?S ?T))))"
    by (simp add: transition_relations_def Let_def flip: shared_hints_def)
  moreover have "transition_outcomes sha reused base target (map out (shared_hints ?S ?T))"
    unfolding transition_outcomes_def list_all2_map2 list_all2_same using out by blast
  ultimately show thesis using that by blast
qed

definition same_location_items :: "(string \<Rightarrow> string) \<Rightarrow> bool \<Rightarrow> filesystem_snapshot \<Rightarrow> filesystem_snapshot \<Rightarrow>
    relation_item list" where
  "same_location_items sha reused base target =
     List.map_filter (\<lambda>l. same_location_relation sha reused
         (the (map_of (located (s_entries base)) l)) (the (map_of (located (s_entries target)) l)))
       (sorted_set (filter (\<lambda>l. l \<in> location ` set (s_entries target)) (map location (s_entries base))))"

definition relation_pair_ok :: "filesystem_snapshot \<Rightarrow> filesystem_snapshot \<Rightarrow> bool" where
  "relation_pair_ok base target \<longleftrightarrow> s_snapshot_id base \<noteq> s_snapshot_id target
     \<and> s_completed_at base \<le> s_started_at target \<and> relation_input_ok base \<and> relation_input_ok target"

lemma compute_relations_ok:
  assumes "relation_pair_ok base target"
  shows "\<exists>outs. transition_outcomes sha reused base target outs
    \<and> compute_snapshot_relations sha base target adjacent reused =
        Inr (if adjacent
          then make_relation_set sha (s_snapshot_id base) (s_snapshot_id target)
            (same_location_items sha reused base target @ map fst (List.map_filter id outs))
            (List.map_filter snd (List.map_filter id outs))
          else make_relation_set sha (s_snapshot_id base) (s_snapshot_id target)
            (same_location_items sha reused base target) [])"
proof -
  have ok: "relation_input_ok base" "relation_input_ok target" "validate_relation_pair base target = Inr ()"
    using assms by (auto simp: relation_pair_ok_def validate_relation_pair_def)
  obtain outs where outs: "transition_outcomes sha reused base target outs"
    "transition_relations sha reused (only_in base target) (only_in target base) (s_entries base) (s_entries target)
     = Inr (map fst (List.map_filter id outs), List.map_filter snd (List.map_filter id outs))"
    by (rule transition_relations_ok [OF ok(1,2)])
  have "compute_snapshot_relations sha base target adjacent reused =
        Inr (if adjacent
          then make_relation_set sha (s_snapshot_id base) (s_snapshot_id target)
            (same_location_items sha reused base target @ map fst (List.map_filter id outs))
            (List.map_filter snd (List.map_filter id outs))
          else make_relation_set sha (s_snapshot_id base) (s_snapshot_id target)
            (same_location_items sha reused base target) [])"
    unfolding compute_snapshot_relations_def ok(3) index_ok [OF ok(1)] index_ok [OF ok(2)] bind_result_simps
      Let_def located_simps only_in_eq outs(2) prod.case same_location_items_def [symmetric]
    by simp
  with outs(1) show ?thesis by blast
qed

lemma relation_error:
  assumes "\<not> relation_pair_ok base target"
  shows "\<exists>m. compute_snapshot_relations sha base target adjacent reused = raise RelationError m"
proof -
  consider "s_snapshot_id base = s_snapshot_id target" | "s_completed_at base > s_started_at target"
    | "validate_relation_pair base target = Inr ()" "\<not> relation_input_ok base"
    | "validate_relation_pair base target = Inr ()" "relation_input_ok base" "\<not> relation_input_ok target"
  proof (cases "s_snapshot_id base = s_snapshot_id target \<or> s_completed_at base > s_started_at target")
    case False
    then have "validate_relation_pair base target = Inr ()" by (simp add: validate_relation_pair_def)
    moreover have "\<not> relation_input_ok base \<or> \<not> relation_input_ok target"
      using assms False by (auto simp: relation_pair_ok_def not_less)
    ultimately show thesis using that(3,4) by blast
  qed (use that in blast)
  then show ?thesis
  proof cases
    case 3
    then show ?thesis using index_error [OF 3(2)] by (auto simp: compute_snapshot_relations_def)
  next
    case 4
    then show ?thesis using index_error [OF 4(3)]
      by (auto simp: compute_snapshot_relations_def index_ok [OF 4(2)])
  qed (auto simp: compute_snapshot_relations_def validate_relation_pair_def)
qed

text \<open>\<open>compute_snapshot_relations\<close> returns a relation set if and only if the Snapshots are
  distinct, the base does not complete after the target starts and both list only their own
  Entries, each location once; otherwise it raises a \<open>RelationError\<close>. No dictionary lookup of the
  pairing by object hint fails.\<close>

lemma snapshot_relations_total:
  "case compute_snapshot_relations sha base target adjacent reused of
     Inr r \<Rightarrow> relation_pair_ok base target
   | Inl x \<Rightarrow> \<not> relation_pair_ok base target \<and> (\<exists>m. x = Raise RelationError m)"
proof (cases "relation_pair_ok base target")
  case True
  then show ?thesis using compute_relations_ok [of base target sha reused adjacent] by auto
next
  case False
  then show ?thesis using relation_error [of base target sha adjacent reused] by auto
qed

lemma make_relation_set_simps [simp]:
  "rs_relations (make_relation_set sha b t is gs) = sort_key item_sort_key is"
  "rs_ambiguity_groups (make_relation_set sha b t is gs) = sort_key group_sort_key gs"
  by (simp_all add: make_relation_set_def Let_def)

lemma relations_partsE:
  assumes "compute_snapshot_relations sha base target adjacent reused = Inr r"
  obtains outs where "relation_pair_ok base target" "transition_outcomes sha reused base target outs"
    "mset (rs_relations r) = mset (same_location_items sha reused base target)
       + (if adjacent then mset (map fst (List.map_filter id outs)) else {#})"
    "mset (rs_ambiguity_groups r) = (if adjacent then mset (List.map_filter snd (List.map_filter id outs)) else {#})"
proof -
  have ok: "relation_pair_ok base target"
    using assms relation_error [of base target sha adjacent reused] by auto
  obtain outs where outs: "transition_outcomes sha reused base target outs"
    "r = (if adjacent
          then make_relation_set sha (s_snapshot_id base) (s_snapshot_id target)
            (same_location_items sha reused base target @ map fst (List.map_filter id outs))
            (List.map_filter snd (List.map_filter id outs))
          else make_relation_set sha (s_snapshot_id base) (s_snapshot_id target)
            (same_location_items sha reused base target) [])"
    using compute_relations_ok [OF ok, of sha reused adjacent] assms by auto
  show thesis
    by (rule that [OF ok outs(1)]) (simp_all add: outs(2))
qed

section \<open>Same-location relations\<close>

definition transition_kind :: "relation_kind \<Rightarrow> bool" where
  "transition_kind k \<longleftrightarrow>
     k \<in> {RENAME_CANDIDATE, CROSS_SCOPE_TRANSITION_CANDIDATE, AMBIGUOUS_LOCATION_TRANSITION}"

definition counterpart :: "filesystem_snapshot \<Rightarrow> filesystem_entry \<Rightarrow> filesystem_entry option" where
  "counterpart s e = map_of (located (s_entries s)) (location e)"

lemma make_relation_item_simps [simp]:
  "ri_kind (make_relation_item sha k c src tgt g) = k"
  "ri_certainty (make_relation_item sha k c src tgt g) = c"
  "ri_source_entries (make_relation_item sha k c src tgt g) = src"
  "ri_target_entries (make_relation_item sha k c src tgt g) = tgt"
  "ri_ambiguity_group_id (make_relation_item sha k c src tgt g) = g"
  by (simp_all add: make_relation_item_def Let_def)

lemma same_location_items_entries:
  assumes "relation_input_ok base" "relation_input_ok target"
  shows "mset (same_location_items sha reused base target) = mset (List.map_filter
      (\<lambda>b. case counterpart target b of None \<Rightarrow> None | Some t \<Rightarrow> same_location_relation sha reused b t)
      (s_entries base))"
proof -
  let ?f = "\<lambda>l. same_location_relation sha reused
      (the (map_of (located (s_entries base)) l)) (the (map_of (located (s_entries target)) l))"
  let ?common = "filter (\<lambda>l. l \<in> location ` set (s_entries target)) (map location (s_entries base))"
  have "distinct ?common" using assms(1) by (simp add: relation_input_ok_def)
  then have "mset (sorted_set ?common) = mset ?common" by (simp add: sorted_set_def distinct_remdups_id)
  then have "mset (same_location_items sha reused base target) = mset (List.map_filter ?f ?common)"
    unfolding same_location_items_def by (rule mset_map_filter_cong)
  also have "List.map_filter ?f ?common = List.map_filter
      (\<lambda>b. if location b \<in> location ` set (s_entries target) then ?f (location b) else None) (s_entries base)"
    by (rule map_filter_filter_map)
  also have "\<dots> = List.map_filter
      (\<lambda>b. case counterpart target b of None \<Rightarrow> None | Some t \<Rightarrow> same_location_relation sha reused b t)
      (s_entries base)"
  proof (rule map_filter_cong)
    fix b assume b: "b \<in> set (s_entries base)"
    have "map_of (located (s_entries base)) (location b) = Some b"
      using assms(1) b by (intro located_lookup) (simp_all add: relation_input_ok_def)
    moreover have "counterpart target b = None \<longleftrightarrow> location b \<notin> location ` set (s_entries target)"
      by (simp add: counterpart_def map_of_eq_None_iff)
    ultimately show "(if location b \<in> location ` set (s_entries target) then ?f (location b) else None)
        = (case counterpart target b of None \<Rightarrow> None | Some t \<Rightarrow> same_location_relation sha reused b t)"
      by (cases "counterpart target b") (auto simp: counterpart_def)
  qed
  finally show ?thesis .
qed

lemma same_location_kind: "same_location_relation sha reused b t = Some i \<Longrightarrow> \<not> transition_kind (ri_kind i)"
  by (auto simp: same_location_relation_def Let_def transition_kind_def split: if_splits)

lemma list_all2_right: "list_all2 P xs ys \<Longrightarrow> y \<in> set ys \<Longrightarrow> \<exists>x \<in> set xs. P x y"
  by (induction rule: list_all2_induct) auto

lemma outcome_kind:
  assumes "transition_outcomes sha reused base target outs" "(i, g) \<in> set (List.map_filter id outs)"
  shows "transition_kind (ri_kind i)"
proof -
  from assms(2) have "Some (i, g) \<in> set outs" by (simp add: set_map_filter)
  with assms(1) obtain h where "hint_outcome sha reused (hinted (only_in base target) h) (hinted (only_in target base) h)
         (aliased (s_entries base) (hint_alias h)) (aliased (s_entries target) (hint_alias h)) (Some (i, g))"
    unfolding transition_outcomes_def by (blast dest: list_all2_right)
  then show ?thesis by (cases) (auto simp: transition_kind_def)
qed

text \<open>C7: the same-location relations of a relation set are, as a multiset, one for every base Entry whose
  location the target also lists, when both were observed, and none otherwise; they are the items
  that are not transitions.\<close>

theorem same_location_complete:
  assumes "compute_snapshot_relations sha base target adjacent reused = Inr r"
  shows "mset (filter (\<lambda>i. \<not> transition_kind (ri_kind i)) (rs_relations r)) = mset (List.map_filter
      (\<lambda>b. case counterpart target b of None \<Rightarrow> None | Some t \<Rightarrow> same_location_relation sha reused b t)
      (s_entries base))"
proof -
  obtain outs where ok: "relation_pair_ok base target" and outs: "transition_outcomes sha reused base target outs"
    and rel: "mset (rs_relations r) = mset (same_location_items sha reused base target)
       + (if adjacent then mset (map fst (List.map_filter id outs)) else {#})"
    and "mset (rs_ambiguity_groups r) = (if adjacent then mset (List.map_filter snd (List.map_filter id outs)) else {#})"
    using assms by (rule relations_partsE)
  have same: "filter (\<lambda>i. \<not> transition_kind (ri_kind i)) (same_location_items sha reused base target)
      = same_location_items sha reused base target"
    using same_location_kind unfolding filter_id_conv same_location_items_def
    by (auto simp: List.map_filter_def)
  have "filter (\<lambda>i. \<not> transition_kind (ri_kind i)) (map fst (List.map_filter id outs)) = []"
    using outcome_kind [OF outs] by (auto simp: filter_empty_conv)
  then have "filter_mset (\<lambda>i. \<not> transition_kind (ri_kind i)) (mset (map fst (List.map_filter id outs))) = {#}"
    by (simp only: mset_filter [symmetric]) simp
  then have "mset (filter (\<lambda>i. \<not> transition_kind (ri_kind i)) (rs_relations r))
      = mset (same_location_items sha reused base target)"
    using arg_cong [OF same, of mset] by (simp add: rel del: mset_map)
  then show ?thesis
    using same_location_items_entries ok by (simp add: relation_pair_ok_def)
qed


section \<open>Candidates\<close>

definition unaliased_in :: "filesystem_snapshot \<Rightarrow> filesystem_entry \<Rightarrow> bool" where
  "unaliased_in s e \<longleftrightarrow> (\<forall>e' \<in> set (s_entries s).
     e_device_id e' = e_device_id e \<and> e_inode e' = e_inode e \<longrightarrow> e' = e)"

definition candidate_pair :: "bool \<Rightarrow> filesystem_snapshot \<Rightarrow> filesystem_snapshot \<Rightarrow>
    filesystem_entry \<Rightarrow> filesystem_entry \<Rightarrow> bool" where
  "candidate_pair reused base target b t \<longleftrightarrow>
     b \<in> set (s_entries base) \<and> t \<in> set (s_entries target)
     \<and> counterpart target b = None \<and> counterpart base t = None
     \<and> transition_eligible b \<and> transition_eligible t \<and> transition_key b = transition_key t
     \<and> successful_payload_digest reused b \<noteq> None
     \<and> successful_payload_digest reused b = successful_payload_digest reused t
     \<and> unaliased_in base b \<and> unaliased_in target t"

definition candidate_item :: "(string \<Rightarrow> string) \<Rightarrow> filesystem_entry \<Rightarrow> filesystem_entry \<Rightarrow> relation_item" where
  "candidate_item sha b t = make_relation_item sha
     (if e_scope_id b = e_scope_id t then RENAME_CANDIDATE else CROSS_SCOPE_TRANSITION_CANDIDATE)
     CANDIDATE [entry_reference b] [entry_reference t] None"

lemma aliased_singleton:
  assumes "aliased (s_entries s) k = [e]"
  shows "unaliased_in s e"
proof -
  have e: "e_device_id e \<noteq> None" "e_inode e \<noteq> None" "alias_key e = k"
    using arg_cong [OF assms, of set] by auto
  have "e' = e" if "e' \<in> set (s_entries s)" "e_device_id e' = e_device_id e" "e_inode e' = e_inode e" for e'
  proof -
    have "e' \<in> set (aliased (s_entries s) k)" using that e by (simp add: alias_key_def)
    then show ?thesis unfolding assms by simp
  qed
  then show ?thesis by (simp add: unaliased_in_def)
qed

lemma candidate_outcome:
  assumes "hint_outcome sha reused (hinted (only_in base target) h) (hinted (only_in target base) h)
         (aliased (s_entries base) (hint_alias h)) (aliased (s_entries target) (hint_alias h)) (Some (i, None))"
  shows "\<exists>b t. candidate_pair reused base target b t \<and> i = candidate_item sha b t"
proof -
  from assms obtain b t d where bt: "hinted (only_in base target) h = [b]" "hinted (only_in target base) h = [t]"
    "aliased (s_entries base) (hint_alias h) = [b]" "aliased (s_entries target) (hint_alias h) = [t]"
    "successful_payload_digest reused b = Some d" "successful_payload_digest reused t = Some d"
    "i = candidate_item sha b t"
    unfolding candidate_item_def by cases
  have b: "b \<in> set (hinted (only_in base target) h)" unfolding bt by simp
  have t: "t \<in> set (hinted (only_in target base) h)" unfolding bt by simp
  have "unaliased_in base b" "unaliased_in target t" using bt by (auto intro: aliased_singleton)
  then have "candidate_pair reused base target b t"
    using b t bt(5,6) by (auto simp: candidate_pair_def only_in_def counterpart_def map_of_eq_None_iff)
  then show ?thesis using bt(7) by blast
qed

lemma relation_item_cases:
  assumes "compute_snapshot_relations sha base target adjacent reused = Inr r" "i \<in> set (rs_relations r)"
    "ri_kind i \<in> {RENAME_CANDIDATE, CROSS_SCOPE_TRANSITION_CANDIDATE}"
  shows "adjacent \<and> (\<exists>b t. candidate_pair reused base target b t \<and> i = candidate_item sha b t)"
proof -
  obtain outs where outs: "transition_outcomes sha reused base target outs"
    and rel: "mset (rs_relations r) = mset (same_location_items sha reused base target)
       + (if adjacent then mset (map fst (List.map_filter id outs)) else {#})"
    using assms(1) by (rule relations_partsE)
  have "set (rs_relations r) = set (same_location_items sha reused base target)
      \<union> (if adjacent then fst ` set (List.map_filter id outs) else {})"
    using arg_cong [OF rel, of set_mset] by auto
  moreover have "i \<notin> set (same_location_items sha reused base target)"
    using assms(3) same_location_kind
    by (fastforce simp: same_location_items_def List.map_filter_def transition_kind_def)
  ultimately obtain g where ig: "adjacent" "(i, g) \<in> set (List.map_filter id outs)"
    using assms(2) by (auto split: if_splits)
  then have "Some (i, g) \<in> set outs" by (simp add: set_map_filter)
  with outs obtain h where h: "hint_outcome sha reused (hinted (only_in base target) h) (hinted (only_in target base) h)
         (aliased (s_entries base) (hint_alias h)) (aliased (s_entries target) (hint_alias h)) (Some (i, g))"
    unfolding transition_outcomes_def by (blast dest: list_all2_right)
  have "g = None" using h assms(3) by cases auto
  with h ig(1) candidate_outcome show ?thesis by blast
qed

text \<open>C6: candidates are sound and form a matching. A rename or cross-scope candidate is reported only for
  adjacent Snapshots and pairs one Entry that is gone from its location with one that is new at
  its own; both are observed, not excluded regular files with the same device, inode and birth
  time and the same verified payload digest, and neither shares its device and inode with another
  Entry of its Snapshot. It is a rename exactly when the scopes agree. Two candidates with the same
  source or the same target are the same item.\<close>

theorem candidates_sound_matching:
  assumes "compute_snapshot_relations sha base target adjacent reused = Inr r"
    and "i \<in> set (rs_relations r)" "ri_kind i \<in> {RENAME_CANDIDATE, CROSS_SCOPE_TRANSITION_CANDIDATE}"
  shows "(adjacent \<and> (\<exists>b t. candidate_pair reused base target b t
      \<and> ri_source_entries i = [entry_reference b] \<and> ri_target_entries i = [entry_reference t]
      \<and> ri_certainty i = CANDIDATE
      \<and> (ri_kind i = RENAME_CANDIDATE \<longleftrightarrow> e_scope_id b = e_scope_id t)))
    \<and> (j \<in> set (rs_relations r) \<longrightarrow> ri_kind j \<in> {RENAME_CANDIDATE, CROSS_SCOPE_TRANSITION_CANDIDATE} \<longrightarrow>
      ri_source_entries j = ri_source_entries i \<or> ri_target_entries j = ri_target_entries i \<longrightarrow> j = i)"
proof -
  have i: "adjacent" "\<exists>b t. candidate_pair reused base target b t \<and> i = candidate_item sha b t"
    using relation_item_cases [OF assms] by auto
  then have s1: "adjacent \<and> (\<exists>b t. candidate_pair reused base target b t
      \<and> ri_source_entries i = [entry_reference b] \<and> ri_target_entries i = [entry_reference t]
      \<and> ri_certainty i = CANDIDATE
      \<and> (ri_kind i = RENAME_CANDIDATE \<longleftrightarrow> e_scope_id b = e_scope_id t))"
    by (fastforce simp: candidate_item_def)
  have s2: "j = i" if j: "j \<in> set (rs_relations r)" "ri_kind j \<in> {RENAME_CANDIDATE, CROSS_SCOPE_TRANSITION_CANDIDATE}"
    and same: "ri_source_entries j = ri_source_entries i \<or> ri_target_entries j = ri_target_entries i"
  proof -
    obtain b t where bt: "candidate_pair reused base target b t" "i = candidate_item sha b t" using i(2) by blast
    obtain b' t' where bt': "candidate_pair reused base target b' t'" "j = candidate_item sha b' t'"
      using relation_item_cases [OF assms(1) j] by blast
    have keys: "e_device_id x = e_device_id y \<and> e_inode x = e_inode y"
      if "transition_eligible x" "transition_eligible y" "transition_key x = transition_key y" for x y
      using that by (auto simp: transition_eligible_def transition_key_def)
    have uniq: "distinct (map location (s_entries base))" "distinct (map location (s_entries target))"
      using assms(1) by (auto elim!: relations_partsE simp: relation_pair_ok_def relation_input_ok_def)
    from same have "b' = b \<or> t' = t"
    proof
      assume "ri_source_entries j = ri_source_entries i"
      then have "location b' = location b"
        by (simp add: bt(2) bt'(2) candidate_item_def entry_reference_def location_def)
      then show ?thesis
        using uniq(1) bt(1) bt'(1) by (auto simp: candidate_pair_def distinct_map inj_on_def)
    next
      assume "ri_target_entries j = ri_target_entries i"
      then have "location t' = location t"
        by (simp add: bt(2) bt'(2) candidate_item_def entry_reference_def location_def)
      then show ?thesis
        using uniq(2) bt(1) bt'(1) by (auto simp: candidate_pair_def distinct_map inj_on_def)
    qed
    moreover have "t' = t" if "b' = b"
    proof -
      have "transition_key t' = transition_key t" using that bt(1) bt'(1) by (simp add: candidate_pair_def)
      then show ?thesis
        using keys [of t' t] bt(1) bt'(1) by (simp add: candidate_pair_def unaliased_in_def)
    qed
    moreover have "b' = b" if "t' = t"
    proof -
      have "transition_key b' = transition_key b" using that bt(1) bt'(1) by (simp add: candidate_pair_def)
      then show ?thesis
        using keys [of b' b] bt(1) bt'(1) by (simp add: candidate_pair_def unaliased_in_def)
    qed
    ultimately have "b' = b \<and> t' = t" by blast
    then show ?thesis by (simp only: bt(2) bt'(2))
  qed
  show ?thesis using s1 s2 by blast
qed

definition rename_base :: filesystem_snapshot where
  "rename_base = plain_snapshot ''s1'' ''t0'' ''t1'' [''home'']
     [hashed_entry ''s1'' ''home'' ''old.txt'' 5 7 (replicate 64 CHR ''a'')]"

definition rename_target :: filesystem_snapshot where
  "rename_target = plain_snapshot ''s2'' ''t2'' ''t3'' [''home'']
     [hashed_entry ''s2'' ''home'' ''new.txt'' 5 7 (replicate 64 CHR ''a'')]"

lemma rename_example:
  "map_sum id (map ri_kind \<circ> rs_relations)
     (compute_snapshot_relations (\<lambda>_. ''h'') rename_base rename_target True False) = Inr [RENAME_CANDIDATE]"
  by code_simp

theorem same_location_complete_witness:
  "\<exists>r. compute_snapshot_relations (\<lambda>_. ''h'') rename_base rename_target True False = Inr r
     \<and> filter (\<lambda>i. \<not> transition_kind (ri_kind i)) (rs_relations r) = []"
proof -
  obtain r where r: "compute_snapshot_relations (\<lambda>_. ''h'') rename_base rename_target True False = Inr r"
    using rename_example by (cases "compute_snapshot_relations (\<lambda>_. ''h'') rename_base rename_target True False") auto
  have "List.map_filter (\<lambda>b. case counterpart rename_target b of None \<Rightarrow> None
      | Some t \<Rightarrow> same_location_relation (\<lambda>_. ''h'') False b t) (s_entries rename_base) = []"
    by code_simp
  then show ?thesis using r same_location_complete [OF r] by auto
qed


theorem candidates_sound_matching_witness:
  "\<exists>r i. compute_snapshot_relations (\<lambda>_. ''h'') rename_base rename_target True False = Inr r
     \<and> i \<in> set (rs_relations r) \<and> ri_kind i = RENAME_CANDIDATE
     \<and> (\<exists>b t. candidate_pair False rename_base rename_target b t)"
proof -
  obtain r where r: "compute_snapshot_relations (\<lambda>_. ''h'') rename_base rename_target True False = Inr r"
    "map ri_kind (rs_relations r) = [RENAME_CANDIDATE]"
    using rename_example by (cases "compute_snapshot_relations (\<lambda>_. ''h'') rename_base rename_target True False") auto
  then obtain i where i: "i \<in> set (rs_relations r)" "ri_kind i = RENAME_CANDIDATE" by auto
  with candidates_sound_matching [OF r(1) i(1), THEN conjunct1] show ?thesis using r(1) by auto
qed

section \<open>Ambiguity\<close>

lemma outcomes_groups:
  assumes "\<forall>x \<in> set outs. case x of None \<Rightarrow> True | Some (i, None) \<Rightarrow> ri_kind i \<noteq> AMBIGUOUS_LOCATION_TRANSITION
      | Some (i, Some g) \<Rightarrow> ri_kind i = AMBIGUOUS_LOCATION_TRANSITION
          \<and> ri_ambiguity_group_id i = Some (rg_ambiguity_group_id g)
          \<and> ri_source_entries i = rg_source_entries g \<and> ri_target_entries i = rg_target_entries g"
  shows "map (\<lambda>g. (Some (rg_ambiguity_group_id g), rg_source_entries g, rg_target_entries g))
      (List.map_filter snd (List.map_filter id outs))
    = map (\<lambda>i. (ri_ambiguity_group_id i, ri_source_entries i, ri_target_entries i))
      (filter (\<lambda>i. ri_kind i = AMBIGUOUS_LOCATION_TRANSITION) (map fst (List.map_filter id outs)))"
  using assms by (induction outs) (auto simp: List.map_filter_def split: option.splits)

lemma outcome_facts:
  assumes "transition_outcomes sha reused base target outs"
  shows "\<forall>x \<in> set outs. case x of None \<Rightarrow> True | Some (i, None) \<Rightarrow> ri_kind i \<noteq> AMBIGUOUS_LOCATION_TRANSITION
      | Some (i, Some g) \<Rightarrow> ri_kind i = AMBIGUOUS_LOCATION_TRANSITION
          \<and> ri_ambiguity_group_id i = Some (rg_ambiguity_group_id g)
          \<and> ri_source_entries i = rg_source_entries g \<and> ri_target_entries i = rg_target_entries g"
proof
  fix x assume "x \<in> set outs"
  with assms obtain h where "hint_outcome sha reused (hinted (only_in base target) h) (hinted (only_in target base) h)
         (aliased (s_entries base) (hint_alias h)) (aliased (s_entries target) (hint_alias h)) x"
    unfolding transition_outcomes_def by (blast dest: list_all2_right)
  then show "case x of None \<Rightarrow> True | Some (i, None) \<Rightarrow> ri_kind i \<noteq> AMBIGUOUS_LOCATION_TRANSITION
      | Some (i, Some g) \<Rightarrow> ri_kind i = AMBIGUOUS_LOCATION_TRANSITION
          \<and> ri_ambiguity_group_id i = Some (rg_ambiguity_group_id g)
          \<and> ri_source_entries i = rg_source_entries g \<and> ri_target_entries i = rg_target_entries g"
    by cases auto
qed

lemma transitions_adjacent:
  assumes "compute_snapshot_relations sha base target adjacent reused = Inr r"
    and "i \<in> set (rs_relations r)" "transition_kind (ri_kind i)"
  shows adjacent
proof (rule ccontr)
  assume not: "\<not> adjacent"
  obtain outs where "transition_outcomes sha reused base target outs"
    and rel: "mset (rs_relations r) = mset (same_location_items sha reused base target)
       + (if adjacent then mset (map fst (List.map_filter id outs)) else {#})"
    using assms(1) by (rule relations_partsE)
  have "i \<in> set (same_location_items sha reused base target)"
    using arg_cong [OF rel, of set_mset] assms(2) not by simp
  then show False
    using assms(3) same_location_kind unfolding same_location_items_def set_map_filter by blast
qed

text \<open>C9: ambiguity groups and ambiguous relations correspond one to one, with the same identifier and the
  same source and target references; Snapshots that are not adjacent have neither groups nor
  transitions of any kind.\<close>

theorem ambiguity_groups_correspond:
  assumes "compute_snapshot_relations sha base target adjacent reused = Inr r"
  shows "(mset (map (\<lambda>g. (Some (rg_ambiguity_group_id g), rg_source_entries g, rg_target_entries g))
      (rs_ambiguity_groups r))
    = mset (map (\<lambda>i. (ri_ambiguity_group_id i, ri_source_entries i, ri_target_entries i))
      (filter (\<lambda>i. ri_kind i = AMBIGUOUS_LOCATION_TRANSITION) (rs_relations r))))
    \<and> (\<not> adjacent \<longrightarrow> rs_ambiguity_groups r = [] \<and> (\<forall>i \<in> set (rs_relations r). \<not> transition_kind (ri_kind i)))"
proof -
  obtain outs where outs: "transition_outcomes sha reused base target outs"
    and rel: "mset (rs_relations r) = mset (same_location_items sha reused base target)
       + (if adjacent then mset (map fst (List.map_filter id outs)) else {#})"
    and groups: "mset (rs_ambiguity_groups r) = (if adjacent then mset (List.map_filter snd (List.map_filter id outs)) else {#})"
    using assms by (rule relations_partsE)
  have same: "\<not> transition_kind (ri_kind i)" if "i \<in> set (same_location_items sha reused base target)" for i
    using that same_location_kind unfolding same_location_items_def set_map_filter by blast
  then have "filter (\<lambda>i. ri_kind i = AMBIGUOUS_LOCATION_TRANSITION) (same_location_items sha reused base target) = []"
    by (auto simp: filter_empty_conv transition_kind_def)
  then have none: "filter_mset (\<lambda>i. ri_kind i = AMBIGUOUS_LOCATION_TRANSITION)
      (mset (same_location_items sha reused base target)) = {#}"
    by (simp only: mset_filter [symmetric]) simp
  have s1: "mset (map (\<lambda>g. (Some (rg_ambiguity_group_id g), rg_source_entries g, rg_target_entries g))
      (rs_ambiguity_groups r))
    = mset (map (\<lambda>i. (ri_ambiguity_group_id i, ri_source_entries i, ri_target_entries i))
      (filter (\<lambda>i. ri_kind i = AMBIGUOUS_LOCATION_TRANSITION) (rs_relations r)))"
  proof (cases adjacent)
    case True
    then show ?thesis
      using arg_cong [OF outcomes_groups [OF outcome_facts [OF outs]], of mset]
      by (simp only: mset_map mset_filter rel groups if_True filter_union_mset none add_0)
  next
    case False
    then show ?thesis by (simp only: mset_map mset_filter rel groups if_False filter_union_mset none) simp
  qed
  have s2: "rs_ambiguity_groups r = [] \<and> (\<forall>i \<in> set (rs_relations r). \<not> transition_kind (ri_kind i))" if "\<not> adjacent"
    using that groups transitions_adjacent [OF assms] by auto
  show ?thesis using s1 s2 by blast
qed

definition reused_inode_base :: filesystem_snapshot where
  "reused_inode_base = plain_snapshot ''s1'' ''t0'' ''t1'' [''home'']
     [hashed_entry ''s1'' ''home'' ''a'' 5 7 (replicate 64 CHR ''a''),
      hashed_entry ''s1'' ''home'' ''b'' 5 8 (replicate 64 CHR ''a'')]"

definition reused_inode_target :: filesystem_snapshot where
  "reused_inode_target = plain_snapshot ''s2'' ''t2'' ''t3'' [''home'']
     [hashed_entry ''s2'' ''home'' ''c'' 5 7 (replicate 64 CHR ''a''),
      hashed_entry ''s2'' ''home'' ''d'' 5 8 (replicate 64 CHR ''a'')]"

lemma reused_inode_example:
  "map_sum id (\<lambda>r. (map ri_kind (rs_relations r), map rg_ambiguity_group_id (rs_ambiguity_groups r)))
     (compute_snapshot_relations (\<lambda>_. ''h'') reused_inode_base reused_inode_target True False)
   = Inr ([AMBIGUOUS_LOCATION_TRANSITION, AMBIGUOUS_LOCATION_TRANSITION], [''h'', ''h''])"
  by code_simp

theorem ambiguity_groups_correspond_witness:
  "\<exists>r. compute_snapshot_relations (\<lambda>_. ''h'') reused_inode_base reused_inode_target True False = Inr r
     \<and> mset (map (\<lambda>g. (Some (rg_ambiguity_group_id g), rg_source_entries g, rg_target_entries g))
          (rs_ambiguity_groups r))
        = mset (map (\<lambda>i. (ri_ambiguity_group_id i, ri_source_entries i, ri_target_entries i))
          (filter (\<lambda>i. ri_kind i = AMBIGUOUS_LOCATION_TRANSITION) (rs_relations r)))
     \<and> (\<exists>r'. compute_snapshot_relations (\<lambda>_. ''h'') reused_inode_base reused_inode_target False False = Inr r'
          \<and> rs_ambiguity_groups r' = [])"
proof -
  have ok: "relation_pair_ok reused_inode_base reused_inode_target" by code_simp
  obtain r where r: "compute_snapshot_relations (\<lambda>_. ''h'') reused_inode_base reused_inode_target True False = Inr r"
    using compute_relations_ok [OF ok] by blast
  obtain r' where r': "compute_snapshot_relations (\<lambda>_. ''h'') reused_inode_base reused_inode_target False False = Inr r'"
    using compute_relations_ok [OF ok] by blast
  show ?thesis
    using r r' ambiguity_groups_correspond [OF r, THEN conjunct1] ambiguity_groups_correspond [OF r', THEN conjunct2] by blast
qed

lemma reused_inode_transitions:
  "let src = map entry_reference (s_entries reused_inode_base);
       tgt = map entry_reference (s_entries reused_inode_target);
       gid = ambiguity_group_id sha src tgt;
       i = make_relation_item sha AMBIGUOUS_LOCATION_TRANSITION AMBIGUOUS src tgt (Some gid);
       g = \<lparr>rg_ambiguity_group_id = gid, rg_source_entries = src, rg_target_entries = tgt\<rparr>
   in transition_relations sha False (s_entries reused_inode_base) (s_entries reused_inode_target)
        (s_entries reused_inode_base) (s_entries reused_inode_target) = Inr ([i, i], [g, g])"
  by code_simp

text \<open>A relation set may list one relation twice. When two disappeared Entries share device and inode
  but not the birth time, and so do two new ones, the loop meets the pair under both birth times
  and each time reports the whole alias component: the same ambiguous relation, with the same
  identifier, and the same ambiguity group appear twice.\<close>

lemma ambiguous_relation_listed_twice:
  "\<exists>r i. compute_snapshot_relations sha reused_inode_base reused_inode_target True False = Inr r
     \<and> rs_relations r = [i, i] \<and> ri_kind i = AMBIGUOUS_LOCATION_TRANSITION
     \<and> (\<exists>g. rs_ambiguity_groups r = [g, g])"
proof -
  let ?B = reused_inode_base and ?T = reused_inode_target
  obtain i g where tr: "transition_relations sha False (s_entries ?B) (s_entries ?T) (s_entries ?B) (s_entries ?T)
      = Inr ([i, i], [g, g])" and kind: "ri_kind i = AMBIGUOUS_LOCATION_TRANSITION"
    using reused_inode_transitions [of sha] by (simp add: Let_def)
  have v: "validate_relation_pair ?B ?T = Inr ()" by code_simp
  have ok: "relation_input_ok ?B" "relation_input_ok ?T" by code_simp+
  have only: "only_in ?B ?T = s_entries ?B" "only_in ?T ?B = s_entries ?T" by code_simp+
  have "same_location_items sha False ?B ?T = []" by code_simp
  then have "compute_snapshot_relations sha ?B ?T True False
      = Inr (make_relation_set sha (s_snapshot_id ?B) (s_snapshot_id ?T) [i, i] [g, g])"
    unfolding compute_snapshot_relations_def v index_ok [OF ok(1)] index_ok [OF ok(2)] bind_result_simps
      Let_def located_simps only_in_eq only tr same_location_items_def [symmetric]
    by simp
  then show ?thesis using kind by simp
qed

end
