(* ===== verification/Verified_Snapshots.thy ===== *)
theory Verified_Snapshots
  imports Snapshot_Diff Storage_Growth Duplicate_Analysis Snapshot_Relations_Correct
begin

text \<open>
  The persisted entry points of the analyses: \<open>compute_verified_...\<close> of \<open>snapshot_diff.py\<close>,
  \<open>snapshot_relations.py\<close>, \<open>storage_structure.py\<close>, \<open>storage_growth.py\<close> and
  \<open>duplicate_analysis.py\<close>. They verify the named Snapshots, load them and call the pure
  computation. \<open>verify_snapshot\<close>, \<open>get_snapshot\<close> and \<open>list_snapshots\<close> of \<open>snapshots.py\<close> read
  SQLite and Evidence files; here they are the three operations of a repository argument.
\<close>

section \<open>The repository\<close>

record snapshot_summary =
  sm_snapshot_id :: string
  sm_run_id :: string
  sm_status :: snapshot_status
  sm_created_at :: string
  sm_scope_ids :: "string list"
  sm_entry_count :: int
  sm_observed_count :: int
  sm_error_count :: int
  sm_snapshot_digest :: string

text \<open>The result of a verification, cut down to the field that its callers here read.\<close>

record snapshot_verification =
  sv_snapshot_id :: string
  sv_status :: string

record repository =
  verify_snapshot :: "string \<Rightarrow> snapshot_verification result"
  get_snapshot :: "string \<Rightarrow> filesystem_snapshot result"
  list_snapshots :: "snapshot_summary list result"

text \<open>\<open>try: ... except Exception as error: raise E(...) from error\<close>.\<close>

definition rethrow :: "error_class \<Rightarrow> string \<Rightarrow> 'a result \<Rightarrow> 'a result" where
  "rethrow c m r = (case r of Inl _ \<Rightarrow> raise c m | Inr x \<Rightarrow> Inr x)"

text \<open>\<open>", ".join(ids)\<close>.\<close>

fun join_comma :: "string list \<Rightarrow> string" where
  "join_comma [] = []"
| "join_comma [x] = x"
| "join_comma (x # xs) = x @ '', '' @ join_comma xs"

section \<open>Difference\<close>

text \<open>\<open>snapshot_v2_stat_view\<close> drops the payload facts of a version 2 Snapshot.\<close>

definition stat_view :: "filesystem_snapshot \<Rightarrow> filesystem_snapshot" where
  "stat_view s = s\<lparr>s_entries := map (\<lambda>e. e\<lparr>e_v2 := None\<rparr>) (s_entries s), s_v2 := None\<rparr>"

definition compute_verified_snapshot_diff :: "repository \<Rightarrow> string \<Rightarrow> string \<Rightarrow> snapshot_diff result" where
  "compute_verified_snapshot_diff repo left_id right_id =
     bind_result (map_result (verify_snapshot repo) [left_id, right_id]) (\<lambda>verifications.
     let invalid = map fst (filter (\<lambda>(_, v). sv_status v \<noteq> ''VALID'') (zip [left_id, right_id] verifications))
     in if invalid \<noteq> [] then
          raise DiffError (''snapshot diff requires VALID Snapshot Evidence: '' @ join_comma invalid)
        else
          bind_result (get_snapshot repo left_id) (\<lambda>left.
          bind_result (get_snapshot repo right_id) (\<lambda>right.
          compute_snapshot_diff
            (if s_v2 left \<noteq> None then stat_view left else left)
            (if s_v2 right \<noteq> None then stat_view right else right))))"

section \<open>Structure and duplicates\<close>

definition compute_verified_snapshot_structure :: "(string \<Rightarrow> string) \<Rightarrow> repository \<Rightarrow> string \<Rightarrow>
    storage_structure_result result" where
  "compute_verified_snapshot_structure sha repo snapshot_id =
     bind_result (rethrow StructureError ''STRUCTURE_INVALID: Snapshot ID must be available''
       (verify_snapshot repo snapshot_id)) (\<lambda>verification.
     if sv_status verification \<noteq> ''VALID'' then
       raise StructureError
         (''STRUCTURE_INVALID: structure analysis requires VALID Snapshot Evidence: '' @ snapshot_id)
     else
       bind_result (rethrow StructureError ''STRUCTURE_INVALID: Snapshot ID must be available''
         (get_snapshot repo snapshot_id)) (compute_snapshot_structure sha))"

definition compute_verified_snapshot_duplicate_analysis :: "(string \<Rightarrow> string) \<Rightarrow> repository \<Rightarrow> string \<Rightarrow>
    duplicate_analysis_result result" where
  "compute_verified_snapshot_duplicate_analysis sha repo snapshot_id =
     bind_result (rethrow DuplicateAnalysisError ''DUPLICATE_INVALID: Snapshot ID must be available''
       (verify_snapshot repo snapshot_id)) (\<lambda>verification.
     if sv_status verification \<noteq> ''VALID'' then
       raise DuplicateAnalysisError
         (''DUPLICATE_INVALID: duplicate analysis requires VALID Snapshot Evidence: '' @ snapshot_id)
     else
       bind_result (rethrow DuplicateAnalysisError ''DUPLICATE_INVALID: Snapshot ID must be available''
         (get_snapshot repo snapshot_id)) (\<lambda>snapshot.
       compute_snapshot_duplicate_analysis sha snapshot True))"

section \<open>Growth and relations\<close>

text \<open>The checks of a pair that \<open>storage_growth.py\<close> and \<open>snapshot_relations.py\<close> share, with the
  exception class and its messages as arguments.\<close>

definition load_verified_pair :: "error_class \<Rightarrow> string \<Rightarrow> string \<Rightarrow> string \<Rightarrow> repository \<Rightarrow> string \<Rightarrow> string \<Rightarrow>
    (filesystem_snapshot \<times> filesystem_snapshot) result" where
  "load_verified_pair c distinct_message available_message valid_message repo base_id target_id =
     (if base_id = target_id then raise c distinct_message
      else
        bind_result (rethrow c available_message
          (map_result (verify_snapshot repo) [base_id, target_id])) (\<lambda>verifications.
        let invalid = map fst (filter (\<lambda>(_, v). sv_status v \<noteq> ''VALID'') (zip [base_id, target_id] verifications))
        in if invalid \<noteq> [] then raise c (valid_message @ join_comma invalid)
           else
             rethrow c available_message
               (bind_result (get_snapshot repo base_id) (\<lambda>base.
                bind_result (get_snapshot repo target_id) (\<lambda>target. Inr (base, target))))))"

definition compute_verified_snapshot_growth :: "(string \<Rightarrow> string) \<Rightarrow> repository \<Rightarrow> string \<Rightarrow> string \<Rightarrow>
    storage_growth_result result" where
  "compute_verified_snapshot_growth sha repo base_id target_id =
     bind_result (load_verified_pair GrowthError
       ''GROWTH_INVALID: base and target Snapshot IDs must be distinct''
       ''GROWTH_INVALID: both Snapshot IDs must be available''
       ''GROWTH_INVALID: growth analysis requires VALID Snapshot Evidence: ''
       repo base_id target_id) (\<lambda>(base, target).
     compute_snapshot_growth sha base target)"

definition summary_key :: "snapshot_summary \<Rightarrow> string \<times> string" where
  "summary_key m = (sm_created_at m, sm_snapshot_id m)"

definition are_adjacent_valid_snapshots :: "repository \<Rightarrow> string \<Rightarrow> string \<Rightarrow> bool result" where
  "are_adjacent_valid_snapshots repo base_id target_id =
     bind_result (list_snapshots repo) (\<lambda>summaries.
     bind_result (map_result (\<lambda>item. verify_snapshot repo (sm_snapshot_id item)) summaries) (\<lambda>verifications.
     let valid = sort_key summary_key
           (map fst (filter (\<lambda>(_, v). sv_status v = ''VALID'') (zip summaries verifications)))
     in Inr (\<exists>(base, target) \<in> set (zip valid (tl valid)).
          sm_snapshot_id base = base_id \<and> sm_snapshot_id target = target_id)))"

definition compute_verified_snapshot_relations :: "(string \<Rightarrow> string) \<Rightarrow> repository \<Rightarrow> string \<Rightarrow> string \<Rightarrow>
    relation_set result" where
  "compute_verified_snapshot_relations sha repo base_id target_id =
     bind_result (load_verified_pair RelationError
       ''RELATION_INVALID: base and target Snapshot IDs must be distinct''
       ''RELATION_INVALID: both Snapshot IDs must be available''
       ''RELATION_INVALID: relation requires VALID Snapshot Evidence: ''
       repo base_id target_id) (\<lambda>(base, target).
     bind_result (are_adjacent_valid_snapshots repo base_id target_id) (\<lambda>adjacent.
     compute_snapshot_relations sha base target adjacent True))"

section \<open>Only valid Snapshots are analysed\<close>

definition valid_in :: "repository \<Rightarrow> string \<Rightarrow> bool" where
  "valid_in repo i \<longleftrightarrow> (case verify_snapshot repo i of Inl _ \<Rightarrow> False | Inr v \<Rightarrow> sv_status v = ''VALID'')"

lemma rethrow_Inr_iff [simp]: "rethrow c m r = Inr x \<longleftrightarrow> r = Inr x"
  by (simp add: rethrow_def split: sum.splits)

lemma rethrow_Inl_iff: "rethrow c m r = Inl e \<longleftrightarrow> (\<exists>e'. r = Inl e') \<and> e = Raise c m"
  by (auto simp: rethrow_def split: sum.splits)

lemma load_verified_pair_Inr:
  assumes "load_verified_pair c m1 m2 m3 repo b t = Inr (base, target)"
  shows "b \<noteq> t \<and> valid_in repo b \<and> valid_in repo t \<and> get_snapshot repo b = Inr base \<and> get_snapshot repo t = Inr target"
  using assms
  by (auto simp: load_verified_pair_def valid_in_def bind_result_Inr_iff Let_def split: if_splits)

lemma load_verified_pair_Inl:
  "load_verified_pair c m1 m2 m3 repo b t = Inl e \<Longrightarrow> \<exists>m. e = Raise c m"
  by (auto simp: load_verified_pair_def bind_result_Inl_iff rethrow_Inl_iff Let_def split: if_splits)

section \<open>Adjacency\<close>

lemma zip_tl_nth: "(x, y) \<in> set (zip xs (tl xs)) \<longleftrightarrow> (\<exists>i. Suc i < length xs \<and> x = xs ! i \<and> y = xs ! Suc i)"
  by (cases xs) (auto simp: in_set_zip nth_tl)

lemma sorted_neighbours:
  assumes "sorted (map f xs)" "(x, y) \<in> set (zip xs (tl xs))" "z \<in> set xs"
  shows "f x \<le> f y \<and> (f z \<le> f x \<or> f y \<le> f z)"
proof -
  obtain i where i: "Suc i < length xs" "x = xs ! i" "y = xs ! Suc i"
    using assms(2) by (auto simp: zip_tl_nth)
  obtain j where j: "j < length xs" "z = xs ! j" using assms(3) by (auto simp: in_set_conv_nth)
  have le: "f (xs ! a) \<le> f (xs ! b)" if "a \<le> b" "b < length xs" for a b
    using sorted_nth_mono [OF assms(1) that(1)] that by simp
  show ?thesis using i j le [of i "Suc i"] le [of j i] le [of "Suc i" j] by (cases "j \<le> i") auto
qed

lemma adjacent_valid_snapshots:
  assumes "are_adjacent_valid_snapshots repo b t = Inr True"
  obtains ms base target where "list_snapshots repo = Inr ms" "base \<in> set ms" "target \<in> set ms"
    "sm_snapshot_id base = b" "sm_snapshot_id target = t" "summary_key base \<le> summary_key target"
    "\<forall>m \<in> set ms. valid_in repo (sm_snapshot_id m) \<longrightarrow>
       summary_key m \<le> summary_key base \<or> summary_key target \<le> summary_key m"
proof -
  from assms obtain ms vs where ms: "list_snapshots repo = Inr ms"
    and vs: "list_all2 (\<lambda>m v. verify_snapshot repo (sm_snapshot_id m) = Inr v) ms vs"
    and adj: "\<exists>(base, target) \<in> set (let valid = sort_key summary_key (map fst (filter (\<lambda>(_, v). sv_status v = ''VALID'') (zip ms vs)))
        in zip valid (tl valid)). sm_snapshot_id base = b \<and> sm_snapshot_id target = t"
    by (auto simp: are_adjacent_valid_snapshots_def bind_result_Inr_iff map_result_Inr_iff Let_def)
  define valid where "valid = sort_key summary_key (map fst (filter (\<lambda>(_, v). sv_status v = ''VALID'') (zip ms vs)))"
  from adj obtain base target where bt: "(base, target) \<in> set (zip valid (tl valid))"
    "sm_snapshot_id base = b" "sm_snapshot_id target = t"
    by (auto simp: valid_def Let_def)
  have sub: "set valid \<subseteq> set ms" by (auto simp: valid_def dest: set_zip_leftD)
  have mem: "m \<in> set valid" if m: "m \<in> set ms" "valid_in repo (sm_snapshot_id m)" for m
  proof -
    obtain j where j: "j < length ms" "m = ms ! j" using m(1) by (auto simp: in_set_conv_nth)
    then have "verify_snapshot repo (sm_snapshot_id m) = Inr (vs ! j)" "j < length vs"
      using vs by (auto simp: list_all2_conv_all_nth)
    then have "(m, vs ! j) \<in> set (filter (\<lambda>(_, v). sv_status v = ''VALID'') (zip ms vs))"
      using m(2) j by (auto simp: valid_in_def in_set_zip)
    then show ?thesis unfolding valid_def by force
  qed
  have srt: "sorted (map summary_key valid)" by (simp add: valid_def)
  have "base \<in> set valid" "target \<in> set valid"
    using bt(1) by (auto dest: set_zip_leftD set_zip_rightD intro: list.set_sel(2))
  then show thesis
    using that [OF ms] sub bt(2,3) sorted_neighbours [OF srt bt(1)] mem by blast
qed

text \<open>C18: transitions between Snapshots are reported only for neighbours. When the relation set of two
  persisted Snapshots holds a rename, cross-scope or ambiguous transition, both Snapshots verify as
  VALID and their listed summaries have no VALID Snapshot strictly between them in the order of
  creation time and identifier.\<close>

theorem verified_transitions_between_neighbours:
  assumes "compute_verified_snapshot_relations sha repo b t = Inr r"
    and "i \<in> set (rs_relations r)" "transition_kind (ri_kind i)"
  shows "valid_in repo b \<and> valid_in repo t \<and>
    (\<exists>ms base target. list_snapshots repo = Inr ms \<and> base \<in> set ms \<and> target \<in> set ms
       \<and> sm_snapshot_id base = b \<and> sm_snapshot_id target = t \<and> summary_key base \<le> summary_key target
       \<and> list_all (\<lambda>m. \<not> (valid_in repo (sm_snapshot_id m) \<and> summary_key base < summary_key m
            \<and> summary_key m < summary_key target)) ms)"
proof -
  from assms(1) obtain base target adjacent where
    pair: "load_verified_pair RelationError
       ''RELATION_INVALID: base and target Snapshot IDs must be distinct''
       ''RELATION_INVALID: both Snapshot IDs must be available''
       ''RELATION_INVALID: relation requires VALID Snapshot Evidence: '' repo b t = Inr (base, target)"
    and adj: "are_adjacent_valid_snapshots repo b t = Inr adjacent"
    and rel: "compute_snapshot_relations sha base target adjacent True = Inr r"
    by (auto simp: compute_verified_snapshot_relations_def bind_result_Inr_iff)
  from transitions_adjacent [OF rel assms(2,3)] adj have "are_adjacent_valid_snapshots repo b t = Inr True" by simp
  then obtain ms mb mt where m: "list_snapshots repo = Inr ms" "mb \<in> set ms" "mt \<in> set ms"
    "sm_snapshot_id mb = b" "sm_snapshot_id mt = t" "summary_key mb \<le> summary_key mt"
    and between: "\<forall>m \<in> set ms. valid_in repo (sm_snapshot_id m) \<longrightarrow>
       summary_key m \<le> summary_key mb \<or> summary_key mt \<le> summary_key m"
    by (rule adjacent_valid_snapshots)
  have "list_all (\<lambda>m. \<not> (valid_in repo (sm_snapshot_id m) \<and> summary_key mb < summary_key m
      \<and> summary_key m < summary_key mt)) ms"
    unfolding list_all_iff using between by (auto simp: not_less)
  then show ?thesis using load_verified_pair_Inr [OF pair] m by blast
qed

definition rename_repo :: repository where
  "rename_repo = \<lparr>
     verify_snapshot = (\<lambda>i. Inr \<lparr>sv_snapshot_id = i, sv_status = ''VALID''\<rparr>),
     get_snapshot = (\<lambda>i. if i = ''s1'' then Inr rename_base else Inr rename_target),
     list_snapshots = Inr (map (\<lambda>(i, c). \<lparr>sm_snapshot_id = i, sm_run_id = ''run'', sm_status = SNAPSHOT_COMPLETE,
       sm_created_at = c, sm_scope_ids = [''home''], sm_entry_count = 1, sm_observed_count = 1,
       sm_error_count = 0, sm_snapshot_digest = ''sd''\<rparr>) [(''s2'', ''t3''), (''s1'', ''t1'')])\<rparr>"

theorem verified_transitions_between_neighbours_witness:
  "\<exists>r i. compute_verified_snapshot_relations (\<lambda>_. ''h'') rename_repo ''s1'' ''s2'' = Inr r
     \<and> i \<in> set (rs_relations r) \<and> transition_kind (ri_kind i) \<and> valid_in rename_repo ''s1''"
proof -
  have "map_sum id (map ri_kind \<circ> rs_relations) (compute_verified_snapshot_relations (\<lambda>_. ''h'') rename_repo ''s1'' ''s2'')
      = Inr [RENAME_CANDIDATE]"
    by code_simp
  then obtain r where r: "compute_verified_snapshot_relations (\<lambda>_. ''h'') rename_repo ''s1'' ''s2'' = Inr r"
    "map ri_kind (rs_relations r) = [RENAME_CANDIDATE]"
    by (cases "compute_verified_snapshot_relations (\<lambda>_. ''h'') rename_repo ''s1'' ''s2''") auto
  then obtain i where i: "i \<in> set (rs_relations r)" "ri_kind i = RENAME_CANDIDATE" by auto
  then have "transition_kind (ri_kind i)" by (simp add: transition_kind_def)
  with verified_transitions_between_neighbours [OF r(1) i(1)] show ?thesis using r(1) i(1) by blast
qed

end
