(* ===== verification/Query_Pages.thy ===== *)
theory Query_Pages
  imports Steward_Models
begin

text \<open>
  Pages, as the four query modules cut them (\<open>storage_query.py\<close>,
  \<open>snapshot_relation_query.py\<close>, \<open>snapshot_duplicate_query.py\<close>): a limit from 1 to 1000, a
  non-negative offset, and in the answer the offset of the next page if there is one. The locale
  \<open>paged_query\<close> is the contract of a query with a caller that reads page after page; its client
  lemmas say that such a caller terminates and reads everything exactly once.
\<close>

section \<open>Cutting a page\<close>

definition validate_page :: "error_class \<Rightarrow> int \<Rightarrow> int \<Rightarrow> unit result" where
  "validate_page c limit offset =
     (if \<not> (1 \<le> limit \<and> limit \<le> 1000) then
        raise c (error_code c @ '': limit must be an integer from 1 through 1000'')
      else if offset < 0 then
        raise c (error_code c @ '': offset must be a non-negative integer'')
      else Inr ())"

definition page_of :: "'a list \<Rightarrow> int \<Rightarrow> int \<Rightarrow> 'a list \<times> bool \<times> int option" where
  "page_of items limit offset =
     (let page = page_slice limit offset items;
          has_more = (offset + int (length page) < int (length items))
      in (page, has_more, if has_more then Some (offset + int (length page)) else None))"

abbreviation valid_page :: "int \<Rightarrow> int \<Rightarrow> bool" where
  "valid_page limit offset \<equiv> 1 \<le> limit \<and> limit \<le> 1000 \<and> 0 \<le> offset"

lemma validate_page_valid [simp]: "valid_page limit offset \<Longrightarrow> validate_page c limit offset = Inr ()"
  by (simp add: validate_page_def)

lemma validate_page_invalid: "\<not> valid_page limit offset \<Longrightarrow> \<exists>m. validate_page c limit offset = raise c m"
  by (auto simp: validate_page_def)

section \<open>Reading page after page\<close>

text \<open>
  A caller that starts at an offset and follows \<open>next_offset\<close>; every request costs one unit of
  fuel, and running out of it is \<open>PyRecursionError\<close>.
\<close>

fun read_pages :: "(int \<Rightarrow> 'r result) \<Rightarrow> ('r \<Rightarrow> 'a list) \<Rightarrow> ('r \<Rightarrow> int option) \<Rightarrow> nat \<Rightarrow> int \<Rightarrow> 'a list result" where
  "read_pages ask items_of next_of 0 offset = Inl PyRecursionError"
| "read_pages ask items_of next_of (Suc fuel) offset =
     bind_result (ask offset) (\<lambda>r.
       case next_of r of
         None \<Rightarrow> Inr (items_of r)
       | Some offset' \<Rightarrow> bind_result (read_pages ask items_of next_of fuel offset') (\<lambda>rest. Inr (items_of r @ rest)))"

text \<open>
  The contract of a query: \<open>complete\<close> is the complete selection, or the exception that computing it
  raises; arguments that are no valid page are refused before it is computed.
\<close>

locale paged_query =
  fixes ask :: "int \<Rightarrow> int \<Rightarrow> 'r result"
    and items_of :: "'r \<Rightarrow> 'a list"
    and next_of :: "'r \<Rightarrow> int option"
    and error :: error_class
    and selection :: "'a list result"
  assumes refused: "\<not> valid_page limit offset \<Longrightarrow> \<exists>m. ask limit offset = raise error m"
    and failed: "valid_page limit offset \<Longrightarrow> selection = Inl e \<Longrightarrow> ask limit offset = Inl e"
    and answered: "valid_page limit offset \<Longrightarrow> selection = Inr xs \<Longrightarrow>
      \<exists>r. ask limit offset = Inr r \<and> (\<exists>more. page_of xs limit offset = (items_of r, more, next_of r))"
begin

lemma ask_page:
  assumes "valid_page limit offset" "selection = Inr xs"
  obtains r where "ask limit offset = Inr r" "items_of r = page_slice limit offset xs"
    "next_of r = (if offset + limit < int (length xs) then Some (offset + limit) else None)"
proof -
  obtain r more where r: "ask limit offset = Inr r" "page_of xs limit offset = (items_of r, more, next_of r)"
    using answered [OF assms] by blast
  have len: "int (length (page_slice limit offset xs)) = min limit (max 0 (int (length xs) - offset))"
    using assms(1) by (simp add: length_page_slice) linarith
  from r(2) have "items_of r = page_slice limit offset xs"
    and "next_of r = (if offset + int (length (page_slice limit offset xs)) < int (length xs)
      then Some (offset + int (length (page_slice limit offset xs))) else None)"
    by (auto simp: page_of_def Let_def)
  moreover have "offset + int (length (page_slice limit offset xs)) < int (length xs) \<longleftrightarrow> offset + limit < int (length xs)"
    using assms(1) by (simp add: len) linarith
  moreover have "int (length (page_slice limit offset xs)) = limit" if "offset + limit < int (length xs)"
    using assms(1) that by (simp add: len)
  ultimately show thesis using that [OF r(1)] by auto
qed

lemma read_from:
  assumes "1 \<le> limit" "limit \<le> 1000" "0 \<le> offset" "selection = Inr xs"
    and "length xs - nat offset < fuel"
  shows "read_pages (ask limit) items_of next_of fuel offset = Inr (drop (nat offset) xs)"
  using assms(3,5)
proof (induction fuel arbitrary: offset)
  case (Suc fuel)
  obtain r where r: "ask limit offset = Inr r" "items_of r = page_slice limit offset xs"
    "next_of r = (if offset + limit < int (length xs) then Some (offset + limit) else None)"
    using ask_page [of limit offset xs] assms(1,2,4) Suc.prems(1) by blast
  show ?case
  proof (cases "offset + limit < int (length xs)")
    case True
    then have "length xs - nat (offset + limit) < fuel" using Suc.prems assms(1) by linarith
    then have "read_pages (ask limit) items_of next_of fuel (offset + limit) = Inr (drop (nat (offset + limit)) xs)"
      using Suc.IH Suc.prems(1) assms(1) by simp
    moreover have "take (nat limit) (drop (nat offset) xs) @ drop (nat (offset + limit)) xs = drop (nat offset) xs"
      using Suc.prems(1) assms(1) append_take_drop_id [of "nat limit" "drop (nat offset) xs"]
      by (simp add: nat_add_distrib add.commute)
    ultimately show ?thesis using r True by (simp add: page_slice_def)
  next
    case False
    then show ?thesis using r Suc.prems(1) assms(1) by (simp add: page_slice_def)
  qed
qed simp

text \<open>One request more than there are items is always enough, with any limit.\<close>

lemma read_all:
  assumes "1 \<le> limit" "limit \<le> 1000"
  shows "read_pages (ask limit) items_of next_of (Suc (case selection of Inl _ \<Rightarrow> 0 | Inr xs \<Rightarrow> length xs)) 0 = selection"
proof (cases selection)
  case (Inl e)
  then show ?thesis using failed [of limit 0 e] assms by simp
next
  case (Inr xs)
  then show ?thesis using read_from [OF assms _ Inr, of 0 "Suc (length xs)"] by simp
qed

lemma limit_irrelevant:
  assumes "1 \<le> l" "l \<le> 1000" "1 \<le> l'" "l' \<le> 1000" "selection = Inr xs"
  shows "read_pages (ask l) items_of next_of (Suc (length xs)) 0 = read_pages (ask l') items_of next_of (Suc (length xs)) 0"
  using read_from [OF assms(1,2) _ assms(5), of 0 "Suc (length xs)"]
    read_from [OF assms(3,4) _ assms(5), of 0 "Suc (length xs)"] by simp

end

end
