(* ===== verification/Snapshot_Queries.thy ===== *)
theory Snapshot_Queries
  imports Verified_Snapshots Query_Pages
begin

text \<open>
  The query surfaces over the verified analyses: \<open>storage_query.py\<close>,
  \<open>snapshot_relation_query.py\<close> and \<open>snapshot_duplicate_query.py\<close>. A query checks its arguments,
  computes the complete result, selects and orders a view of it and answers one page. Arguments have
  their annotated types, so the \<open>isinstance\<close> checks of the code are not modelled.
\<close>

section \<open>Types (models.py)\<close>

datatype structure_rank = RECURSIVE_LOGICAL_BYTES

datatype growth_rank = NET_GROWTH | NET_SHRINK | RANK_ADDED | RANK_REMOVED

record path_view_root =
  vr_scope_id :: string
  vr_relative_directory_path :: string

record structure_query_result =
  sq_structure_schema_version :: int
  sq_algorithm :: string
  sq_algorithm_version :: int
  sq_snapshot_id :: string
  sq_structure_digest :: string
  sq_full_path_node_count :: int
  sq_selected_path_node_count :: int
  sq_returned_path_node_count :: int
  sq_scope_filter :: "string option"
  sq_path_prefix_filter :: "string option"
  sq_depth :: "int option"
  sq_rank :: "structure_rank option"
  sq_min_bytes :: "int option"
  sq_effective_view_roots :: "path_view_root list"
  sq_path_nodes :: "path_aggregate_node list"
  sq_scope_summaries :: "scope_structure_summary list"
  sq_coverage :: structure_coverage_summary
  sq_limitations :: "structure_limitation list"
  sq_physical_boundary :: structure_physical_boundary
  sq_limit :: int
  sq_offset :: int
  sq_has_more :: bool
  sq_next_offset :: "int option"

record growth_query_result =
  gq_growth_schema_version :: int
  gq_algorithm :: string
  gq_algorithm_version :: int
  gq_base_snapshot_id :: string
  gq_target_snapshot_id :: string
  gq_growth_digest :: string
  gq_full_path_node_count :: int
  gq_selected_path_node_count :: int
  gq_returned_path_node_count :: int
  gq_scope_filter :: "string option"
  gq_path_prefix_filter :: "string option"
  gq_depth :: "int option"
  gq_rank :: "growth_rank option"
  gq_min_bytes :: "int option"
  gq_effective_view_roots :: "path_view_root list"
  gq_path_nodes :: "path_growth_node list"
  gq_scope_summaries :: "scope_growth_summary list"
  gq_contributions :: "growth_contribution list"
  gq_coverage :: growth_coverage_summary
  gq_physical_boundary :: structure_physical_boundary
  gq_limit :: int
  gq_offset :: int
  gq_has_more :: bool
  gq_next_offset :: "int option"

record relation_query_result =
  rq_relation_schema_version :: int
  rq_algorithm :: string
  rq_algorithm_version :: int
  rq_base_snapshot_id :: string
  rq_target_snapshot_id :: string
  rq_relation_set_digest :: string
  rq_relation_item_count :: int
  rq_filtered_relation_item_count :: int
  rq_returned_relation_item_count :: int
  rq_kind_filter :: "relation_kind option"
  rq_relation_items :: "relation_item list"
  rq_ambiguity_groups :: "relation_ambiguity_group list"
  rq_limit :: int
  rq_offset :: int
  rq_has_more :: bool
  rq_next_offset :: "int option"

record duplicate_analysis_query_result =
  dq_analysis_schema_version :: int
  dq_algorithm :: string
  dq_algorithm_version :: int
  dq_snapshot_id :: string
  dq_analysis_digest :: string
  dq_payload_equality_group_count :: int
  dq_filtered_payload_equality_group_count :: int
  dq_returned_payload_equality_group_count :: int
  dq_only_exact :: bool
  dq_payload_equality_groups :: "payload_equality_group list"
  dq_hard_link_alias_sets :: "hard_link_alias_set list"
  dq_coverage :: coverage_summary
  dq_physical_storage :: physical_storage_summary
  dq_integrity_conflicts :: "integrity_conflict list"
  dq_limit :: int
  dq_offset :: int
  dq_has_more :: bool
  dq_next_offset :: "int option"

section \<open>Views of path nodes\<close>

text \<open>
  Both kinds of node are read through their canonical key (scope and directory path), so the helper
  functions take the key as an argument.
\<close>

definition validate_view_options :: "error_class \<Rightarrow> int option \<Rightarrow> int option \<Rightarrow> 'r option \<Rightarrow> unit result" where
  "validate_view_options c depth min_bytes rank =
     (if (case depth of None \<Rightarrow> False | Some d \<Rightarrow> d < 0) then
        raise c (error_code c @ '': depth must be a non-negative integer'')
      else if (case min_bytes of None \<Rightarrow> False | Some n \<Rightarrow> n < 0) then
        raise c (error_code c @ '': min-bytes must be a non-negative integer'')
      else if min_bytes \<noteq> None \<and> rank = None then
        raise c (error_code c @ '': min-bytes requires a rank'')
      else Inr ())"

definition path_parts :: "error_class \<Rightarrow> string \<Rightarrow> string list result" where
  "path_parts c path =
     parse_path
       (Raise c (error_code c @ '': path-prefix must be a scoped relative path''))
       (Raise c (error_code c @ '': path-prefix hierarchy is invalid''))
       path"

definition is_descendant :: "string \<Rightarrow> string \<Rightarrow> bool" where
  "is_descendant path base \<longleftrightarrow> base = ''.'' \<or> path = base \<or> starts_with (base @ ''/'') path"

definition relative_depth :: "string \<Rightarrow> string \<Rightarrow> int result" where
  "relative_depth path base =
     bind_result (path_parts StructureError path) (\<lambda>path_depth.
     bind_result (path_parts StructureError base) (\<lambda>root_depth.
     Inr (int (length path_depth) - int (length root_depth))))"

definition selected_scopes :: "error_class \<Rightarrow> (string \<times> string) list \<Rightarrow> string option \<Rightarrow> string list result" where
  "selected_scopes c keys scope =
     (let available = sorted_set (map fst keys)
      in case scope of
           None \<Rightarrow> Inr available
         | Some scope_id \<Rightarrow>
             if scope_id \<notin> set available then
               raise c (error_code c @ '': scope is not present in the complete result'')
             else Inr [scope_id])"

definition effective_roots :: "error_class \<Rightarrow> (string \<times> string) list \<Rightarrow> string list \<Rightarrow> string option \<Rightarrow>
    path_view_root list result" where
  "effective_roots c keys scopes path_prefix =
     (let path = (case path_prefix of None \<Rightarrow> ''.'' | Some p \<Rightarrow> p)
      in bind_result (path_parts c path) (\<lambda>_.
         if filter (\<lambda>scope_id. (scope_id, path) \<notin> set keys) scopes \<noteq> [] then
           raise c (error_code c @ '': path-prefix is not present in the selected scope'')
         else Inr (map (\<lambda>scope_id. \<lparr>vr_scope_id = scope_id, vr_relative_directory_path = path\<rparr>) scopes)))"

fun filter_result :: "('a \<Rightarrow> bool result) \<Rightarrow> 'a list \<Rightarrow> 'a list result" where
  "filter_result f [] = Inr []"
| "filter_result f (x # xs) =
     bind_result (f x) (\<lambda>b. bind_result (filter_result f xs) (\<lambda>ys. Inr (if b then x # ys else ys)))"

definition in_view :: "(string, string) dict \<Rightarrow> int option \<Rightarrow> string \<times> string \<Rightarrow> bool result" where
  "in_view root_by_scope depth loc =
     (case map_of root_by_scope (fst loc) of
        None \<Rightarrow> Inr False
      | Some base \<Rightarrow>
          if \<not> is_descendant (snd loc) base then Inr False
          else (case depth of
              None \<Rightarrow> Inr True
            | Some limit \<Rightarrow> bind_result (relative_depth (snd loc) base) (\<lambda>d. Inr (d \<le> limit))))"

definition depth_nodes :: "('n \<Rightarrow> string \<times> string) \<Rightarrow> 'n list \<Rightarrow> path_view_root list \<Rightarrow> int option \<Rightarrow>
    'n list result" where
  "depth_nodes key nodes roots depth =
     (let root_by_scope = dict_of (map (\<lambda>r. (vr_scope_id r, vr_relative_directory_path r)) roots)
      in filter_result (\<lambda>n. in_view root_by_scope depth (key n)) nodes)"

definition rank_structure_nodes :: "path_aggregate_node list \<Rightarrow> structure_rank option \<Rightarrow> int option \<Rightarrow>
    path_aggregate_node list" where
  "rank_structure_nodes candidates rank min_bytes =
     (case rank of
        None \<Rightarrow> sort_key node_key candidates
      | Some _ \<Rightarrow>
          (let eligible = filter (\<lambda>n. pn_relative_directory_path n \<noteq> ''.''
                 \<and> pn_recursive_known_logical_bytes n > 0) candidates;
               eligible = (case min_bytes of
                 None \<Rightarrow> eligible
               | Some least \<Rightarrow> filter (\<lambda>n. pn_recursive_known_logical_bytes n \<ge> least) eligible)
           in sort_key (\<lambda>n. (- pn_recursive_known_logical_bytes n, node_key n)) eligible))"

definition growth_metric :: "path_growth_node \<Rightarrow> growth_rank \<Rightarrow> int option" where
  "growth_metric n rank =
     (case rank of
        NET_GROWTH \<Rightarrow> (if gn_recursive_known_net_logical_delta n > 0
          then Some (gn_recursive_known_net_logical_delta n) else None)
      | NET_SHRINK \<Rightarrow> (if gn_recursive_known_net_logical_delta n < 0
          then Some (- gn_recursive_known_net_logical_delta n) else None)
      | RANK_ADDED \<Rightarrow> (if gn_recursive_added_logical_bytes n > 0
          then Some (gn_recursive_added_logical_bytes n) else None)
      | RANK_REMOVED \<Rightarrow> (if gn_recursive_removed_logical_bytes n > 0
          then Some (gn_recursive_removed_logical_bytes n) else None))"

definition rank_growth_nodes :: "path_growth_node list \<Rightarrow> growth_rank option \<Rightarrow> int option \<Rightarrow>
    path_growth_node list" where
  "rank_growth_nodes candidates rank min_bytes =
     (case rank of
        None \<Rightarrow> sort_key growth_node_key candidates
      | Some r \<Rightarrow>
          (let eligible = List.map_filter (\<lambda>n.
                 if gn_relative_directory_path n = ''.'' then None
                 else (case growth_metric n r of
                     None \<Rightarrow> None
                   | Some metric \<Rightarrow>
                       if (case min_bytes of None \<Rightarrow> True | Some least \<Rightarrow> metric \<ge> least)
                       then Some (n, metric) else None)) candidates
           in map fst (sort_key (\<lambda>(n, metric). (- metric, growth_node_key n)) eligible)))"

section \<open>Queries\<close>

text \<open>The part of a storage query between the complete result and the ranking.\<close>

definition node_view :: "error_class \<Rightarrow> ('n \<Rightarrow> string \<times> string) \<Rightarrow> 'n list \<Rightarrow> string option \<Rightarrow> string option \<Rightarrow>
    int option \<Rightarrow> (path_view_root list \<times> 'n list) result" where
  "node_view c key nodes scope path_prefix depth =
     bind_result (selected_scopes c (map key nodes) scope) (\<lambda>scopes.
     bind_result (effective_roots c (map key nodes) scopes path_prefix) (\<lambda>roots.
     bind_result (depth_nodes key nodes roots depth) (\<lambda>candidates. Inr (roots, candidates))))"

definition query_verified_snapshot_structure :: "(string \<Rightarrow> string) \<Rightarrow> repository \<Rightarrow> string \<Rightarrow> string option \<Rightarrow>
    string option \<Rightarrow> int option \<Rightarrow> structure_rank option \<Rightarrow> int option \<Rightarrow> int \<Rightarrow> int \<Rightarrow>
    structure_query_result result" where
  "query_verified_snapshot_structure sha repo snapshot_id scope path_prefix depth rank min_bytes limit offset =
     bind_result (validate_page StructureError limit offset) (\<lambda>_.
     bind_result (validate_view_options StructureError depth min_bytes rank) (\<lambda>_.
     bind_result (compute_verified_snapshot_structure sha repo snapshot_id) (\<lambda>result.
     bind_result (node_view StructureError node_key (sr_path_nodes result) scope path_prefix depth)
       (\<lambda>(roots, candidates).
     let selected = rank_structure_nodes candidates rank min_bytes;
         (page, has_more, next_offset) = page_of selected limit offset
     in Inr \<lparr>sq_structure_schema_version = sr_structure_schema_version result,
             sq_algorithm = sr_algorithm result, sq_algorithm_version = sr_algorithm_version result,
             sq_snapshot_id = sr_snapshot_id result, sq_structure_digest = sr_structure_digest result,
             sq_full_path_node_count = int (length (sr_path_nodes result)),
             sq_selected_path_node_count = int (length selected),
             sq_returned_path_node_count = int (length page),
             sq_scope_filter = scope, sq_path_prefix_filter = path_prefix, sq_depth = depth,
             sq_rank = rank, sq_min_bytes = min_bytes, sq_effective_view_roots = roots,
             sq_path_nodes = page, sq_scope_summaries = sr_scope_summaries result,
             sq_coverage = sr_coverage result, sq_limitations = sr_limitations result,
             sq_physical_boundary = sr_physical_boundary result, sq_limit = limit,
             sq_offset = offset, sq_has_more = has_more, sq_next_offset = next_offset\<rparr>))))"

definition query_verified_snapshot_growth :: "(string \<Rightarrow> string) \<Rightarrow> repository \<Rightarrow> string \<Rightarrow> string \<Rightarrow>
    string option \<Rightarrow> string option \<Rightarrow> int option \<Rightarrow> growth_rank option \<Rightarrow> int option \<Rightarrow> int \<Rightarrow> int \<Rightarrow>
    growth_query_result result" where
  "query_verified_snapshot_growth sha repo base_id target_id scope path_prefix depth rank min_bytes limit offset =
     bind_result (validate_page GrowthError limit offset) (\<lambda>_.
     bind_result (validate_view_options GrowthError depth min_bytes rank) (\<lambda>_.
     bind_result (compute_verified_snapshot_growth sha repo base_id target_id) (\<lambda>result.
     bind_result (node_view GrowthError growth_node_key (gr_path_nodes result) scope path_prefix depth)
       (\<lambda>(roots, candidates).
     let selected = rank_growth_nodes candidates rank min_bytes;
         (page, has_more, next_offset) = page_of selected limit offset
     in Inr \<lparr>gq_growth_schema_version = gr_growth_schema_version result,
             gq_algorithm = gr_algorithm result, gq_algorithm_version = gr_algorithm_version result,
             gq_base_snapshot_id = gr_base_snapshot_id result,
             gq_target_snapshot_id = gr_target_snapshot_id result,
             gq_growth_digest = gr_growth_digest result,
             gq_full_path_node_count = int (length (gr_path_nodes result)),
             gq_selected_path_node_count = int (length selected),
             gq_returned_path_node_count = int (length page),
             gq_scope_filter = scope, gq_path_prefix_filter = path_prefix, gq_depth = depth,
             gq_rank = rank, gq_min_bytes = min_bytes, gq_effective_view_roots = roots,
             gq_path_nodes = page, gq_scope_summaries = gr_scope_summaries result,
             gq_contributions = gr_contributions result, gq_coverage = gr_coverage result,
             gq_physical_boundary = gr_physical_boundary result, gq_limit = limit,
             gq_offset = offset, gq_has_more = has_more, gq_next_offset = next_offset\<rparr>))))"

definition query_verified_snapshot_relations :: "(string \<Rightarrow> string) \<Rightarrow> repository \<Rightarrow> string \<Rightarrow> string \<Rightarrow>
    relation_kind option \<Rightarrow> int \<Rightarrow> int \<Rightarrow> relation_query_result result" where
  "query_verified_snapshot_relations sha repo base_id target_id kind limit offset =
     bind_result (validate_page RelationError limit offset) (\<lambda>_.
     bind_result (compute_verified_snapshot_relations sha repo base_id target_id) (\<lambda>rs.
     let selected = filter (\<lambda>i. kind = None \<or> Some (ri_kind i) = kind) (rs_relations rs);
         (page, has_more, next_offset) = page_of selected limit offset;
         group_ids = List.map_filter ri_ambiguity_group_id page;
         groups = filter (\<lambda>g. rg_ambiguity_group_id g \<in> set group_ids) (rs_ambiguity_groups rs)
     in Inr \<lparr>rq_relation_schema_version = rs_relation_schema_version rs,
             rq_algorithm = rs_algorithm rs, rq_algorithm_version = rs_algorithm_version rs,
             rq_base_snapshot_id = rs_base_snapshot_id rs,
             rq_target_snapshot_id = rs_target_snapshot_id rs,
             rq_relation_set_digest = rs_relation_set_digest rs,
             rq_relation_item_count = int (length (rs_relations rs)),
             rq_filtered_relation_item_count = int (length selected),
             rq_returned_relation_item_count = int (length page),
             rq_kind_filter = kind, rq_relation_items = page, rq_ambiguity_groups = groups,
             rq_limit = limit, rq_offset = offset, rq_has_more = has_more,
             rq_next_offset = next_offset\<rparr>))"

definition query_verified_snapshot_duplicates :: "(string \<Rightarrow> string) \<Rightarrow> repository \<Rightarrow> string \<Rightarrow> bool \<Rightarrow> int \<Rightarrow> int \<Rightarrow>
    duplicate_analysis_query_result result" where
  "query_verified_snapshot_duplicates sha repo snapshot_id only_exact limit offset =
     bind_result (validate_page DuplicateAnalysisError limit offset) (\<lambda>_.
     bind_result (compute_verified_snapshot_duplicate_analysis sha repo snapshot_id) (\<lambda>analysis.
     let selected = filter (\<lambda>g. \<not> only_exact \<or> pg_is_exact_duplicate g) (da_payload_equality_groups analysis);
         (page, has_more, next_offset) = page_of selected limit offset
     in Inr \<lparr>dq_analysis_schema_version = da_analysis_schema_version analysis,
             dq_algorithm = da_algorithm analysis, dq_algorithm_version = da_algorithm_version analysis,
             dq_snapshot_id = da_snapshot_id analysis, dq_analysis_digest = da_analysis_digest analysis,
             dq_payload_equality_group_count = int (length (da_payload_equality_groups analysis)),
             dq_filtered_payload_equality_group_count = int (length selected),
             dq_returned_payload_equality_group_count = int (length page),
             dq_only_exact = only_exact, dq_payload_equality_groups = page,
             dq_hard_link_alias_sets = da_hard_link_alias_sets analysis,
             dq_coverage = da_coverage analysis, dq_physical_storage = da_physical_storage analysis,
             dq_integrity_conflicts = da_integrity_conflicts analysis, dq_limit = limit,
             dq_offset = offset, dq_has_more = has_more, dq_next_offset = next_offset\<rparr>))"

end
