(* ===== verification/Snapshot_Queries_Correct.thy ===== *)
theory Snapshot_Queries_Correct
  imports Snapshot_Queries Storage_Structure_Correct
begin

text \<open>
  The four queries satisfy the paging contract, so reading page after page returns the complete
  selection; and the selection of a storage query is exactly the directories of the complete result
  in the chosen scope, below the prefix, within the depth and of the ranked size.
\<close>

section \<open>Complete selections\<close>

definition structure_selection :: "(string \<Rightarrow> string) \<Rightarrow> repository \<Rightarrow> string \<Rightarrow> string option \<Rightarrow>
    string option \<Rightarrow> int option \<Rightarrow> structure_rank option \<Rightarrow> int option \<Rightarrow> path_aggregate_node list result" where
  "structure_selection sha repo snapshot_id scope path_prefix depth rank min_bytes =
     bind_result (validate_view_options StructureError depth min_bytes rank) (\<lambda>_.
     bind_result (compute_verified_snapshot_structure sha repo snapshot_id) (\<lambda>result.
     bind_result (node_view StructureError node_key (sr_path_nodes result) scope path_prefix depth)
       (\<lambda>(roots, candidates). Inr (rank_structure_nodes candidates rank min_bytes))))"

definition growth_selection :: "(string \<Rightarrow> string) \<Rightarrow> repository \<Rightarrow> string \<Rightarrow> string \<Rightarrow> string option \<Rightarrow>
    string option \<Rightarrow> int option \<Rightarrow> growth_rank option \<Rightarrow> int option \<Rightarrow> path_growth_node list result" where
  "growth_selection sha repo base_id target_id scope path_prefix depth rank min_bytes =
     bind_result (validate_view_options GrowthError depth min_bytes rank) (\<lambda>_.
     bind_result (compute_verified_snapshot_growth sha repo base_id target_id) (\<lambda>result.
     bind_result (node_view GrowthError growth_node_key (gr_path_nodes result) scope path_prefix depth)
       (\<lambda>(roots, candidates). Inr (rank_growth_nodes candidates rank min_bytes))))"

definition relation_selection :: "(string \<Rightarrow> string) \<Rightarrow> repository \<Rightarrow> string \<Rightarrow> string \<Rightarrow>
    relation_kind option \<Rightarrow> relation_item list result" where
  "relation_selection sha repo base_id target_id kind =
     bind_result (compute_verified_snapshot_relations sha repo base_id target_id) (\<lambda>rs.
       Inr (filter (\<lambda>i. kind = None \<or> Some (ri_kind i) = kind) (rs_relations rs)))"

definition duplicate_selection :: "(string \<Rightarrow> string) \<Rightarrow> repository \<Rightarrow> string \<Rightarrow> bool \<Rightarrow>
    payload_equality_group list result" where
  "duplicate_selection sha repo snapshot_id only_exact =
     bind_result (compute_verified_snapshot_duplicate_analysis sha repo snapshot_id) (\<lambda>analysis.
       Inr (filter (\<lambda>g. \<not> only_exact \<or> pg_is_exact_duplicate g) (da_payload_equality_groups analysis)))"

lemma refuse_page: "\<not> valid_page limit offset \<Longrightarrow> \<exists>m. bind_result (validate_page c limit offset) f = raise c m"
  using validate_page_invalid [of limit offset c] by auto

lemma page_parts: "\<exists>more. p = (fst p, more, snd (snd p))"
  by (cases p) auto

interpretation structure_pages: paged_query
  "query_verified_snapshot_structure sha repo i scope path_prefix depth rank min_bytes"
  sq_path_nodes sq_next_offset StructureError
  "structure_selection sha repo i scope path_prefix depth rank min_bytes"
  for sha repo i scope path_prefix depth rank min_bytes
proof unfold_locales
  fix limit offset e xs
  show "\<exists>m. query_verified_snapshot_structure sha repo i scope path_prefix depth rank min_bytes limit offset
      = raise StructureError m" if "\<not> valid_page limit offset"
    unfolding query_verified_snapshot_structure_def using that by (rule refuse_page)
  show "query_verified_snapshot_structure sha repo i scope path_prefix depth rank min_bytes limit offset = Inl e"
    if "valid_page limit offset" "structure_selection sha repo i scope path_prefix depth rank min_bytes = Inl e"
    using that by (auto simp: query_verified_snapshot_structure_def structure_selection_def bind_result_Inl_iff)
  show "\<exists>r. query_verified_snapshot_structure sha repo i scope path_prefix depth rank min_bytes limit offset = Inr r
      \<and> (\<exists>more. page_of xs limit offset = (sq_path_nodes r, more, sq_next_offset r))"
    if "valid_page limit offset" "structure_selection sha repo i scope path_prefix depth rank min_bytes = Inr xs"
    using that by (auto simp: query_verified_snapshot_structure_def structure_selection_def
        bind_result_Inr_iff split_beta Let_def page_parts)
qed

interpretation growth_pages: paged_query
  "query_verified_snapshot_growth sha repo b t scope path_prefix depth rank min_bytes"
  gq_path_nodes gq_next_offset GrowthError
  "growth_selection sha repo b t scope path_prefix depth rank min_bytes"
  for sha repo b t scope path_prefix depth rank min_bytes
proof unfold_locales
  fix limit offset e xs
  show "\<exists>m. query_verified_snapshot_growth sha repo b t scope path_prefix depth rank min_bytes limit offset
      = raise GrowthError m" if "\<not> valid_page limit offset"
    unfolding query_verified_snapshot_growth_def using that by (rule refuse_page)
  show "query_verified_snapshot_growth sha repo b t scope path_prefix depth rank min_bytes limit offset = Inl e"
    if "valid_page limit offset" "growth_selection sha repo b t scope path_prefix depth rank min_bytes = Inl e"
    using that by (auto simp: query_verified_snapshot_growth_def growth_selection_def bind_result_Inl_iff)
  show "\<exists>r. query_verified_snapshot_growth sha repo b t scope path_prefix depth rank min_bytes limit offset = Inr r
      \<and> (\<exists>more. page_of xs limit offset = (gq_path_nodes r, more, gq_next_offset r))"
    if "valid_page limit offset" "growth_selection sha repo b t scope path_prefix depth rank min_bytes = Inr xs"
    using that by (auto simp: query_verified_snapshot_growth_def growth_selection_def
        bind_result_Inr_iff split_beta Let_def page_parts)
qed

interpretation relation_pages: paged_query
  "query_verified_snapshot_relations sha repo b t kind" rq_relation_items rq_next_offset RelationError
  "relation_selection sha repo b t kind"
  for sha repo b t kind
proof unfold_locales
  fix limit offset e xs
  show "\<exists>m. query_verified_snapshot_relations sha repo b t kind limit offset = raise RelationError m"
    if "\<not> valid_page limit offset"
    unfolding query_verified_snapshot_relations_def using that by (rule refuse_page)
  show "query_verified_snapshot_relations sha repo b t kind limit offset = Inl e"
    if "valid_page limit offset" "relation_selection sha repo b t kind = Inl e"
    using that by (auto simp: query_verified_snapshot_relations_def relation_selection_def bind_result_Inl_iff)
  show "\<exists>r. query_verified_snapshot_relations sha repo b t kind limit offset = Inr r
      \<and> (\<exists>more. page_of xs limit offset = (rq_relation_items r, more, rq_next_offset r))"
    if "valid_page limit offset" "relation_selection sha repo b t kind = Inr xs"
    using that by (auto simp: query_verified_snapshot_relations_def relation_selection_def
        bind_result_Inr_iff split_beta Let_def page_parts)
qed

interpretation duplicate_pages: paged_query
  "query_verified_snapshot_duplicates sha repo i only_exact" dq_payload_equality_groups dq_next_offset
  DuplicateAnalysisError "duplicate_selection sha repo i only_exact"
  for sha repo i only_exact
proof unfold_locales
  fix limit offset e xs
  show "\<exists>m. query_verified_snapshot_duplicates sha repo i only_exact limit offset = raise DuplicateAnalysisError m"
    if "\<not> valid_page limit offset"
    unfolding query_verified_snapshot_duplicates_def using that by (rule refuse_page)
  show "query_verified_snapshot_duplicates sha repo i only_exact limit offset = Inl e"
    if "valid_page limit offset" "duplicate_selection sha repo i only_exact = Inl e"
    using that by (auto simp: query_verified_snapshot_duplicates_def duplicate_selection_def bind_result_Inl_iff)
  show "\<exists>r. query_verified_snapshot_duplicates sha repo i only_exact limit offset = Inr r
      \<and> (\<exists>more. page_of xs limit offset = (dq_payload_equality_groups r, more, dq_next_offset r))"
    if "valid_page limit offset" "duplicate_selection sha repo i only_exact = Inr xs"
    using that by (auto simp: query_verified_snapshot_duplicates_def duplicate_selection_def
        bind_result_Inr_iff split_beta Let_def page_parts)
qed

definition selection_length :: "'a list result \<Rightarrow> nat" where
  "selection_length r = (case r of Inl _ \<Rightarrow> 0 | Inr xs \<Rightarrow> length xs)"

text \<open>C19: paging is complete and terminates. A caller of any of the four queries that starts at offset 0,
  uses any one limit from 1 to 1000 and follows the offset of the next page gets, after at most one
  request more than there are items, the complete selection in order, each item once; and if the
  selection fails, the first request fails in the same way.\<close>

theorem query_pages_complete:
  assumes "1 \<le> limit" "limit \<le> 1000"
  shows "read_pages (query_verified_snapshot_structure sha repo i scope path_prefix depth rank min_bytes limit)
      sq_path_nodes sq_next_offset
      (Suc (selection_length (structure_selection sha repo i scope path_prefix depth rank min_bytes))) 0
      = structure_selection sha repo i scope path_prefix depth rank min_bytes
    \<and> read_pages (query_verified_snapshot_growth sha repo b t scope path_prefix depth rank' min_bytes limit)
      gq_path_nodes gq_next_offset
      (Suc (selection_length (growth_selection sha repo b t scope path_prefix depth rank' min_bytes))) 0
      = growth_selection sha repo b t scope path_prefix depth rank' min_bytes
    \<and> read_pages (query_verified_snapshot_relations sha repo b t kind limit) rq_relation_items rq_next_offset
      (Suc (selection_length (relation_selection sha repo b t kind))) 0
      = relation_selection sha repo b t kind
    \<and> read_pages (query_verified_snapshot_duplicates sha repo i only_exact limit)
      dq_payload_equality_groups dq_next_offset
      (Suc (selection_length (duplicate_selection sha repo i only_exact))) 0
      = duplicate_selection sha repo i only_exact"
  unfolding selection_length_def
  by (intro conjI structure_pages.read_all growth_pages.read_all relation_pages.read_all duplicate_pages.read_all
      assms)

theorem query_pages_complete_witness:
  "read_pages (query_verified_snapshot_relations (\<lambda>_. ''h'') rename_repo ''s1'' ''s2'' None 1)
     rq_relation_items rq_next_offset
     (Suc (selection_length (relation_selection (\<lambda>_. ''h'') rename_repo ''s1'' ''s2'' None))) 0
   = relation_selection (\<lambda>_. ''h'') rename_repo ''s1'' ''s2'' None
   \<and> map_sum id (map ri_kind) (relation_selection (\<lambda>_. ''h'') rename_repo ''s1'' ''s2'' None) = Inr [RENAME_CANDIDATE]"
proof -
  have "map_sum id (map ri_kind) (relation_selection (\<lambda>_. ''h'') rename_repo ''s1'' ''s2'' None) = Inr [RENAME_CANDIDATE]"
    by code_simp
  then show ?thesis using query_pages_complete [of 1 "\<lambda>_. ''h''" rename_repo] by simp
qed

section \<open>Views\<close>

lemma split_on_join_append:
  "qs \<noteq> [] \<Longrightarrow> \<forall>q \<in> set qs. c \<notin> set q \<Longrightarrow> split_on c (join_on c qs @ c # r) = qs @ split_on c r"
proof (induction qs)
  case (Cons q qs)
  then show ?case by (cases "qs = []") (simp_all add: split_on_append join_on_Cons)
qed simp

lemma join_on_append: "qs \<noteq> [] \<Longrightarrow> rs \<noteq> [] \<Longrightarrow> join_on c (qs @ rs) = join_on c qs @ c # join_on c rs"
proof (induction qs)
  case (Cons q qs)
  then show ?case by (cases "qs = []") (simp_all add: join_on_Cons)
qed simp

text \<open>The string test of the code is the prefix order on components.\<close>

lemma is_descendant_path_of:
  assumes "good_parts ps" "good_parts qs"
  shows "is_descendant (path_of ps) (path_of qs) \<longleftrightarrow> prefix qs ps"
proof (cases "qs = []")
  case False
  have sep: "\<forall>q \<in> set qs. CHR ''/'' \<notin> set q" using assms(2) by (auto simp: list_all_iff good_partD)
  have "starts_with (path_of qs @ ''/'') (path_of ps) \<longleftrightarrow> (\<exists>rs. rs \<noteq> [] \<and> ps = qs @ rs)"
  proof
    assume "starts_with (path_of qs @ ''/'') (path_of ps)"
    then obtain r where r: "path_of ps = join_on CHR ''/'' qs @ CHR ''/'' # r"
      using False by (auto simp: starts_with_iff path_of_def [of qs])
    then have "ps \<noteq> []"
      using split_on_join_append [OF False sep, of r] by (cases ps) (auto simp: path_of_def append_eq_Cons_conv Cons_eq_append_conv)
    then have "ps = split_on CHR ''/'' (path_of ps)" using split_path_of [OF assms(1)] by simp
    also have "\<dots> = qs @ split_on CHR ''/'' r" unfolding r by (rule split_on_join_append [OF False sep])
    finally show "\<exists>rs. rs \<noteq> [] \<and> ps = qs @ rs" by auto
  next
    assume "\<exists>rs. rs \<noteq> [] \<and> ps = qs @ rs"
    then show "starts_with (path_of qs @ ''/'') (path_of ps)"
      using False by (auto simp: starts_with_iff path_of_def join_on_append)
  qed
  moreover have "path_of ps = path_of qs \<longleftrightarrow> ps = qs" using assms by (rule path_of_eq_iff)
  moreover have "path_of qs \<noteq> ''.''" using False assms(2) by simp
  ultimately show ?thesis unfolding is_descendant_def prefix_def by auto
qed (simp add: is_descendant_def)

lemma relative_depth_path_of:
  "good_parts ps \<Longrightarrow> good_parts qs \<Longrightarrow>
     relative_depth (path_of ps) (path_of qs) = Inr (int (length ps) - int (length qs))"
  by (simp add: relative_depth_def path_parts_def)

lemma filter_result_total:
  "(\<And>x. x \<in> set xs \<Longrightarrow> f x = Inr (P x)) \<Longrightarrow> filter_result f xs = Inr (filter P xs)"
  by (induction xs) auto

definition parts_of :: "string \<Rightarrow> string list" where
  "parts_of path = (case parse_path PyValueError PyValueError path of Inl _ \<Rightarrow> [] | Inr ps \<Rightarrow> ps)"

lemma parts_of_path_of [simp]: "good_parts ps \<Longrightarrow> parts_of (path_of ps) = ps"
  by (simp add: parts_of_def)

definition in_subtree :: "string list \<Rightarrow> int option \<Rightarrow> string \<Rightarrow> bool" where
  "in_subtree base depth path \<longleftrightarrow> prefix base (parts_of path)
     \<and> (case depth of None \<Rightarrow> True | Some d \<Rightarrow> int (length (parts_of path)) - int (length base) \<le> d)"

lemma node_view_exact:
  assumes paths: "\<And>n. n \<in> set nodes \<Longrightarrow> \<exists>ps. good_parts ps \<and> snd (key n) = path_of ps"
    and base: "good_parts base" "path_prefix = None \<and> base = [] \<or> path_prefix = Some (path_of base)"
    and view: "node_view c key nodes scope path_prefix depth = Inr (roots, candidates)"
  shows "candidates = filter (\<lambda>n. (case scope of None \<Rightarrow> True | Some s \<Rightarrow> fst (key n) = s)
      \<and> in_subtree base depth (snd (key n))) nodes"
proof -
  let ?path = "case path_prefix of None \<Rightarrow> ''.'' | Some p \<Rightarrow> p"
  have path: "?path = path_of base" using base(2) by auto
  obtain scopes where scopes: "selected_scopes c (map key nodes) scope = Inr scopes"
    "effective_roots c (map key nodes) scopes path_prefix = Inr roots"
    "depth_nodes key nodes roots depth = Inr candidates"
    using view by (auto simp: node_view_def bind_result_Inr_iff)
  have mem: "s \<in> set scopes \<longleftrightarrow> s \<in> fst ` key ` set nodes \<and> (case scope of None \<Rightarrow> True | Some s' \<Rightarrow> s = s')" for s
    using scopes(1) by (auto simp: selected_scopes_def Let_def split: option.splits if_splits)
  have roots: "roots = map (\<lambda>s. \<lparr>vr_scope_id = s, vr_relative_directory_path = path_of base\<rparr>) scopes"
    using scopes(2) unfolding effective_roots_def Let_def path by (auto simp: bind_result_Inr_iff split: if_splits)
  have lookup: "map_of (dict_of (map (\<lambda>r. (vr_scope_id r, vr_relative_directory_path r)) roots)) s
      = (if s \<in> set scopes then Some (path_of base) else None)" for s
    unfolding roots map_map by (simp add: comp_def map_of_dict_of_const)
  have "in_view (dict_of (map (\<lambda>r. (vr_scope_id r, vr_relative_directory_path r)) roots)) depth (key n)
      = Inr ((case scope of None \<Rightarrow> True | Some s \<Rightarrow> fst (key n) = s) \<and> in_subtree base depth (snd (key n)))"
    if n: "n \<in> set nodes" for n
  proof -
    obtain ps where ps: "good_parts ps" "snd (key n) = path_of ps" using paths [OF n] by blast
    have "fst (key n) \<in> set scopes \<longleftrightarrow> (case scope of None \<Rightarrow> True | Some s \<Rightarrow> fst (key n) = s)"
      using n mem by auto
    then show ?thesis
      by (auto simp: in_view_def lookup in_subtree_def ps is_descendant_path_of [OF ps(1) base(1)]
          relative_depth_path_of [OF ps(1) base(1)] split: option.splits)
  qed
  then have "depth_nodes key nodes roots depth = Inr (filter (\<lambda>n. (case scope of None \<Rightarrow> True | Some s \<Rightarrow> fst (key n) = s)
      \<and> in_subtree base depth (snd (key n))) nodes)"
    unfolding depth_nodes_def Let_def by (rule filter_result_total)
  then show ?thesis using scopes(3) by simp
qed

lemma structure_node_paths:
  assumes "compute_snapshot_structure sha s = Inr r" "n \<in> set (sr_path_nodes r)"
  shows "\<exists>ps. good_parts ps \<and> pn_relative_directory_path n = path_of ps"
proof -
  note valid = wf_entries_valid [OF compute_snapshot_structure_InrD [OF assms(1)]]
  have "n \<in> set (spec_path_nodes sha s)"
    using assms by (auto elim: compute_snapshot_structure_parts)
  from valid this obtain scope_id d ds nodes where "builders_ok scope_id (in_scope scope_id (s_entries s)) nodes"
    "d \<in> dirs_of nodes" "distinct ds" "set ds = child_dirs (dirs_of nodes) d"
    "n = spec_node sha (s_snapshot_id s) scope_id (in_scope scope_id (s_entries s)) d"
    "children_of (spec_path_nodes sha s) n
      = map (spec_node sha (s_snapshot_id s) scope_id (in_scope scope_id (s_entries s))) ds"
    by (rule children_of_spec)
  then show ?thesis by (auto simp: dirs_of_def spec_node_def)
qed

lemma verified_structure_node_paths:
  assumes "compute_verified_snapshot_structure sha repo i = Inr r" "n \<in> set (sr_path_nodes r)"
  shows "\<exists>ps. good_parts ps \<and> pn_relative_directory_path n = path_of ps"
  using assms structure_node_paths
  by (auto simp: compute_verified_snapshot_structure_def bind_result_Inr_iff split: if_splits)

lemma sorted_map_constant: "sorted (map (\<lambda>x. (c, f x)) xs) \<longleftrightarrow> sorted (map f xs)"
  by (induction xs) auto

text \<open>C20: a structure view is exact. With the prefix given by its components, the selection of a structure
  query holds precisely those nodes of the complete result that are in the scope asked for, whose
  components extend the prefix by at most the depth, and, with a rank, that are no scope root and
  have at least the bytes asked for and some; unranked it is ordered by scope and path, ranked by
  falling bytes, then scope and path.\<close>

theorem structure_view_exact:
  assumes "compute_verified_snapshot_structure sha repo i = Inr result"
    and "structure_selection sha repo i scope path_prefix depth rank min_bytes = Inr xs"
    and "good_parts base" "path_prefix = None \<and> base = [] \<or> path_prefix = Some (path_of base)"
  shows "mset xs = mset (filter (\<lambda>n. (case scope of None \<Rightarrow> True | Some s \<Rightarrow> pn_scope_id n = s)
      \<and> in_subtree base depth (pn_relative_directory_path n)
      \<and> (case rank of None \<Rightarrow> True | Some _ \<Rightarrow> pn_relative_directory_path n \<noteq> ''.''
           \<and> 0 < pn_recursive_known_logical_bytes n
           \<and> (case min_bytes of None \<Rightarrow> True | Some least \<Rightarrow> least \<le> pn_recursive_known_logical_bytes n)))
      (sr_path_nodes result))
    \<and> sorted (map (\<lambda>n. (if rank = None then 0 else - pn_recursive_known_logical_bytes n, node_key n)) xs)"
proof -
  from assms(1,2) obtain roots cands where
    view: "node_view StructureError node_key (sr_path_nodes result) scope path_prefix depth = Inr (roots, cands)"
    and xs: "xs = rank_structure_nodes cands rank min_bytes"
    by (auto simp: structure_selection_def bind_result_Inr_iff)
  have "cands = filter (\<lambda>n. (case scope of None \<Rightarrow> True | Some s \<Rightarrow> fst (node_key n) = s)
      \<and> in_subtree base depth (snd (node_key n))) (sr_path_nodes result)"
    by (rule node_view_exact [OF _ assms(3,4) view])
      (use verified_structure_node_paths [OF assms(1)] in \<open>simp add: node_key_def\<close>)
  then have cands: "cands = filter (\<lambda>n. (case scope of None \<Rightarrow> True | Some s \<Rightarrow> pn_scope_id n = s)
      \<and> in_subtree base depth (pn_relative_directory_path n)) (sr_path_nodes result)"
    by (cases scope) (simp_all add: node_key_def)
  show ?thesis
  proof (cases rank)
    case None
    then have "sorted (map (\<lambda>n. (0 :: int, node_key n)) xs)"
      by (simp add: xs rank_structure_nodes_def sorted_map_constant)
    then show ?thesis using None by (simp add: xs rank_structure_nodes_def cands)
  next
    case (Some k)
    then show ?thesis
      by (cases min_bytes) (simp_all add: xs rank_structure_nodes_def cands Let_def conj_ac)
  qed
qed

definition example_repo :: repository where
  "example_repo = \<lparr>
     verify_snapshot = (\<lambda>i. Inr \<lparr>sv_snapshot_id = i, sv_status = ''VALID''\<rparr>),
     get_snapshot = (\<lambda>_. Inr example_snapshot), list_snapshots = Inr []\<rparr>"

theorem structure_view_exact_witness:
  "\<exists>result xs. compute_verified_snapshot_structure (\<lambda>_. ''h'') example_repo ''s1'' = Inr result
     \<and> structure_selection (\<lambda>_. ''h'') example_repo ''s1'' None (Some ''a'') (Some 1) None None = Inr xs
     \<and> map node_key xs = [(''home'', ''a'')]"
proof -
  obtain r where r: "compute_snapshot_structure (\<lambda>_. ''h'') example_snapshot = Inr r"
    "sr_path_nodes r = spec_path_nodes (\<lambda>_. ''h'') example_snapshot"
    using compute_snapshot_structure_spec [OF example_snapshot_wf, of "\<lambda>_. ''h''"] by auto
  have "map node_key (spec_path_nodes (\<lambda>_. ''h'') example_snapshot) = [(''home'', ''.''), (''home'', ''a'')]"
    by code_simp
  then obtain n m where nm: "sr_path_nodes r = [n, m]" "node_key n = (''home'', ''.'')" "node_key m = (''home'', ''a'')"
    unfolding r(2) [symmetric] by (auto simp: map_eq_Cons_conv)
  have result: "compute_verified_snapshot_structure (\<lambda>_. ''h'') example_repo ''s1'' = Inr r"
    by (simp add: compute_verified_snapshot_structure_def example_repo_def rethrow_def r(1))
  have path: "path_of [''a''] = ''a''" "good_parts [''a'']" by (simp_all add: path_of_def good_part_def)
  have "path_parts StructureError (path_of [''a'']) = Inr [''a'']" using path(2) by (simp add: path_parts_def)
  then have "effective_roots StructureError [(''home'', ''.''), (''home'', ''a'')] [''home''] (Some ''a'')
      = Inr [\<lparr>vr_scope_id = ''home'', vr_relative_directory_path = ''a''\<rparr>]"
    unfolding path(1) by (simp add: effective_roots_def)
  moreover have "selected_scopes StructureError [(''home'', ''.''), (''home'', ''a'')] None = Inr [''home'']"
    by code_simp
  moreover have "in_view (dict_of [(''home'', ''a'')]) (Some 1) (''home'', ''.'') = Inr False"
    "in_view (dict_of [(''home'', ''a'')]) (Some 1) (''home'', ''a'') = Inr True"
    by code_simp+
  ultimately have "node_view StructureError node_key (sr_path_nodes r) None (Some ''a'') (Some 1)
      = Inr ([\<lparr>vr_scope_id = ''home'', vr_relative_directory_path = ''a''\<rparr>], [m])"
    by (simp add: nm node_view_def depth_nodes_def)
  then have sel: "structure_selection (\<lambda>_. ''h'') example_repo ''s1'' None (Some ''a'') (Some 1) None None = Inr [m]"
    by (simp add: structure_selection_def result validate_view_options_def rank_structure_nodes_def)
  have "sorted (map (\<lambda>n. (if (None :: structure_rank option) = None then 0 else - pn_recursive_known_logical_bytes n, node_key n)) [m])"
    using structure_view_exact [OF result sel path(2)] path(1) by simp
  then show ?thesis using result sel nm(3) by simp
qed

end
