(* ===== verification/Json_Text.thy ===== *)
theory Json_Text
  imports Canonical_Json
begin

text \<open>
  What \<open>evidence.py\<close> uses of Python's \<open>json\<close> and of UTF-8: \<open>read_text\<close>'s
  decoding, \<open>json.loads\<close>, and the inputs on which \<open>canonical_json\<close> raises. A
  \<open>str\<close> is the list of its UTF-8 bytes, where a lone surrogate (only an escape can
  produce one) has its three-byte form, which no UTF-8 decoder accepts. \<open>float_repr\<close> is
  \<open>repr(float(literal))\<close>. The limit of 4300 digits on integers is Python's default;
  the recursion limit of the interpreter is not modelled.
\<close>

section \<open>UTF-8\<close>

definition byte_in :: "nat \<Rightarrow> nat \<Rightarrow> char \<Rightarrow> bool" where
  "byte_in lo hi c \<longleftrightarrow> lo \<le> of_char c \<and> of_char c \<le> (hi :: nat)"

text \<open>
  The bytes that must follow a lead byte, as ranges: no overlong form, no surrogate and nothing
  above U+10FFFF.
\<close>

definition utf8_lead :: "char \<Rightarrow> (nat \<times> nat) list option" where
  "utf8_lead c =
     (let tail = (0x80, 0xBF) in
      if byte_in 0 0x7F c then Some []
      else if byte_in 0xC2 0xDF c then Some [tail]
      else if byte_in 0xE0 0xE0 c then Some [(0xA0, 0xBF), tail]
      else if byte_in 0xED 0xED c then Some [(0x80, 0x9F), tail]
      else if byte_in 0xE1 0xEF c then Some [tail, tail]
      else if byte_in 0xF0 0xF0 c then Some [(0x90, 0xBF), tail, tail]
      else if byte_in 0xF1 0xF3 c then Some [tail, tail, tail]
      else if byte_in 0xF4 0xF4 c then Some [(0x80, 0x8F), tail, tail]
      else None)"

fun utf8_from :: "(nat \<times> nat) list \<Rightarrow> string \<Rightarrow> bool" where
  "utf8_from [] [] = True"
| "utf8_from (_ # _) [] = False"
| "utf8_from ((lo, hi) # ps) (c # s) = (byte_in lo hi c \<and> utf8_from ps s)"
| "utf8_from [] (c # s) = (case utf8_lead c of None \<Rightarrow> False | Some ps \<Rightarrow> utf8_from ps s)"

definition utf8_valid :: "string \<Rightarrow> bool" where
  "utf8_valid s = utf8_from [] s"

text \<open>The bytes of one code point.\<close>

definition utf8_of :: "nat \<Rightarrow> string" where
  "utf8_of n =
     (if n < 0x80 then [char_of n]
      else if n < 0x800 then [char_of (0xC0 + n div 64), char_of (0x80 + n mod 64)]
      else if n < 0x10000 then
        [char_of (0xE0 + n div 4096), char_of (0x80 + n div 64 mod 64), char_of (0x80 + n mod 64)]
      else
        [char_of (0xF0 + n div 262144), char_of (0x80 + n div 4096 mod 64),
         char_of (0x80 + n div 64 mod 64), char_of (0x80 + n mod 64)])"

lemma utf8_from_append: "utf8_from ps s \<Longrightarrow> utf8_from [] t \<Longrightarrow> utf8_from ps (s @ t)"
  by (induction ps s rule: utf8_from.induct) (auto split: option.splits)

lemma utf8_valid_append [intro]: "utf8_valid s \<Longrightarrow> utf8_valid t \<Longrightarrow> utf8_valid (s @ t)"
  by (simp add: utf8_valid_def utf8_from_append)

lemma utf8_valid_Nil [simp]: "utf8_valid []"
  by (simp add: utf8_valid_def)

lemma utf8_valid_ascii [simp]:
  "of_char c < (128 :: nat) \<Longrightarrow> utf8_valid (c # s) = utf8_valid s"
  by (simp add: utf8_valid_def utf8_lead_def byte_in_def)

section \<open>Strings\<close>

definition is_ws :: "char \<Rightarrow> bool" where
  "is_ws c \<longleftrightarrow> c = CHR 0x20 \<or> c = CHR 0x09 \<or> c = CHR 0x0A \<or> c = CHR 0x0D"

definition skip_ws :: "string \<Rightarrow> string" where
  "skip_ws = dropWhile is_ws"

definition hex_value :: "char \<Rightarrow> nat option" where
  "hex_value c =
     (let n = of_char c in
      if 48 \<le> n \<and> n \<le> 57 then Some (n - 48)
      else if 97 \<le> n \<and> n \<le> 102 then Some (n - 87)
      else if 65 \<le> n \<and> n \<le> 70 then Some (n - 55)
      else None)"

fun hex4 :: "string \<Rightarrow> (nat \<times> string) option" where
  "hex4 (a # b # c # d # r) =
     (case (hex_value a, hex_value b, hex_value c, hex_value d) of
        (Some i, Some j, Some k, Some l) \<Rightarrow> Some (4096 * i + 256 * j + 16 * k + l, r)
      | _ \<Rightarrow> None)"
| "hex4 _ = None"

text \<open>
  \<open>\\uXXXX\<close>: a high surrogate takes a following low surrogate with it; a following
  escape that is no low surrogate is left for the next round, but its digits are checked.
\<close>

definition read_unicode :: "string \<Rightarrow> (string \<times> string) option" where
  "read_unicode s =
     (case hex4 s of
        None \<Rightarrow> None
      | Some (n, r) \<Rightarrow>
          if 0xD800 \<le> n \<and> n \<le> 0xDBFF \<and> take 2 r = [CHR 0x5C, CHR ''u''] then
            (case hex4 (drop 2 r) of
               None \<Rightarrow> None
             | Some (m, r') \<Rightarrow>
                 if 0xDC00 \<le> m \<and> m \<le> 0xDFFF
                 then Some (utf8_of (0x10000 + 1024 * (n - 0xD800) + (m - 0xDC00)), r')
                 else Some (utf8_of n, r))
          else Some (utf8_of n, r))"

definition read_escape :: "string \<Rightarrow> (string \<times> string) option" where
  "read_escape s =
     (case s of
        [] \<Rightarrow> None
      | e # r \<Rightarrow>
          if e = CHR 0x22 \<or> e = CHR 0x5C \<or> e = CHR ''/'' then Some ([e], r)
          else if e = CHR ''b'' then Some ([CHR 0x08], r)
          else if e = CHR ''f'' then Some ([CHR 0x0C], r)
          else if e = CHR ''n'' then Some ([CHR 0x0A], r)
          else if e = CHR ''r'' then Some ([CHR 0x0D], r)
          else if e = CHR ''t'' then Some ([CHR 0x09], r)
          else if e = CHR ''u'' then read_unicode r
          else None)"

lemma hex4_shorter: "hex4 s = Some (n, r) \<Longrightarrow> length r < length s"
  by (induction s rule: hex4.induct) (auto split: option.splits)

lemma read_unicode_shorter: "read_unicode s = Some (u, r) \<Longrightarrow> length r < length s"
  by (auto simp: read_unicode_def split: option.splits if_splits dest!: hex4_shorter)

lemma read_escape_shorter: "read_escape s = Some (u, r) \<Longrightarrow> length r < length s"
  by (auto simp: read_escape_def split: list.splits if_splits dest!: read_unicode_shorter)

text \<open>The rest of a string literal after its opening quote (strict: no raw control character).\<close>

function scan_string :: "string \<Rightarrow> (string \<times> string) option" where
  "scan_string s =
     (case s of
        [] \<Rightarrow> None
      | c # r \<Rightarrow>
          if c = CHR 0x22 then Some ([], r)
          else if c = CHR 0x5C then
            (case read_escape r of
               None \<Rightarrow> None
             | Some (u, r') \<Rightarrow> map_option (\<lambda>(t, r''). (u @ t, r'')) (scan_string r'))
          else if of_char c < (32 :: nat) then None
          else map_option (\<lambda>(t, r'). (c # t, r')) (scan_string r))"
  by pat_completeness auto
termination
  by (relation "measure length") (auto dest: read_escape_shorter)

declare scan_string.simps [simp del]

lemma scan_string_shorter: "scan_string s = Some (t, r) \<Longrightarrow> length r < length s"
proof (induction s arbitrary: t r rule: scan_string.induct)
  case (1 s)
  show ?case
  proof (cases s)
    case Nil
    with "1.prems" show ?thesis by (simp add: scan_string.simps)
  next
    case (Cons c s')
    consider "c = CHR 0x22" | "c = CHR 0x5C" | "c \<noteq> CHR 0x22" "c \<noteq> CHR 0x5C" by blast
    then show ?thesis
    proof cases
      case 2
      with "1.prems" Cons obtain u q t' where escape: "read_escape s' = Some (u, q)"
        and tail: "scan_string q = Some (t', r)"
        by (auto simp: scan_string.simps [of "_ # _"] split: option.splits)
      have "length r < length q"
        by (rule "1.IH"(1) [OF Cons _ _ escape _ tail]) (use 2 in simp_all)
      with read_escape_shorter [OF escape] Cons show ?thesis by simp
    next
      case 3
      with "1.prems" Cons obtain t' where code: "\<not> of_char c < (32 :: nat)"
        and tail: "scan_string s' = Some (t', r)"
        by (auto simp: scan_string.simps [of "_ # _"] split: if_splits)
      have "length r < length s'"
        by (rule "1.IH"(2) [OF Cons 3 code tail])
      with Cons show ?thesis by simp
    qed (use "1.prems" Cons in \<open>simp add: scan_string.simps\<close>)
  qed
qed

section \<open>Numbers\<close>

datatype json_error = JSONDecodeError | ValueErrorDigits

definition is_digit :: "char \<Rightarrow> bool" where
  "is_digit c \<longleftrightarrow> 48 \<le> (of_char c :: nat) \<and> of_char c \<le> (57 :: nat)"

definition digits_value :: "string \<Rightarrow> nat" where
  "digits_value = foldl (\<lambda>n c. 10 * n + (of_char c - 48)) 0"

definition scan_sign :: "string \<Rightarrow> string \<times> string" where
  "scan_sign s = (case s of c # r \<Rightarrow> if c = CHR ''-'' then ([c], r) else ([], s) | [] \<Rightarrow> ([], s))"

definition scan_int_digits :: "string \<Rightarrow> string \<times> string" where
  "scan_int_digits s =
     (case s of
        c # r \<Rightarrow> if c = CHR ''0'' then ([c], r) else (takeWhile is_digit s, dropWhile is_digit s)
      | [] \<Rightarrow> ([], s))"

definition scan_fraction :: "string \<Rightarrow> string \<times> string" where
  "scan_fraction s =
     (case s of
        p # d # r \<Rightarrow>
          if p = CHR ''.'' \<and> is_digit d
          then (p # takeWhile is_digit (d # r), dropWhile is_digit (d # r)) else ([], s)
      | _ \<Rightarrow> ([], s))"

definition scan_exponent :: "string \<Rightarrow> string \<times> string" where
  "scan_exponent s =
     (case s of
        e # r \<Rightarrow>
          if e = CHR ''e'' \<or> e = CHR ''E'' then
            (let (g, r') = (case r of
                 c # q \<Rightarrow> if c = CHR ''+'' \<or> c = CHR ''-'' then ([c], q) else ([], r)
               | [] \<Rightarrow> ([], r));
                 ds = takeWhile is_digit r' in
             if ds = [] then ([], s) else (e # g @ ds, dropWhile is_digit r'))
          else ([], s)
      | [] \<Rightarrow> ([], s))"

definition max_int_digits :: nat where
  "max_int_digits = 4300"

definition scan_number :: "(string \<Rightarrow> string) \<Rightarrow> string \<Rightarrow> json_error + json \<times> string" where
  "scan_number float_repr s =
     (let (sign, s1) = scan_sign s; (ds, s2) = scan_int_digits s1;
          (fraction, s3) = scan_fraction s2; (expo, s4) = scan_exponent s3 in
      if ds = [] then Inl JSONDecodeError
      else if fraction \<noteq> [] \<or> expo \<noteq> []
      then Inr (JFloat (float_repr (sign @ ds @ fraction @ expo)), s4)
      else if max_int_digits < length ds then Inl ValueErrorDigits
      else Inr (JInt (if sign = [] then int (digits_value ds) else - int (digits_value ds)), s4))"

section \<open>Documents\<close>

text \<open>What follows an item of an array or a member of an object.\<close>

datatype after_item = Closed string | Continued string | Malformed

definition after_item :: "char \<Rightarrow> string \<Rightarrow> after_item" where
  "after_item closer s =
     (case skip_ws s of
        [] \<Rightarrow> Malformed
      | c # r \<Rightarrow>
          if c = closer then Closed r
          else if c = CHR '','' then Continued (skip_ws r)
          else Malformed)"

text \<open>A member's key, its colon and the blanks around it.\<close>

definition scan_key :: "string \<Rightarrow> (string \<times> string) option" where
  "scan_key s =
     (case s of
        [] \<Rightarrow> None
      | q # r \<Rightarrow>
          if q \<noteq> CHR 0x22 then None
          else
            (case scan_string r of
               None \<Rightarrow> None
             | Some (k, r') \<Rightarrow>
                 (case skip_ws r' of
                    [] \<Rightarrow> None
                  | c # r'' \<Rightarrow> if c = CHR '':'' then Some (k, skip_ws r'') else None)))"

definition scan_word :: "string \<Rightarrow> json \<Rightarrow> string \<Rightarrow> (json \<times> string) option" where
  "scan_word w v s = (if starts_with w s then Some (v, drop (length w) s) else None)"

definition scan_scalar :: "(string \<Rightarrow> string) \<Rightarrow> string \<Rightarrow> json_error + json \<times> string" where
  "scan_scalar float_repr s =
     (case List.map_filter (\<lambda>(w, v). scan_word w v s)
         [(''null'', JNull), (''true'', JBool True), (''false'', JBool False),
          (''NaN'', JFloat ''nan''), (''Infinity'', JFloat ''inf''), (''-Infinity'', JFloat ''-inf'')] of
        found # _ \<Rightarrow> Inr found
      | [] \<Rightarrow> scan_number float_repr s)"

lemma length_skip_ws: "length (skip_ws s) \<le> length s"
  by (simp add: skip_ws_def length_dropWhile_le)

lemma after_item_shorter: "after_item closer s = Continued r \<Longrightarrow> length r < length s"
  using length_skip_ws [of s]
  by (auto simp: after_item_def split: list.splits if_splits intro: le_less_trans [OF length_skip_ws])

lemma scan_key_shorter: "scan_key s = Some (k, r) \<Longrightarrow> length r < length s"
proof -
  assume "scan_key s = Some (k, r)"
  then obtain q c r' r'' where s: "s = q # r'" and key: "scan_string r' = Some (k, r'')"
    and rest: "skip_ws r'' = c # tl (skip_ws r'')" "r = skip_ws (tl (skip_ws r''))"
    by (auto simp: scan_key_def split: list.splits option.splits if_splits)
  have "length r \<le> length (tl (skip_ws r''))" unfolding rest(2) by (rule length_skip_ws)
  also have "\<dots> \<le> length r''" using length_skip_ws [of r''] by simp
  finally show ?thesis using scan_string_shorter [OF key] s by simp
qed

text \<open>
  The recursive descent of \<open>scan_once\<close>. That an item consumes input is only known of
  its result, so the recursion after an item checks it; \<open>scan_value_shorter\<close> shows that
  the check never fails.
\<close>

function scan_value :: "(string \<Rightarrow> string) \<Rightarrow> string \<Rightarrow> json_error + json \<times> string"
  and scan_items :: "(string \<Rightarrow> string) \<Rightarrow> string \<Rightarrow> json_error + json list \<times> string"
  and scan_members ::
    "(string \<Rightarrow> string) \<Rightarrow> string \<Rightarrow> json_error + (string \<times> json) list \<times> string" where
  "scan_value fr s =
     (case s of
        [] \<Rightarrow> Inl JSONDecodeError
      | c # r \<Rightarrow>
          if c = CHR 0x22 then
            (case scan_string r of
               None \<Rightarrow> Inl JSONDecodeError
             | Some (t, r') \<Rightarrow> Inr (JStr t, r'))
          else if c = CHR ''['' then
            (if starts_with '']'' (skip_ws r) then Inr (JArr [], tl (skip_ws r))
             else
               (case scan_items fr (skip_ws r) of
                  Inl e \<Rightarrow> Inl e
                | Inr (vs, r') \<Rightarrow> Inr (JArr vs, r')))
          else if c = CHR ''{'' then
            (if starts_with ''}'' (skip_ws r) then Inr (JObj [], tl (skip_ws r))
             else
               (case scan_members fr (skip_ws r) of
                  Inl e \<Rightarrow> Inl e
                | Inr (kvs, r') \<Rightarrow> Inr (JObj (dict_of kvs), r')))
          else scan_scalar fr s)"
| "scan_items fr s =
     (case scan_value fr s of
        Inl e \<Rightarrow> Inl e
      | Inr (v, r) \<Rightarrow>
          (case after_item (CHR '']'') r of
             Closed r' \<Rightarrow> Inr ([v], r')
           | Malformed \<Rightarrow> Inl JSONDecodeError
           | Continued r' \<Rightarrow>
               if length r' < length s then
                 (case scan_items fr r' of
                    Inl e \<Rightarrow> Inl e
                  | Inr (vs, r'') \<Rightarrow> Inr (v # vs, r''))
               else Inl JSONDecodeError))"
| "scan_members fr s =
     (case scan_key s of
        None \<Rightarrow> Inl JSONDecodeError
      | Some (k, r) \<Rightarrow>
          (case scan_value fr r of
             Inl e \<Rightarrow> Inl e
           | Inr (v, r') \<Rightarrow>
               (case after_item (CHR ''}'') r' of
                  Closed r'' \<Rightarrow> Inr ([(k, v)], r'')
                | Malformed \<Rightarrow> Inl JSONDecodeError
                | Continued r'' \<Rightarrow>
                    if length r'' < length s then
                      (case scan_members fr r'' of
                         Inl e \<Rightarrow> Inl e
                       | Inr (kvs, q) \<Rightarrow> Inr ((k, v) # kvs, q))
                    else Inl JSONDecodeError)))"
  by pat_completeness auto
termination
proof (relation "measure (\<lambda>x. case x of
    Inl (fr, s) \<Rightarrow> 2 * length s
  | Inr (Inl (fr, s)) \<Rightarrow> 2 * length s + 1
  | Inr (Inr (fr, s)) \<Rightarrow> 2 * length s + 1)", goal_cases)
  case (3 fr s c r)
  then show ?case using length_skip_ws [of r] by simp
next
  case (2 fr s c r)
  then show ?case using length_skip_ws [of r] by simp
qed (auto dest: scan_key_shorter)

declare scan_value.simps [simp del] scan_items.simps [simp del] scan_members.simps [simp del]

definition json_loads :: "(string \<Rightarrow> string) \<Rightarrow> string \<Rightarrow> json_error + json" where
  "json_loads float_repr s =
     (case scan_value float_repr (skip_ws s) of
        Inl e \<Rightarrow> Inl e
      | Inr (v, r) \<Rightarrow> if skip_ws r = [] then Inr v else Inl JSONDecodeError)"

section \<open>Every item consumes input\<close>

lemma scan_number_shorter:
  assumes "scan_number fr s = Inr (v, r)"
  shows "length r < length s"
proof -
  have sign: "length (snd (scan_sign s)) \<le> length s" for s
    by (cases s) (auto simp: scan_sign_def)
  have digits: "fst (scan_int_digits s) \<noteq> [] \<Longrightarrow> length (snd (scan_int_digits s)) < length s" for s
    by (cases s) (auto simp: scan_int_digits_def length_dropWhile_le le_imp_less_Suc split: if_splits)
  have fraction: "length (snd (scan_fraction s)) \<le> length s" for s
    using length_dropWhile_le [of is_digit "tl s"]
    by (auto simp: scan_fraction_def split: list.splits)
  have expo: "length (snd (scan_exponent s)) \<le> length s" for s
    using length_dropWhile_le [of is_digit "tl s"] length_dropWhile_le [of is_digit "tl (tl s)"]
    by (auto simp: scan_exponent_def Let_def split: list.splits)
  obtain sg s1 ds s2 fr' s3 ex s4 where pieces: "scan_sign s = (sg, s1)"
    "scan_int_digits s1 = (ds, s2)" "scan_fraction s2 = (fr', s3)" "scan_exponent s3 = (ex, s4)"
    by (meson surj_pair)
  with assms have "ds \<noteq> []" "r = s4"
    by (auto simp: scan_number_def split: if_splits)
  with pieces sign [of s] digits [of s1] fraction [of s2] expo [of s3] show ?thesis by simp
qed

lemma scan_word_shorter: "scan_word w v s = Some (v', r) \<Longrightarrow> w \<noteq> [] \<Longrightarrow> length r < length s"
  by (auto simp: scan_word_def starts_with_iff split: if_splits)

lemma scan_scalar_shorter:
  assumes "scan_scalar fr s = Inr (v, r)"
  shows "length r < length s"
proof (cases "scan_scalar fr s = scan_number fr s")
  case True
  with assms show ?thesis by (simp add: scan_number_shorter)
next
  case False
  with assms obtain found where "(v, r) = found"
    "found \<in> set (List.map_filter (\<lambda>(w, v). scan_word w v s)
         [(''null'', JNull), (''true'', JBool True), (''false'', JBool False),
          (''NaN'', JFloat ''nan''), (''Infinity'', JFloat ''inf''), (''-Infinity'', JFloat ''-inf'')])"
    by (auto simp: scan_scalar_def split: list.splits)
  then show ?thesis by (auto simp: set_map_filter simp del: map_filter_simps dest: scan_word_shorter)
qed

lemma after_item_closed_shorter: "after_item closer s = Closed r \<Longrightarrow> length r < length s"
  using length_skip_ws [of s] by (auto simp: after_item_def split: list.splits if_splits)

lemma length_tl_skip_ws: "length (tl (skip_ws s)) \<le> length s"
  using length_skip_ws [of s] by simp

lemma scan_value_shorter:
  "scan_value fr s = Inr (v, r) \<Longrightarrow> length r < length s"
  and scan_items_shorter: "scan_items fr s = Inr (vs, r) \<Longrightarrow> length r < length s"
  and scan_members_shorter: "scan_members fr s = Inr (kvs, r) \<Longrightarrow> length r < length s"
proof (induction fr s and fr s and fr s arbitrary: v r and vs r and kvs r
    rule: scan_value_scan_items_scan_members.induct)
  case (1 fr s)
  show ?case
  proof (cases s)
    case (Cons c q)
    have string: "c = CHR 0x22 \<Longrightarrow> ?thesis"
      using "1.prems" Cons by (auto simp: scan_value.simps [of fr "_ # _"] split: option.splits
          dest: scan_string_shorter)
    have array: "c = CHR ''['' \<Longrightarrow> ?thesis"
      using "1.prems" "1.IH"(1) [OF Cons] Cons length_tl_skip_ws [of q] length_skip_ws [of q]
      by (fastforce simp: scan_value.simps [of fr "_ # _"] split: sum.splits if_splits)
    have object: "c = CHR ''{'' \<Longrightarrow> ?thesis"
      using "1.prems" "1.IH"(2) [OF Cons] Cons length_tl_skip_ws [of q] length_skip_ws [of q]
      by (fastforce simp: scan_value.simps [of fr "_ # _"] split: sum.splits if_splits)
    have scalar: "c \<notin> {CHR 0x22, CHR ''['', CHR ''{''} \<Longrightarrow> ?thesis"
      using "1.prems" Cons scan_scalar_shorter [of fr s v r] by (simp add: scan_value.simps [of fr "_ # _"])
    from string array object scalar show ?thesis by blast
  qed (use "1.prems" in \<open>simp add: scan_value.simps\<close>)
next
  case (2 fr s)
  from "2.prems" obtain w q where item: "scan_value fr s = Inr (w, q)"
    by (subst (asm) scan_items.simps) (auto split: sum.splits)
  note shorter = "2.IH"(1) [OF item]
  show ?case
  proof (cases "after_item (CHR '']'') q")
    case (Closed r')
    with "2.prems" item shorter after_item_closed_shorter [OF Closed] show ?thesis
      by (subst (asm) scan_items.simps) simp
  next
    case (Continued r')
    with "2.prems" item obtain vs' where "length r' < length s" "scan_items fr r' = Inr (vs', r)"
      by (subst (asm) scan_items.simps) (auto split: sum.splits if_splits)
    with "2.IH"(2) [OF item refl Continued] show ?thesis by simp
  qed (use "2.prems" item in \<open>subst (asm) scan_items.simps, simp\<close>)
next
  case (3 fr s)
  from "3.prems" obtain k p where key: "scan_key s = Some (k, p)"
    by (subst (asm) scan_members.simps) (auto split: option.splits)
  with "3.prems" obtain w q where item: "scan_value fr p = Inr (w, q)"
    by (subst (asm) scan_members.simps) (auto split: sum.splits)
  note shorter = "3.IH"(1) [OF key refl item] scan_key_shorter [OF key]
  show ?case
  proof (cases "after_item (CHR ''}'') q")
    case (Closed r')
    with "3.prems" key item shorter after_item_closed_shorter [OF Closed] show ?thesis
      by (subst (asm) scan_members.simps) simp
  next
    case (Continued r')
    with "3.prems" key item obtain kvs' where
      "length r' < length s" "scan_members fr r' = Inr (kvs', r)"
      by (subst (asm) scan_members.simps) (auto split: sum.splits if_splits)
    with "3.IH"(2) [OF key refl item refl Continued] show ?thesis by simp
  qed (use "3.prems" key item in \<open>subst (asm) scan_members.simps, simp\<close>)
qed

end
