(* ===== verification/Json_Roundtrip.thy ===== *)
theory Json_Roundtrip
  imports Json_Text
begin

text \<open>
  Reading back what \<open>canonical_json\<close> prints: \<open>json.loads\<close> returns the value with its
  keys in order, so the ledger's byte representation determines the value. The scanners are
  first shown not to look past a value's end.
\<close>

section \<open>Encodable values\<close>

text \<open>The values on which \<open>canonical_json\<close> does not raise.\<close>

fun json_encodable :: "json \<Rightarrow> bool" where
  "json_encodable (JInt i) = (length (nat_repr (nat \<bar>i\<bar>)) \<le> max_int_digits)"
| "json_encodable (JFloat r) = (r \<notin> {''nan'', ''inf'', ''-inf''})"
| "json_encodable (JStr s) = utf8_valid s"
| "json_encodable (JArr vs) = list_all json_encodable vs"
| "json_encodable (JObj kvs) = list_all (\<lambda>(k, v). utf8_valid k \<and> json_encodable v) kvs"
| "json_encodable _ = True"

text \<open>
  Values as Python holds them: the keys of a \<open>dict\<close> are distinct, and a float's text is
  the \<open>repr\<close> of the float it reads as.
\<close>

fun json_wf :: "(string \<Rightarrow> string) \<Rightarrow> json \<Rightarrow> bool" where
  "json_wf fr (JFloat r) = (scan_number fr r = Inr (JFloat r, []))"
| "json_wf fr (JArr vs) = list_all (json_wf fr) vs"
| "json_wf fr (JObj kvs) = (distinct (map fst kvs) \<and> list_all (\<lambda>(k, v). json_wf fr v) kvs)"
| "json_wf fr _ = True"

fun sort_keys :: "json \<Rightarrow> json" where
  "sort_keys (JArr vs) = JArr (map sort_keys vs)"
| "sort_keys (JObj kvs) = JObj (sort_key fst (map (\<lambda>(k, v). (k, sort_keys v)) kvs))"
| "sort_keys v = v"

section \<open>Numbers\<close>

definition delimited :: "string \<Rightarrow> bool" where
  "delimited rest \<longleftrightarrow> (case rest of [] \<Rightarrow> True | c # _ \<Rightarrow> c \<in> {CHR '','', CHR '']'', CHR ''}''})"

lemma delimited_simps [simp]: "delimited []" "delimited (CHR '','' # r)"
  "delimited (CHR '']'' # r)" "delimited (CHR ''}'' # r)"
  by (simp_all add: delimited_def)

lemma digits_append:
  assumes "delimited rest"
  shows "takeWhile is_digit (s @ rest) = takeWhile is_digit s"
    "dropWhile is_digit (s @ rest) = dropWhile is_digit s @ rest"
proof -
  have stop: "takeWhile is_digit rest = [] \<and> dropWhile is_digit rest = rest"
    using assms by (auto simp: delimited_def is_digit_def split: list.splits)
  show "takeWhile is_digit (s @ rest) = takeWhile is_digit s"
    "dropWhile is_digit (s @ rest) = dropWhile is_digit s @ rest"
    by (induction s) (simp_all add: stop)
qed

lemma scan_sign_append: "delimited rest \<Longrightarrow> scan_sign (s @ rest) = apsnd (\<lambda>r. r @ rest) (scan_sign s)"
  by (cases s) (auto simp: scan_sign_def delimited_def split: list.splits)

lemma scan_int_digits_append:
  "delimited rest \<Longrightarrow> scan_int_digits (s @ rest) = apsnd (\<lambda>r. r @ rest) (scan_int_digits s)"
proof (cases s)
  case Nil
  assume "delimited rest"
  with Nil show ?thesis
    by (auto simp: scan_int_digits_def delimited_def is_digit_def split: list.splits)
next
  case (Cons c r)
  assume "delimited rest"
  with Cons show ?thesis
    using digits_append [of rest "c # r"] by (simp add: scan_int_digits_def)
qed

lemma scan_fraction_append:
  "delimited rest \<Longrightarrow> scan_fraction (s @ rest) = apsnd (\<lambda>r. r @ rest) (scan_fraction s)"
proof (cases s)
  case (Cons p r)
  assume rest: "delimited rest"
  show ?thesis
  proof (cases r)
    case Nil
    with Cons rest show ?thesis
      by (auto simp: scan_fraction_def delimited_def is_digit_def split: list.splits)
  next
    case (Cons d q)
    with \<open>s = p # r\<close> show ?thesis
      using digits_append [OF rest, of "d # q"] by (auto simp: scan_fraction_def)
  qed
qed (auto simp: scan_fraction_def delimited_def split: list.splits)

lemma scan_exponent_append:
  "delimited rest \<Longrightarrow> scan_exponent (s @ rest) = apsnd (\<lambda>r. r @ rest) (scan_exponent s)"
proof (cases s)
  case (Cons e r)
  assume rest: "delimited rest"
  show ?thesis
  proof (cases r)
    case Nil
    with Cons rest show ?thesis
      using digits_append [OF rest, of "[]"]
      by (auto simp: scan_exponent_def delimited_def Let_def is_digit_def split: list.splits)
  next
    case (Cons c q)
    with \<open>s = e # r\<close> show ?thesis
      using digits_append [OF rest, of "c # q"] digits_append [OF rest, of q]
      by (simp add: scan_exponent_def Let_def)
  qed
qed (auto simp: scan_exponent_def delimited_def split: list.splits)

lemma scan_number_append:
  assumes "scan_number fr s = Inr (v, r)" "delimited rest"
  shows "scan_number fr (s @ rest) = Inr (v, r @ rest)"
  using assms
  by (auto simp: scan_number_def Let_def scan_sign_append scan_int_digits_append
      scan_fraction_append scan_exponent_append split: prod.splits if_splits)

lemma digit_char_is_digit [simp]: "d < 10 \<Longrightarrow> is_digit (digit_char d)"
  by (simp add: is_digit_def digit_char_def)

lemma of_char_digit_char [simp]: "d < 10 \<Longrightarrow> of_char (digit_char d) = 48 + d"
  by (simp add: digit_char_def)

lemma nat_repr_digits: "list_all is_digit (nat_repr n)"
  by (induction n rule: nat_repr.induct) (simp add: nat_repr.simps [of n for n])

lemma nat_repr_not_Nil [simp]: "nat_repr n \<noteq> []"
  by (subst nat_repr.simps) simp

lemma digits_value_nat_repr: "digits_value (nat_repr n) = n"
proof (induction n rule: nat_repr.induct)
  case (1 n)
  then show ?case
    by (subst nat_repr.simps) (auto simp: digits_value_def)
qed

lemma hd_nat_repr: "hd (nat_repr n) = CHR ''0'' \<longleftrightarrow> n = 0"
proof (induction n rule: nat_repr.induct)
  case (1 n)
  show ?case
  proof (cases "n < 10")
    case True
    have "digit_char n = CHR ''0'' \<longleftrightarrow> (of_char (digit_char n) :: nat) = of_char CHR ''0''"
      by (simp only: of_char_eq_iff)
    with True show ?thesis by (subst nat_repr.simps) simp
  next
    case False
    with 1 show ?thesis by (subst nat_repr.simps) (simp add: div_eq_0_iff)
  qed
qed

lemma scan_int_digits_nat_repr: "scan_int_digits (nat_repr n) = (nat_repr n, [])"
proof (cases "n = 0")
  case True
  have zero: "nat_repr 0 = [CHR ''0'']"
    using hd_nat_repr [of 0] by (subst nat_repr.simps) (subst (asm) nat_repr.simps, simp)
  show ?thesis unfolding True zero by (simp add: scan_int_digits_def)
next
  case False
  then obtain c r where "nat_repr n = c # r" "c \<noteq> CHR ''0''"
    using hd_nat_repr [of n] by (cases "nat_repr n") auto
  moreover have "takeWhile is_digit (nat_repr n) = nat_repr n" "dropWhile is_digit (nat_repr n) = []"
    using nat_repr_digits [of n] by (simp_all add: list_all_iff)
  ultimately show ?thesis by (simp add: scan_int_digits_def)
qed

lemma number_digits_first:
  assumes "nat_repr n = c # r"
  shows "is_digit c" "c \<noteq> CHR ''-''"
  using nat_repr_digits [of n] assms by (auto simp: is_digit_def)

lemma scan_sign_nat_repr: "scan_sign (nat_repr n) = ([], nat_repr n)"
  using number_digits_first [of n] by (cases "nat_repr n") (auto simp: scan_sign_def)

lemma scan_number_int:
  assumes "length (nat_repr (nat \<bar>i\<bar>)) \<le> max_int_digits"
  shows "scan_number fr (int_repr i) = Inr (JInt i, [])"
proof (cases "i < 0")
  case True
  with assms show ?thesis
    by (auto simp: int_repr_def scan_number_def scan_sign_def scan_int_digits_nat_repr
        scan_fraction_def scan_exponent_def digits_value_nat_repr)
next
  case False
  with assms show ?thesis
    by (auto simp: int_repr_def scan_number_def scan_sign_nat_repr scan_int_digits_nat_repr
        scan_fraction_def scan_exponent_def digits_value_nat_repr)
qed

section \<open>Strings\<close>

lemma hex_value_hex_char: "d < 16 \<Longrightarrow> hex_value (hex_char d) = Some d"
  by (auto simp: hex_value_def hex_char_def Let_def)

lemma hex_value_zero: "hex_value (CHR ''0'') = Some 0"
  by (simp add: hex_value_def)

lemma scan_string_plain:
  "c \<noteq> CHR 0x22 \<Longrightarrow> c \<noteq> CHR 0x5C \<Longrightarrow> \<not> of_char c < (32 :: nat) \<Longrightarrow>
   scan_string (c # s) = map_option (\<lambda>(t, r). (c # t, r)) (scan_string s)"
  by (simp add: scan_string.simps [of "_ # _"])

lemma scan_string_escaped:
  "read_escape s = Some (u, r) \<Longrightarrow>
   scan_string (CHR 0x5C # s) = map_option (\<lambda>(t, r'). (u @ t, r')) (scan_string r)"
  by (simp add: scan_string.simps [of "_ # _"])

lemma read_escape_control:
  assumes "of_char c < (32 :: nat)"
  shows "read_escape (CHR ''u'' # CHR ''0'' # CHR ''0'' # hex_char (of_char c div 16)
    # hex_char (of_char c mod 16) # s) = Some ([c], s)"
proof -
  have code: "of_char c = 16 * (of_char c div 16) + of_char c mod (16 :: nat)" by simp
  have "hex_value (hex_char (of_char c div 16)) = Some (of_char c div 16)"
    "hex_value (hex_char (of_char c mod 16)) = Some (of_char c mod 16)"
    using assms by (simp_all add: hex_value_hex_char)
  then show ?thesis
    using assms code by (simp add: read_escape_def read_unicode_def hex_value_zero utf8_of_def)
qed

lemma scan_string_escape_char:
  "scan_string (escape_char c @ s) = map_option (\<lambda>(t, r). (c # t, r)) (scan_string s)"
proof -
  consider "c \<in> {CHR 0x22, CHR 0x5C, CHR 0x0A, CHR 0x0D, CHR 0x09, CHR 0x0C, CHR 0x08}"
    | "c \<notin> {CHR 0x22, CHR 0x5C, CHR 0x0A, CHR 0x0D, CHR 0x09, CHR 0x0C, CHR 0x08}"
      "of_char c < (32 :: nat)"
    | "c \<notin> {CHR 0x22, CHR 0x5C, CHR 0x0A, CHR 0x0D, CHR 0x09, CHR 0x0C, CHR 0x08}"
      "\<not> of_char c < (32 :: nat)"
    by blast
  then show ?thesis
  proof cases
    case 1
    then show ?thesis
      by (auto simp: escape_char_def read_escape_def scan_string_escaped)
  next
    case 2
    then show ?thesis
      by (simp add: escape_char_def scan_string_escaped read_escape_control)
  next
    case 3
    then show ?thesis
      by (simp add: escape_char_def scan_string_plain)
  qed
qed

lemma scan_string_escaped_text:
  "scan_string (concat (map escape_char s) @ CHR 0x22 # r) = Some (s, r)"
proof (induction s)
  case Nil
  then show ?case by (simp add: scan_string.simps [of "_ # _"])
next
  case (Cons c s)
  then show ?case by (simp add: scan_string_escape_char)
qed

lemma quote_string_append: "quote_string s @ r = CHR 0x22 # concat (map escape_char s) @ CHR 0x22 # r"
  by (simp add: quote_string_def)

section \<open>First characters\<close>

text \<open>A value's text starts with no blank and with no closing bracket.\<close>

definition starts_value :: "string \<Rightarrow> bool" where
  "starts_value s \<longleftrightarrow> s \<noteq> [] \<and> \<not> is_ws (hd s) \<and> hd s \<noteq> CHR '']'' \<and> hd s \<noteq> CHR ''}''"

lemma starts_value_skip [simp]: "starts_value s \<Longrightarrow> skip_ws (s @ r) = s @ r"
  by (cases s) (simp_all add: starts_value_def skip_ws_def)

lemma skip_ws_colon [simp]: "skip_ws (CHR '':'' # s) = CHR '':'' # s"
  by (simp add: skip_ws_def is_ws_def)

lemma skip_ws_quote [simp]: "skip_ws (CHR 0x22 # s) = CHR 0x22 # s"
  by (simp add: skip_ws_def is_ws_def)

definition starts_number :: "string \<Rightarrow> bool" where
  "starts_number s \<longleftrightarrow> is_digit (hd s) \<and> s \<noteq> [] \<or> (\<exists>c r. s = CHR ''-'' # c # r \<and> is_digit c)"

lemma starts_number_append: "starts_number s \<Longrightarrow> starts_number (s @ r)"
  by (auto simp: starts_number_def)

lemma scan_int_digits_starts: "fst (scan_int_digits s) \<noteq> [] \<Longrightarrow> s \<noteq> [] \<and> is_digit (hd s)"
  by (cases s) (auto simp: scan_int_digits_def is_digit_def split: if_splits)

lemma scan_number_digits: "scan_number fr s = Inr x \<Longrightarrow> fst (scan_int_digits (snd (scan_sign s))) \<noteq> []"
  by (auto simp: scan_number_def Let_def split: prod.splits if_splits)

lemma scan_number_starts:
  assumes "scan_number fr s = Inr x"
  shows "starts_number s"
proof -
  from scan_int_digits_starts [OF scan_number_digits [OF assms]]
  have digits: "snd (scan_sign s) \<noteq> []" "is_digit (hd (snd (scan_sign s)))" by simp_all
  show ?thesis
  proof (cases "\<exists>r. s = CHR ''-'' # r")
    case True
    with digits show ?thesis by (cases "snd (scan_sign s)") (auto simp: scan_sign_def starts_number_def)
  next
    case False
    then have "snd (scan_sign s) = s" by (cases s) (auto simp: scan_sign_def)
    with digits show ?thesis by (simp add: starts_number_def)
  qed
qed

lemma is_digit_other:
  assumes "is_digit c"
  shows "c \<noteq> CHR 0x22" "c \<noteq> CHR ''[''" "c \<noteq> CHR ''{''" "c \<noteq> CHR ''n''" "c \<noteq> CHR ''t''"
    "c \<noteq> CHR ''f''" "c \<noteq> CHR ''N''" "c \<noteq> CHR ''I''" "c \<noteq> CHR ''-''" "c \<noteq> CHR '']''"
    "c \<noteq> CHR ''}''" "\<not> is_ws c"
  using assms by (auto simp: is_digit_def is_ws_def)

lemma starts_number_cases:
  assumes "starts_number s"
  obtains (plain) c r where "s = c # r" "is_digit c"
  | (negative) c r where "s = CHR ''-'' # c # r" "is_digit c"
  using assms by (cases s) (auto simp: starts_number_def)

lemma starts_number_value: "starts_number s \<Longrightarrow> starts_value s"
  by (erule starts_number_cases) (simp_all add: starts_value_def is_digit_other, simp add: is_ws_def)

lemma scan_scalar_number: "starts_number s \<Longrightarrow> scan_scalar fr s = scan_number fr s"
  by (erule starts_number_cases)
    (simp_all add: scan_scalar_def scan_word_def List.map_filter_simps is_digit_other
      is_digit_other(4-9) [THEN not_sym])

lemma scan_value_number: "starts_number s \<Longrightarrow> scan_value fr s = scan_number fr s"
  by (subst scan_value.simps, frule scan_scalar_number, erule starts_number_cases)
    (simp_all add: is_digit_other)

section \<open>Documents\<close>

lemma scan_key_quote:
  "starts_value v \<Longrightarrow> scan_key (quote_string k @ CHR '':'' # v @ r) = Some (k, v @ r)"
  by (simp add: scan_key_def quote_string_append scan_string_escaped_text)

lemma canonical_starts_value:
  assumes "json_wf fr v" "json_encodable v"
  shows "starts_value (canonical_json v)"
proof (cases v)
  case (JInt i)
  with assms show ?thesis
    by (simp add: starts_number_value [OF scan_number_starts [OF scan_number_int]])
next
  case (JFloat x)
  with assms show ?thesis by (auto intro: starts_number_value scan_number_starts)
qed (simp_all add: quote_string_def starts_value_def is_ws_def)

lemma sort_key_map_snd:
  "sort_key fst (map (\<lambda>(k, v). (k, f v)) kvs) = map (\<lambda>(k, v). (k, f v)) (sort_key fst kvs)"
proof -
  have insort: "insort_key fst (k, f v) (map (\<lambda>(k, v). (k, f v)) xs)
      = map (\<lambda>(k, v). (k, f v)) (insort_key fst (k, v) xs)" for k v xs
    by (induction xs) auto
  show ?thesis by (induction kvs) (auto simp: insort)
qed

lemma dict_of_distinct: "distinct (map fst kvs) \<Longrightarrow> dict_of kvs = kvs"
proof (induction kvs rule: rev_induct)
  case (snoc kv kvs)
  then show ?case by (cases kv) (auto simp: dict_of_snoc update_fresh)
qed (simp add: dict_of_def)

definition reads_back :: "(string \<Rightarrow> string) \<Rightarrow> json \<Rightarrow> bool" where
  "reads_back fr v \<longleftrightarrow> starts_value (canonical_json v)
     \<and> (\<forall>rest. delimited rest \<longrightarrow> scan_value fr (canonical_json v @ rest) = Inr (sort_keys v, rest))"

lemma after_item_simps [simp]:
  "after_item c (c # r) = (if is_ws c then after_item c r else Closed r)"
  "c \<noteq> CHR '','' \<Longrightarrow> after_item c (CHR '','' # r) = Continued (skip_ws r)"
  by (simp_all add: after_item_def skip_ws_def is_ws_def)

lemma closers_not_ws [simp]: "\<not> is_ws CHR '']''" "\<not> is_ws CHR ''}''"
  by (simp_all add: is_ws_def)

lemma scan_items_texts:
  assumes "vs \<noteq> []" "\<And>v. v \<in> set vs \<Longrightarrow> reads_back fr v"
  shows "scan_items fr (join_on CHR '','' (map canonical_json vs) @ CHR '']'' # r)
      = Inr (map sort_keys vs, r) \<and> starts_value (join_on CHR '','' (map canonical_json vs))"
  using assms
proof (induction vs)
  case (Cons v vs)
  have v: "starts_value (canonical_json v)"
    "delimited rest \<Longrightarrow> scan_value fr (canonical_json v @ rest) = Inr (sort_keys v, rest)" for rest
    using Cons.prems by (simp_all add: reads_back_def)
  show ?case
  proof (cases "vs = []")
    case True
    then show ?thesis using v by (simp add: scan_items.simps)
  next
    case False
    let ?tail = "join_on CHR '','' (map canonical_json vs)"
    from Cons False have tail: "scan_items fr (?tail @ CHR '']'' # r) = Inr (map sort_keys vs, r)"
      "starts_value ?tail" by simp_all
    have joined: "join_on CHR '','' (map canonical_json (v # vs)) = canonical_json v @ CHR '','' # ?tail"
      using False by (simp add: join_on_Cons)
    have "scan_items fr ((canonical_json v @ CHR '','' # ?tail) @ CHR '']'' # r)
        = Inr (map sort_keys (v # vs), r)"
      by (subst scan_items.simps) (simp add: v(2) tail)
    moreover have "starts_value (canonical_json v @ CHR '','' # ?tail)"
      using v(1) by (simp add: starts_value_def)
    ultimately show ?thesis unfolding joined by blast
  qed
qed simp

definition member_text :: "string \<times> json \<Rightarrow> string" where
  "member_text kv = quote_string (fst kv) @ CHR '':'' # canonical_json (snd kv)"

lemma scan_members_texts:
  assumes "kvs \<noteq> []" "\<And>k v. (k, v) \<in> set kvs \<Longrightarrow> reads_back fr v"
  shows "scan_members fr (join_on CHR '','' (map member_text kvs) @ CHR ''}'' # r)
      = Inr (map (\<lambda>(k, v). (k, sort_keys v)) kvs, r)
      \<and> starts_value (join_on CHR '','' (map member_text kvs))"
  using assms
proof (induction kvs)
  case (Cons kv kvs)
  obtain k v where kv: "kv = (k, v)" by force
  have v: "starts_value (canonical_json v)"
    "delimited rest \<Longrightarrow> scan_value fr (canonical_json v @ rest) = Inr (sort_keys v, rest)" for rest
    using Cons.prems(2) [of k v] by (simp_all add: reads_back_def kv)
  have member: "scan_key (member_text kv @ rest) = Some (k, canonical_json v @ rest)"
    "starts_value (member_text kv)" for rest
    using scan_key_quote [OF v(1)] by (simp_all add: member_text_def kv)
      (simp_all add: starts_value_def quote_string_def is_ws_def)
  show ?case
  proof (cases "kvs = []")
    case True
    then show ?thesis using v member by (simp add: scan_members.simps kv)
  next
    case False
    let ?tail = "join_on CHR '','' (map member_text kvs)"
    have "reads_back fr v'" if "(k', v') \<in> set kvs" for k' v'
      using Cons.prems(2) [of k' v'] that by simp
    with Cons.IH [OF False] have tail:
      "scan_members fr (?tail @ CHR ''}'' # r) = Inr (map (\<lambda>(k, v). (k, sort_keys v)) kvs, r)"
      "starts_value ?tail" by simp_all
    have joined: "join_on CHR '','' (map member_text (kv # kvs)) = member_text kv @ CHR '','' # ?tail"
      using False by (simp add: join_on_Cons)
    have "scan_members fr ((member_text kv @ CHR '','' # ?tail) @ CHR ''}'' # r)
        = Inr (map (\<lambda>(k, v). (k, sort_keys v)) (kv # kvs), r)"
      using member(1) [of "CHR '','' # ?tail @ CHR ''}'' # r"]
      by (subst scan_members.simps) (simp add: v(2) tail kv)
    moreover have "starts_value (member_text kv @ CHR '','' # ?tail)"
      using member(2) by (simp add: starts_value_def)
    ultimately show ?thesis unfolding joined by blast
  qed
qed simp

lemma canonical_object:
  "canonical_json (JObj kvs) = CHR ''{'' # join_on CHR '','' (map member_text (sort_key fst kvs)) @ [CHR ''}'']"
proof -
  have "map (\<lambda>(k, v). quote_string k @ CHR '':'' # v) (map (\<lambda>(k, v). (k, canonical_json v)) kvs)
      = map member_text kvs" for kvs
    by (simp add: member_text_def case_prod_unfold)
  then show ?thesis by (simp only: canonical_json.simps sort_key_map_snd)
qed

lemma starts_with_single [simp]: "starts_with [c] (d # s) \<longleftrightarrow> c = d" "\<not> starts_with [c] []"
  by simp_all

lemma starts_value_open: "starts_value s \<Longrightarrow> \<not> starts_with '']'' (s @ r) \<and> \<not> starts_with ''}'' (s @ r)"
  by (cases s) (auto simp: starts_value_def)

lemma number_reads_back:
  assumes scan: "scan_number fr (canonical_json v) = Inr (v, [])" and scalar: "sort_keys v = v"
  shows "reads_back fr v"
proof -
  note number = scan_number_starts [OF scan]
  have "scan_value fr (canonical_json v @ rest) = Inr (v, rest)" if "delimited rest" for rest
    using scan_value_number [OF starts_number_append [OF number]] scan_number_append [OF scan that]
    by simp
  with starts_number_value [OF number] scalar show ?thesis by (simp add: reads_back_def)
qed

lemma canonical_reads_back: "json_wf fr v \<Longrightarrow> json_encodable v \<Longrightarrow> reads_back fr v"
proof (induction v)
  case JNull
  then show ?case
    using canonical_starts_value [of fr JNull]
    by (simp add: reads_back_def scan_value.simps scan_scalar_def scan_word_def
        List.map_filter_simps)
next
  case (JBool b)
  then show ?case
    using canonical_starts_value [of fr "JBool b"]
    by (cases b) (simp_all add: reads_back_def scan_value.simps scan_scalar_def
        scan_word_def List.map_filter_simps)
next
  case (JInt i)
  then have "scan_number fr (int_repr i) = Inr (JInt i, [])" by (simp add: scan_number_int)
  then show ?case by (simp add: number_reads_back)
next
  case (JFloat x)
  then show ?case by (simp add: number_reads_back)
next
  case (JStr s)
  then show ?case
    using canonical_starts_value [of fr "JStr s"]
    by (simp add: reads_back_def quote_string_append scan_value.simps scan_string_escaped_text)
next
  case (JArr vs)
  then have items: "v \<in> set vs \<Longrightarrow> reads_back fr v" for v by (simp add: list_all_iff)
  have "scan_value fr (canonical_json (JArr vs) @ rest) = Inr (sort_keys (JArr vs), rest)" for rest
  proof (cases "vs = []")
    case True
    then show ?thesis by (simp add: scan_value.simps skip_ws_def)
  next
    case False
    from scan_items_texts [OF False items, of rest] starts_value_open show ?thesis
      by (simp add: scan_value.simps)
  qed
  with canonical_starts_value [OF JArr.prems] show ?case unfolding reads_back_def by blast
next
  case (JObj kvs)
  let ?sorted = "sort_key fst kvs"
  have members: "(k, v) \<in> set ?sorted \<Longrightarrow> reads_back fr v" for k v
    using JObj.prems by (auto simp: list_all_iff intro!: JObj.IH)
  have keys: "distinct (map fst (map (\<lambda>(k, v). (k, sort_keys v)) ?sorted))"
    using JObj.prems by (simp add: comp_def case_prod_unfold distinct_map)
  have "scan_value fr (canonical_json (JObj kvs) @ rest) = Inr (sort_keys (JObj kvs), rest)" for rest
  proof (cases "?sorted = []")
    case True
    then show ?thesis
      by (simp add: canonical_object sort_key_map_snd scan_value.simps skip_ws_def del: canonical_json.simps(7))
  next
    case False
    from scan_members_texts [OF False, of fr rest] members starts_value_open show ?thesis
      by (simp add: canonical_object sort_key_map_snd scan_value.simps dict_of_distinct [OF keys]
          del: canonical_json.simps(7))
  qed
  with canonical_starts_value [OF JObj.prems] show ?case unfolding reads_back_def by blast
qed

lemma json_loads_canonical:
  assumes "json_wf fr v" "json_encodable v"
  shows "json_loads fr (canonical_json v) = Inr (sort_keys v)"
proof -
  from canonical_reads_back [OF assms] have "starts_value (canonical_json v)"
    "scan_value fr (canonical_json v @ []) = Inr (sort_keys v, [])"
    unfolding reads_back_def by (blast intro: delimited_simps(1))+
  moreover from this(1) have "skip_ws (canonical_json v @ []) = canonical_json v @ []"
    by (rule starts_value_skip)
  ultimately show ?thesis by (simp add: json_loads_def skip_ws_def)
qed

end
