(* ===== verification/Evidence_Files.thy ===== *)
theory Evidence_Files
  imports Json_Roundtrip
begin

text \<open>
  \<open>evidence.py\<close>: digests of Evidence documents, their file names, and the durable files of a
  Run's ledger. The directory \<open>runs/\<close> is a dictionary from Run IDs to directories, a
  directory one from names to objects. What the operating system may refuse is an argument, and
  the files that are there when a function raises are part of its result.
\<close>

section \<open>The surroundings\<close>

text \<open>
  \<open>sha256\<close> is \<open>hashlib.sha256(b).hexdigest()\<close>; \<open>float_repr\<close> is Python's
  \<open>repr(float(s))\<close>; \<open>parse_time\<close> is \<open>datetime.fromisoformat\<close> of the text with
  \<open>Z\<close> replaced: \<open>None\<close> is a \<open>ValueError\<close>, otherwise whether the time has a zone;
  \<open>uuid4_ok\<close> says that \<open>uuid.UUID\<close> accepts the text, with version 4.
\<close>

record ledger_env =
  sha256 :: "string \<Rightarrow> string"
  float_repr :: "string \<Rightarrow> string"
  tool_version :: string
  parse_time :: "string \<Rightarrow> bool option"
  uuid4_ok :: "string \<Rightarrow> bool"

type_synonym doc = "(string \<times> json) list"

text \<open>\<open>d.get(key)\<close>: JSON's null and a missing key are both \<open>None\<close>.\<close>

definition dget :: "string \<Rightarrow> doc \<Rightarrow> json" where
  "dget k d = (case map_of d k of None \<Rightarrow> JNull | Some v \<Rightarrow> v)"

section \<open>Digests and names\<close>

definition encode_json :: "json \<Rightarrow> string result" where
  "encode_json v =
     (if json_encodable v then Inr (canonical_json v)
      else raise EvidenceError ''value is not canonical JSON serializable'')"

definition digest :: "ledger_env \<Rightarrow> doc \<Rightarrow> string result" where
  "digest env value =
     bind_result (encode_json (JObj (filter (\<lambda>(k, _). k \<noteq> ''evidence_digest'') value)))
       (\<lambda>text. Inr (sha256 env text))"

definition is_lower :: "char \<Rightarrow> bool" where
  "is_lower c \<longleftrightarrow> 97 \<le> (of_char c :: nat) \<and> of_char c \<le> (122 :: nat)"

definition type_char :: "char \<Rightarrow> bool" where
  "type_char c \<longleftrightarrow> is_lower c \<or> is_digit c \<or> c = CHR ''_'' \<or> c = CHR ''.'' \<or> c = CHR ''-''"

definition safe_type :: "string \<Rightarrow> bool" where
  "safe_type s \<longleftrightarrow> (case s of [] \<Rightarrow> False | c # r \<Rightarrow> is_lower c \<and> list_all type_char r)"

text \<open>The format \<open>:08d\<close>: the sign, then zeros up to the width.\<close>

definition zero_pad :: "nat \<Rightarrow> string \<Rightarrow> string" where
  "zero_pad w s = replicate (w - length s) (CHR ''0'') @ s"

definition format_08d :: "int \<Rightarrow> string" where
  "format_08d n =
     (if n < 0 then CHR ''-'' # zero_pad 7 (nat_repr (nat (- n))) else zero_pad 8 (nat_repr (nat n)))"

definition evidence_suffix :: string where
  "evidence_suffix = ''.json''"

definition filename :: "int \<Rightarrow> string \<Rightarrow> string result" where
  "filename sequence evidence_type =
     (let safe = map (\<lambda>c. if c = CHR ''/'' then CHR ''.'' else c) evidence_type in
      if \<not> safe_type safe then raise EvidenceError ''invalid evidence type''
      else Inr (format_08d sequence @ CHR ''_'' # safe @ evidence_suffix))"

text \<open>The pattern \<open>_NAME\<close>, with \<open>\d\<close> read as an ASCII digit.\<close>

definition evidence_name :: "string \<Rightarrow> bool" where
  "evidence_name s \<longleftrightarrow>
     (let stem = take (length s - 14) (drop 9 s) in
      14 < length s \<and> list_all is_digit (take 8 s) \<and> s ! 8 = CHR ''_''
      \<and> safe_type stem \<and> drop (length s - 5) s = evidence_suffix)"

definition ends_with :: "string \<Rightarrow> string \<Rightarrow> bool" where
  "ends_with suf s \<longleftrightarrow> length suf \<le> length s \<and> drop (length s - length suf) s = suf"

section \<open>The files of a ledger\<close>

datatype file_object =
    RegularFile string
  | UnreadableFile
  | SymlinkObject
  | OtherObject

text \<open>A Run's directory with its files, or an object that is no directory. The flag marks a
  directory reached through a symbolic link.\<close>

datatype run_node =
    RunDir bool "(string, file_object) dict"
  | NotDirectory

type_synonym evidence_tree = "(string, run_node) dict"

text \<open>
  Where the operating system raises \<open>OSError\<close>: at \<open>mkdir\<close>, before the rename that
  publishes the file, or at the directory's \<open>fsync\<close> after it.
\<close>

datatype disk_fault = Mkdir_Fault | Publish_Fault | Dir_Sync_Fault

definition make_run_dir ::
  "disk_fault option \<Rightarrow> string \<Rightarrow> evidence_tree \<Rightarrow> (bool \<times> (string, file_object) dict) result" where
  "make_run_dir fault run_id tree =
     (if fault = Some Mkdir_Fault then Inl PyOSError
      else
        (case map_of tree run_id of
           None \<Rightarrow> Inr (False, [])
         | Some (RunDir link files) \<Rightarrow> Inr (link, files)
         | Some NotDirectory \<Rightarrow> Inl PyOSError))"

text \<open>
  \<open>read_text\<close> and \<open>json.loads\<close>: \<open>Inr None\<close> is \<open>JSONDecodeError\<close>; a byte
  sequence that is no UTF-8 and an integer literal over the limit raise another \<open>ValueError\<close>.
\<close>

definition read_json :: "ledger_env \<Rightarrow> string \<Rightarrow> json option result" where
  "read_json env bytes =
     (if \<not> utf8_valid bytes then Inl PyValueError
      else
        (case json_loads (float_repr env) bytes of
           Inl JSONDecodeError \<Rightarrow> Inr None
         | Inl ValueErrorDigits \<Rightarrow> Inl PyValueError
         | Inr v \<Rightarrow> Inr (Some v)))"

text \<open>The check after the write: the file reads as an object with the expected digest.\<close>

definition post_write_check :: "ledger_env \<Rightarrow> string \<Rightarrow> string \<Rightarrow> unit result" where
  "post_write_check env bytes expected =
     bind_result (read_json env bytes) (\<lambda>found.
       (case found of
          Some (JObj d) \<Rightarrow>
            bind_result (digest env d) (\<lambda>actual.
              require (actual = expected)
                (Raise EvidenceError ''evidence post-write verification failed''))
        | Some _ \<Rightarrow> Inl PyTypeError
        | None \<Rightarrow> Inl PyValueError))"

definition relative_path :: "string \<Rightarrow> string \<Rightarrow> string" where
  "relative_path run_id name = ''runs/'' @ run_id @ CHR ''/'' # name"

definition write_evidence ::
  "ledger_env \<Rightarrow> disk_fault option \<Rightarrow> evidence_tree \<Rightarrow> doc \<Rightarrow> evidence_tree \<times> string result" where
  "write_evidence env fault tree item =
     (case (dget ''run_id'' item, dget ''sequence'' item, dget ''evidence_type'' item) of
        (JStr run_id, JInt sequence, JStr evidence_type) \<Rightarrow>
          (case make_run_dir fault run_id tree of
             Inl e \<Rightarrow> (tree, Inl e)
           | Inr (link, files) \<Rightarrow>
               let made = AList.update run_id (RunDir link files) tree in
               (case filename sequence evidence_type of
                  Inl e \<Rightarrow> (made, Inl e)
                | Inr final \<Rightarrow>
                    if map_of files final \<noteq> None
                    then (made, raise EvidenceConflictError ''evidence target already exists'')
                    else
                      (case digest env item of
                         Inl e \<Rightarrow> (made, Inl e)
                       | Inr expected \<Rightarrow>
                           if dget ''evidence_digest'' item \<noteq> JStr expected
                           then (made, raise EvidenceError ''evidence digest does not match content'')
                           else if fault = Some Publish_Fault
                           then (made, raise EvidenceError ''unable to write evidence'')
                           else
                             let bytes = canonical_json (JObj item);
                                 published = AList.update run_id
                                   (RunDir link (AList.update final (RegularFile bytes) files)) tree in
                             if fault = Some Dir_Sync_Fault
                             then (published, raise EvidenceError ''unable to write evidence'')
                             else
                               (published,
                                bind_result (post_write_check env bytes expected)
                                  (\<lambda>_. Inr (relative_path run_id final))))))
      | _ \<Rightarrow> (tree, Inl PyTypeError))"

section \<open>Reading a ledger\<close>

datatype load_outcome = Skipped | Rejected string | Loaded json

definition load_file :: "ledger_env \<Rightarrow> string \<Rightarrow> file_object \<Rightarrow> load_outcome result" where
  "load_file env name obj =
     (if obj = SymlinkObject \<or> obj = OtherObject
      then Inr (Rejected (''unsafe evidence object: '' @ name))
      else if ends_with ''.tmp'' name then Inr Skipped
      else if \<not> evidence_name name then Inr (Rejected (''unknown evidence file: '' @ name))
      else
        (case obj of
           RegularFile bytes \<Rightarrow>
             bind_result (read_json env bytes) (\<lambda>found.
               (case found of
                  None \<Rightarrow> Inr (Rejected (''invalid JSON: '' @ name))
                | Some v \<Rightarrow> Inr (Loaded v)))
         | _ \<Rightarrow> Inr (Rejected (''invalid JSON: '' @ name))))"

fun load_files ::
  "ledger_env \<Rightarrow> (string, file_object) dict \<Rightarrow> ((string \<times> json) list \<times> string list) result" where
  "load_files env [] = Inr ([], [])"
| "load_files env ((name, obj) # rest) =
     bind_result (load_file env name obj) (\<lambda>outcome.
       bind_result (load_files env rest) (\<lambda>(items, errors).
         (case outcome of
            Skipped \<Rightarrow> Inr (items, errors)
          | Rejected e \<Rightarrow> Inr (items, e # errors)
          | Loaded v \<Rightarrow> Inr ((name, v) # items, errors))))"

definition load_run_files ::
  "ledger_env \<Rightarrow> evidence_tree \<Rightarrow> string \<Rightarrow> ((string \<times> json) list \<times> string list) result" where
  "load_run_files env tree run_id =
     (case map_of tree run_id of
        Some (RunDir False files) \<Rightarrow> load_files env (sort_key fst files)
      | _ \<Rightarrow> Inr ([], [''missing or unsafe run directory: '' @ run_id]))"

end
