(* ===== verification/Steward_Config.thy ===== *)
theory Steward_Config
  imports Evidence_Files
begin

text \<open>
  The configuration object of \<open>models.py\<close> and its digest: \<open>compute_config_digest\<close> of
  \<open>evidence.py\<close> hashes what the configuration means, not the text it was read from.
\<close>

record steward_config =
  cf_schema_version :: int
  cf_project_name :: string
  cf_paths :: path_config
  cf_scopes :: "scope_config list"
  cf_project_root :: abs_path
  cf_source_path :: abs_path
  cf_warnings :: "string list"

text \<open>\<open>str(path)\<close> of an absolute path.\<close>

definition path_str :: "abs_path \<Rightarrow> string" where
  "path_str p = CHR ''/'' # join_on (CHR ''/'') p"

definition scope_json :: "scope_config \<Rightarrow> json" where
  "scope_json s = JObj
     [(''scope_id'', JStr (sc_scope_id s)),
      (''role'', JStr (scope_role_value (sc_role s))),
      (''raw_path'', JStr (sc_raw_path s)),
      (''normalized_path'', JStr (path_str (sc_normalized_path s))),
      (''enabled'', JBool (sc_enabled s)),
      (''follow_directory_symlinks'', JBool (sc_follow_directory_symlinks s)),
      (''allow_cross_mount'', JBool (sc_allow_cross_mount s))]"

definition config_json :: "steward_config \<Rightarrow> json" where
  "config_json c = JObj
     [(''schema_version'', JInt (cf_schema_version c)),
      (''project_name'', JStr (cf_project_name c)),
      (''paths'', JObj
        [(''data_dir'', JStr (path_str (data_dir (cf_paths c)))),
         (''cache_dir'', JStr (path_str (cache_dir (cf_paths c)))),
         (''evidence_dir'', JStr (path_str (evidence_dir (cf_paths c)))),
         (''quarantine_dir'', JStr (path_str (quarantine_dir (cf_paths c))))]),
      (''scopes'', JArr (map scope_json (cf_scopes c)))]"

definition compute_config_digest :: "ledger_env \<Rightarrow> steward_config \<Rightarrow> string result" where
  "compute_config_digest env c =
     bind_result (encode_json (config_json c)) (\<lambda>text. Inr (sha256 env text))"

end
