(* ===== verification/Run_State.thy ===== *)
theory Run_State
  imports Steward_Models
begin

text \<open>
  \<open>state_machine.py\<close>: the Run statuses, the one transition graph, and what can be reached
  in it. The checker \<open>validate_transition\<close> is shown to accept exactly the steps of the
  inductive relation \<open>run_step\<close>.
\<close>

section \<open>Statuses (models.py)\<close>

datatype run_status =
    CREATED | SCANNING | SCANNED | PLANNING | PLANNED | APPLYING | APPLIED | VERIFYING | VERIFIED
  | PARTIAL_RUN | FAILED | CANCELLED | ROLLING_BACK | ROLLED_BACK

fun run_status_value :: "run_status \<Rightarrow> string" where
  "run_status_value CREATED = ''created''"
| "run_status_value SCANNING = ''scanning''"
| "run_status_value SCANNED = ''scanned''"
| "run_status_value PLANNING = ''planning''"
| "run_status_value PLANNED = ''planned''"
| "run_status_value APPLYING = ''applying''"
| "run_status_value APPLIED = ''applied''"
| "run_status_value VERIFYING = ''verifying''"
| "run_status_value VERIFIED = ''verified''"
| "run_status_value PARTIAL_RUN = ''partial''"
| "run_status_value FAILED = ''failed''"
| "run_status_value CANCELLED = ''cancelled''"
| "run_status_value ROLLING_BACK = ''rolling_back''"
| "run_status_value ROLLED_BACK = ''rolled_back''"

definition all_run_statuses :: "run_status list" where
  "all_run_statuses =
     [CREATED, SCANNING, SCANNED, PLANNING, PLANNED, APPLYING, APPLIED, VERIFYING, VERIFIED,
      PARTIAL_RUN, FAILED, CANCELLED, ROLLING_BACK, ROLLED_BACK]"

text \<open>\<open>RunStatus(value)\<close>, which raises \<open>ValueError\<close> on any other string.\<close>

definition run_status_of :: "string \<Rightarrow> run_status result" where
  "run_status_of s =
     (case filter (\<lambda>st. run_status_value st = s) all_run_statuses of
        [] \<Rightarrow> Inl PyValueError
      | st # _ \<Rightarrow> Inr st)"

section \<open>The transition graph\<close>

fun allowed_targets :: "run_status \<Rightarrow> run_status list" where
  "allowed_targets CREATED =
     [SCANNING, PLANNING, APPLYING, VERIFYING, ROLLING_BACK, CANCELLED, FAILED]"
| "allowed_targets SCANNING = [SCANNED, PARTIAL_RUN, CANCELLED, FAILED]"
| "allowed_targets SCANNED = [PLANNING, VERIFYING, FAILED]"
| "allowed_targets PLANNING = [PLANNED, CANCELLED, FAILED]"
| "allowed_targets PLANNED = [APPLYING, CANCELLED, FAILED]"
| "allowed_targets APPLYING = [APPLIED, PARTIAL_RUN, FAILED]"
| "allowed_targets APPLIED = [VERIFYING, ROLLING_BACK, FAILED]"
| "allowed_targets VERIFYING = [VERIFIED, PARTIAL_RUN, FAILED]"
| "allowed_targets VERIFIED = [ROLLING_BACK]"
| "allowed_targets PARTIAL_RUN = [VERIFYING, ROLLING_BACK, FAILED]"
| "allowed_targets FAILED = [ROLLING_BACK]"
| "allowed_targets CANCELLED = []"
| "allowed_targets ROLLING_BACK = [ROLLED_BACK, PARTIAL_RUN, FAILED]"
| "allowed_targets ROLLED_BACK = []"

definition TERMINAL :: "run_status list" where
  "TERMINAL = [VERIFIED, FAILED, CANCELLED, ROLLED_BACK]"

definition is_terminal :: "run_status \<Rightarrow> bool" where
  "is_terminal st \<longleftrightarrow> st \<in> set TERMINAL"

definition validate_transition :: "run_status \<Rightarrow> run_status \<Rightarrow> unit result" where
  "validate_transition current target =
     (if target \<notin> set (allowed_targets current)
      then raise InvalidRunTransitionError ''transition is not allowed''
      else Inr ())"

section \<open>Steps and reachability\<close>

inductive run_step :: "run_status \<Rightarrow> run_status \<Rightarrow> bool" where
  "target \<in> set (allowed_targets current) \<Longrightarrow> run_step current target"

inductive_simps run_step_iff: "run_step current target"
inductive_cases run_step_elim [elim!]: "run_step current target"

inductive run_reaches :: "run_status \<Rightarrow> run_status \<Rightarrow> bool" where
  here: "run_reaches st st"
| onward: "run_reaches st st' \<Longrightarrow> run_step st' st'' \<Longrightarrow> run_reaches st st''"

text \<open>A sequence of statuses in which each follows from the one before.\<close>

fun run_path :: "run_status \<Rightarrow> run_status list \<Rightarrow> bool" where
  "run_path st [] = True"
| "run_path st (st' # sts) = (st' \<in> set (allowed_targets st) \<and> run_path st' sts)"

lemma all_run_statuses_complete [simp]: "st \<in> set all_run_statuses"
  by (cases st) (simp_all add: all_run_statuses_def)

lemma run_status_value_inject [simp]: "run_status_value st = run_status_value st' \<longleftrightarrow> st = st'"
  by (cases st; cases st') simp_all

lemma run_status_of_value [simp]: "run_status_of (run_status_value st) = Inr st"
proof -
  have "filter (\<lambda>st'. st' = st) all_run_statuses = [st]"
    by (cases st) (simp_all add: all_run_statuses_def)
  then show ?thesis by (simp add: run_status_of_def)
qed

lemma run_status_of_Inr_iff: "run_status_of s = Inr st \<longleftrightarrow> s = run_status_value st"
proof
  assume "run_status_of s = Inr st"
  then obtain sts where "filter (\<lambda>st. run_status_value st = s) all_run_statuses = st # sts"
    by (auto simp: run_status_of_def split: list.splits)
  then have "st \<in> set (filter (\<lambda>st. run_status_value st = s) all_run_statuses)"
    by simp
  then show "s = run_status_value st" by simp
qed simp

lemma validate_transition_Inr_iff: "validate_transition st st' = Inr () \<longleftrightarrow> run_step st st'"
  by (simp add: validate_transition_def run_step_iff)

lemma run_path_append:
  "run_path st (xs @ ys) \<longleftrightarrow> run_path st xs \<and> run_path (last (st # xs)) ys"
  by (induction xs arbitrary: st) auto

lemma run_path_reaches: "run_path st sts \<Longrightarrow> run_reaches st (last (st # sts))"
proof (induction sts rule: rev_induct)
  case (snoc st' sts)
  then show ?case
    by (auto simp: run_path_append run_step_iff intro: run_reaches.onward split: if_splits)
qed (simp add: run_reaches.here)

end
