(* ===== verification/Run_Ledger.thy ===== *)
theory Run_Ledger
  imports Steward_Config Run_State
begin

text \<open>
  \<open>runs.py\<close> and \<open>faults.py\<close>: the coordinator that publishes one Evidence file per
  Run operation and then commits the derived SQLite rows. A state holds the Evidence files and
  the committed tables. An operation returns the state it leaves behind together with its
  result, so what an exception leaves on disk is part of the model: whatever fails after the
  publication leaves the new file and the old tables.
\<close>

section \<open>Rows and state\<close>

record run_record =
  rn_run_id :: string
  rn_run_kind :: string
  rn_status :: run_status
  rn_created_at :: string
  rn_updated_at :: string
  rn_config_digest :: string
  rn_metadata :: json
  rn_last_sequence :: int
  rn_last_evidence_digest :: "string option"
  rn_terminal :: bool

record evidence_record =
  er_evidence_id :: string
  er_run_id :: string
  er_sequence :: int
  er_evidence_type :: string
  er_created_at :: string
  er_relative_path :: string
  er_previous_evidence_digest :: "string option"
  er_evidence_digest :: string
  er_schema_version :: int

record index_db =
  db_runs :: "run_record list"
  db_evidence :: "evidence_record list"

record steward_state =
  st_evidence :: evidence_tree
  st_index :: "index_db option"

text \<open>
  What one call takes from outside: the clock, the fresh identity, the failures of the disk and
  of SQLite (\<open>OperationalError\<close> when the lock is taken, or when the rows are written), and
  the fault injector.
\<close>

datatype db_fault = Busy_Begin | Busy_Write

record run_call =
  c_now :: string
  c_evidence_id :: string
  c_disk_fault :: "disk_fault option"
  c_db_fault :: "db_fault option"
  c_injector :: "(string \<Rightarrow> string \<Rightarrow> bool) option"

definition checkpoint :: "(string \<Rightarrow> string \<Rightarrow> bool) option \<Rightarrow> string \<Rightarrow> string \<Rightarrow> unit result" where
  "checkpoint injector operation stage =
     (case injector of
        None \<Rightarrow> Inr ()
      | Some inject \<Rightarrow> if inject operation stage then Inl FaultInjectionError else Inr ())"

section \<open>Evidence items (_evidence)\<close>

record evidence_item =
  i_schema_version :: int
  i_evidence_id :: string
  i_evidence_type :: string
  i_run_id :: string
  i_sequence :: int
  i_created_at :: string
  i_tool_version :: string
  i_config_digest :: string
  i_previous_evidence_digest :: "string option"
  i_payload :: doc
  i_evidence_digest :: string

definition json_option :: "string option \<Rightarrow> json" where
  "json_option x = (case x of None \<Rightarrow> JNull | Some s \<Rightarrow> JStr s)"

definition item_body :: "evidence_item \<Rightarrow> doc" where
  "item_body i =
     [(''schema_version'', JInt (i_schema_version i)),
      (''evidence_id'', JStr (i_evidence_id i)),
      (''evidence_type'', JStr (i_evidence_type i)),
      (''run_id'', JStr (i_run_id i)),
      (''sequence'', JInt (i_sequence i)),
      (''created_at'', JStr (i_created_at i)),
      (''tool_version'', JStr (i_tool_version i)),
      (''config_digest'', JStr (i_config_digest i)),
      (''policy_digest'', JNull),
      (''provider_versions'', JObj []),
      (''previous_evidence_digest'', json_option (i_previous_evidence_digest i)),
      (''payload'', JObj (i_payload i))]"

definition item_doc :: "evidence_item \<Rightarrow> doc" where
  "item_doc i = item_body i @ [(''evidence_digest'', JStr (i_evidence_digest i))]"

definition evidence_of ::
  "ledger_env \<Rightarrow> run_call \<Rightarrow> run_record \<Rightarrow> string \<Rightarrow> doc \<Rightarrow> int \<Rightarrow> evidence_item result" where
  "evidence_of env call run evidence_type payload schema_version =
     (let item = \<lparr>i_schema_version = schema_version, i_evidence_id = c_evidence_id call,
         i_evidence_type = evidence_type, i_run_id = rn_run_id run,
         i_sequence = rn_last_sequence run + 1, i_created_at = c_now call,
         i_tool_version = tool_version env, i_config_digest = rn_config_digest run,
         i_previous_evidence_digest = rn_last_evidence_digest run, i_payload = payload,
         i_evidence_digest = []\<rparr> in
      bind_result (digest env (item_body item)) (\<lambda>d. Inr (item\<lparr>i_evidence_digest := d\<rparr>)))"

section \<open>Tables\<close>

text \<open>The constraints of the tables: primary keys, unique columns and the reference to a Run.\<close>

definition insert_run :: "run_record \<Rightarrow> index_db \<Rightarrow> index_db result" where
  "insert_run r db =
     (if rn_run_id r \<in> rn_run_id ` set (db_runs db) then Inl SqliteIntegrityError
      else Inr (db\<lparr>db_runs := db_runs db @ [r]\<rparr>))"

definition insert_evidence :: "evidence_record \<Rightarrow> index_db \<Rightarrow> index_db result" where
  "insert_evidence e db =
     (if er_run_id e \<notin> rn_run_id ` set (db_runs db)
         \<or> (\<exists>e' \<in> set (db_evidence db). er_evidence_id e' = er_evidence_id e
              \<or> er_run_id e' = er_run_id e \<and> er_sequence e' = er_sequence e
              \<or> er_relative_path e' = er_relative_path e
              \<or> er_evidence_digest e' = er_evidence_digest e)
      then Inl SqliteIntegrityError
      else Inr (db\<lparr>db_evidence := db_evidence db @ [e]\<rparr>))"

definition update_run :: "string \<Rightarrow> (run_record \<Rightarrow> run_record) \<Rightarrow> index_db \<Rightarrow> index_db" where
  "update_run run_id f db =
     db\<lparr>db_runs := map (\<lambda>r. if rn_run_id r = run_id then f r else r) (db_runs db)\<rparr>"

definition find_run :: "string \<Rightarrow> index_db \<Rightarrow> run_record option" where
  "find_run run_id db = List.find (\<lambda>r. rn_run_id r = run_id) (db_runs db)"

definition evidence_row :: "evidence_item \<Rightarrow> string \<Rightarrow> evidence_record" where
  "evidence_row i relative =
     \<lparr>er_evidence_id = i_evidence_id i, er_run_id = i_run_id i, er_sequence = i_sequence i,
      er_evidence_type = i_evidence_type i, er_created_at = i_created_at i,
      er_relative_path = relative, er_previous_evidence_digest = i_previous_evidence_digest i,
      er_evidence_digest = i_evidence_digest i, er_schema_version = i_schema_version i\<rparr>"

definition open_initialized :: "steward_state \<Rightarrow> index_db result" where
  "open_initialized st =
     (case st_index st of
        None \<Rightarrow> raise StorageNotInitializedError ''storage is not initialized; run storage init''
      | Some db \<Rightarrow> Inr db)"

definition get_run :: "steward_state \<Rightarrow> string \<Rightarrow> run_record result" where
  "get_run st run_id =
     bind_result (open_initialized st) (\<lambda>db.
       (case find_run run_id db of
          None \<Rightarrow> raise RunNotFoundError (''run not found: '' @ run_id)
        | Some r \<Rightarrow> Inr r))"

section \<open>Publishing and committing\<close>

definition publish ::
  "ledger_env \<Rightarrow> run_call \<Rightarrow> string \<Rightarrow> evidence_tree \<Rightarrow> evidence_item \<Rightarrow> evidence_tree \<times> string result" where
  "publish env call operation tree item =
     (case checkpoint (c_injector call) operation ''before_evidence_publish'' of
        Inl e \<Rightarrow> (tree, Inl e)
      | Inr _ \<Rightarrow>
          (case write_evidence env (c_disk_fault call) tree (item_doc item) of
             (tree', Inl e) \<Rightarrow> (tree', Inl e)
           | (tree', Inr relative) \<Rightarrow>
               (tree', bind_result (checkpoint (c_injector call) operation ''after_evidence_publish'')
                  (\<lambda>_. Inr relative))))"

text \<open>
  The rows, the commit with its two checkpoints, and the row that is read back. An
  \<open>OperationalError\<close> rolls back and becomes \<open>StorageBusyError\<close>.
\<close>

definition commit_rows ::
  "run_call \<Rightarrow> string \<Rightarrow> (index_db \<Rightarrow> index_db result) \<Rightarrow> string \<Rightarrow> steward_state \<Rightarrow> index_db \<Rightarrow>
     steward_state \<times> run_record result" where
  "commit_rows call operation rows run_id st db =
     (if c_db_fault call = Some Busy_Write
      then (st, raise StorageBusyError ''storage write lock timed out'')
      else
        (case bind_result (rows db) (\<lambda>db'.
             bind_result (checkpoint (c_injector call) operation ''before_index_commit'') (\<lambda>_. Inr db')) of
           Inl e \<Rightarrow> (st, Inl e)
         | Inr db' \<Rightarrow>
             let committed = st\<lparr>st_index := Some db'\<rparr> in
             (committed,
              bind_result (checkpoint (c_injector call) operation ''after_index_commit'')
                (\<lambda>_. get_run committed run_id))))"

section \<open>create_run\<close>

definition run_kind_ok :: "string \<Rightarrow> bool" where
  "run_kind_ok s \<longleftrightarrow> safe_type s \<and> length s \<le> 64"

definition is_hex :: "char \<Rightarrow> bool" where
  "is_hex c \<longleftrightarrow> is_digit c \<or> c \<in> {CHR ''a'', CHR ''b'', CHR ''c'', CHR ''d'', CHR ''e'', CHR ''f''}"

text \<open>A canonical UUID of version 4: \<open>str(uuid.UUID(s)) == s\<close> with the RFC 4122 variant.\<close>

definition canonical_uuid4 :: "string \<Rightarrow> bool" where
  "canonical_uuid4 s \<longleftrightarrow>
     length s = 36
     \<and> list_all (\<lambda>(i, c). if i \<in> {8, 13, 18, 23} then c = CHR ''-'' else is_hex c) (enumerate 0 s)
     \<and> s ! 14 = CHR ''4'' \<and> s ! 19 \<in> {CHR ''8'', CHR ''9'', CHR ''a'', CHR ''b''}"

text \<open>
  \<open>json.dumps\<close> with \<open>allow_nan=False\<close> and ASCII escapes: it refuses the floats that are
  not finite and the integers over the digit limit, and nothing else.
\<close>

fun json_dumpable :: "json \<Rightarrow> bool" where
  "json_dumpable (JInt i) = (length (nat_repr (nat \<bar>i\<bar>)) \<le> max_int_digits)"
| "json_dumpable (JFloat r) = (r \<notin> {''nan'', ''inf'', ''-inf''})"
| "json_dumpable (JArr vs) = list_all json_dumpable vs"
| "json_dumpable (JObj kvs) = list_all (\<lambda>(_, v). json_dumpable v) kvs"
| "json_dumpable _ = True"

definition created_payload :: "string \<Rightarrow> json \<Rightarrow> doc" where
  "created_payload run_kind metadata =
     [(''run_kind'', JStr run_kind), (''initial_status'', JStr ''created''), (''metadata'', metadata)]"

definition create_run ::
  "ledger_env \<Rightarrow> steward_config \<Rightarrow> run_call \<Rightarrow> string \<Rightarrow> doc \<Rightarrow> string \<Rightarrow> steward_state \<Rightarrow>
     steward_state \<times> run_record result" where
  "create_run env config call run_kind metadata run_id st =
     (if \<not> run_kind_ok run_kind
      then (st, raise RunKindError ''run kind must match [a-z][a-z0-9._-]{0,63}'')
      else if \<not> json_dumpable (JObj metadata)
      then (st, raise RunKindError ''metadata must be JSON serializable'')
      else if \<not> canonical_uuid4 run_id
      then (st, raise RunKindError ''run ID must be a canonical UUIDv4'')
      else
        (case compute_config_digest env config of
           Inl e \<Rightarrow> (st, Inl e)
         | Inr config_digest \<Rightarrow>
             let run = \<lparr>rn_run_id = run_id, rn_run_kind = run_kind, rn_status = CREATED,
                 rn_created_at = c_now call, rn_updated_at = c_now call,
                 rn_config_digest = config_digest, rn_metadata = sort_keys (JObj metadata),
                 rn_last_sequence = 0, rn_last_evidence_digest = None, rn_terminal = False\<rparr> in
             (case open_initialized st of
                Inl e \<Rightarrow> (st, Inl e)
              | Inr db \<Rightarrow>
                  if c_db_fault call = Some Busy_Begin
                  then (st, raise StorageBusyError ''storage write lock timed out'')
                  else
                    (case evidence_of env call run ''run.created''
                        (created_payload run_kind (rn_metadata run)) 1 of
                       Inl e \<Rightarrow> (st, Inl e)
                     | Inr item \<Rightarrow>
                         (case publish env call ''run.create'' (st_evidence st) item of
                            (tree, Inl e) \<Rightarrow> (st\<lparr>st_evidence := tree\<rparr>, Inl e)
                          | (tree, Inr relative) \<Rightarrow>
                              commit_rows call ''run.create''
                                (\<lambda>db. bind_result
                                  (insert_run (run\<lparr>rn_last_sequence := 1,
                                     rn_last_evidence_digest := Some (i_evidence_digest item)\<rparr>) db)
                                  (insert_evidence (evidence_row item relative)))
                                run_id (st\<lparr>st_evidence := tree\<rparr>) db)))))"

section \<open>transition_run\<close>

text \<open>
  \<open>str.strip()\<close>: the encodings of the characters Python calls white space, taken from both
  ends. \<open>len\<close> counts code points, that is the bytes that start one.
\<close>

definition space_encodings :: "string list" where
  "space_encodings =
     map (\<lambda>n. [char_of n]) ([9, 10, 11, 12, 13, 28, 29, 30, 31, 32] :: nat list)
     @ map utf8_of ([0x85, 0xA0, 0x1680] @ [0x2000..<0x200B] @ [0x2028, 0x2029, 0x202F, 0x205F, 0x3000])"

fun strip_left :: "nat \<Rightarrow> string list \<Rightarrow> string \<Rightarrow> string" where
  "strip_left 0 spaces s = s"
| "strip_left (Suc n) spaces s =
     (case filter (\<lambda>w. starts_with w s) spaces of
        [] \<Rightarrow> s
      | w # _ \<Rightarrow> strip_left n spaces (drop (length w) s))"

definition py_strip :: "string \<Rightarrow> string" where
  "py_strip s =
     (let l = strip_left (length s) space_encodings s in
      rev (strip_left (length l) (map rev space_encodings) (rev l)))"

definition char_count :: "string \<Rightarrow> nat" where
  "char_count s = length (filter (\<lambda>c. \<not> byte_in 0x80 0xBF c) s)"

definition transition_payload :: "run_status \<Rightarrow> run_status \<Rightarrow> string \<Rightarrow> doc" where
  "transition_payload current target reason =
     [(''from_status'', JStr (run_status_value current)),
      (''to_status'', JStr (run_status_value target)), (''reason'', JStr reason)]"

definition transition_operation :: "run_status \<Rightarrow> string" where
  "transition_operation target = ''run.transition.'' @ run_status_value target"

definition transition_run ::
  "ledger_env \<Rightarrow> run_call \<Rightarrow> string \<Rightarrow> run_status \<Rightarrow> string \<Rightarrow> steward_state \<Rightarrow>
     steward_state \<times> run_record result" where
  "transition_run env call run_id target raw_reason st =
     (let reason = py_strip raw_reason in
      if reason = [] \<or> 1000 < char_count reason
      then (st, raise InvalidRunTransitionError ''reason must contain 1-1000 non-whitespace characters'')
      else
        (case open_initialized st of
           Inl e \<Rightarrow> (st, Inl e)
         | Inr db \<Rightarrow>
             if c_db_fault call = Some Busy_Begin
             then (st, raise StorageBusyError ''storage write lock timed out'')
             else
               (case find_run run_id db of
                  None \<Rightarrow> (st, raise RunNotFoundError (''run not found: '' @ run_id))
                | Some current \<Rightarrow>
                    if rn_status current = CANCELLED \<and> target = CANCELLED then (st, Inr current)
                    else
                      (case bind_result (validate_transition (rn_status current) target) (\<lambda>_.
                           evidence_of env call current ''run.state_transition''
                             (transition_payload (rn_status current) target reason) 1) of
                         Inl e \<Rightarrow> (st, Inl e)
                       | Inr item \<Rightarrow>
                           (case publish env call (transition_operation target) (st_evidence st) item of
                              (tree, Inl e) \<Rightarrow> (st\<lparr>st_evidence := tree\<rparr>, Inl e)
                            | (tree, Inr relative) \<Rightarrow>
                                commit_rows call (transition_operation target)
                                  (\<lambda>db. bind_result (insert_evidence (evidence_row item relative) db)
                                    (\<lambda>db'. Inr (update_run run_id
                                      (\<lambda>r. r\<lparr>rn_status := target, rn_updated_at := i_created_at item,
                                        rn_last_sequence := i_sequence item,
                                        rn_last_evidence_digest := Some (i_evidence_digest item),
                                        rn_terminal := is_terminal target\<rparr>) db')))
                                  run_id (st\<lparr>st_evidence := tree\<rparr>) db)))))"

section \<open>Queries\<close>

text \<open>\<open>ORDER BY created_at DESC, run_id ASC LIMIT\<close>: two stable sorts, the second reversed.\<close>

definition list_runs ::
  "steward_state \<Rightarrow> run_status option \<Rightarrow> string option \<Rightarrow> int \<Rightarrow> run_record list result" where
  "list_runs st status run_kind limit =
     (if \<not> (1 \<le> limit \<and> limit \<le> 1000)
      then raise RunKindError ''limit must be between 1 and 1000''
      else
        bind_result (open_initialized st) (\<lambda>db.
          let selected = filter (\<lambda>r. (case status of None \<Rightarrow> True | Some s \<Rightarrow> rn_status r = s)
                \<and> (case run_kind of None \<Rightarrow> True | Some k \<Rightarrow> k = [] \<or> rn_run_kind r = k)) (db_runs db) in
          Inr (take (nat limit)
            (rev (sort_key rn_created_at (rev (sort_key rn_run_id selected)))))))"

definition evidence_records :: "steward_state \<Rightarrow> string \<Rightarrow> evidence_record list result" where
  "evidence_records st run_id =
     bind_result (open_initialized st) (\<lambda>db.
       Inr (sort_key er_sequence (filter (\<lambda>e. er_run_id e = run_id) (db_evidence db))))"

end
