(* ===== verification/Python_Values.thy ===== *)
theory Python_Values
  imports Evidence_Files
begin

text \<open>
  What Python does with parsed values where the code relies on it: equality across number types,
  hashing, and \<open>str\<close>.
\<close>

text \<open>
  Equality of JSON values in Python: \<open>True == 1 == 1.0\<close>, and objects compare without order.
  A float whose \<open>repr\<close> is an integer followed by \<open>.0\<close> is that integer.
\<close>

definition float_int :: "string \<Rightarrow> int option" where
  "float_int r =
     (if ends_with ''.0'' r then
        (case scan_number (\<lambda>s. s) (take (length r - 2) r) of
           Inr (JInt n, []) \<Rightarrow> Some n
         | _ \<Rightarrow> None)
      else None)"

fun py_norm :: "json \<Rightarrow> json" where
  "py_norm (JBool b) = JInt (if b then 1 else 0)"
| "py_norm (JFloat r) = (case float_int r of Some n \<Rightarrow> JInt n | None \<Rightarrow> JFloat r)"
| "py_norm (JArr vs) = JArr (map py_norm vs)"
| "py_norm (JObj kvs) = JObj (sort_key fst (map (\<lambda>(k, v). (k, py_norm v)) kvs))"
| "py_norm v = v"

definition py_eq :: "json \<Rightarrow> json \<Rightarrow> bool" where
  "py_eq v w \<longleftrightarrow> py_norm v = py_norm w"

text \<open>Lists and objects cannot be looked up in a set: \<open>TypeError\<close>.\<close>

definition hashable :: "json \<Rightarrow> bool" where
  "hashable v \<longleftrightarrow> (case v of JArr _ \<Rightarrow> False | JObj _ \<Rightarrow> False | _ \<Rightarrow> True)"

definition in_strings :: "json \<Rightarrow> string list \<Rightarrow> bool result" where
  "in_strings v ss =
     (if \<not> hashable v then Inl PyTypeError
      else Inr (case v of JStr s \<Rightarrow> s \<in> set ss | _ \<Rightarrow> False))"

text \<open>\<open>str(value)\<close> of a hashable value.\<close>

definition py_str :: "json \<Rightarrow> string" where
  "py_str v =
     (case v of
        JNull \<Rightarrow> ''None''
      | JBool b \<Rightarrow> if b then ''True'' else ''False''
      | JInt i \<Rightarrow> int_repr i
      | JFloat r \<Rightarrow> r
      | JStr s \<Rightarrow> s
      | _ \<Rightarrow> [])"

text \<open>\<open>', '.join\<close>.\<close>

fun comma_join :: "string list \<Rightarrow> string" where
  "comma_join [] = []"
| "comma_join [s] = s"
| "comma_join (s # rest) = s @ '', '' @ comma_join rest"

definition as_object :: "json \<Rightarrow> doc option" where
  "as_object v = (case v of JObj d \<Rightarrow> Some d | _ \<Rightarrow> None)"

end
