(* ===== verification/Ledger_Verify.thy ===== *)
theory Ledger_Verify
  imports Run_Ledger Python_Values
begin

text \<open>
  Ledger verification and the rebuild of the derived tables from \<open>storage.py\<close>:
  \<open>_verify_run\<close> reads the documents of one Run, follows their digest chain and their
  transitions, and compares the result with the Run's row; \<open>rebuild_index\<close> replays verified
  ledgers into fresh tables.
\<close>

section \<open>One document\<close>

definition required_keys :: "string list" where
  "required_keys =
     [''schema_version'', ''evidence_id'', ''evidence_type'', ''run_id'', ''sequence'', ''created_at'',
      ''tool_version'', ''config_digest'', ''policy_digest'', ''provider_versions'',
      ''previous_evidence_digest'', ''payload'', ''evidence_digest'']"

definition known_types :: "string list" where
  "known_types =
     [''run.created'', ''run.state_transition'', ''filesystem.snapshot'', ''filesystem.snapshot_diff'']"

definition snapshot_evidence_schema_version :: "json \<Rightarrow> int option" where
  "snapshot_evidence_schema_version evidence =
     (case evidence of
        JObj d \<Rightarrow> (case dget ''schema_version'' d of JInt v \<Rightarrow> if 0 < v then Some v else None | _ \<Rightarrow> None)
      | _ \<Rightarrow> None)"

text \<open>
  The identity and time check: \<open>Inr False\<close> is an entry in the error list; a value without
  the methods that are called on it raises.
\<close>

definition identity_ok :: "ledger_env \<Rightarrow> doc \<Rightarrow> bool result" where
  "identity_ok env d =
     (case dget ''created_at'' d of
        JStr t \<Rightarrow>
          (case parse_time env t of
             None \<Rightarrow> Inr False
           | Some zone \<Rightarrow>
               (case dget ''evidence_id'' d of
                  JStr u \<Rightarrow> Inr (zone \<and> uuid4_ok env u)
                | JNull \<Rightarrow> Inr False
                | _ \<Rightarrow> Inl PyAttributeError))
      | _ \<Rightarrow> Inl PyAttributeError)"

text \<open>
  The checks that end with \<open>continue\<close>, in their order: \<open>Inr (Inl e)\<close> appends the
  error, \<open>Inr (Inr d)\<close> goes on with the document.
\<close>

definition admit_document ::
  "ledger_env \<Rightarrow> string \<Rightarrow> int \<Rightarrow> string \<Rightarrow> json \<Rightarrow> (string + doc) result" where
  "admit_document env run_id expected name item =
     (case as_object item of
        None \<Rightarrow> Inr (Inl (''sequence/path mismatch: '' @ name))
      | Some d \<Rightarrow>
          if \<not> py_eq (dget ''run_id'' d) (JStr run_id)
              \<or> \<not> py_eq (dget ''sequence'' d) (JInt expected)
              \<or> take 8 name \<noteq> format_08d expected
          then Inr (Inl (''sequence/path mismatch: '' @ name))
          else
            let version = snapshot_evidence_schema_version item in
            if set (map fst d) \<noteq> set required_keys \<or> version = None
            then Inr (Inl (''invalid evidence schema: '' @ name))
            else if version \<noteq> Some 1 \<and> version \<noteq> Some 2
            then Inr (Inl (''unsupported evidence schema version: '' @ name))
            else if version = Some 2 \<and> dget ''evidence_type'' d \<noteq> JStr ''filesystem.snapshot''
            then Inr (Inl (''invalid evidence schema: '' @ name))
            else
              bind_result (in_strings (dget ''evidence_type'' d) known_types) (\<lambda>known.
                if \<not> known then Inr (Inl (''unknown evidence type: '' @ name))
                else
                  bind_result (filename expected (py_str (dget ''evidence_type'' d))) (\<lambda>own_name.
                    if name \<noteq> own_name then Inr (Inl (''evidence type/path mismatch: '' @ name))
                    else
                      bind_result (identity_ok env d) (\<lambda>identity.
                        if \<not> identity then Inr (Inl (''invalid evidence identity/time: '' @ name))
                        else if as_object (dget ''payload'' d) = None
                            \<or> as_object (dget ''provider_versions'' d) = None
                        then Inr (Inl (''invalid evidence payload: '' @ name))
                        else Inr (Inr d)))))"

section \<open>The chain\<close>

record chain_state =
  ch_errors :: "string list"
  ch_previous :: json
  ch_status :: run_status
  ch_seen_ids :: "string list"
  ch_seen_digests :: "string list"

definition initial_chain :: "string list \<Rightarrow> chain_state" where
  "initial_chain errors =
     \<lparr>ch_errors = errors, ch_previous = JNull, ch_status = CREATED, ch_seen_ids = [],
      ch_seen_digests = []\<rparr>"

definition add_error :: "bool \<Rightarrow> string \<Rightarrow> chain_state \<Rightarrow> chain_state" where
  "add_error b e ch = (if b then ch\<lparr>ch_errors := ch_errors ch @ [e]\<rparr> else ch)"

text \<open>The digest link: \<open>or\<close> does not compute the digest when the predecessor is wrong.\<close>

definition link_broken :: "ledger_env \<Rightarrow> doc \<Rightarrow> json \<Rightarrow> bool result" where
  "link_broken env d previous =
     (if \<not> py_eq (dget ''previous_evidence_digest'' d) previous then Inr True
      else bind_result (digest env d) (\<lambda>own. Inr (dget ''evidence_digest'' d \<noteq> JStr own)))"

text \<open>\<open>RunStatus(payload.get("to_status"))\<close>\<close>

definition target_of :: "doc \<Rightarrow> run_status result" where
  "target_of payload =
     (case dget ''to_status'' payload of JStr s \<Rightarrow> run_status_of s | _ \<Rightarrow> Inl PyValueError)"

definition follow_transition :: "string \<Rightarrow> doc \<Rightarrow> chain_state \<Rightarrow> chain_state result" where
  "follow_transition name payload ch =
     (let ch1 = add_error (dget ''from_status'' payload \<noteq> JStr (run_status_value (ch_status ch)))
            (''transition source mismatch: '' @ name) ch;
          ch2 = add_error (bind_result (target_of payload) (validate_transition (ch_status ch)) \<noteq> Inr ())
            (''invalid transition: '' @ name) ch1 in
      if \<not> hashable (dget ''to_status'' payload) then Inl PyTypeError
      else Inr (case target_of payload of Inr target \<Rightarrow> ch2\<lparr>ch_status := target\<rparr> | Inl _ \<Rightarrow> ch2))"

definition chain_document ::
  "ledger_env \<Rightarrow> int \<Rightarrow> string \<Rightarrow> doc \<Rightarrow> chain_state \<Rightarrow> chain_state result" where
  "chain_document env expected name d ch =
     bind_result (link_broken env d (ch_previous ch)) (\<lambda>broken.
       let ch1 = add_error broken (''digest chain invalid: '' @ name) ch in
       bind_result (in_strings (dget ''evidence_id'' d) (ch_seen_ids ch)) (\<lambda>id_seen.
       bind_result (if id_seen then Inr True
           else in_strings (dget ''evidence_digest'' d) (ch_seen_digests ch)) (\<lambda>seen.
         let ch2 = (add_error seen (''duplicate evidence identity: '' @ name) ch1)
               \<lparr>ch_seen_ids := py_str (dget ''evidence_id'' d) # ch_seen_ids ch,
                ch_seen_digests := py_str (dget ''evidence_digest'' d) # ch_seen_digests ch,
                ch_previous := dget ''evidence_digest'' d\<rparr>;
             payload = the (as_object (dget ''payload'' d)) in
         if expected = 1 then
           Inr (add_error (dget ''evidence_type'' d \<noteq> JStr ''run.created''
               \<or> dget ''initial_status'' payload \<noteq> JStr ''created'') ''invalid run.created record'' ch2)
         else if dget ''evidence_type'' d = JStr ''run.state_transition''
         then follow_transition name payload ch2
         else Inr ch2)))"

fun verify_documents ::
  "ledger_env \<Rightarrow> string \<Rightarrow> int \<Rightarrow> (string \<times> json) list \<Rightarrow> chain_state \<Rightarrow> chain_state result" where
  "verify_documents env run_id expected [] ch = Inr ch"
| "verify_documents env run_id expected ((name, item) # rest) ch =
     bind_result (admit_document env run_id expected name item) (\<lambda>admitted.
       (case admitted of
          Inl e \<Rightarrow> verify_documents env run_id (expected + 1) rest (add_error True e ch)
        | Inr d \<Rightarrow>
            bind_result (chain_document env expected name d ch)
              (verify_documents env run_id (expected + 1) rest)))"

section \<open>One Run\<close>

record verification_result =
  vr_run_id :: string
  vr_status :: string
  vr_ledger_valid :: bool
  vr_index_consistent :: bool
  vr_errors :: "string list"
  vr_evidence_count :: int

text \<open>
  The comparison with the row; a table that cannot be opened is inconsistent, and a row that is
  ahead of the files makes the ledger itself incomplete.
\<close>

definition check_index ::
  "index_db option \<Rightarrow> string \<Rightarrow> int \<Rightarrow> chain_state \<Rightarrow> bool \<times> string list \<times> bool" where
  "check_index index run_id evidence_count ch =
     (case index of
        None \<Rightarrow> (False, ch_errors ch, True)
      | Some db \<Rightarrow>
          (case find_run run_id db of
             None \<Rightarrow> (False, ch_errors ch, True)
           | Some row \<Rightarrow>
               let consistent = rn_status row = ch_status ch \<and> rn_last_sequence row = evidence_count
                 \<and> json_option (rn_last_evidence_digest row) = ch_previous ch in
               if evidence_count < rn_last_sequence row
               then (consistent,
                 ch_errors ch @ [''evidence chain is incomplete relative to indexed sequence''], False)
               else (consistent, ch_errors ch, True)))"

definition verify_run ::
  "ledger_env \<Rightarrow> steward_state \<Rightarrow> string \<Rightarrow> verification_result result" where
  "verify_run env st run_id =
     bind_result (load_run_files env (st_evidence st) run_id) (\<lambda>(files, errors).
     bind_result
       (if errors = [] then verify_documents env run_id 1 files (initial_chain [])
        else Inr (initial_chain errors)) (\<lambda>ch.
       let valid = files \<noteq> [] \<and> ch_errors ch = [];
           (consistent, errors', still_valid) =
             (if valid then check_index (st_index st) run_id (int (length files)) ch
              else (True, ch_errors ch, False)) in
       Inr \<lparr>vr_run_id = run_id,
         vr_status = (if still_valid \<and> consistent then ''VALID''
                      else if still_valid then ''INCOMPLETE'' else ''INVALID''),
         vr_ledger_valid = still_valid, vr_index_consistent = consistent, vr_errors = errors',
         vr_evidence_count = int (length files)\<rparr>))"

text \<open>\<open>_verification_run_ids\<close> without a given Run: the directories of \<open>runs/\<close>, sorted.\<close>

definition verification_run_ids :: "evidence_tree \<Rightarrow> string list" where
  "verification_run_ids tree =
     sorted_set (map fst (filter (\<lambda>(_, node). case node of RunDir False _ \<Rightarrow> True | _ \<Rightarrow> False) tree))"

end
