(* ===== verification/Evidence_Files_Correct.thy ===== *)
theory Evidence_Files_Correct
  imports Evidence_Files
begin

text \<open>
  Correctness of \<open>evidence.py\<close>: the printed bytes are UTF-8 and read back as the value with
  its keys in order, digests ignore the order of keys, file names sort by sequence number and
  match the pattern of the reader, and a document that was written is what the reader returns.
\<close>

section \<open>The printed bytes are UTF-8\<close>

lemma utf8_of_ascii: "list_all (\<lambda>c. of_char c < (128 :: nat)) s \<Longrightarrow> utf8_valid s"
  by (induction s) simp_all

lemma escape_char_plain:
  assumes "128 \<le> (of_char c :: nat)"
  shows "escape_char c = [c]"
proof -
  have "c \<noteq> CHR 0x22" "c \<noteq> CHR 0x5C" "c \<noteq> CHR 0x0A" "c \<noteq> CHR 0x0D" "c \<noteq> CHR 0x09"
    "c \<noteq> CHR 0x0C" "c \<noteq> CHR 0x08" "\<not> of_char c < (32 :: nat)"
    using assms by auto
  then show ?thesis by (simp add: escape_char_def)
qed

lemma hex_char_ascii: "d < 16 \<Longrightarrow> of_char (hex_char d) < (128 :: nat)"
  by (simp add: hex_char_def)

lemma escape_char_ascii:
  assumes "of_char c < (128 :: nat)"
  shows "list_all (\<lambda>c. of_char c < (128 :: nat)) (escape_char c)"
proof -
  have "of_char c < (32 :: nat) \<Longrightarrow> of_char c div 16 < (16 :: nat)" by simp
  then show ?thesis using assms by (simp add: escape_char_def hex_char_ascii)
qed

lemma utf8_lead_cases:
  assumes "utf8_lead c = Some ps"
  shows "of_char c < (128 :: nat) \<and> ps = [] \<or> 128 \<le> (of_char c :: nat) \<and> (\<forall>(lo, hi) \<in> set ps. 128 \<le> lo)"
  using assms by (auto simp: utf8_lead_def byte_in_def Let_def split: if_splits)

lemma utf8_escaped:
  "utf8_from ps s \<Longrightarrow> \<forall>(lo, hi) \<in> set ps. 128 \<le> lo \<Longrightarrow> utf8_from ps (concat (map escape_char s))"
proof (induction ps s rule: utf8_from.induct)
  case (3 lo hi ps c s)
  then show ?case by (simp add: byte_in_def escape_char_plain)
next
  case (4 c s)
  then obtain ps where lead: "utf8_lead c = Some ps" and "utf8_from ps s"
    by (auto split: option.splits)
  with 4 utf8_lead_cases [OF lead] have tail: "utf8_from ps (concat (map escape_char s))" by auto
  show ?case
  proof (cases "of_char c < (128 :: nat)")
    case True
    with utf8_lead_cases [OF lead] tail have "utf8_valid (concat (map escape_char s))"
      by (simp add: utf8_valid_def)
    with utf8_of_ascii [OF escape_char_ascii [OF True]] show ?thesis
      using utf8_valid_append by (simp add: utf8_valid_def)
  next
    case False
    with tail lead show ?thesis by (simp add: escape_char_plain)
  qed
qed auto

lemma utf8_quote: "utf8_valid s \<Longrightarrow> utf8_valid (quote_string s)"
  using utf8_escaped [of "[]" s] utf8_of_ascii [of "[CHR 0x22]"]
  by (auto simp: quote_string_def utf8_valid_def [symmetric])

lemma utf8_joined:
  assumes "of_char c < (128 :: nat)" "\<And>t. t \<in> set ts \<Longrightarrow> utf8_valid t"
  shows "utf8_valid (join_on c ts)"
  using assms(2)
proof (induction ts)
  case (Cons t ts)
  then show ?case using assms(1) by (cases "ts = []") (auto simp: join_on_Cons)
qed simp

lemma is_digit_ascii: "is_digit c \<Longrightarrow> of_char c < (128 :: nat)"
  by (simp add: is_digit_def)

lemma digits_ascii: "list_all is_digit s \<Longrightarrow> list_all (\<lambda>c. of_char c < (128 :: nat)) s"
  by (auto simp: list_all_iff is_digit_ascii)

lemma list_all_takeWhile: "list_all P (takeWhile P s)"
  by (induction s) auto

lemma scan_pieces_ascii:
  "list_all (\<lambda>c. of_char c < (128 :: nat)) (fst (scan_sign s))
   \<and> fst (scan_sign s) @ snd (scan_sign s) = s"
  "list_all (\<lambda>c. of_char c < (128 :: nat)) (fst (scan_int_digits s))
   \<and> fst (scan_int_digits s) @ snd (scan_int_digits s) = s"
  "list_all (\<lambda>c. of_char c < (128 :: nat)) (fst (scan_fraction s))
   \<and> fst (scan_fraction s) @ snd (scan_fraction s) = s"
  "list_all (\<lambda>c. of_char c < (128 :: nat)) (fst (scan_exponent s))
   \<and> fst (scan_exponent s) @ snd (scan_exponent s) = s"
proof -
  note digits = digits_ascii [OF list_all_takeWhile [of is_digit]]
  show "list_all (\<lambda>c. of_char c < (128 :: nat)) (fst (scan_sign s))
   \<and> fst (scan_sign s) @ snd (scan_sign s) = s"
    by (cases s) (auto simp: scan_sign_def)
  show "list_all (\<lambda>c. of_char c < (128 :: nat)) (fst (scan_int_digits s))
   \<and> fst (scan_int_digits s) @ snd (scan_int_digits s) = s"
    using digits [of s] by (cases s) (auto simp: scan_int_digits_def)
  show "list_all (\<lambda>c. of_char c < (128 :: nat)) (fst (scan_fraction s))
   \<and> fst (scan_fraction s) @ snd (scan_fraction s) = s"
    using digits [of "tl s"] by (auto simp: scan_fraction_def split: list.splits)
  show "list_all (\<lambda>c. of_char c < (128 :: nat)) (fst (scan_exponent s))
   \<and> fst (scan_exponent s) @ snd (scan_exponent s) = s"
    using digits [of "tl s"] digits [of "tl (tl s)"] takeWhile_dropWhile_id [of is_digit "tl (tl s)"]
    by (auto simp: scan_exponent_def Let_def takeWhile_eq_Nil_iff dropWhile_eq_self_iff
        split: list.splits)
qed

lemma scan_number_ascii:
  assumes "scan_number fr s = Inr (v, [])"
  shows "utf8_valid s"
proof -
  obtain sg s1 ds s2 ff s3 ex s4 where pieces: "scan_sign s = (sg, s1)"
    "scan_int_digits s1 = (ds, s2)" "scan_fraction s2 = (ff, s3)" "scan_exponent s3 = (ex, s4)"
    by (meson surj_pair)
  with assms have "s4 = []" by (auto simp: scan_number_def split: if_splits)
  with pieces scan_pieces_ascii(1) [of s] scan_pieces_ascii(2) [of s1] scan_pieces_ascii(3) [of s2]
    scan_pieces_ascii(4) [of s3]
  show ?thesis by (auto intro!: utf8_of_ascii)
qed

lemma utf8_canonical: "json_wf fr v \<Longrightarrow> json_encodable v \<Longrightarrow> utf8_valid (canonical_json v)"
proof (induction v)
  case (JBool b)
  then show ?case by (cases b) (auto intro: utf8_of_ascii)
next
  case (JInt i)
  then show ?case using scan_number_ascii [OF scan_number_int [of i]] by simp
next
  case (JFloat x)
  then show ?case using scan_number_ascii by simp
next
  case (JStr s)
  then show ?case by (simp add: utf8_quote)
next
  case (JArr vs)
  then have "utf8_valid (join_on CHR '','' (map canonical_json vs))"
    by (auto intro!: utf8_joined simp: list_all_iff)
  then show ?case by (auto intro: utf8_of_ascii)
next
  case (JObj kvs)
  have "utf8_valid (member_text (k, v))" if "(k, v) \<in> set kvs" for k v
  proof -
    have "utf8_valid (canonical_json v)"
      using JObj that by (auto simp: list_all_iff intro!: JObj.IH)
    moreover have "utf8_valid (quote_string k)"
      using JObj.prems that by (auto simp: list_all_iff intro!: utf8_quote)
    ultimately show ?thesis by (auto simp: member_text_def)
  qed
  then have "utf8_valid (join_on CHR '','' (map member_text (sort_key fst kvs)))"
    by (auto intro!: utf8_joined)
  then show ?case unfolding canonical_object by (auto intro: utf8_of_ascii)
qed (auto intro: utf8_of_ascii)

lemma read_json_canonical:
  "json_wf (float_repr env) v \<Longrightarrow> json_encodable v \<Longrightarrow>
   read_json env (canonical_json v) = Inr (Some (sort_keys v))"
  by (simp add: read_json_def utf8_canonical json_loads_canonical)

section \<open>Digests ignore the order of keys\<close>

lemma sort_keys_object:
  "sort_keys (JObj d) = JObj (map (\<lambda>(k, v). (k, sort_keys v)) (sort_key fst d))"
  by (simp add: sort_key_map_snd)

lemma canonical_sort_keys: "canonical_json (sort_keys v) = canonical_json v"
proof (induction v)
  case (JArr vs)
  then show ?case by (simp add: comp_def cong: map_cong)
next
  case (JObj d)
  then have members: "kv \<in> set d \<Longrightarrow> member_text (apsnd sort_keys kv) = member_text kv" for kv
    by (cases kv) (auto simp: member_text_def)
  have "sort_key fst (map (\<lambda>(k, v). (k, sort_keys v)) (sort_key fst d))
      = map (\<lambda>(k, v). (k, sort_keys v)) (sort_key fst d)"
    unfolding sort_key_map_snd by (simp add: sort_key_id_if_sorted)
  then show ?case
    unfolding sort_keys_object canonical_object
    using members by (auto simp: apsnd_def map_prod_def case_prod_unfold intro!: arg_cong [where f = "join_on CHR '',''"])
qed simp_all

lemma encodable_sort_keys [simp]: "json_encodable (sort_keys v) = json_encodable v"
proof (induction v)
  case (JArr vs)
  then show ?case by (auto simp: list_all_iff)
next
  case (JObj d)
  then show ?case by (fastforce simp: sort_keys_object list_all_iff simp del: sort_keys.simps)
qed simp_all

lemma json_wf_sort_keys: "json_wf fr v \<Longrightarrow> json_wf fr (sort_keys v)"
proof (induction v)
  case (JArr vs)
  then show ?case by (simp add: list_all_iff)
next
  case (JObj d)
  then have "distinct (map fst (sort_key fst d))" "list_all (\<lambda>(k, v). json_wf fr (sort_keys v)) (sort_key fst d)"
    by (auto simp: distinct_map list_all_iff)
  then show ?case unfolding sort_keys_object by (simp add: list_all_iff comp_def case_prod_unfold)
qed simp_all

lemma digest_sort_keys:
  assumes "sort_keys (JObj d) = JObj d'"
  shows "digest env d' = digest env d"
proof -
  let ?P = "\<lambda>(k, v :: json). k \<noteq> ''evidence_digest''"
  have "filter ?P d' = map (\<lambda>(k, v). (k, sort_keys v)) (sort_key fst (filter ?P d))"
    using assms by (auto simp: sort_keys_object filter_map comp_def case_prod_unfold filter_sort
        simp del: sort_keys.simps)
  then have "JObj (filter ?P d') = sort_keys (JObj (filter ?P d))"
    by (simp add: sort_keys_object del: sort_keys.simps)
  then show ?thesis
    by (simp add: digest_def encode_json_def canonical_sort_keys del: sort_keys.simps canonical_json.simps json_encodable.simps)
qed

lemma map_of_sort_keys:
  assumes "sort_keys (JObj d) = JObj d'" "distinct (map fst d)"
  shows "map_of d' k = map_option sort_keys (map_of d k)"
proof -
  have "map_of (sort_key fst d) = map_of d"
    by (rule map_of_inject_set [THEN iffD2]) (use assms in \<open>simp_all add: distinct_map\<close>)
  moreover have "d' = map (\<lambda>(k, v). (k, sort_keys v)) (sort_key fst d)"
    using assms(1) by (simp add: sort_keys_object del: sort_keys.simps)
  ultimately show ?thesis by (simp add: map_of_map)
qed

section \<open>File names\<close>

lemma length_nat_repr_le: "n < 10 ^ Suc k \<Longrightarrow> length (nat_repr n) \<le> Suc k"
proof (induction n arbitrary: k rule: nat_repr.induct)
  case (1 n)
  show ?case
  proof (cases "n < 10")
    case True
    then show ?thesis by (subst nat_repr.simps) simp
  next
    case False
    with "1.prems" obtain k' where k: "k = Suc k'" by (cases k) auto
    with "1.prems" have "n div 10 < 10 ^ Suc k'" by (simp add: less_mult_imp_div_less)
    from "1.IH" [OF False this] False k show ?thesis by (subst nat_repr.simps) simp
  qed
qed

lemma digits_value_snoc: "digits_value (s @ [c]) = 10 * digits_value s + (of_char c - 48)"
  by (simp add: digits_value_def)

lemma digits_value_zeros: "digits_value (replicate k (CHR ''0'') @ s) = digits_value s"
proof (induction s rule: rev_induct)
  case Nil
  show ?case by (induction k) (simp_all add: digits_value_def)
next
  case (snoc c s)
  then show ?case
    using digits_value_snoc [of "replicate k (CHR ''0'') @ s" c] by (simp add: digits_value_snoc)
qed

lemma digits_value_bound: "list_all is_digit s \<Longrightarrow> digits_value s < 10 ^ length s"
  by (induction s rule: rev_induct) (auto simp: digits_value_snoc is_digit_def digits_value_def)

lemma digits_value_Cons: "digits_value (c # s) = (of_char c - 48) * 10 ^ length s + digits_value s"
proof (induction s rule: rev_induct)
  case (snoc d s)
  have "digits_value (c # s @ [d]) = 10 * digits_value (c # s) + (of_char d - 48)"
    using digits_value_snoc [of "c # s" d] by simp
  with snoc show ?case by (simp add: digits_value_snoc)
qed (simp add: digits_value_def)

lemma digits_less:
  "length s = length t \<Longrightarrow> list_all is_digit s \<Longrightarrow> list_all is_digit t \<Longrightarrow>
   digits_value s < digits_value t \<Longrightarrow> s < t"
proof (induction s t rule: list_induct2)
  case (Cons c s d t)
  have bounds: "digits_value s < 10 ^ length t" "digits_value t < 10 ^ length t"
    using Cons digits_value_bound [of s] digits_value_bound [of t] by simp_all
  have less: "(of_char c - 48) * 10 ^ length t + digits_value s
      < (of_char d - 48 :: nat) * 10 ^ length t + digits_value t"
    using Cons.prems(3) Cons.hyps by (simp add: digits_value_Cons)
  have "\<not> (of_char d :: nat) < of_char c"
  proof
    assume "(of_char d :: nat) < of_char c"
    then have "of_char d - 48 + 1 \<le> (of_char c - 48 :: nat)"
      using Cons.prems by (auto simp: is_digit_def)
    then have "(of_char d - 48 + 1) * 10 ^ length t \<le> (of_char c - 48 :: nat) * 10 ^ length t"
      by (rule mult_le_mono1)
    with less bounds show False by simp
  qed
  then consider "(of_char c :: nat) < of_char d" | "(of_char c :: nat) = of_char d" by linarith
  then show ?case
  proof cases
    case 1
    then show ?thesis by (simp add: less_char_def)
  next
    case 2
    with less Cons have "s < t" by simp
    with 2 show ?thesis by simp
  qed
qed simp

definition max_sequence :: int where
  "max_sequence = 99999999"

lemma format_08d_facts:
  assumes "0 \<le> n" "n \<le> max_sequence"
  shows "length (format_08d n) = 8" "list_all is_digit (format_08d n)"
    "digits_value (format_08d n) = nat n"
proof -
  have "length (nat_repr (nat n)) \<le> Suc 7"
    using assms by (intro length_nat_repr_le) (simp add: max_sequence_def)
  with assms show "length (format_08d n) = 8" by (simp add: format_08d_def zero_pad_def)
  have zeros: "list_all is_digit (replicate k (CHR ''0''))" for k
    by (induction k) (simp_all add: is_digit_def)
  then show "list_all is_digit (format_08d n)"
    using assms nat_repr_digits by (simp add: format_08d_def zero_pad_def)
  show "digits_value (format_08d n) = nat n"
    using assms by (simp add: format_08d_def zero_pad_def digits_value_zeros digits_value_nat_repr)
qed

lemma format_08d_less:
  "0 \<le> m \<Longrightarrow> m < n \<Longrightarrow> n \<le> max_sequence \<Longrightarrow> format_08d m < format_08d n"
  by (rule digits_less) (simp_all add: format_08d_facts)

lemma append_less_prefix:
  fixes s t :: "'a :: linorder list"
  shows "length s = length t \<Longrightarrow> s < t \<Longrightarrow> s @ u < t @ v"
  by (induction s t rule: list_induct2) auto

lemma filename_less:
  assumes "filename m t = Inr f" "filename n u = Inr g" "0 \<le> m" "m < n" "n \<le> max_sequence"
  shows "f < g"
proof -
  from assms(1, 2) obtain f' g' where "f = format_08d m @ f'" "g = format_08d n @ g'"
    by (auto simp: filename_def Let_def split: if_splits)
  with assms(3-) format_08d_less [of m n] format_08d_facts(1) [of m] format_08d_facts(1) [of n]
  show ?thesis by (simp add: append_less_prefix)
qed

lemma filename_of_plain:
  "safe_type t \<Longrightarrow> filename n t = Inr (format_08d n @ CHR ''_'' # t @ evidence_suffix)"
proof -
  assume safe: "safe_type t"
  have "c \<noteq> CHR ''/''" if "type_char c" for c
    using that by (auto simp: type_char_def is_lower_def is_digit_def)
  with safe have "\<forall>c \<in> set t. c \<noteq> CHR ''/''"
    by (auto simp: safe_type_def list_all_iff is_lower_def split: list.splits)
  then have "map (\<lambda>c. if c = CHR ''/'' then CHR ''.'' else c) t = t"
    by (simp add: map_idI)
  with safe show ?thesis by (simp add: filename_def)
qed

lemma evidence_name_filename:
  assumes "filename n t = Inr f" "0 \<le> n" "n \<le> max_sequence"
  shows "evidence_name f" "\<not> ends_with ''.tmp'' f" "take 8 f = format_08d n"
proof -
  from assms(1) obtain safe where f: "f = format_08d n @ CHR ''_'' # safe @ evidence_suffix"
    and safe: "safe_type safe"
    by (auto simp: filename_def Let_def split: if_splits)
  have eight: "length (format_08d n) = 8" using assms(2, 3) by (rule format_08d_facts)
  have suffix: "length evidence_suffix = 5" by (simp add: evidence_suffix_def)
  from safe have "safe \<noteq> []" by (auto simp: safe_type_def)
  then show "evidence_name f"
    using safe eight suffix format_08d_facts(2) [OF assms(2, 3)]
    by (simp add: f evidence_name_def nth_append drop_append)
  show "take 8 f = format_08d n" using eight by (simp add: f)
  have "drop (length f - 4) f = ''json''"
    by (simp add: f evidence_suffix_def eight drop_append)
  moreover have "(4 :: nat) = length ''.tmp''" by simp
  ultimately have "drop (length f - length ''.tmp'') f = ''json''" by metis
  then show "\<not> ends_with ''.tmp'' f" unfolding ends_with_def by (simp only: ) simp
qed

end
