(* ===== verification/Ledger_Correct.thy ===== *)
theory Ledger_Correct
  imports Ledger_Verify Evidence_Files_Correct
begin

text \<open>
  Correctness of the Run ledger. A ledger is specified as an append-only list of items, grown by
  the inductive relation \<open>ledger\<close>. The files of a directory represent such a list,
  \<open>verify_run\<close> accepts every representation, and \<open>create_run\<close> and
  \<open>transition_run\<close> keep each directory a ledger whose table rows are at most its last item
  behind, whatever the disk, SQLite or a fault injector do to them.
\<close>

section \<open>Items\<close>

definition item_wf :: "ledger_env \<Rightarrow> string \<Rightarrow> int \<Rightarrow> string option \<Rightarrow> evidence_item \<Rightarrow> bool" where
  "item_wf env run_id n previous i \<longleftrightarrow>
     i_run_id i = run_id \<and> i_sequence i = n \<and> 1 \<le> n \<and> n \<le> max_sequence
     \<and> i_schema_version i = 1 \<and> i_previous_evidence_digest i = previous
     \<and> parse_time env (i_created_at i) = Some True \<and> uuid4_ok env (i_evidence_id i)
     \<and> digest env (item_body i) = Inr (i_evidence_digest i)
     \<and> json_wf (float_repr env) (JObj (item_doc i)) \<and> json_encodable (JObj (item_doc i))"

definition last_digest :: "evidence_item list \<Rightarrow> string option" where
  "last_digest items = (if items = [] then None else Some (i_evidence_digest (last items)))"

text \<open>The append-only ledger and the status it has reached.\<close>

inductive ledger :: "ledger_env \<Rightarrow> string \<Rightarrow> evidence_item list \<Rightarrow> run_status \<Rightarrow> bool"
  for env run_id where
  created:
    "ledger env run_id [i] CREATED"
    if "item_wf env run_id 1 None i" "i_evidence_type i = ''run.created''"
      "dget ''initial_status'' (i_payload i) = JStr ''created''"
| transition:
    "ledger env run_id (items @ [i]) target"
    if "ledger env run_id items current" "run_step current target"
      "item_wf env run_id (int (length items) + 1) (last_digest items) i"
      "i_evidence_type i = ''run.state_transition''"
      "i_payload i = transition_payload current target reason"
      "i_evidence_id i \<notin> i_evidence_id ` set items"
      "i_evidence_digest i \<notin> i_evidence_digest ` set items"

lemma ledger_not_Nil: "ledger env run_id items st \<Longrightarrow> items \<noteq> []"
  by (induction rule: ledger.induct) simp_all

lemma ledger_snocE:
  assumes "ledger env run_id (items @ [i]) st"
  shows "items = [] \<or> (\<exists>current. ledger env run_id items current \<and> i_evidence_type i = ''run.state_transition'')"
  using assms by (cases rule: ledger.cases) auto

lemma transition_payload_inject:
  "transition_payload st target reason = transition_payload st' target' reason' \<longleftrightarrow>
   st = st' \<and> target = target' \<and> reason = reason'"
  by (simp add: transition_payload_def)

lemma ledger_unique: "ledger env run_id items st \<Longrightarrow> ledger env run_id items st' \<Longrightarrow> st = st'"
proof (induction arbitrary: st' rule: ledger.induct)
  case (created i)
  from created.prems show ?case
  proof (cases rule: ledger.cases)
    case (transition items')
    then show ?thesis using ledger_not_Nil by fastforce
  qed simp
next
  case step: (transition items current target i reason)
  from step.prems show ?case
  proof (cases rule: ledger.cases)
    case (created i')
    with ledger_not_Nil [OF step.hyps(1)] show ?thesis by simp
  next
    case (transition items' current' i' reason')
    with step.hyps(5) show ?thesis by (simp add: transition_payload_inject)
  qed
qed

lemma ledger_item_wf:
  "ledger env run_id items st \<Longrightarrow> n < length items \<Longrightarrow>
   \<exists>previous. item_wf env run_id (int n + 1) previous (items ! n)"
  by (induction arbitrary: n rule: ledger.induct) (auto simp: nth_append less_Suc_eq)

lemma ledger_length: "ledger env run_id items st \<Longrightarrow> int (length items) \<le> max_sequence"
  by (induction rule: ledger.induct) (simp_all add: item_wf_def)

lemma ledger_type:
  "ledger env run_id items st \<Longrightarrow> i \<in> set items \<Longrightarrow>
   i_evidence_type i = ''run.created'' \<or> i_evidence_type i = ''run.state_transition''"
  by (induction rule: ledger.induct) auto

lemma ledger_reaches: "ledger env run_id items st \<Longrightarrow> run_reaches CREATED st"
  by (induction rule: ledger.induct) (rule run_reaches.here, rule run_reaches.onward)

section \<open>Documents\<close>

lemma item_doc_keys: "map fst (item_doc i) = required_keys"
  by (simp add: item_doc_def item_body_def required_keys_def)

lemma required_keys_distinct: "distinct required_keys"
  by (simp add: required_keys_def)

lemma digest_item_doc: "digest env (item_doc i) = digest env (item_body i)"
  by (simp add: digest_def item_doc_def item_body_def)

lemma dget_item_doc:
  "dget ''schema_version'' (item_doc i) = JInt (i_schema_version i)"
  "dget ''evidence_id'' (item_doc i) = JStr (i_evidence_id i)"
  "dget ''evidence_type'' (item_doc i) = JStr (i_evidence_type i)"
  "dget ''run_id'' (item_doc i) = JStr (i_run_id i)"
  "dget ''sequence'' (item_doc i) = JInt (i_sequence i)"
  "dget ''created_at'' (item_doc i) = JStr (i_created_at i)"
  "dget ''provider_versions'' (item_doc i) = JObj []"
  "dget ''previous_evidence_digest'' (item_doc i) = json_option (i_previous_evidence_digest i)"
  "dget ''payload'' (item_doc i) = JObj (i_payload i)"
  "dget ''evidence_digest'' (item_doc i) = JStr (i_evidence_digest i)"
  by (simp_all add: dget_def item_doc_def item_body_def)

lemma item_payload_keys: "item_wf env run_id n previous i \<Longrightarrow> distinct (map fst (i_payload i))"
  by (simp add: item_wf_def item_doc_def item_body_def)

text \<open>The document as it is read back: every key's value with its keys in order.\<close>

definition sorted_doc :: "doc \<Rightarrow> doc" where
  "sorted_doc d = sort_key fst (map (\<lambda>(k, v). (k, sort_keys v)) d)"

lemma sort_keys_sorted_doc: "sort_keys (JObj d) = JObj (sorted_doc d)"
  by (simp add: sorted_doc_def)

lemma sort_keys_option [simp]: "sort_keys (json_option x) = json_option x"
  by (simp add: json_option_def split: option.splits)

lemma dget_sorted_doc: "distinct (map fst d) \<Longrightarrow> dget k (sorted_doc d) = sort_keys (dget k d)"
  using map_of_sort_keys [OF sort_keys_sorted_doc, of d k]
  by (auto simp: dget_def split: option.splits)

lemma keys_sorted_doc: "set (map fst (sorted_doc d)) = set (map fst d)"
  by (force simp: sorted_doc_def)

lemma dget_sorted_item: "dget k (sorted_doc (item_doc i)) = sort_keys (dget k (item_doc i))"
  by (rule dget_sorted_doc) (simp add: item_doc_keys required_keys_distinct)

lemma sorted_item_facts:
  "digest env (sorted_doc (item_doc i)) = digest env (item_body i)"
  "set (map fst (sorted_doc (item_doc i))) = set required_keys"
  using digest_sort_keys [OF sort_keys_sorted_doc, of env "item_doc i"]
    keys_sorted_doc [of "item_doc i"]
  by (simp_all add: digest_item_doc item_doc_keys)

section \<open>Files\<close>

definition item_name :: "evidence_item \<Rightarrow> string" where
  "item_name i = format_08d (i_sequence i) @ CHR ''_'' # i_evidence_type i @ evidence_suffix"

definition file_of :: "evidence_item \<Rightarrow> string \<times> file_object" where
  "file_of i = (item_name i, RegularFile (canonical_json (JObj (item_doc i))))"

text \<open>A file that a writer killed before the rename leaves behind.\<close>

definition leftover :: "string \<times> file_object \<Rightarrow> bool" where
  "leftover f \<longleftrightarrow> ends_with ''.tmp'' (fst f) \<and> (\<exists>bytes. snd f = RegularFile bytes)"

definition represents :: "evidence_tree \<Rightarrow> string \<Rightarrow> evidence_item list \<Rightarrow> bool" where
  "represents tree run_id items \<longleftrightarrow>
     (\<exists>files. map_of tree run_id = Some (RunDir False files) \<and> dict_wf files
        \<and> sort_key fst (filter (\<lambda>f. \<not> leftover f) files) = map file_of items)"

definition ledger_types :: "string list" where
  "ledger_types = [''run.created'', ''run.state_transition'']"

lemma ledger_types_safe: "t \<in> set ledger_types \<Longrightarrow> safe_type t"
  by (auto simp: ledger_types_def safe_type_def type_char_def is_lower_def is_digit_def)

lemma item_filename:
  "i_evidence_type i \<in> set ledger_types \<Longrightarrow> filename (i_sequence i) (i_evidence_type i) = Inr (item_name i)"
  by (simp add: filename_of_plain ledger_types_safe item_name_def)

lemma load_files_leftovers:
  "load_files env files = load_files env (filter (\<lambda>f. \<not> leftover f) files)"
proof (induction files)
  case (Cons f files)
  obtain name obj where f: "f = (name, obj)" by force
  show ?case
  proof (cases "leftover f")
    case True
    then have "load_file env name obj = Inr Skipped"
      by (auto simp: f leftover_def load_file_def)
    with True Cons show ?thesis by (cases "load_files env (filter (\<lambda>f. \<not> leftover f) files)")
      (auto simp: f bind_result_def split: prod.splits)
  qed (use Cons in \<open>simp add: f\<close>)
qed simp

lemma load_file_item:
  assumes "item_wf env run_id n previous i" "i_evidence_type i \<in> set ledger_types"
  shows "load_file env (item_name i) (RegularFile (canonical_json (JObj (item_doc i))))
    = Inr (Loaded (JObj (sorted_doc (item_doc i))))"
proof -
  from assms(1) have bounds: "0 \<le> i_sequence i" "i_sequence i \<le> max_sequence"
    and doc: "json_wf (float_repr env) (JObj (item_doc i))" "json_encodable (JObj (item_doc i))"
    by (simp_all add: item_wf_def)
  from evidence_name_filename [OF item_filename [OF assms(2)] bounds] read_json_canonical [OF doc]
  show ?thesis
    by (simp add: load_file_def sort_keys_sorted_doc del: canonical_json.simps sort_keys.simps)
qed

definition loaded :: "evidence_item \<Rightarrow> string \<times> json" where
  "loaded i = (item_name i, JObj (sorted_doc (item_doc i)))"

lemma load_files_items:
  assumes "\<And>i. i \<in> set items \<Longrightarrow> i_evidence_type i \<in> set ledger_types \<and> (\<exists>n p. item_wf env run_id n p i)"
  shows "load_files env (map file_of items) = Inr (map loaded items, [])"
  using assms
proof (induction items)
  case (Cons i items)
  from Cons.prems [of i] obtain n p where i: "item_wf env run_id n p i" "i_evidence_type i \<in> set ledger_types"
    by auto
  have "load_files env (map file_of items) = Inr (map loaded items, [])"
    by (rule Cons.IH) (use Cons.prems in auto)
  then show ?case
    using load_file_item [OF i] unfolding file_of_def loaded_def by (simp del: canonical_json.simps)
qed simp

section \<open>Verification accepts a ledger\<close>

lemma ledger_types_of: "ledger env run_id items st \<Longrightarrow> i \<in> set items \<Longrightarrow> i_evidence_type i \<in> set ledger_types"
  using ledger_type by (fastforce simp: ledger_types_def)

lemma load_represented:
  assumes "represents tree run_id items" "ledger env run_id items st"
  shows "load_run_files env tree run_id = Inr (map loaded items, [])"
proof -
  from assms(1) obtain files where files: "map_of tree run_id = Some (RunDir False files)"
    "sort_key fst (filter (\<lambda>f. \<not> leftover f) files) = map file_of items"
    by (auto simp: represents_def)
  have "i_evidence_type i \<in> set ledger_types \<and> (\<exists>n p. item_wf env run_id n p i)" if "i \<in> set items" for i
    using ledger_types_of [OF assms(2) that] ledger_item_wf [OF assms(2)] that
    by (metis in_set_conv_nth)
  from load_files_items [OF this] show ?thesis
    using files by (simp add: load_run_files_def load_files_leftovers [of env "sort_key fst files"] filter_sort)
qed

lemma py_eq_refl [simp]: "py_eq v v"
  by (simp add: py_eq_def)

lemma admit_item:
  assumes "item_wf env run_id n previous i" "i_evidence_type i \<in> set ledger_types"
  shows "admit_document env run_id n (item_name i) (JObj (sorted_doc (item_doc i)))
    = Inr (Inr (sorted_doc (item_doc i)))"
proof -
  note i = assms(1) [unfolded item_wf_def]
  have bounds: "0 \<le> n" "n \<le> max_sequence" using i by simp_all
  have name: "take 8 (item_name i) = format_08d n"
    using i format_08d_facts(1) [OF bounds] by (simp add: item_name_def)
  have own_name: "filename n (i_evidence_type i) = Inr (item_name i)"
    using item_filename [OF assms(2)] i by simp
  have version: "snapshot_evidence_schema_version (JObj (sorted_doc (item_doc i))) = Some 1"
    using i by (simp add: snapshot_evidence_schema_version_def dget_sorted_item dget_item_doc)
  have known: "in_strings (JStr (i_evidence_type i)) known_types = Inr True"
    using assms(2) by (auto simp: in_strings_def hashable_def known_types_def ledger_types_def)
  have identity: "identity_ok env (sorted_doc (item_doc i)) = Inr True"
    using i by (simp add: identity_ok_def dget_sorted_item dget_item_doc)
  have identities: "py_eq (dget ''run_id'' (sorted_doc (item_doc i))) (JStr run_id)"
    "py_eq (dget ''sequence'' (sorted_doc (item_doc i))) (JInt n)"
    "dget ''evidence_type'' (sorted_doc (item_doc i)) = JStr (i_evidence_type i)"
    "as_object (dget ''payload'' (sorted_doc (item_doc i))) \<noteq> None"
    "as_object (dget ''provider_versions'' (sorted_doc (item_doc i))) \<noteq> None"
    using i by (simp_all add: dget_sorted_item dget_item_doc as_object_def)
  show ?thesis
    unfolding admit_document_def
    by (simp add: as_object_def [of "JObj _"] identities name version known py_str_def own_name identity
        Let_def sorted_item_facts [simplified set_map])
qed

definition chain_after :: "evidence_item list \<Rightarrow> run_status \<Rightarrow> chain_state" where
  "chain_after items st =
     \<lparr>ch_errors = [], ch_previous = json_option (last_digest items), ch_status = st,
      ch_seen_ids = rev (map i_evidence_id items), ch_seen_digests = rev (map i_evidence_digest items)\<rparr>"

lemma chain_after_Nil: "chain_after [] CREATED = initial_chain []"
  by (simp add: chain_after_def initial_chain_def last_digest_def json_option_def)

lemma link_item:
  assumes "item_wf env run_id n previous i"
  shows "link_broken env (sorted_doc (item_doc i)) (json_option previous) = Inr False"
  using assms
  by (simp add: item_wf_def link_broken_def dget_sorted_item dget_item_doc sorted_item_facts)

lemma in_strings_fresh: "s \<notin> set ss \<Longrightarrow> in_strings (JStr s) ss = Inr False"
  by (simp add: in_strings_def hashable_def)

text \<open>The common part of a document's check: its link holds and its identities are new.\<close>

lemma chain_fresh_item:
  assumes wf: "item_wf env run_id n (last_digest items) i"
    and fresh: "i_evidence_id i \<notin> i_evidence_id ` set items"
      "i_evidence_digest i \<notin> i_evidence_digest ` set items"
  shows "chain_document env n name (sorted_doc (item_doc i)) (chain_after items st) =
    (let ch = chain_after (items @ [i]) st; payload = sorted_doc (i_payload i) in
     if n = 1 then
       Inr (add_error (i_evidence_type i \<noteq> ''run.created'' \<or> dget ''initial_status'' payload \<noteq> JStr ''created'')
         ''invalid run.created record'' ch)
     else if i_evidence_type i = ''run.state_transition'' then follow_transition name payload ch
     else Inr ch)"
proof -
  have "in_strings (JStr (i_evidence_id i)) (ch_seen_ids (chain_after items st)) = Inr False"
    "in_strings (JStr (i_evidence_digest i)) (ch_seen_digests (chain_after items st)) = Inr False"
    using fresh by (auto simp: chain_after_def intro!: in_strings_fresh)
  moreover have "link_broken env (sorted_doc (item_doc i)) (ch_previous (chain_after items st)) = Inr False"
    using link_item [OF wf] by (simp add: chain_after_def)
  moreover have "as_object (dget ''payload'' (sorted_doc (item_doc i))) = Some (sorted_doc (i_payload i))"
    by (simp add: dget_sorted_item dget_item_doc sort_keys_sorted_doc as_object_def del: sort_keys.simps(2))
  ultimately show ?thesis
    by (simp add: chain_document_def dget_sorted_item dget_item_doc add_error_def Let_def py_str_def)
      (simp add: chain_after_def last_digest_def json_option_def)
qed

lemma follow_legal_transition:
  assumes "run_step current target" "ch_status ch = current"
  shows "follow_transition name (sorted_doc (transition_payload current target reason)) ch
    = Inr (ch\<lparr>ch_status := target\<rparr>)"
proof -
  have payload: "dget k (sorted_doc (transition_payload current target reason))
      = sort_keys (dget k (transition_payload current target reason))" for k
    by (rule dget_sorted_doc) (simp add: transition_payload_def)
  have "dget ''from_status'' (transition_payload current target reason) = JStr (run_status_value current)"
    "dget ''to_status'' (transition_payload current target reason) = JStr (run_status_value target)"
    by (simp_all add: transition_payload_def dget_def)
  then show ?thesis
    using assms
    by (simp add: follow_transition_def payload target_of_def hashable_def add_error_def
        validate_transition_Inr_iff)
qed

lemma verify_documents_append:
  "verify_documents env run_id n (xs @ ys) ch =
   bind_result (verify_documents env run_id n xs ch) (verify_documents env run_id (n + int (length xs)) ys)"
proof (induction xs arbitrary: n ch)
  case (Cons x xs)
  obtain name item where x: "x = (name, item)" by force
  have shift: "n + 1 + int (length xs) = n + int (length (x # xs))" by simp
  show ?case
    unfolding x using Cons.IH shift
    by (auto simp: bind_result_def x ac_simps split: sum.splits)
qed (simp add: bind_result_def split: sum.splits)

lemma verify_ledger_documents:
  "ledger env run_id items st \<Longrightarrow>
   verify_documents env run_id 1 (map loaded items) (initial_chain []) = Inr (chain_after items st)"
proof (induction rule: ledger.induct)
  case (created i)
  have type: "i_evidence_type i \<in> set ledger_types" using created by (simp add: ledger_types_def)
  have "item_wf env run_id 1 (last_digest []) i" using created by (simp add: last_digest_def)
  from chain_fresh_item [OF this, of "item_name i" CREATED] created
  have "chain_document env 1 (item_name i) (sorted_doc (item_doc i)) (initial_chain [])
      = Inr (add_error (dget ''initial_status'' (sorted_doc (i_payload i)) \<noteq> JStr ''created'')
         ''invalid run.created record'' (chain_after [i] CREATED))"
    by (simp add: chain_after_Nil)
  moreover have "dget ''initial_status'' (sorted_doc (i_payload i)) = JStr ''created''"
    using created by (simp add: dget_sorted_doc [OF item_payload_keys])
  ultimately show ?case
    using admit_item [OF created(1) type] by (simp add: loaded_def add_error_def)
next
  case (transition items current target i reason)
  have type: "i_evidence_type i \<in> set ledger_types" using transition by (simp add: ledger_types_def)
  have later: "int (length items) + 1 \<noteq> 1" using ledger_not_Nil [OF transition(1)] by simp
  have "follow_transition (item_name i) (sorted_doc (i_payload i)) (chain_after (items @ [i]) current)
      = Inr (chain_after (items @ [i]) target)"
    unfolding transition(5)
    by (subst follow_legal_transition [OF transition(2)]) (simp_all add: chain_after_def)
  with chain_fresh_item [OF transition(3, 6, 7), of "item_name i" current] later transition(4)
  have "chain_document env (int (length items) + 1) (item_name i) (sorted_doc (item_doc i))
      (chain_after items current) = Inr (chain_after (items @ [i]) target)"
    by (simp add: Let_def)
  with transition.IH admit_item [OF transition(3) type] show ?case
    by (simp add: verify_documents_append loaded_def add.commute)
qed

section \<open>Publishing one item\<close>

text \<open>A digest is hexadecimal text.\<close>

definition env_ok :: "ledger_env \<Rightarrow> bool" where
  "env_ok env \<longleftrightarrow> (\<forall>s. utf8_valid (sha256 env s))"

text \<open>A Run without a directory has no files.\<close>

definition directory_items :: "evidence_tree \<Rightarrow> string \<Rightarrow> evidence_item list \<Rightarrow> bool" where
  "directory_items tree run_id items \<longleftrightarrow>
     represents tree run_id items \<or> map_of tree run_id = None \<and> items = []"

definition ledger_or_empty :: "ledger_env \<Rightarrow> string \<Rightarrow> evidence_item list \<Rightarrow> bool" where
  "ledger_or_empty env run_id items \<longleftrightarrow> items = [] \<or> (\<exists>st. ledger env run_id items st)"

lemma item_not_leftover:
  "i_evidence_type i \<in> set ledger_types \<Longrightarrow> 0 \<le> i_sequence i \<Longrightarrow> i_sequence i \<le> max_sequence \<Longrightarrow>
   \<not> leftover (file_of i) \<and> \<not> ends_with ''.tmp'' (item_name i)"
  using evidence_name_filename(2) [OF item_filename] by (simp add: leftover_def file_of_def)

lemma directory_items_cases:
  assumes "directory_items tree run_id items"
  obtains files where "dict_wf files"
    "sort_key fst (filter (\<lambda>f. \<not> leftover f) files) = map file_of items"
    "make_run_dir None run_id tree = Inr (False, files)"
    "map_of tree run_id = Some (RunDir False files) \<or> map_of tree run_id = None \<and> files = []"
  using assms by (auto simp: directory_items_def represents_def make_run_dir_def)

lemma file_names_of_items:
  assumes "dict_wf files" "sort_key fst (filter (\<lambda>f. \<not> leftover f) files) = map file_of items"
    and "\<not> ends_with ''.tmp'' name"
  shows "map_of files name \<noteq> None \<longleftrightarrow> name \<in> item_name ` set items"
proof -
  have "item_name ` set items = fst ` set (map file_of items)"
    by (simp add: image_image file_of_def)
  also have "\<dots> = fst ` set (filter (\<lambda>f. \<not> leftover f) files)"
    by (simp only: assms(2) [symmetric] set_sort)
  also have "name \<in> \<dots> \<longleftrightarrow> name \<in> fst ` set files"
    using assms(3) by (auto simp: leftover_def)
  finally show ?thesis by (simp add: map_of_eq_None_iff)
qed

lemma sort_key_snoc_greater:
  assumes "\<And>x. x \<in> set xs \<Longrightarrow> f x < f y" "distinct (map f xs)"
  shows "sort_key f (xs @ [y]) = sort_key f xs @ [y]"
proof -
  have "distinct (map f (xs @ [y]))"
    using assms by (auto simp: image_iff dest!: assms(1))
  then have "inj_on f (set (xs @ [y]))" by (simp only: distinct_map)
  then have "sort_key f (xs @ [y]) = sort_key f (sort_key f xs @ [y])"
    by (intro sort_key_inj_key_eq) simp_all
  also have "\<dots> = sort_key f xs @ [y]"
    using assms(1) by (intro sort_key_id_if_sorted) (auto simp: sorted_append less_imp_le)
  finally show ?thesis .
qed

lemma represents_snoc:
  assumes "dict_wf files" "sort_key fst (filter (\<lambda>f. \<not> leftover f) files) = map file_of items"
    and "item_name i \<notin> fst ` set files" "\<not> leftover (file_of i)"
    and "\<And>j. j \<in> set items \<Longrightarrow> item_name j < item_name i"
  shows "sort_key fst (filter (\<lambda>f. \<not> leftover f) (AList.update (item_name i) (snd (file_of i)) files))
    = map file_of (items @ [i])"
proof -
  have updated: "AList.update (item_name i) (snd (file_of i)) files = files @ [file_of i]"
    using assms(3) by (simp add: update_fresh file_of_def)
  have members: "set (map file_of items) = set (filter (\<lambda>f. \<not> leftover f) files)"
    unfolding assms(2) [symmetric] by simp
  have "fst f < fst (file_of i)" if "f \<in> set (filter (\<lambda>f. \<not> leftover f) files)" for f
    using that assms(5) unfolding members [symmetric] by (auto simp: file_of_def)
  moreover have "distinct (map fst (filter (\<lambda>f. \<not> leftover f) files))"
    using assms(1) by (simp add: dict_wf_def distinct_map_filter)
  ultimately have "sort_key fst (filter (\<lambda>f. \<not> leftover f) files @ [file_of i])
      = map file_of items @ [file_of i]"
    unfolding assms(2) [symmetric] by (rule sort_key_snoc_greater)
  then show ?thesis using assms(4) by (simp add: updated)
qed

lemma item_name_less:
  assumes "item_wf env run_id m p j" "item_wf env run_id n q i" "m < n"
    "i_evidence_type j \<in> set ledger_types" "i_evidence_type i \<in> set ledger_types"
  shows "item_name j < item_name i"
  using assms(1-3) filename_less [OF item_filename [OF assms(4)] item_filename [OF assms(5)]]
  by (simp add: item_wf_def)

lemma post_write_check_item:
  assumes "item_wf env run_id n p i"
  shows "post_write_check env (canonical_json (JObj (item_doc i))) (i_evidence_digest i) = Inr ()"
proof -
  have "json_wf (float_repr env) (JObj (item_doc i))" "json_encodable (JObj (item_doc i))"
    "digest env (item_body i) = Inr (i_evidence_digest i)"
    using assms by (simp_all add: item_wf_def)
  then show ?thesis
    unfolding post_write_check_def read_json_canonical [OF \<open>json_wf _ _\<close> \<open>json_encodable _\<close>]
    by (simp add: sort_keys_sorted_doc sorted_item_facts require_def del: sort_keys.simps)
qed

text \<open>
  What a call of \<open>write_evidence\<close> does to the ledgers: nothing where the name is taken or the
  call fails early, otherwise it appends the item, even where it still reports an error.
\<close>

lemma write_evidence_item:
  assumes items: "directory_items tree run_id items"
    and i: "item_wf env run_id n p i" "i_evidence_type i \<in> set ledger_types"
  shows "write_evidence env fault tree (item_doc i) =
    (if fault = Some Mkdir_Fault then (tree, Inl PyOSError)
     else
       let files = (case map_of tree run_id of Some (RunDir _ files) \<Rightarrow> files | _ \<Rightarrow> []);
           made = AList.update run_id (RunDir False files) tree;
           published = AList.update run_id
             (RunDir False (AList.update (item_name i) (snd (file_of i)) files)) tree in
       if item_name i \<in> item_name ` set items
       then (made, raise EvidenceConflictError ''evidence target already exists'')
       else if fault = Some Publish_Fault then (made, raise EvidenceError ''unable to write evidence'')
       else if fault = Some Dir_Sync_Fault then (published, raise EvidenceError ''unable to write evidence'')
       else (published, Inr (relative_path run_id (item_name i))))"
proof -
  from items obtain files where files: "dict_wf files"
    "sort_key fst (filter (\<lambda>f. \<not> leftover f) files) = map file_of items"
    "make_run_dir None run_id tree = Inr (False, files)"
    "map_of tree run_id = Some (RunDir False files) \<or> map_of tree run_id = None \<and> files = []"
    by (rule directory_items_cases)
  have wf: "i_run_id i = run_id" "digest env (item_doc i) = Inr (i_evidence_digest i)"
    and bounds: "0 \<le> i_sequence i" "i_sequence i \<le> max_sequence"
    using i(1) by (simp_all add: item_wf_def digest_item_doc)
  have made: "make_run_dir fault run_id tree = (if fault = Some Mkdir_Fault then Inl PyOSError else Inr (False, files))"
    using files(3) by (simp add: make_run_dir_def)
  have present: "map_of files (item_name i) \<noteq> None \<longleftrightarrow> item_name i \<in> item_name ` set items"
    by (rule file_names_of_items [OF files(1, 2)])
      (use item_not_leftover [OF i(2) bounds] in simp)
  have current: "(case map_of tree run_id of Some (RunDir _ files) \<Rightarrow> files | _ \<Rightarrow> []) = files"
    using files(4) by auto
  show ?thesis
  proof (cases "fault = Some Mkdir_Fault")
    case True
    then show ?thesis unfolding write_evidence_def dget_item_doc wf by (simp add: make_run_dir_def)
  next
    case reachable: False
    with made have dir: "make_run_dir fault run_id tree = Inr (False, files)" by simp
    show ?thesis
    proof (cases "item_name i \<in> item_name ` set items")
      case True
      with present obtain obj where "map_of files (item_name i) = Some obj" by auto
      with True reachable show ?thesis
        unfolding write_evidence_def dget_item_doc wf current
        by (simp add: item_filename [OF i(2)] dir)
    next
      case False
      with present have "map_of files (item_name i) = None" by simp
      with False reachable show ?thesis
        unfolding write_evidence_def dget_item_doc wf current file_of_def snd_conv
        by (simp add: dir item_filename [OF i(2)] post_write_check_item [OF i(1)] wf(2) Let_def
            del: canonical_json.simps)
    qed
  qed
qed

lemma directory_items_update:
  assumes "dict_wf files" "sort_key fst (filter (\<lambda>f. \<not> leftover f) files) = map file_of items"
  shows "directory_items (AList.update run_id (RunDir False files) tree) run_id items"
  using assms by (simp add: directory_items_def represents_def map_of_update)

lemma directory_items_other:
  "other \<noteq> run_id \<Longrightarrow> directory_items (AList.update run_id node tree) other = directory_items tree other"
  by (simp add: directory_items_def represents_def map_of_update fun_eq_iff)

text \<open>
  What a call of \<open>write_evidence\<close> does to the ledgers: nothing where the name is taken or the
  call fails early, otherwise it appends the item, even where it still reports an error.
\<close>

lemma write_evidence_appends:
  assumes items: "directory_items tree run_id items"
    and i: "item_wf env run_id n p i" "i_evidence_type i \<in> set ledger_types"
    and later: "\<And>j. j \<in> set items \<Longrightarrow> item_name j < item_name i"
    and call: "write_evidence env fault tree (item_doc i) = (tree', result)"
  shows "directory_items tree' run_id (items @ [i]) \<or>
      directory_items tree' run_id items \<and> (\<exists>e. result = Inl e)"
    and "\<And>other. other \<noteq> run_id \<Longrightarrow> map_of tree' other = map_of tree other"
    and "fault = None \<Longrightarrow> result = Inr (relative_path run_id (item_name i))"
    and "\<And>rel. result = Inr rel \<Longrightarrow> rel = relative_path run_id (item_name i)"
proof -
  from items obtain files where files: "dict_wf files"
    "sort_key fst (filter (\<lambda>f. \<not> leftover f) files) = map file_of items"
    "make_run_dir None run_id tree = Inr (False, files)"
    "map_of tree run_id = Some (RunDir False files) \<or> map_of tree run_id = None \<and> files = []"
    by (rule directory_items_cases)
  have bounds: "0 \<le> i_sequence i" "i_sequence i \<le> max_sequence"
    using i(1) by (simp_all add: item_wf_def)
  have new: "item_name i \<notin> item_name ` set items" using later by (metis imageE less_irrefl)
  then have "item_name i \<notin> fst ` set files"
    using file_names_of_items [OF files(1, 2), of "item_name i"] item_not_leftover [OF i(2) bounds]
    by (auto simp: map_of_eq_None_iff)
  from represents_snoc [OF files(1, 2) this _ later] item_not_leftover [OF i(2) bounds]
  have appended: "sort_key fst (filter (\<lambda>f. \<not> leftover f)
      (AList.update (item_name i) (snd (file_of i)) files)) = map file_of (items @ [i])"
    by simp
  have current: "(case map_of tree run_id of Some (RunDir _ files) \<Rightarrow> files | _ \<Rightarrow> []) = files"
    using files(4) by auto
  note result = call [unfolded write_evidence_item [OF items i] current Let_def]
  show "directory_items tree' run_id (items @ [i]) \<or>
      directory_items tree' run_id items \<and> (\<exists>e. result = Inl e)"
    using result new items directory_items_update [OF files(1, 2)]
      directory_items_update [OF dict_wf_update [OF files(1)] appended]
    by (auto split: if_splits)
  show "map_of tree' other = map_of tree other" if "other \<noteq> run_id" for other
    using result that by (auto simp: map_of_update split: if_splits)
  show "result = Inr (relative_path run_id (item_name i))" if "fault = None"
    using result new that by auto
  show "rel = relative_path run_id (item_name i)" if "result = Inr rel" for rel
    using result that by (auto split: if_splits)
qed

lemma write_evidence_conflict:
  assumes items: "directory_items tree run_id items"
    and i: "item_wf env run_id n p i" "i_evidence_type i \<in> set ledger_types"
    and taken: "item_name i \<in> item_name ` set items"
    and call: "write_evidence env fault tree (item_doc i) = (tree', result)"
  shows "directory_items tree' run_id items \<and> (\<exists>e. result = Inl e)
    \<and> (\<forall>other. other \<noteq> run_id \<longrightarrow> map_of tree' other = map_of tree other)
    \<and> (fault \<noteq> Some Mkdir_Fault \<longrightarrow> result = raise EvidenceConflictError ''evidence target already exists'')"
proof -
  from items obtain files where files: "dict_wf files"
    "sort_key fst (filter (\<lambda>f. \<not> leftover f) files) = map file_of items"
    "make_run_dir None run_id tree = Inr (False, files)"
    "map_of tree run_id = Some (RunDir False files) \<or> map_of tree run_id = None \<and> files = []"
    by (rule directory_items_cases)
  have current: "(case map_of tree run_id of Some (RunDir _ files) \<Rightarrow> files | _ \<Rightarrow> []) = files"
    using files(4) by auto
  note result = call [unfolded write_evidence_item [OF items i] current Let_def]
  show ?thesis
    using result taken items directory_items_update [OF files(1, 2)]
    by (auto simp: map_of_update split: if_splits)
qed

end
