(* ===== verification/Run_Store_Correct.thy ===== *)
theory Run_Store_Correct
  imports Ledger_Correct
begin

text \<open>
  The store as a whole: the Evidence files of every Run together with the committed rows. The
  invariant says that each directory represents an append-only ledger and that the Run's row
  describes that ledger or the ledger without its last item. It holds initially and every call
  of \<open>create_run\<close> and \<open>transition_run\<close> keeps it, whatever fails.
\<close>

section \<open>Fresh items\<close>

lemma encode_json_Inr_iff: "encode_json v = Inr text \<longleftrightarrow> json_encodable v \<and> text = canonical_json v"
  by (auto simp: encode_json_def)

lemma digest_Inr_iff:
  "digest env d = Inr h \<longleftrightarrow>
   json_encodable (JObj (filter (\<lambda>(k, _). k \<noteq> ''evidence_digest'') d))
   \<and> h = sha256 env (canonical_json (JObj (filter (\<lambda>(k, _). k \<noteq> ''evidence_digest'') d)))"
  by (auto simp: digest_def bind_result_Inr_iff encode_json_Inr_iff)

lemma filter_item_body: "filter (\<lambda>(k, _). k \<noteq> ''evidence_digest'') (item_body i) = item_body i"
  by (simp add: item_body_def)

lemma item_body_digest [simp]: "item_body (i\<lparr>i_evidence_digest := d\<rparr>) = item_body i"
  by (simp add: item_body_def)

lemma json_wf_option [simp]: "json_wf fr (json_option x)"
  by (simp add: json_option_def split: option.splits)

lemma item_doc_wf: "json_wf fr (JObj (i_payload i)) \<Longrightarrow> json_wf fr (JObj (item_doc i))"
  by (simp add: item_doc_keys required_keys_distinct del: json_wf.simps(3)
      add: json_wf.simps(3) [of fr "item_doc i"])
    (simp add: item_doc_def item_body_def)

text \<open>What a call hands to the item it builds.\<close>

definition call_ok :: "ledger_env \<Rightarrow> run_call \<Rightarrow> bool" where
  "call_ok env call \<longleftrightarrow> parse_time env (c_now call) = Some True \<and> uuid4_ok env (c_evidence_id call)"

lemma evidence_of_wf:
  assumes "env_ok env" "call_ok env call" "evidence_of env call run t payload 1 = Inr i"
    and "json_wf (float_repr env) (JObj payload)"
    and "0 \<le> rn_last_sequence run" "rn_last_sequence run < max_sequence"
  shows "item_wf env (rn_run_id run) (rn_last_sequence run + 1) (rn_last_evidence_digest run) i"
    and "i_evidence_type i = t" "i_payload i = payload" "i_evidence_id i = c_evidence_id call"
proof -
  define blank where "blank = \<lparr>i_schema_version = 1, i_evidence_id = c_evidence_id call,
    i_evidence_type = t, i_run_id = rn_run_id run, i_sequence = rn_last_sequence run + 1,
    i_created_at = c_now call, i_tool_version = tool_version env,
    i_config_digest = rn_config_digest run,
    i_previous_evidence_digest = rn_last_evidence_digest run, i_payload = payload,
    i_evidence_digest = []\<rparr>"
  from assms(3) obtain h where h: "digest env (item_body blank) = Inr h"
    and i: "i = blank\<lparr>i_evidence_digest := h\<rparr>"
    by (auto simp: evidence_of_def bind_result_Inr_iff blank_def)
  have "utf8_valid h"
    using assms(1) h by (simp add: digest_Inr_iff env_ok_def)
  moreover have "json_encodable (JObj (item_body blank))"
    using h by (simp add: digest_Inr_iff filter_item_body del: json_encodable.simps)
  ultimately have "json_encodable (JObj (item_doc i))"
    by (simp add: item_doc_def i utf8_of_ascii)
  moreover have "json_wf (float_repr env) (JObj (item_doc i))"
    using assms(4) by (intro item_doc_wf) (simp add: i blank_def)
  ultimately show "item_wf env (rn_run_id run) (rn_last_sequence run + 1) (rn_last_evidence_digest run) i"
    using assms(2, 5, 6) h unfolding item_wf_def call_ok_def
    by (simp add: i) (simp add: blank_def)
  show "i_evidence_type i = t" "i_payload i = payload" "i_evidence_id i = c_evidence_id call"
    by (simp_all add: i blank_def)
qed

section \<open>The invariant\<close>

text \<open>The row of a Run describes the ledger \<open>cs\<close>.\<close>

definition indexed :: "ledger_env \<Rightarrow> index_db \<Rightarrow> string \<Rightarrow> evidence_item list \<Rightarrow> bool" where
  "indexed env db run_id cs \<longleftrightarrow>
     (case find_run run_id db of
        None \<Rightarrow> cs = []
      | Some row \<Rightarrow>
          ledger env run_id cs (rn_status row) \<and> rn_last_sequence row = int (length cs)
          \<and> rn_last_evidence_digest row = last_digest cs)"

definition run_inv :: "ledger_env \<Rightarrow> evidence_tree \<Rightarrow> index_db \<Rightarrow> string \<Rightarrow> bool" where
  "run_inv env tree db run_id \<longleftrightarrow>
     (\<exists>items cs. directory_items tree run_id items \<and> ledger_or_empty env run_id items
        \<and> (items = cs \<or> (\<exists>i. items = cs @ [i])) \<and> indexed env db run_id cs)"

definition store_inv :: "ledger_env \<Rightarrow> steward_state \<Rightarrow> bool" where
  "store_inv env st \<longleftrightarrow>
     (case st_index st of
        None \<Rightarrow> False
      | Some db \<Rightarrow> \<forall>run_id. run_inv env (st_evidence st) db run_id)"

lemma find_run_SomeD: "find_run run_id db = Some row \<Longrightarrow> rn_run_id row = run_id \<and> row \<in> set (db_runs db)"
  unfolding find_run_def by (auto simp: find_Some_iff)

lemma item_name_eqI:
  "item_wf env r n p i \<Longrightarrow> item_wf env r' n q j \<Longrightarrow> i_evidence_type i = i_evidence_type j \<Longrightarrow>
   item_name i = item_name j"
  by (simp add: item_name_def item_wf_def)

lemma publish_cases:
  assumes "publish env call operation tree item = (tree', result)"
  obtains (untouched) e where "tree' = tree" "result = Inl e" "c_injector call \<noteq> None"
  | (written) r where "write_evidence env (c_disk_fault call) tree (item_doc item) = (tree', r)"
      "\<forall>e. r = Inl e \<longrightarrow> result = Inl e" "\<forall>rel. result = Inr rel \<longrightarrow> r = Inr rel"
      "c_injector call = None \<longrightarrow> result = r"
proof (cases "checkpoint (c_injector call) operation ''before_evidence_publish''")
  case (Inl e)
  with assms have "tree' = tree" "result = Inl e" by (simp_all add: publish_def)
  moreover have "c_injector call \<noteq> None" using Inl by (auto simp: checkpoint_def split: option.splits)
  ultimately show ?thesis by (rule untouched)
next
  case (Inr u)
  obtain t r where w: "write_evidence env (c_disk_fault call) tree (item_doc item) = (t, r)" by force
  have t: "t = tree'"
    using assms Inr w by (cases r) (auto simp: publish_def)
  show ?thesis
  proof (rule written)
    show "write_evidence env (c_disk_fault call) tree (item_doc item) = (tree', r)"
      using w t by simp
    show "\<forall>e. r = Inl e \<longrightarrow> result = Inl e" "\<forall>rel. result = Inr rel \<longrightarrow> r = Inr rel"
      "c_injector call = None \<longrightarrow> result = r"
      using assms Inr w by (cases r; auto simp: publish_def bind_result_Inr_iff checkpoint_def)+
  qed
qed

lemma run_inv_other:
  assumes "run_inv env tree db other" "map_of tree' other = map_of tree other"
  shows "run_inv env tree' db other"
  using assms by (simp add: run_inv_def directory_items_def represents_def)

lemma run_invE:
  assumes "run_inv env tree db run_id"
  obtains items cs where "directory_items tree run_id items" "ledger_or_empty env run_id items"
    "items = cs \<or> (\<exists>i. items = cs @ [i])" "indexed env db run_id cs"
  using assms unfolding run_inv_def by blast

lemma run_invI:
  "directory_items tree run_id items \<Longrightarrow> ledger_or_empty env run_id items \<Longrightarrow>
   items = cs \<or> (\<exists>i. items = cs @ [i]) \<Longrightarrow> indexed env db run_id cs \<Longrightarrow> run_inv env tree db run_id"
  unfolding run_inv_def by blast

lemma run_inv_all:
  assumes "\<forall>r. run_inv env tree db r" "run_inv env tree' db run_id"
    and "\<forall>other. other \<noteq> run_id \<longrightarrow> map_of tree' other = map_of tree other"
  shows "\<forall>r. run_inv env tree' db r"
  using assms run_inv_other by metis

text \<open>An item whose file exists already changes no ledger.\<close>

lemma publish_taken:
  assumes items: "directory_items tree run_id items"
    and i: "item_wf env run_id n p i" "i_evidence_type i \<in> set ledger_types"
    and taken: "item_name i \<in> item_name ` set items"
    and call: "publish env call operation tree i = (tree', result)"
  shows "directory_items tree' run_id items \<and> (\<exists>e. result = Inl e)
    \<and> (\<forall>other. other \<noteq> run_id \<longrightarrow> map_of tree' other = map_of tree other)
    \<and> (c_injector call = None \<and> c_disk_fault call = None \<longrightarrow>
         result = raise EvidenceConflictError ''evidence target already exists'')"
  using call
proof (cases rule: publish_cases)
  case (untouched e)
  with items show ?thesis by auto
next
  case (written r)
  from write_evidence_conflict [OF items i taken written(1)] written(2-) show ?thesis by auto
qed

text \<open>The next item of a ledger: it is appended, or the call fails and it may be.\<close>

lemma publish_next:
  assumes items: "directory_items tree run_id items" "ledger_or_empty env run_id items"
    and i: "item_wf env run_id (int (length items) + 1) p i" "i_evidence_type i \<in> set ledger_types"
    and call: "publish env call operation tree i = (tree', result)"
  shows "(directory_items tree' run_id (items @ [i]) \<or> directory_items tree' run_id items \<and> (\<exists>e. result = Inl e))
    \<and> (\<forall>other. other \<noteq> run_id \<longrightarrow> map_of tree' other = map_of tree other)
    \<and> (\<forall>rel. result = Inr rel \<longrightarrow> rel = relative_path run_id (item_name i))
    \<and> (c_injector call = None \<and> c_disk_fault call = None \<longrightarrow> (\<exists>rel. result = Inr rel))"
proof -
  have later: "item_name j < item_name i" if member: "j \<in> set items" for j
  proof -
    from member items(2) obtain st where ledger: "ledger env run_id items st"
      by (auto simp: ledger_or_empty_def)
    from member obtain k where k: "k < length items" "j = items ! k" by (auto simp: in_set_conv_nth)
    with ledger_item_wf [OF ledger k(1)] obtain q where "item_wf env run_id (int k + 1) q j" by auto
    from item_name_less [OF this i(1) _ ledger_types_of [OF ledger member] i(2)] k show ?thesis by simp
  qed
  note appends = write_evidence_appends [OF items(1) i]
  from call show ?thesis
  proof (cases rule: publish_cases)
    case (untouched e)
    with items show ?thesis by simp
  next
    case (written r)
    have "directory_items tree' run_id (items @ [i]) \<or> directory_items tree' run_id items \<and> (\<exists>e. r = Inl e)"
      by (rule appends(1) [OF _ written(1)]) (rule later)
    then have "directory_items tree' run_id (items @ [i]) \<or> directory_items tree' run_id items \<and> (\<exists>e. result = Inl e)"
      using written(2) by blast
    moreover have others: "map_of tree' other = map_of tree other" if "other \<noteq> run_id" for other
      by (rule appends(2) [OF _ written(1) that]) (rule later)
    moreover have "rel = relative_path run_id (item_name i)" if "r = Inr rel" for rel
      by (rule appends(4) [OF _ written(1) that]) (rule later)
    then have "\<forall>rel. result = Inr rel \<longrightarrow> rel = relative_path run_id (item_name i)"
      using written(3) by blast
    moreover have "r = Inr (relative_path run_id (item_name i))" if "c_disk_fault call = None"
      by (rule appends(3) [OF _ written(1) that]) (rule later)
    then have "c_injector call = None \<and> c_disk_fault call = None \<longrightarrow> (\<exists>rel. result = Inr rel)"
      using written(4) by simp
    ultimately show ?thesis by blast
  qed
qed

section \<open>The operations keep the invariant\<close>

lemma commit_rows_cases:
  assumes "commit_rows call operation rows run_id st db = (st', result)"
  obtains (rolled_back) e where "st' = st" "result = Inl e"
  | (committed) db' where "rows db = Inr db'" "st' = st\<lparr>st_index := Some db'\<rparr>"
      "\<forall>r. result = Inr r \<longrightarrow> find_run run_id db' = Some r"
proof (cases "c_db_fault call = Some Busy_Write")
  case True
  with assms have "st' = st" "result = raise StorageBusyError ''storage write lock timed out''"
    by (auto simp: commit_rows_def)
  then show ?thesis by (rule rolled_back)
next
  case False
  show ?thesis
  proof (cases "bind_result (rows db) (\<lambda>db'.
      bind_result (checkpoint (c_injector call) operation ''before_index_commit'') (\<lambda>_. Inr db'))")
    case (Inl e)
    with assms False have "st' = st" "result = Inl e" by (auto simp: commit_rows_def)
    then show ?thesis by (rule rolled_back)
  next
    case (Inr db')
    with assms False have "st' = st\<lparr>st_index := Some db'\<rparr>"
      "\<forall>r. result = Inr r \<longrightarrow> find_run run_id db' = Some r"
      by (auto simp: commit_rows_def Let_def get_run_def open_initialized_def bind_result_Inr_iff
          split: option.splits)
    moreover have "rows db = Inr db'" using Inr by (auto simp: bind_result_Inr_iff)
    ultimately show ?thesis by (intro committed)
  qed
qed

lemma find_run_update:
  assumes "\<And>r. rn_run_id (f r) = rn_run_id r"
  shows "find_run r (update_run run_id f db) =
    (if r = run_id then map_option f (find_run run_id db) else find_run r db)"
proof -
  have "List.find (\<lambda>x. rn_run_id x = r) (map (\<lambda>x. if rn_run_id x = run_id then f x else x) xs) =
    (if r = run_id then map_option f (List.find (\<lambda>x. rn_run_id x = run_id) xs)
     else List.find (\<lambda>x. rn_run_id x = r) xs)" for xs
    by (induction xs) (auto simp: assms)
  then show ?thesis by (simp add: find_run_def update_run_def)
qed

lemma find_run_insert_evidence: "insert_evidence e db = Inr db' \<Longrightarrow> find_run r db' = find_run r db"
  by (auto simp: insert_evidence_def find_run_def split: if_splits)

lemma find_run_insert_run:
  assumes "insert_run x db = Inr db'"
  shows "find_run r db' = (if r = rn_run_id x then Some x else find_run r db)
    \<and> find_run (rn_run_id x) db = None"
proof -
  have new: "rn_run_id x \<notin> rn_run_id ` set (db_runs db)" and db': "db' = db\<lparr>db_runs := db_runs db @ [x]\<rparr>"
    using assms by (auto simp: insert_run_def split: if_splits)
  have "List.find P (xs @ [y]) = (case List.find P xs of None \<Rightarrow> (if P y then Some y else None) | Some z \<Rightarrow> Some z)"
    for P and xs :: "run_record list" and y
    by (induction xs) auto
  moreover have absent: "List.find (\<lambda>r. rn_run_id r = rn_run_id x) (db_runs db) = None"
    using new by (auto simp: find_None_iff image_iff)
  ultimately show ?thesis
    by (auto simp: find_run_def db' split: option.splits)
qed

lemma ledger_first:
  "ledger env run_id items st \<Longrightarrow>
   item_wf env run_id 1 None (hd items) \<and> i_evidence_type (hd items) = ''run.created''"
proof (induction rule: ledger.induct)
  case (transition items current target i reason)
  with ledger_not_Nil [OF transition(1)] show ?case by simp
qed simp

text \<open>
  The new item's identity, a random UUID, and its SHA-256 digest are none of those in the Run's
  ledger.
\<close>

definition fresh_item :: "ledger_env \<Rightarrow> evidence_tree \<Rightarrow> string \<Rightarrow> evidence_item \<Rightarrow> bool" where
  "fresh_item env tree run_id i \<longleftrightarrow>
     (case load_run_files env tree run_id of
        Inl _ \<Rightarrow> True
      | Inr (files, _) \<Rightarrow>
          list_all (\<lambda>(_, v). case as_object v of
              None \<Rightarrow> True
            | Some d \<Rightarrow> dget ''evidence_id'' d \<noteq> JStr (i_evidence_id i)
                \<and> dget ''evidence_digest'' d \<noteq> JStr (i_evidence_digest i)) files)"

lemma fresh_item_new:
  assumes "fresh_item env tree run_id i" "directory_items tree run_id items" "ledger env run_id items st"
  shows "i_evidence_id i \<notin> i_evidence_id ` set items"
    and "i_evidence_digest i \<notin> i_evidence_digest ` set items"
proof -
  have "represents tree run_id items"
    using assms(2) ledger_not_Nil [OF assms(3)] by (auto simp: directory_items_def)
  from load_represented [OF this assms(3)] assms(1)
  have "\<forall>j \<in> set items. i_evidence_id j \<noteq> i_evidence_id i \<and> i_evidence_digest j \<noteq> i_evidence_digest i"
    by (auto simp: fresh_item_def loaded_def list_all_iff as_object_def dget_sorted_item dget_item_doc)
  then show "i_evidence_id i \<notin> i_evidence_id ` set items"
    and "i_evidence_digest i \<notin> i_evidence_digest ` set items" by force+
qed

lemma indexed_row:
  assumes "indexed env db run_id cs" "find_run run_id db = Some row"
  shows "ledger env run_id cs (rn_status row)" "rn_last_sequence row = int (length cs)"
    "rn_last_evidence_digest row = last_digest cs" "rn_run_id row = run_id"
  using assms find_run_SomeD [OF assms(2)] by (simp_all add: indexed_def)

text \<open>What a legal transition publishes, and what it finds on the disk.\<close>

lemma transition_publish:
  assumes env: "env_ok env" "call_ok env call"
    and inv: "\<forall>r. run_inv env tree db r"
    and row: "find_run run_id db = Some row" "run_step (rn_status row) target"
      "rn_last_sequence row < max_sequence"
    and fresh: "fresh_item env tree run_id i"
    and item: "evidence_of env call row ''run.state_transition''
      (transition_payload (rn_status row) target reason) 1 = Inr i"
    and call: "publish env call operation tree i = (tree', result)"
  shows "(\<forall>r. run_inv env tree' db r)
    \<and> (\<forall>rel. result = Inr rel \<longrightarrow> rel = relative_path run_id (item_name i)
         \<and> (\<exists>cs. indexed env db run_id cs \<and> ledger env run_id (cs @ [i]) target
              \<and> directory_items tree run_id cs \<and> directory_items tree' run_id (cs @ [i])))"
proof -
  from inv have "run_inv env tree db run_id" ..
  then obtain items cs where own: "directory_items tree run_id items" "ledger_or_empty env run_id items"
    "items = cs \<or> (\<exists>i. items = cs @ [i])" "indexed env db run_id cs"
    by (rule run_invE)
  note cs = indexed_row [OF own(4) row(1)]
  have payload: "json_wf (float_repr env) (JObj (transition_payload (rn_status row) target reason))"
    by (simp add: transition_payload_def)
  have i: "item_wf env run_id (int (length cs) + 1) (last_digest cs) i"
    "i_evidence_type i = ''run.state_transition''"
    "i_payload i = transition_payload (rn_status row) target reason"
    using evidence_of_wf [OF env item payload] row(3) cs by simp_all
  then have type: "i_evidence_type i \<in> set ledger_types" by (simp add: ledger_types_def)
  from own(3) show ?thesis
  proof
    assume items: "items = cs"
    have grown: "ledger env run_id (cs @ [i]) target"
      using ledger.transition [OF cs(1) row(2) i(1-3)] fresh_item_new [OF fresh own(1) [unfolded items] cs(1)]
      by simp
    note publish = publish_next [OF own(1, 2) [unfolded items] i(1) type call]
    then have after: "directory_items tree' run_id (cs @ [i]) \<or> directory_items tree' run_id cs \<and> (\<exists>e. result = Inl e)"
      and path: "\<forall>rel. result = Inr rel \<longrightarrow> rel = relative_path run_id (item_name i)"
      and others: "\<forall>other. other \<noteq> run_id \<longrightarrow> map_of tree' other = map_of tree other"
      by blast+
    have "ledger_or_empty env run_id (cs @ [i])" using grown by (auto simp: ledger_or_empty_def)
    with after own(2, 4) items have "run_inv env tree' db run_id"
      by (blast intro: run_invI)
    then have "\<forall>r. run_inv env tree' db r" using run_inv_all [OF inv] others by blast
    moreover have "directory_items tree' run_id (cs @ [i])" if "result = Inr rel" for rel
      using after that by auto
    ultimately show ?thesis using path grown own(1, 4) items by blast
  next
    assume "\<exists>x. items = cs @ [x]"
    then obtain x where items: "items = cs @ [x]" ..
    have "cs \<noteq> []" using ledger_not_Nil [OF cs(1)] .
    with own(2) items obtain st where ledger: "ledger env run_id (cs @ [x]) st"
      by (auto simp: ledger_or_empty_def)
    from ledger_snocE [OF ledger] \<open>cs \<noteq> []\<close> have "i_evidence_type x = ''run.state_transition''" by blast
    moreover from ledger_item_wf [OF ledger, of "length cs"] obtain q where
      "item_wf env run_id (int (length cs) + 1) q x" by auto
    ultimately have "item_name i = item_name x" using item_name_eqI i(1, 2) by metis
    then have "item_name i \<in> item_name ` set items" using items by simp
    from publish_taken [OF own(1) i(1) type this call] have taken:
      "directory_items tree' run_id items" "\<exists>e. result = Inl e"
      "\<forall>other. other \<noteq> run_id \<longrightarrow> map_of tree' other = map_of tree other" by simp_all
    from run_invI [OF taken(1) own(2-4)] have "\<forall>r. run_inv env tree' db r"
      using run_inv_all [OF inv _ taken(3)] by blast
    with taken(2) show ?thesis by auto
  qed
qed

text \<open>
  What a created Run publishes: its first item, unless the directory has one already.
\<close>

lemma create_publish:
  assumes env: "env_ok env" "call_ok env call"
    and inv: "\<forall>r. run_inv env tree db r"
    and run: "rn_run_id run = run_id" "rn_last_sequence run = 0" "rn_last_evidence_digest run = None"
    and metadata: "json_wf (float_repr env) metadata"
    and item: "evidence_of env call run ''run.created'' (created_payload run_kind metadata) 1 = Inr i"
    and call: "publish env call operation tree i = (tree', result)"
  shows "(\<forall>r. run_inv env tree' db r)
    \<and> (\<forall>rel. result = Inr rel \<longrightarrow> rel = relative_path run_id (item_name i)
         \<and> find_run run_id db = None \<and> ledger env run_id [i] CREATED
         \<and> directory_items tree run_id [] \<and> directory_items tree' run_id [i])"
proof -
  from inv have "run_inv env tree db run_id" ..
  then obtain items cs where own: "directory_items tree run_id items" "ledger_or_empty env run_id items"
    "items = cs \<or> (\<exists>i. items = cs @ [i])" "indexed env db run_id cs"
    by (rule run_invE)
  have payload: "json_wf (float_repr env) (JObj (created_payload run_kind metadata))"
    using metadata by (simp add: created_payload_def)
  have i: "item_wf env run_id 1 None i" "i_evidence_type i = ''run.created''"
    "i_payload i = created_payload run_kind metadata"
    using evidence_of_wf [OF env item payload] run by (simp_all add: max_sequence_def)
  then have type: "i_evidence_type i \<in> set ledger_types" by (simp add: ledger_types_def)
  have first: "ledger env run_id [i] CREATED"
    using i by (intro ledger.created) (simp_all add: created_payload_def dget_def)
  show ?thesis
  proof (cases "items = []")
    case True
    then have cs: "cs = []" using own(3) by auto
    have "find_run run_id db = None"
      using own(4) unfolding cs indexed_def by (auto dest: ledger_not_Nil split: option.splits)
    have "item_wf env run_id (int (length []) + 1) None i" using i(1) by simp
    from publish_next [OF own(1, 2) [unfolded True] this type call]
    have after: "directory_items tree' run_id [i] \<or> directory_items tree' run_id [] \<and> (\<exists>e. result = Inl e)"
      and path: "\<forall>rel. result = Inr rel \<longrightarrow> rel = relative_path run_id (item_name i)"
      and others: "\<forall>other. other \<noteq> run_id \<longrightarrow> map_of tree' other = map_of tree other"
      by auto
    have "ledger_or_empty env run_id [i]" "ledger_or_empty env run_id []"
      using first by (auto simp: ledger_or_empty_def)
    with after own(4) have "run_inv env tree' db run_id"
      unfolding cs by (metis append_Nil run_invI)
    then have "\<forall>r. run_inv env tree' db r" using run_inv_all [OF inv] others by blast
    moreover have "directory_items tree' run_id [i]" if "result = Inr rel" for rel
      using after that by auto
    ultimately show ?thesis using path first own(1) True \<open>find_run run_id db = None\<close> by blast
  next
    case False
    with own(2) obtain st where ledger: "ledger env run_id items st" by (auto simp: ledger_or_empty_def)
    from ledger_first [OF ledger] i(1, 2) have "item_name i = item_name (hd items)"
      by (auto intro: item_name_eqI)
    then have "item_name i \<in> item_name ` set items" using False by simp
    from publish_taken [OF own(1) i(1) type this call] have taken:
      "directory_items tree' run_id items" "\<exists>e. result = Inl e"
      "\<forall>other. other \<noteq> run_id \<longrightarrow> map_of tree' other = map_of tree other" by simp_all
    from run_invI [OF taken(1) own(2-4)] have "\<forall>r. run_inv env tree' db r"
      using run_inv_all [OF inv _ taken(3)] by blast
    with taken(2) show ?thesis by auto
  qed
qed

abbreviation moved_row :: "run_status \<Rightarrow> evidence_item \<Rightarrow> run_record \<Rightarrow> run_record" where
  "moved_row target i r \<equiv> r\<lparr>rn_status := target, rn_updated_at := i_created_at i,
     rn_last_sequence := i_sequence i, rn_last_evidence_digest := Some (i_evidence_digest i),
     rn_terminal := is_terminal target\<rparr>"

abbreviation transition_rows :: "string \<Rightarrow> run_status \<Rightarrow> evidence_item \<Rightarrow> string \<Rightarrow> index_db \<Rightarrow> index_db result" where
  "transition_rows run_id target i relative \<equiv> (\<lambda>db.
     bind_result (insert_evidence (evidence_row i relative) db)
       (\<lambda>db'. Inr (update_run run_id (moved_row target i) db')))"

lemma transition_run_cases:
  assumes "transition_run env call run_id target raw st = (st', res)"
  obtains (refused) "st' = st" "(\<exists>e. res = Inl e) \<or>
      (\<exists>db row. st_index st = Some db \<and> find_run run_id db = Some row \<and> res = Inr row
        \<and> rn_status row = CANCELLED \<and> target = CANCELLED)"
  | (published) db row i tree result where "st_index st = Some db" "find_run run_id db = Some row"
      "run_step (rn_status row) target"
      "evidence_of env call row ''run.state_transition''
        (transition_payload (rn_status row) target (py_strip raw)) 1 = Inr i"
      "publish env call (transition_operation target) (st_evidence st) i = (tree, result)"
      "\<forall>e. result = Inl e \<longrightarrow> st' = st\<lparr>st_evidence := tree\<rparr> \<and> res = Inl e"
      "\<forall>relative. result = Inr relative \<longrightarrow>
         commit_rows call (transition_operation target) (transition_rows run_id target i relative)
           run_id (st\<lparr>st_evidence := tree\<rparr>) db = (st', res)"
proof -
  let ?reason = "py_strip raw"
  note run = assms [unfolded transition_run_def Let_def open_initialized_def]
  have refuse: thesis if "st' = st" "\<exists>e. res = Inl e" using that by (intro refused) simp_all
  show thesis
  proof (cases "?reason = [] \<or> 1000 < char_count ?reason")
    case True
    with run show ?thesis by (intro refuse) auto
  next
    case reason: False
    show ?thesis
    proof (cases "st_index st")
      case None
      with run reason show ?thesis by (intro refuse) auto
    next
      case db: (Some db)
      show ?thesis
      proof (cases "c_db_fault call = Some Busy_Begin")
        case True
        with run reason db show ?thesis by (intro refuse) auto
      next
        case begun: False
        show ?thesis
        proof (cases "find_run run_id db")
          case None
          with run reason db begun show ?thesis by (intro refuse) auto
        next
          case row: (Some row)
          show ?thesis
          proof (cases "rn_status row = CANCELLED \<and> target = CANCELLED")
            case True
            with run reason db begun row have "st' = st" "res = Inr row" by auto
            with True db row show ?thesis by (intro refused) simp_all
          next
            case live: False
            let ?item = "bind_result (validate_transition (rn_status row) target) (\<lambda>_.
              evidence_of env call row ''run.state_transition''
                (transition_payload (rn_status row) target ?reason) 1)"
            show ?thesis
            proof (cases ?item)
              case (Inl e)
              with run reason db begun row live show ?thesis by (intro refuse) auto
            next
              case item: (Inr i)
              obtain tree result where p:
                "publish env call (transition_operation target) (st_evidence st) i = (tree, result)" by force
              from item have step: "run_step (rn_status row) target"
                "evidence_of env call row ''run.state_transition''
                  (transition_payload (rn_status row) target ?reason) 1 = Inr i"
                by (auto simp: bind_result_Inr_iff validate_transition_Inr_iff)
              have outcome: "(case (tree, result) of
                  (tree, Inl e) \<Rightarrow> (st\<lparr>st_evidence := tree\<rparr>, Inl e)
                | (tree, Inr relative) \<Rightarrow>
                    commit_rows call (transition_operation target) (transition_rows run_id target i relative)
                      run_id (st\<lparr>st_evidence := tree\<rparr>) db) = (st', res)"
                using run reason db begun row live item p by simp
              from outcome have "\<forall>e. result = Inl e \<longrightarrow> st' = st\<lparr>st_evidence := tree\<rparr> \<and> res = Inl e"
                "\<forall>relative. result = Inr relative \<longrightarrow>
                  commit_rows call (transition_operation target) (transition_rows run_id target i relative)
                    run_id (st\<lparr>st_evidence := tree\<rparr>) db = (st', res)"
                by auto
              with db row step p show ?thesis by (rule published)
            qed
          qed
        qed
      qed
    qed
  qed
qed

lemma find_run_transition_rows:
  assumes "transition_rows run_id target i relative db = Inr db'"
  shows "find_run r db' =
    (if r = run_id then map_option (moved_row target i) (find_run run_id db) else find_run r db)"
proof -
  from assms obtain db1 where "insert_evidence (evidence_row i relative) db = Inr db1"
    "db' = update_run run_id (moved_row target i) db1"
    by (auto simp: bind_result_Inr_iff)
  then show ?thesis by (simp add: find_run_update find_run_insert_evidence)
qed

lemma run_inv_row:
  assumes "run_inv env tree db r" "find_run r db' = find_run r db"
  shows "run_inv env tree db' r"
  using assms by (simp add: run_inv_def indexed_def)

text \<open>The ledger and its row after a committed transition.\<close>

lemma transition_committed:
  assumes inv: "\<forall>r. run_inv env tree db r"
    and rows: "transition_rows run_id target i relative db = Inr db'"
    and row: "find_run run_id db = Some row"
    and grown: "ledger env run_id (cs @ [i]) target" "directory_items tree run_id (cs @ [i])"
  shows "(\<forall>r. run_inv env tree db' r) \<and> indexed env db' run_id (cs @ [i])"
proof -
  have found: "find_run run_id db' = Some (moved_row target i row)"
    using find_run_transition_rows [OF rows, of run_id] row by simp
  have seq: "i_sequence i = int (length (cs @ [i]))"
    using ledger_item_wf [OF grown(1), of "length cs"] by (auto simp: item_wf_def)
  have own: "indexed env db' run_id (cs @ [i])"
    using grown(1) found seq by (simp add: indexed_def last_digest_def)
  have "run_inv env tree db' r" for r
  proof (cases "r = run_id")
    case True
    have "ledger_or_empty env run_id (cs @ [i])" using grown(1) by (auto simp: ledger_or_empty_def)
    from run_invI [OF grown(2) this _ own] have "run_inv env tree db' run_id" by blast
    with True show ?thesis by (simp only:)
  next
    case False
    from inv have "run_inv env tree db r" ..
    moreover from False find_run_transition_rows [OF rows, of r] have "find_run r db' = find_run r db"
      by (simp only: if_False)
    ultimately show ?thesis by (rule run_inv_row)
  qed
  with own show ?thesis by blast
qed

definition room_for_item :: "steward_state \<Rightarrow> string \<Rightarrow> bool" where
  "room_for_item st run_id \<longleftrightarrow>
     (case st_index st of
        None \<Rightarrow> True
      | Some db \<Rightarrow> (case find_run run_id db of None \<Rightarrow> True | Some row \<Rightarrow> rn_last_sequence row < max_sequence))"

abbreviation next_item :: "ledger_env \<Rightarrow> run_call \<Rightarrow> run_record \<Rightarrow> run_status \<Rightarrow> string \<Rightarrow> evidence_item result" where
  "next_item env call row target raw \<equiv> evidence_of env call row ''run.state_transition''
     (transition_payload (rn_status row) target (py_strip raw)) 1"

definition fresh_transition :: "ledger_env \<Rightarrow> run_call \<Rightarrow> string \<Rightarrow> run_status \<Rightarrow> string \<Rightarrow> steward_state \<Rightarrow> bool" where
  "fresh_transition env call run_id target raw st \<longleftrightarrow>
     (case st_index st of
        None \<Rightarrow> True
      | Some db \<Rightarrow>
          (case find_run run_id db of
             None \<Rightarrow> True
           | Some row \<Rightarrow>
               (case next_item env call row target raw of
                  Inl _ \<Rightarrow> True
                | Inr i \<Rightarrow> fresh_item env (st_evidence st) run_id i)))"

lemma transition_run_inv:
  assumes "env_ok env" "call_ok env call" "fresh_transition env call run_id target raw st"
    "room_for_item st run_id" "store_inv env st"
    "transition_run env call run_id target raw st = (st', res)"
  shows "store_inv env st'"
  using assms(6)
proof (cases rule: transition_run_cases)
  case (published db row i tree result)
  have inv: "\<forall>r. run_inv env (st_evidence st) db r"
    using assms(5) published(1) by (simp add: store_inv_def)
  have room: "rn_last_sequence row < max_sequence"
    using assms(4) published(1, 2) by (simp add: room_for_item_def)
  have fresh: "fresh_item env (st_evidence st) run_id i"
    using assms(3) published(1, 2, 4) by (simp add: fresh_transition_def)
  note publish = transition_publish [OF assms(1, 2) inv published(2, 3) room fresh published(4, 5)]
  from publish have kept: "\<forall>r. run_inv env tree db r" by blast
  show ?thesis
  proof (cases result)
    case (Inl e)
    with published kept show ?thesis by (simp add: store_inv_def)
  next
    case (Inr relative)
    with publish obtain cs where cs: "ledger env run_id (cs @ [i]) target" "directory_items tree run_id (cs @ [i])"
      by blast
    from published(7) Inr have "commit_rows call (transition_operation target)
      (transition_rows run_id target i relative) run_id (st\<lparr>st_evidence := tree\<rparr>) db = (st', res)" by simp
    then show ?thesis
    proof (cases rule: commit_rows_cases)
      case (rolled_back e)
      with kept published(1) show ?thesis by (simp add: store_inv_def)
    next
      case (committed db')
      from transition_committed [OF kept committed(1) published(2) cs]
      have "\<forall>r. run_inv env tree db' r" by blast
      with committed(2) show ?thesis by (simp add: store_inv_def)
    qed
  qed
qed (use assms(5) in simp)

abbreviation new_run :: "run_call \<Rightarrow> string \<Rightarrow> doc \<Rightarrow> string \<Rightarrow> string \<Rightarrow> run_record" where
  "new_run call run_kind metadata run_id config_digest \<equiv>
     \<lparr>rn_run_id = run_id, rn_run_kind = run_kind, rn_status = CREATED,
      rn_created_at = c_now call, rn_updated_at = c_now call, rn_config_digest = config_digest,
      rn_metadata = sort_keys (JObj metadata), rn_last_sequence = 0,
      rn_last_evidence_digest = None, rn_terminal = False\<rparr>"

abbreviation created_rows :: "run_record \<Rightarrow> evidence_item \<Rightarrow> string \<Rightarrow> index_db \<Rightarrow> index_db result" where
  "created_rows run i relative \<equiv> (\<lambda>db. bind_result
     (insert_run (run\<lparr>rn_last_sequence := 1, rn_last_evidence_digest := Some (i_evidence_digest i)\<rparr>) db)
     (insert_evidence (evidence_row i relative)))"

lemma create_run_cases:
  assumes "create_run env config call run_kind metadata run_id st = (st', res)"
  obtains (refused) "st' = st" "\<exists>e. res = Inl e"
  | (published) db i tree result config_digest where "st_index st = Some db"
      "evidence_of env call (new_run call run_kind metadata run_id config_digest) ''run.created''
        (created_payload run_kind (sort_keys (JObj metadata))) 1 = Inr i"
      "publish env call ''run.create'' (st_evidence st) i = (tree, result)"
      "\<forall>e. result = Inl e \<longrightarrow> st' = st\<lparr>st_evidence := tree\<rparr> \<and> res = Inl e"
      "\<forall>relative. result = Inr relative \<longrightarrow>
         commit_rows call ''run.create''
           (created_rows (new_run call run_kind metadata run_id config_digest) i relative)
           run_id (st\<lparr>st_evidence := tree\<rparr>) db = (st', res)"
proof -
  note run = assms [unfolded create_run_def Let_def open_initialized_def]
  show thesis
  proof (cases "run_kind_ok run_kind \<and> json_dumpable (JObj metadata) \<and> canonical_uuid4 run_id")
    case False
    with run show ?thesis by (intro refused) (auto split: if_splits)
  next
    case valid: True
    show ?thesis
    proof (cases "compute_config_digest env config")
      case (Inl e)
      with run valid show ?thesis by (intro refused) auto
    next
      case digest: (Inr config_digest)
      show ?thesis
      proof (cases "st_index st")
        case None
        with run valid digest show ?thesis by (intro refused) auto
      next
        case db: (Some db)
        show ?thesis
        proof (cases "c_db_fault call = Some Busy_Begin")
          case True
          with run valid digest db show ?thesis by (intro refused) auto
        next
          case begun: False
          let ?run = "new_run call run_kind metadata run_id config_digest"
          let ?item = "evidence_of env call ?run ''run.created''
            (created_payload run_kind (sort_keys (JObj metadata))) 1"
          show ?thesis
          proof (cases ?item)
            case (Inl e)
            with run valid digest db begun show ?thesis by (intro refused) (auto simp del: sort_keys.simps)
          next
            case item: (Inr i)
            obtain tree result where p: "publish env call ''run.create'' (st_evidence st) i = (tree, result)"
              by force
            have outcome: "(case (tree, result) of
                (tree, Inl e) \<Rightarrow> (st\<lparr>st_evidence := tree\<rparr>, Inl e)
              | (tree, Inr relative) \<Rightarrow>
                  commit_rows call ''run.create'' (created_rows ?run i relative)
                    run_id (st\<lparr>st_evidence := tree\<rparr>) db) = (st', res)"
              using run valid digest db begun item p by (simp del: sort_keys.simps)
            from outcome have "\<forall>e. result = Inl e \<longrightarrow> st' = st\<lparr>st_evidence := tree\<rparr> \<and> res = Inl e"
              "\<forall>relative. result = Inr relative \<longrightarrow>
                commit_rows call ''run.create'' (created_rows ?run i relative)
                  run_id (st\<lparr>st_evidence := tree\<rparr>) db = (st', res)"
              by auto
            with db item p show ?thesis by (rule published)
          qed
        qed
      qed
    qed
  qed
qed

lemma find_run_created_rows:
  assumes "created_rows run i relative db = Inr db'"
  shows "find_run r db' =
    (if r = rn_run_id run
     then Some (run\<lparr>rn_last_sequence := 1, rn_last_evidence_digest := Some (i_evidence_digest i)\<rparr>)
     else find_run r db)"
proof -
  from assms obtain db1 where
    "insert_run (run\<lparr>rn_last_sequence := 1, rn_last_evidence_digest := Some (i_evidence_digest i)\<rparr>) db = Inr db1"
    "insert_evidence (evidence_row i relative) db1 = Inr db'"
    by (auto simp: bind_result_Inr_iff)
  then show ?thesis using find_run_insert_run [of _ db db1 r] by (simp add: find_run_insert_evidence)
qed

lemma create_committed:
  assumes inv: "\<forall>r. run_inv env tree db r"
    and rows: "created_rows run i relative db = Inr db'"
    and run: "rn_run_id run = run_id" "rn_status run = CREATED"
    and first: "ledger env run_id [i] CREATED" "directory_items tree run_id [i]"
  shows "(\<forall>r. run_inv env tree db' r) \<and> indexed env db' run_id [i]"
proof -
  have own: "indexed env db' run_id [i]"
    using find_run_created_rows [OF rows, of run_id] run first(1) by (simp add: indexed_def last_digest_def)
  have "run_inv env tree db' r" for r
  proof (cases "r = run_id")
    case True
    have "ledger_or_empty env run_id [i]" using first(1) by (auto simp: ledger_or_empty_def)
    from run_invI [OF first(2) this _ own] have "run_inv env tree db' run_id" by blast
    with True show ?thesis by (simp only:)
  next
    case False
    from inv have "run_inv env tree db r" ..
    moreover from False run(1) find_run_created_rows [OF rows, of r] have "find_run r db' = find_run r db"
      by (simp only: if_False)
    ultimately show ?thesis by (rule run_inv_row)
  qed
  with own show ?thesis by blast
qed

lemma create_run_inv:
  assumes "env_ok env" "call_ok env call" "json_wf (float_repr env) (JObj metadata)" "store_inv env st"
    "create_run env config call run_kind metadata run_id st = (st', res)"
  shows "store_inv env st'"
  using assms(5)
proof (cases rule: create_run_cases)
  case (published db i tree result config_digest)
  let ?run = "new_run call run_kind metadata run_id config_digest"
  have inv: "\<forall>r. run_inv env (st_evidence st) db r"
    using assms(4) published(1) by (simp add: store_inv_def)
  have run: "rn_run_id ?run = run_id" "rn_last_sequence ?run = 0" "rn_last_evidence_digest ?run = None"
    "rn_status ?run = CREATED" by simp_all
  note publish = create_publish [OF assms(1, 2) inv run(1-3) json_wf_sort_keys [OF assms(3)] published(2, 3)]
  from publish have kept: "\<forall>r. run_inv env tree db r" by blast
  show ?thesis
  proof (cases result)
    case (Inl e)
    with published kept show ?thesis by (simp add: store_inv_def)
  next
    case (Inr relative)
    with publish have first: "ledger env run_id [i] CREATED" "directory_items tree run_id [i]" by blast+
    from published(5) Inr have "commit_rows call ''run.create'' (created_rows ?run i relative)
      run_id (st\<lparr>st_evidence := tree\<rparr>) db = (st', res)" by simp
    then show ?thesis
    proof (cases rule: commit_rows_cases)
      case (rolled_back e)
      with kept published(1) show ?thesis by (simp add: store_inv_def)
    next
      case (committed db')
      from create_committed [OF kept committed(1) run(1, 4) first]
      have "\<forall>r. run_inv env tree db' r" by blast
      with committed(2) show ?thesis by (simp add: store_inv_def)
    qed
  qed
qed (use assms(4) in simp)

end
