(* ===== verification/Run_Ledger_Reachable.thy ===== *)
theory Run_Ledger_Reachable
  imports Run_Store_Correct
begin

text \<open>
  The stores that calls of \<open>create_run\<close> and \<open>transition_run\<close> can reach, with failures
  and killed writers at any point, what verification reports of their ledgers, and what an
  undisturbed call comes down to.
\<close>

section \<open>Reachable stores\<close>

definition empty_store :: steward_state where
  "empty_store = \<lparr>st_evidence = [], st_index = Some \<lparr>db_runs = [], db_evidence = []\<rparr>\<rparr>"

inductive store_reachable :: "ledger_env \<Rightarrow> steward_config \<Rightarrow> steward_state \<Rightarrow> bool"
  for env config where
  start: "store_reachable env config empty_store"
| creation: "store_reachable env config st'"
    if "store_reachable env config st" "call_ok env call" "json_wf (float_repr env) (JObj metadata)"
      "create_run env config call run_kind metadata run_id st = (st', res)"
| transition: "store_reachable env config st'"
    if "store_reachable env config st" "call_ok env call"
      "fresh_transition env call run_id target reason st" "room_for_item st run_id"
      "transition_run env call run_id target reason st = (st', res)"
| killed: "store_reachable env config
      (st\<lparr>st_evidence := AList.update run_id (RunDir False (files @ [(name, RegularFile bytes)])) (st_evidence st)\<rparr>)"
    if "store_reachable env config st" "map_of (st_evidence st) run_id = Some (RunDir False files)"
      "ends_with ''.tmp'' name" "name \<notin> fst ` set files"

lemma directory_items_leftover:
  assumes "map_of tree run_id = Some (RunDir False files)" "ends_with ''.tmp'' name" "name \<notin> fst ` set files"
    and "directory_items tree r items"
  shows "directory_items (AList.update run_id (RunDir False (files @ [(name, RegularFile bytes)])) tree) r items"
proof (cases "r = run_id")
  case True
  with assms(1, 4) have "dict_wf files" "sort_key fst (filter (\<lambda>f. \<not> leftover f) files) = map file_of items"
    by (auto simp: directory_items_def represents_def)
  moreover have "leftover (name, RegularFile bytes)" using assms(2) by (simp add: leftover_def)
  ultimately have "dict_wf (files @ [(name, RegularFile bytes)])"
    "sort_key fst (filter (\<lambda>f. \<not> leftover f) (files @ [(name, RegularFile bytes)])) = map file_of items"
    using assms(3) by (simp_all add: dict_wf_def)
  with True show ?thesis by (simp add: directory_items_update)
next
  case False
  with assms(4) show ?thesis by (simp add: directory_items_other)
qed

lemma store_invI:
  "st_index st = Some db \<Longrightarrow> (\<And>r. run_inv env (st_evidence st) db r) \<Longrightarrow> store_inv env st"
  unfolding store_inv_def by (simp, blast)

lemma store_inv_leftover:
  assumes "map_of (st_evidence st) run_id = Some (RunDir False files)" "ends_with ''.tmp'' name"
    "name \<notin> fst ` set files" "store_inv env st"
  shows "store_inv env
    (st\<lparr>st_evidence := AList.update run_id (RunDir False (files @ [(name, RegularFile bytes)])) (st_evidence st)\<rparr>)"
proof -
  from assms(4) obtain db where db: "st_index st = Some db" "\<forall>r. run_inv env (st_evidence st) db r"
    by (auto simp: store_inv_def split: option.splits)
  have "run_inv env (AList.update run_id (RunDir False (files @ [(name, RegularFile bytes)])) (st_evidence st)) db r" for r
  proof -
    from db(2) have "run_inv env (st_evidence st) db r" ..
    then obtain items cs where "directory_items (st_evidence st) r items" "ledger_or_empty env r items"
      "items = cs \<or> (\<exists>i. items = cs @ [i])" "indexed env db r cs"
      by (rule run_invE)
    with directory_items_leftover [OF assms(1-3)] show ?thesis by (metis run_invI)
  qed
  with db(1) show ?thesis by (intro store_invI) simp_all
qed

lemma store_reachable_inv:
  assumes "env_ok env" "store_reachable env config st"
  shows "store_inv env st"
  using assms(2)
proof induction
  case start
  have "run_inv env [] \<lparr>db_runs = [], db_evidence = []\<rparr> r" for r
    by (rule run_invI [of _ _ "[]" _ "[]"])
      (simp_all add: directory_items_def ledger_or_empty_def indexed_def find_run_def)
  then show ?case by (intro store_invI) (simp_all add: empty_store_def)
next
  case (creation st call metadata run_kind run_id st' res)
  with assms(1) show ?case by (blast intro: create_run_inv)
next
  case (transition st call run_id target reason st' res)
  with assms(1) show ?case by (blast intro: transition_run_inv)
next
  case (killed st run_id files name bytes)
  then show ?case by (blast intro: store_inv_leftover)
qed

section \<open>What verification reports\<close>

lemma verify_run_items:
  assumes "st_index st = Some db" "directory_items (st_evidence st) run_id items"
    and "ledger env run_id items s" "items = cs \<or> (\<exists>i. items = cs @ [i])" "indexed env db run_id cs"
  shows "verify_run env st run_id = Inr
    \<lparr>vr_run_id = run_id, vr_status = (if items = cs then ''VALID'' else ''INCOMPLETE''),
     vr_ledger_valid = True, vr_index_consistent = (items = cs), vr_errors = [],
     vr_evidence_count = int (length items)\<rparr>"
proof -
  have ne: "items \<noteq> []" by (rule ledger_not_Nil [OF assms(3)])
  then have "represents (st_evidence st) run_id items" using assms(2) by (simp add: directory_items_def)
  note load = load_represented [OF this assms(3)]
  have index: "check_index (Some db) run_id (int (length items)) (chain_after items s) = (items = cs, [], True)"
  proof (cases "find_run run_id db")
    case None
    with assms(5) have "cs = []" by (simp add: indexed_def)
    with None ne show ?thesis by (simp add: check_index_def chain_after_def)
  next
    case (Some row)
    note row = indexed_row [OF assms(5) Some]
    have "rn_status row = s" if "items = cs"
      using ledger_unique [OF row(1)] assms(3) that by simp
    show ?thesis
    proof (cases "items = cs")
      case True
      with \<open>items = cs \<Longrightarrow> rn_status row = s\<close> row Some show ?thesis
        by (simp add: check_index_def chain_after_def)
    next
      case False
      with assms(4) have "length items = Suc (length cs)" by auto
      with False row Some show ?thesis by (simp add: check_index_def chain_after_def)
    qed
  qed
  have clean: "ch_errors (chain_after items s) = []" by (simp add: chain_after_def)
  show ?thesis
    using ne by (simp add: verify_run_def load verify_ledger_documents [OF assms(3)] assms(1) index clean)
qed

section \<open>Undisturbed and interrupted calls\<close>

definition quiet :: "run_call \<Rightarrow> bool" where
  "quiet call \<longleftrightarrow> c_disk_fault call = None \<and> c_db_fault call = None \<and> c_injector call = None"

definition reason_ok :: "string \<Rightarrow> bool" where
  "reason_ok raw \<longleftrightarrow> py_strip raw \<noteq> [] \<and> char_count (py_strip raw) \<le> 1000"

text \<open>A legal undisturbed transition comes down to the publication and the commit.\<close>

lemma quiet_transition:
  assumes "c_db_fault call \<noteq> Some Busy_Begin" "reason_ok raw" "st_index st = Some db"
    and "find_run run_id db = Some row" "run_step (rn_status row) target" "next_item env call row target raw = Inr i"
  shows "transition_run env call run_id target raw st =
    (case publish env call (transition_operation target) (st_evidence st) i of
       (tree, Inl e) \<Rightarrow> (st\<lparr>st_evidence := tree\<rparr>, Inl e)
     | (tree, Inr relative) \<Rightarrow>
         commit_rows call (transition_operation target) (transition_rows run_id target i relative)
           run_id (st\<lparr>st_evidence := tree\<rparr>) db)"
proof -
  have "\<not> (rn_status row = CANCELLED \<and> target = CANCELLED)" using assms(5) by auto
  moreover have "bind_result (validate_transition (rn_status row) target) (\<lambda>_. next_item env call row target raw) = Inr i"
    using assms(5, 6) by (simp add: bind_result_Inr_iff validate_transition_Inr_iff)
  ultimately show ?thesis
    using assms(1-4) by (cases "rn_status row = CANCELLED"; cases "target = CANCELLED")
      (simp_all add: transition_run_def open_initialized_def reason_ok_def not_less)
qed

lemma next_item_facts:
  assumes "env_ok env" "call_ok env call" "indexed env db run_id cs" "find_run run_id db = Some row"
    and "rn_last_sequence row < max_sequence" "next_item env call row target raw = Inr i"
  shows "item_wf env run_id (int (length cs) + 1) (last_digest cs) i
    \<and> i_evidence_type i = ''run.state_transition'' \<and> i_evidence_type i \<in> set ledger_types
    \<and> i_payload i = transition_payload (rn_status row) target (py_strip raw)
    \<and> i_evidence_id i = c_evidence_id call"
proof -
  note row = indexed_row [OF assms(3, 4)]
  have "json_wf (float_repr env) (JObj (transition_payload (rn_status row) target (py_strip raw)))"
    by (simp add: transition_payload_def)
  from evidence_of_wf [OF assms(1, 2, 6) this] row assms(5) show ?thesis
    by (simp add: ledger_types_def)
qed

lemma verified_items:
  assumes "env_ok env" "store_reachable env config st" "st_index st = Some db"
    and "find_run run_id db = Some row"
  obtains items cs where "directory_items (st_evidence st) run_id items" "ledger_or_empty env run_id items"
    "items = cs \<or> (\<exists>i. items = cs @ [i])" "indexed env db run_id cs"
    "verify_run env st run_id = Inr
      \<lparr>vr_run_id = run_id, vr_status = (if items = cs then ''VALID'' else ''INCOMPLETE''),
       vr_ledger_valid = True, vr_index_consistent = (items = cs), vr_errors = [],
       vr_evidence_count = int (length items)\<rparr>"
proof -
  from store_reachable_inv [OF assms(1, 2)] assms(3) have "run_inv env (st_evidence st) db run_id"
    by (auto simp: store_inv_def)
  then obtain items cs where own: "directory_items (st_evidence st) run_id items"
    "ledger_or_empty env run_id items" "items = cs \<or> (\<exists>i. items = cs @ [i])" "indexed env db run_id cs"
    by (rule run_invE)
  have "cs \<noteq> []" using indexed_row(1) [OF own(4) assms(4)] by (rule ledger_not_Nil)
  with own(2, 3) obtain s where "ledger env run_id items s" by (auto simp: ledger_or_empty_def)
  from verify_run_items [OF assms(3) own(1) this own(3, 4)] own show ?thesis by (intro that)
qed

lemma quiet_not_busy: "quiet call \<Longrightarrow> c_db_fault call \<noteq> Some Busy_Begin"
  by (simp add: quiet_def)

text \<open>The same of a valid creation.\<close>

lemma quiet_create:
  assumes "c_db_fault call \<noteq> Some Busy_Begin" "run_kind_ok run_kind" "json_dumpable (JObj metadata)"
    and "canonical_uuid4 run_id" "compute_config_digest env config = Inr config_digest"
    and "st_index st = Some db"
    and "evidence_of env call (new_run call run_kind metadata run_id config_digest) ''run.created''
      (created_payload run_kind (sort_keys (JObj metadata))) 1 = Inr i"
  shows "create_run env config call run_kind metadata run_id st =
    (case publish env call ''run.create'' (st_evidence st) i of
       (tree, Inl e) \<Rightarrow> (st\<lparr>st_evidence := tree\<rparr>, Inl e)
     | (tree, Inr relative) \<Rightarrow>
         commit_rows call ''run.create''
           (created_rows (new_run call run_kind metadata run_id config_digest) i relative)
           run_id (st\<lparr>st_evidence := tree\<rparr>) db)"
proof -
  obtain tree result where "publish env call ''run.create'' (st_evidence st) i = (tree, result)" by force
  with assms show ?thesis
    by (cases result)
      (simp_all add: create_run_def open_initialized_def Let_def del: sort_keys.simps json_dumpable.simps)
qed

lemma fresh_itemI:
  assumes "directory_items tree run_id items" "ledger env run_id items st"
    and "i_evidence_id i \<notin> i_evidence_id ` set items" "i_evidence_digest i \<notin> i_evidence_digest ` set items"
  shows "fresh_item env tree run_id i"
proof -
  have "represents tree run_id items"
    using assms(1) ledger_not_Nil [OF assms(2)] by (auto simp: directory_items_def)
  from load_represented [OF this assms(2)] assms(3, 4) show ?thesis
    by (auto simp: fresh_item_def loaded_def list_all_iff as_object_def dget_sorted_item dget_item_doc image_iff)
qed

end
