(* ===== verification/Run_Ledger_Examples.thy ===== *)
theory Run_Ledger_Examples
  imports Run_Ledger_Reachable
begin

text \<open>
  A small concrete history for the witness theorems: a Run is created, moved to
  \<open>scanning\<close>, and a transition to \<open>scanned\<close> is interrupted before its commit. In place
  of SHA-256 stands the length of the text.
\<close>

definition example_env :: ledger_env where
  "example_env = \<lparr>sha256 = (\<lambda>s. nat_repr (length s)), float_repr = (\<lambda>s. s), tool_version = ''0.1.0'',
     parse_time = (\<lambda>_. Some True), uuid4_ok = (\<lambda>_. True)\<rparr>"

definition example_config :: steward_config where
  "example_config = \<lparr>cf_schema_version = 1, cf_project_name = ''p'',
     cf_paths = \<lparr>data_dir = [], cache_dir = [], evidence_dir = [], quarantine_dir = []\<rparr>,
     cf_scopes = [], cf_project_root = [], cf_source_path = [], cf_warnings = []\<rparr>"

definition example_call :: "string \<Rightarrow> run_call" where
  "example_call u = \<lparr>c_now = ''2026-01-01T00:00:00Z'', c_evidence_id = u, c_disk_fault = None,
     c_db_fault = None, c_injector = None\<rparr>"

definition example_id :: string where
  "example_id = ''00000000-0000-4000-8000-000000000000''"

definition example_run :: run_record where
  "example_run = new_run (example_call ''u1'') ''k'' [] example_id ''132''"

definition first_item :: evidence_item where
  "first_item = \<lparr>i_schema_version = 1, i_evidence_id = ''u1'', i_evidence_type = ''run.created'',
     i_run_id = example_id, i_sequence = 1, i_created_at = ''2026-01-01T00:00:00Z'',
     i_tool_version = ''0.1.0'', i_config_digest = ''132'', i_previous_evidence_digest = None,
     i_payload = created_payload ''k'' (JObj []), i_evidence_digest = ''355''\<rparr>"

definition first_row :: run_record where
  "first_row = example_run\<lparr>rn_last_sequence := 1, rn_last_evidence_digest := Some ''355''\<rparr>"

definition first_db :: index_db where
  "first_db = \<lparr>db_runs = [first_row],
     db_evidence = [evidence_row first_item (relative_path example_id (item_name first_item))]\<rparr>"

definition second_item :: evidence_item where
  "second_item = \<lparr>i_schema_version = 1, i_evidence_id = ''u2'', i_evidence_type = ''run.state_transition'',
     i_run_id = example_id, i_sequence = 2, i_created_at = ''2026-01-01T00:00:00Z'',
     i_tool_version = ''0.1.0'', i_config_digest = ''132'', i_previous_evidence_digest = Some ''355'',
     i_payload = transition_payload CREATED SCANNING ''go'', i_evidence_digest = ''370''\<rparr>"

lemma example_env_ok: "env_ok example_env"
  using utf8_of_ascii digits_ascii nat_repr_digits by (simp add: env_ok_def example_env_def)

lemma example_call_ok: "call_ok example_env (example_call u)" "quiet (example_call u)"
  by (simp_all add: call_ok_def quiet_def example_env_def example_call_def)

lemma example_digest_eq: "compute_config_digest example_env example_config = Inr ''132''"
  by code_simp

lemma first_digest: "digest example_env (item_body first_item) = Inr ''355''"
  by code_simp

lemma second_digest: "digest example_env (item_body second_item) = Inr ''370''"
  by code_simp

lemma first_item_eq:
  "evidence_of example_env (example_call ''u1'') example_run ''run.created''
     (created_payload ''k'' (sort_keys (JObj []))) 1 = Inr first_item"
  using first_digest
  by (simp add: evidence_of_def first_item_def example_run_def example_call_def item_body_def
      example_env_def created_payload_def)

lemma space_encodings_eq: "space_encodings = map (map char_of) ([[9], [10], [11], [12], [13], [28], [29],
    [30], [31], [32], [194, 133], [194, 160], [225, 154, 128], [226, 128, 128], [226, 128, 129],
    [226, 128, 130], [226, 128, 131], [226, 128, 132], [226, 128, 133], [226, 128, 134],
    [226, 128, 135], [226, 128, 136], [226, 128, 137], [226, 128, 138], [226, 128, 168],
    [226, 128, 169], [226, 128, 175], [226, 129, 159], [227, 128, 128]] :: nat list list)"
  by (simp add: space_encodings_def utf8_of_def upt_rec_numeral)

lemma strip_left_id: "list_all (\<lambda>w. \<not> starts_with w s) spaces \<Longrightarrow> strip_left n spaces s = s"
  by (cases n) (simp_all add: list_all_iff)

lemma py_strip_go: "py_strip ''go'' = ''go''"
proof -
  have "list_all (\<lambda>w. \<not> starts_with w ''go'') space_encodings"
    unfolding space_encodings_eq by code_simp
  moreover have "list_all (\<lambda>w. \<not> starts_with w ''og'') (map rev space_encodings)"
    unfolding space_encodings_eq by code_simp
  ultimately show ?thesis by (simp add: py_strip_def strip_left_id del: strip_left.simps)
qed

lemma second_item_eq: "next_item example_env (example_call ''u2'') first_row SCANNING ''go'' = Inr second_item"
  using second_digest
  by (simp add: py_strip_go evidence_of_def second_item_def first_row_def example_run_def example_call_def
      item_body_def example_env_def)

lemma first_rows:
  "created_rows example_run first_item (relative_path example_id (item_name first_item))
     \<lparr>db_runs = [], db_evidence = []\<rparr> = Inr first_db"
  by (simp add: insert_run_def insert_evidence_def first_db_def first_row_def evidence_row_def
      example_run_def first_item_def)

lemma second_rows: "\<exists>db. insert_evidence (evidence_row second_item
    (relative_path example_id (item_name second_item))) first_db = Inr db"
proof -
  have "item_name second_item \<noteq> item_name first_item" by code_simp
  then show ?thesis
    by (simp add: insert_evidence_def first_db_def first_row_def evidence_row_def example_run_def
        first_item_def second_item_def relative_path_def)
qed

section \<open>The stores of the history\<close>

lemma empty_directory: "directory_items [] example_id []" "ledger_or_empty example_env example_id []"
  by (simp_all add: directory_items_def ledger_or_empty_def)

lemma first_item_wf: "item_wf example_env example_id 1 None first_item"
  "ledger example_env example_id [first_item] CREATED"
proof -
  have "json_wf (float_repr example_env) (JObj (created_payload ''k'' (sort_keys (JObj []))))"
    by (simp add: created_payload_def)
  from evidence_of_wf(1) [OF example_env_ok example_call_ok(1) first_item_eq this]
  show wf: "item_wf example_env example_id 1 None first_item"
    by (simp add: example_run_def max_sequence_def)
  then show "ledger example_env example_id [first_item] CREATED"
    by (intro ledger.created) (simp_all add: first_item_def created_payload_def dget_def)
qed

text \<open>The store after the creation.\<close>

lemma created_store:
  obtains tree where "directory_items tree example_id [first_item]"
    "create_run example_env example_config (example_call ''u1'') ''k'' [] example_id empty_store
      = (\<lparr>st_evidence = tree, st_index = Some first_db\<rparr>, Inr first_row)"
proof -
  obtain tree result where p: "publish example_env (example_call ''u1'') ''run.create'' [] first_item = (tree, result)"
    by force
  have wf: "item_wf example_env example_id (int (length []) + 1) None first_item" using first_item_wf(1) by simp
  have "i_evidence_type first_item \<in> set ledger_types" by (simp add: first_item_def ledger_types_def)
  from publish_next [OF empty_directory wf this p] have
    tree: "directory_items tree example_id [first_item]" and
    result: "result = Inr (relative_path example_id (item_name first_item))"
    by (auto simp: example_call_def)
  have "find_run example_id first_db = Some first_row"
    by (simp add: find_run_def first_db_def first_row_def example_run_def)
  then have commit: "commit_rows (example_call ''u1'') ''run.create''
      (created_rows example_run first_item (relative_path example_id (item_name first_item))) example_id
      \<lparr>st_evidence = tree, st_index = Some \<lparr>db_runs = [], db_evidence = []\<rparr>\<rparr>
      \<lparr>db_runs = [], db_evidence = []\<rparr> = (\<lparr>st_evidence = tree, st_index = Some first_db\<rparr>, Inr first_row)"
    by (simp add: commit_rows_def first_rows example_call_def checkpoint_def get_run_def open_initialized_def)
  have "run_kind_ok ''k''" "canonical_uuid4 example_id" by code_simp+
  then have "create_run example_env example_config (example_call ''u1'') ''k'' [] example_id empty_store
      = (\<lparr>st_evidence = tree, st_index = Some first_db\<rparr>, Inr first_row)"
    using quiet_create [OF _ _ _ _ example_digest_eq, of "example_call ''u1''" "''k''" "[]" example_id
        empty_store "\<lparr>db_runs = [], db_evidence = []\<rparr>" first_item] first_item_eq p result commit
    by (simp add: example_call_def empty_store_def example_run_def del: sort_keys.simps)
  with tree show ?thesis by (rule that)
qed

definition created_state :: steward_state where
  "created_state =
     fst (create_run example_env example_config (example_call ''u1'') ''k'' [] example_id empty_store)"

lemma created_state_reachable: "store_reachable example_env example_config created_state"
proof -
  have "json_wf (float_repr example_env) (JObj [])" by simp
  from store_reachable.creation [OF store_reachable.start example_call_ok(1) this] show ?thesis
    unfolding created_state_def by (metis prod.collapse)
qed

lemma created_state_facts:
  "st_index created_state = Some first_db" "find_run example_id first_db = Some first_row"
  "directory_items (st_evidence created_state) example_id [first_item]"
  "verify_run example_env created_state example_id = Inr
    \<lparr>vr_run_id = example_id, vr_status = ''VALID'', vr_ledger_valid = True, vr_index_consistent = True,
     vr_errors = [], vr_evidence_count = 1\<rparr>"
proof -
  show index: "st_index created_state = Some first_db"
    and items: "directory_items (st_evidence created_state) example_id [first_item]"
    using created_store unfolding created_state_def by (metis fst_conv steward_state.select_convs)+
  show row: "find_run example_id first_db = Some first_row"
    by (simp add: find_run_def first_db_def first_row_def example_run_def)
  have "indexed example_env first_db example_id [first_item]"
    using first_item_wf(2) by (simp add: indexed_def row last_digest_def first_row_def example_run_def first_item_def)
  from verify_run_items [OF index items first_item_wf(2) _ this]
  show "verify_run example_env created_state example_id = Inr
    \<lparr>vr_run_id = example_id, vr_status = ''VALID'', vr_ledger_valid = True, vr_index_consistent = True,
     vr_errors = [], vr_evidence_count = 1\<rparr>" by simp
qed

lemma second_item_fresh: "fresh_item example_env (st_evidence created_state) example_id second_item"
  by (rule fresh_itemI [OF created_state_facts(3) first_item_wf(2)])
    (simp_all add: first_item_def second_item_def)

lemma go_ok: "reason_ok ''go''"
proof -
  have "char_count ''go'' = 2" by code_simp
  then show ?thesis by (simp add: reason_ok_def py_strip_go)
qed

text \<open>The store after a transition whose rows could not be written.\<close>

definition busy_call :: run_call where
  "busy_call = (example_call ''u2'')\<lparr>c_db_fault := Some Busy_Write\<rparr>"

definition interrupted_state :: steward_state where
  "interrupted_state = fst (transition_run example_env busy_call example_id SCANNING ''go'' created_state)"

lemma busy_item: "next_item example_env busy_call first_row SCANNING ''go'' = Inr second_item"
  using second_item_eq by (simp add: evidence_of_def busy_call_def example_call_def)

lemma interrupted_state_reachable: "store_reachable example_env example_config interrupted_state"
proof -
  have "call_ok example_env busy_call" by (simp add: busy_call_def example_call_def call_ok_def example_env_def)
  moreover have "fresh_transition example_env busy_call example_id SCANNING ''go'' created_state"
    using second_item_fresh busy_item by (simp add: fresh_transition_def created_state_facts)
  moreover have "room_for_item created_state example_id"
    by (simp add: room_for_item_def created_state_facts first_row_def max_sequence_def)
  ultimately show ?thesis
    unfolding interrupted_state_def
    by (metis store_reachable.transition [OF created_state_reachable] prod.collapse)
qed

lemma interrupted_state_facts:
  "st_index interrupted_state = Some first_db"
  "verify_run example_env interrupted_state example_id = Inr
    \<lparr>vr_run_id = example_id, vr_status = ''INCOMPLETE'', vr_ledger_valid = True, vr_index_consistent = False,
     vr_errors = [], vr_evidence_count = 2\<rparr>"
proof -
  obtain tree result where p: "publish example_env busy_call (transition_operation SCANNING)
      (st_evidence created_state) second_item = (tree, result)" by force
  have step: "run_step (rn_status first_row) SCANNING"
    by (simp add: run_step_iff first_row_def example_run_def)
  have indexed: "indexed example_env first_db example_id [first_item]"
    using first_item_wf(2)
    by (simp add: indexed_def created_state_facts(2) last_digest_def first_row_def example_run_def first_item_def)
  have call: "call_ok example_env busy_call" by (simp add: busy_call_def example_call_def call_ok_def example_env_def)
  have inv: "\<forall>r. run_inv example_env (st_evidence created_state) first_db r"
    using store_reachable_inv [OF example_env_ok created_state_reachable]
    by (simp add: store_inv_def created_state_facts(1))
  have room: "rn_last_sequence first_row < max_sequence" by (simp add: first_row_def max_sequence_def)
  from next_item_facts [OF example_env_ok call indexed created_state_facts(2) room busy_item] have wf:
    "item_wf example_env example_id (int (length [first_item]) + 1) (last_digest [first_item]) second_item"
    "i_evidence_type second_item \<in> set ledger_types" by blast+
  have "ledger_or_empty example_env example_id [first_item]" using first_item_wf(2) by (auto simp: ledger_or_empty_def)
  from publish_next [OF created_state_facts(3) this wf p] obtain rel where result: "result = Inr rel"
    by (auto simp: busy_call_def example_call_def)
  from transition_publish [OF example_env_ok call inv created_state_facts(2) step room second_item_fresh
      busy_item p] result obtain cs where cs: "indexed example_env first_db example_id cs"
    "ledger example_env example_id (cs @ [second_item]) SCANNING" "directory_items tree example_id (cs @ [second_item])"
    by blast
  have busy: "c_db_fault busy_call = Some Busy_Write" by (simp add: busy_call_def)
  have state: "interrupted_state = created_state\<lparr>st_evidence := tree\<rparr>"
    unfolding interrupted_state_def
    by (subst quiet_transition [OF _ go_ok created_state_facts(1, 2) step busy_item])
      (simp_all add: p result commit_rows_def busy)
  show index: "st_index interrupted_state = Some first_db" by (simp add: state created_state_facts(1))
  have items: "directory_items (st_evidence interrupted_state) example_id (cs @ [second_item])"
    using cs(3) by (simp add: state)
  have "length cs = 1"
    using indexed_row(2) [OF cs(1) created_state_facts(2)] by (simp add: first_row_def)
  with verify_run_items [OF index items cs(2) _ cs(1)]
  show "verify_run example_env interrupted_state example_id = Inr
    \<lparr>vr_run_id = example_id, vr_status = ''INCOMPLETE'', vr_ledger_valid = True, vr_index_consistent = False,
     vr_errors = [], vr_evidence_count = 2\<rparr>" by simp
qed

lemma directory_has_files:
  assumes "directory_items tree run_id items" "items \<noteq> []"
  obtains files where "map_of tree run_id = Some (RunDir False files)" "list_ex (\<lambda>f. \<not> leftover f) files"
proof -
  from assms obtain files where files: "map_of tree run_id = Some (RunDir False files)"
    "sort_key fst (filter (\<lambda>f. \<not> leftover f) files) = map file_of items"
    by (auto simp: directory_items_def represents_def)
  have "filter (\<lambda>f. \<not> leftover f) files \<noteq> []"
  proof
    assume "filter (\<lambda>f. \<not> leftover f) files = []"
    with files(2) assms(2) show False by simp
  qed
  then have "list_ex (\<lambda>f. \<not> leftover f) files" by (auto simp: list_ex_iff filter_empty_conv)
  with files(1) show ?thesis by (rule that)
qed

lemma interrupted_directory:
  obtains files where "map_of (st_evidence interrupted_state) example_id = Some (RunDir False files)"
    "list_ex (\<lambda>f. \<not> leftover f) files"
proof -
  from store_reachable_inv [OF example_env_ok interrupted_state_reachable] interrupted_state_facts(1)
  have "run_inv example_env (st_evidence interrupted_state) first_db example_id"
    by (simp add: store_inv_def)
  then obtain items cs where own: "directory_items (st_evidence interrupted_state) example_id items"
    "ledger_or_empty example_env example_id items" "items = cs \<or> (\<exists>i. items = cs @ [i])"
    "indexed example_env first_db example_id cs"
    by (rule run_invE)
  have "cs \<noteq> []" using indexed_row(1) [OF own(4) created_state_facts(2)] by (rule ledger_not_Nil)
  with own(3) have "items \<noteq> []" by auto
  then show ?thesis by (rule directory_has_files [OF own(1)]) (rule that)
qed

lemma third_item: "\<exists>i. next_item example_env (example_call ''u3'') first_row CANCELLED ''go'' = Inr i"
proof -
  have "isl (evidence_of example_env (example_call ''u3'') first_row ''run.state_transition''
    (transition_payload CREATED CANCELLED ''go'') 1) = False" by code_simp
  then show ?thesis
    unfolding py_strip_go by (cases "evidence_of example_env (example_call ''u3'') first_row
      ''run.state_transition'' (transition_payload (rn_status first_row) CANCELLED ''go'') 1")
      (simp_all add: first_row_def example_run_def)
qed

end
