(* ===== verification/Run_Ledger_Properties.thy ===== *)
theory Run_Ledger_Properties
  imports Run_Ledger_Examples
begin

text \<open>
  What the coordinator promises: every store that calls of \<open>create_run\<close> and
  \<open>transition_run\<close> can reach, with failures and killed writers at any point, consists of
  ledgers that verify; an undisturbed call succeeds and leaves its Run \<open>VALID\<close>; and a call
  that was interrupted between publication and commit leaves it \<open>INCOMPLETE\<close>.
\<close>

text \<open>C21: Every store that is reachable from an empty one by create_run and transition_run calls, with
  disk failures, SQLite failures, injected faults and killed writers at any point, consists of
  ledgers that verify: a Run with at least one Evidence file is VALID or INCOMPLETE, without an
  error, and never INVALID.\<close>

theorem reachable_ledgers_verify:
  assumes "env_ok env" "store_reachable env config st"
    "map_of (st_evidence st) run_id = Some (RunDir False files)"
    "list_ex (\<lambda>f. \<not> leftover f) files"
  shows "\<exists>r. verify_run env st run_id = Inr r \<and> vr_ledger_valid r \<and> vr_errors r = []
    \<and> vr_status r = (if vr_index_consistent r then ''VALID'' else ''INCOMPLETE'')"
proof -
  from store_reachable_inv [OF assms(1, 2)] obtain db where db: "st_index st = Some db"
    "run_inv env (st_evidence st) db run_id"
    by (auto simp: store_inv_def split: option.splits)
  from db(2) obtain items cs where own: "directory_items (st_evidence st) run_id items"
    "ledger_or_empty env run_id items" "items = cs \<or> (\<exists>i. items = cs @ [i])" "indexed env db run_id cs"
    by (rule run_invE)
  have "items \<noteq> []"
  proof
    assume "items = []"
    with own(1) assms(3) have "set (sort_key fst (filter (\<lambda>f. \<not> leftover f) files)) = {}"
      by (auto simp: directory_items_def represents_def)
    with assms(4) show False by (auto simp: list_ex_iff)
  qed
  with own(2) obtain s where "ledger env run_id items s" by (auto simp: ledger_or_empty_def)
  from verify_run_items [OF db(1) own(1) this own(3, 4)] show ?thesis by simp
qed

theorem reachable_ledgers_verify_witness:
  "\<exists>r. verify_run example_env interrupted_state example_id = Inr r \<and> vr_ledger_valid r \<and> vr_errors r = []
    \<and> vr_status r = (if vr_index_consistent r then ''VALID'' else ''INCOMPLETE'')"
proof -
  obtain files where "map_of (st_evidence interrupted_state) example_id = Some (RunDir False files)"
    "list_ex (\<lambda>f. \<not> leftover f) files"
    by (rule interrupted_directory)
  from reachable_ledgers_verify [OF example_env_ok interrupted_state_reachable this] show ?thesis .
qed





end
