(* ===== verification/Ledger_Sound.thy ===== *)
theory Ledger_Sound
  imports Run_Ledger_Examples
begin

text \<open>
  What an accepted ledger is, whoever wrote its files: when \<open>verify_run\<close> reports a Run's
  ledger as valid, its documents are numbered from 1, each carries its own digest and that of its
  predecessor, no identity occurs twice, and the transitions lead from \<open>created\<close> along the
  graph.
\<close>

lemma add_error_simps [simp]:
  "ch_errors (add_error b e ch) = (if b then ch_errors ch @ [e] else ch_errors ch)"
  "ch_previous (add_error b e ch) = ch_previous ch"
  "ch_status (add_error b e ch) = ch_status ch"
  "ch_seen_ids (add_error b e ch) = ch_seen_ids ch"
  "ch_seen_digests (add_error b e ch) = ch_seen_digests ch"
  by (simp_all add: add_error_def)

text \<open>The payload, the transition a document states, and the targets of a whole ledger.\<close>

definition payload_of :: "doc \<Rightarrow> doc" where
  "payload_of d = the (as_object (dget ''payload'' d))"

definition transition_target :: "doc \<Rightarrow> run_status option" where
  "transition_target d =
     (if dget ''evidence_type'' d = JStr ''run.state_transition''
      then (case target_of (payload_of d) of Inr t \<Rightarrow> Some t | Inl _ \<Rightarrow> None)
      else None)"

lemma map_filter_append: "List.map_filter f (xs @ ys) = List.map_filter f xs @ List.map_filter f ys"
  by (simp add: List.map_filter_def)

text \<open>One document after the documents \<open>ds\<close> of a ledger.\<close>

definition follows :: "ledger_env \<Rightarrow> string \<Rightarrow> doc list \<Rightarrow> doc \<Rightarrow> bool" where
  "follows env run_id ds d \<longleftrightarrow>
     py_eq (dget ''run_id'' d) (JStr run_id) \<and> py_eq (dget ''sequence'' d) (JInt (int (length ds) + 1))
     \<and> set (map fst d) = set required_keys
     \<and> (\<exists>h. digest env d = Inr h \<and> dget ''evidence_digest'' d = JStr h
          \<and> JStr h \<notin> dget ''evidence_digest'' ` set ds)
     \<and> (\<exists>u. dget ''evidence_id'' d = JStr u \<and> uuid4_ok env u \<and> JStr u \<notin> dget ''evidence_id'' ` set ds)
     \<and> py_eq (dget ''previous_evidence_digest'' d)
          (if ds = [] then JNull else dget ''evidence_digest'' (last ds))
     \<and> (if ds = [] then dget ''evidence_type'' d = JStr ''run.created''
            \<and> dget ''initial_status'' (payload_of d) = JStr ''created''
        else dget ''evidence_type'' d = JStr ''run.state_transition'' \<longrightarrow>
          (\<exists>current t. dget ''from_status'' (payload_of d) = JStr (run_status_value current)
             \<and> transition_target d = Some t \<and> run_step current t
             \<and> current = last (CREATED # List.map_filter transition_target (tl ds))))"

fun chained :: "ledger_env \<Rightarrow> string \<Rightarrow> doc list \<Rightarrow> doc list \<Rightarrow> bool" where
  "chained env run_id ds [] = True"
| "chained env run_id ds (d # rest) = (follows env run_id ds d \<and> chained env run_id (ds @ [d]) rest)"

lemma chained_snoc: "chained env run_id ds (xs @ [d]) \<longleftrightarrow> chained env run_id ds xs \<and> follows env run_id (ds @ xs) d"
  by (induction xs arbitrary: ds) auto

text \<open>The state of the check after the documents of a clean prefix.\<close>

definition state_after :: "doc list \<Rightarrow> chain_state \<Rightarrow> bool" where
  "state_after ds ch \<longleftrightarrow>
     ch_errors ch = [] \<and> ch_previous ch = (if ds = [] then JNull else dget ''evidence_digest'' (last ds))
     \<and> ch_status ch = last (CREATED # List.map_filter transition_target (tl ds))
     \<and> JStr ` set (ch_seen_ids ch) = dget ''evidence_id'' ` set ds
     \<and> JStr ` set (ch_seen_digests ch) = dget ''evidence_digest'' ` set ds"

lemma admit_documentD:
  assumes "admit_document env run_id n name item = Inr (Inr d)"
  shows "item = JObj d \<and> py_eq (dget ''run_id'' d) (JStr run_id) \<and> py_eq (dget ''sequence'' d) (JInt n)
    \<and> set (map fst d) = set required_keys \<and> identity_ok env d = Inr True
    \<and> as_object (dget ''payload'' d) \<noteq> None"
proof -
  from assms obtain d' where item: "item = JObj d'"
    by (auto simp: admit_document_def as_object_def split: json.splits)
  with assms show ?thesis
    by (auto simp: admit_document_def as_object_def Let_def bind_result_Inr_iff split: if_splits)
qed

lemma identity_okD:
  "identity_ok env d = Inr True \<Longrightarrow> \<exists>u. dget ''evidence_id'' d = JStr u \<and> uuid4_ok env u"
  by (auto simp: identity_ok_def split: json.splits option.splits)

lemma py_str_JStr [simp]: "py_str (JStr s) = s"
  by (simp add: py_str_def)

lemma in_strings_JStr: "in_strings (JStr s) ss = Inr (s \<in> set ss)"
  by (simp add: in_strings_def hashable_def)

lemma follow_transitionD:
  assumes "follow_transition name payload ch = Inr ch'" "ch_errors ch' = []"
  shows "\<exists>t. ch_errors ch = [] \<and> dget ''from_status'' payload = JStr (run_status_value (ch_status ch))
    \<and> target_of payload = Inr t \<and> run_step (ch_status ch) t \<and> ch' = ch\<lparr>ch_status := t\<rparr>"
proof (cases "target_of payload")
  case (Inl e)
  with assms show ?thesis
    by (auto simp: follow_transition_def Let_def bind_result_def split: if_splits)
next
  case (Inr t)
  with assms show ?thesis
    by (auto simp: follow_transition_def Let_def add_error_def validate_transition_Inr_iff split: if_splits)
qed

text \<open>A document's check, with the state before its last step named.\<close>

lemma chain_document_step:
  assumes run: "chain_document env n name d ch = Inr ch'" and u: "dget ''evidence_id'' d = JStr u"
  obtains broken seen ch2 where "link_broken env d (ch_previous ch) = Inr broken"
    "(if u \<in> set (ch_seen_ids ch) then Inr True
      else in_strings (dget ''evidence_digest'' d) (ch_seen_digests ch)) = Inr seen"
    "ch_errors ch2 = [] \<longleftrightarrow> ch_errors ch = [] \<and> \<not> broken \<and> \<not> seen"
    "ch_status ch2 = ch_status ch" "ch_seen_ids ch2 = u # ch_seen_ids ch"
    "ch_seen_digests ch2 = py_str (dget ''evidence_digest'' d) # ch_seen_digests ch"
    "ch_previous ch2 = dget ''evidence_digest'' d"
    "(if n = 1 then
        Inr (add_error (dget ''evidence_type'' d \<noteq> JStr ''run.created''
            \<or> dget ''initial_status'' (payload_of d) \<noteq> JStr ''created'') ''invalid run.created record'' ch2)
      else if dget ''evidence_type'' d = JStr ''run.state_transition''
      then follow_transition name (payload_of d) ch2
      else Inr ch2) = Inr ch'"
proof -
  from run obtain broken where broken: "link_broken env d (ch_previous ch) = Inr broken"
    unfolding chain_document_def bind_result_Inr_iff by blast
  from run broken obtain seen where seen: "(if u \<in> set (ch_seen_ids ch) then Inr True
      else in_strings (dget ''evidence_digest'' d) (ch_seen_digests ch)) = Inr seen"
    unfolding chain_document_def u in_strings_JStr bind_result_simps Let_def bind_result_Inr_iff by blast
  define ch2 where "ch2 = (add_error seen (''duplicate evidence identity: '' @ name)
      (add_error broken (''digest chain invalid: '' @ name) ch))
    \<lparr>ch_seen_ids := u # ch_seen_ids ch,
     ch_seen_digests := py_str (dget ''evidence_digest'' d) # ch_seen_digests ch,
     ch_previous := dget ''evidence_digest'' d\<rparr>"
  have last: "(if n = 1 then
        Inr (add_error (dget ''evidence_type'' d \<noteq> JStr ''run.created''
            \<or> dget ''initial_status'' (payload_of d) \<noteq> JStr ''created'') ''invalid run.created record'' ch2)
      else if dget ''evidence_type'' d = JStr ''run.state_transition''
      then follow_transition name (payload_of d) ch2
      else Inr ch2) = Inr ch'"
    using run unfolding chain_document_def u in_strings_JStr bind_result_simps broken Let_def seen
    by (simp only: py_str_JStr payload_of_def ch2_def)
  have "ch_errors ch2 = [] \<longleftrightarrow> ch_errors ch = [] \<and> \<not> broken \<and> \<not> seen"
    "ch_status ch2 = ch_status ch" "ch_seen_ids ch2 = u # ch_seen_ids ch"
    "ch_seen_digests ch2 = py_str (dget ''evidence_digest'' d) # ch_seen_digests ch"
    "ch_previous ch2 = dget ''evidence_digest'' d"
    by (simp_all add: ch2_def)
  from that [OF broken seen this last] show thesis .
qed

lemma last_step_clean:
  assumes "(if n = 1 then Inr (add_error bad e ch2)
      else if transition then follow_transition name payload ch2 else Inr ch2) = Inr ch'"
    and "ch_errors ch' = []"
  shows "ch_errors ch2 = []"
  using assms follow_transitionD [of name payload ch2 ch'] by (auto split: if_splits)

lemma chain_document_clean:
  assumes run: "chain_document env n name d ch = Inr ch'" and clean: "ch_errors ch' = []"
    and u: "dget ''evidence_id'' d = JStr u"
  shows "ch_errors ch = []"
proof -
  obtain broken seen ch2 where errors: "ch_errors ch2 = [] \<longleftrightarrow> ch_errors ch = [] \<and> \<not> broken \<and> \<not> seen"
    and step: "(if n = 1 then
        Inr (add_error (dget ''evidence_type'' d \<noteq> JStr ''run.created''
            \<or> dget ''initial_status'' (payload_of d) \<noteq> JStr ''created'') ''invalid run.created record'' ch2)
      else if dget ''evidence_type'' d = JStr ''run.state_transition''
      then follow_transition name (payload_of d) ch2
      else Inr ch2) = Inr ch'"
    by (rule chain_document_step [OF run u])
  have "ch_errors ch2 = []" by (rule last_step_clean [OF step clean])
  with errors show ?thesis by blast
qed

lemma chain_documentD:
  assumes state: "state_after ds ch" "n = int (length ds) + 1"
    and admitted: "admit_document env run_id n name item = Inr (Inr d)"
    and run: "chain_document env n name d ch = Inr ch'" and clean: "ch_errors ch' = []"
  shows "follows env run_id ds d \<and> state_after (ds @ [d]) ch'"
proof -
  note d = admit_documentD [OF admitted]
  then obtain u where u: "dget ''evidence_id'' d = JStr u" "uuid4_ok env u"
    using identity_okD by blast
  obtain broken seen ch2 where broken: "link_broken env d (ch_previous ch) = Inr broken"
    and seen: "(if u \<in> set (ch_seen_ids ch) then Inr True
      else in_strings (dget ''evidence_digest'' d) (ch_seen_digests ch)) = Inr seen"
    and errors: "ch_errors ch2 = [] \<longleftrightarrow> ch_errors ch = [] \<and> \<not> broken \<and> \<not> seen"
    and fields: "ch_status ch2 = ch_status ch" "ch_seen_ids ch2 = u # ch_seen_ids ch"
    "ch_seen_digests ch2 = py_str (dget ''evidence_digest'' d) # ch_seen_digests ch"
    "ch_previous ch2 = dget ''evidence_digest'' d"
    and step: "(if n = 1 then
        Inr (add_error (dget ''evidence_type'' d \<noteq> JStr ''run.created''
            \<or> dget ''initial_status'' (payload_of d) \<noteq> JStr ''created'') ''invalid run.created record'' ch2)
      else if dget ''evidence_type'' d = JStr ''run.state_transition''
      then follow_transition name (payload_of d) ch2
      else Inr ch2) = Inr ch'"
    by (rule chain_document_step [OF run u(1)])
  have clean2: "ch_errors ch2 = []" by (rule last_step_clean [OF step clean])
  with errors have no: "\<not> broken" "\<not> seen" by simp_all
  then have unseen: "u \<notin> set (ch_seen_ids ch)"
    "in_strings (dget ''evidence_digest'' d) (ch_seen_digests ch) = Inr False"
    using seen by (auto split: if_splits)
  from broken no obtain h where link: "py_eq (dget ''previous_evidence_digest'' d) (ch_previous ch)"
    and h: "digest env d = Inr h" "dget ''evidence_digest'' d = JStr h"
    by (auto simp: link_broken_def bind_result_Inr_iff split: if_splits)
  have new: "JStr u \<notin> dget ''evidence_id'' ` set ds" "JStr h \<notin> dget ''evidence_digest'' ` set ds"
    using state(1) unseen h(2) unfolding state_after_def by (auto simp: in_strings_JStr)
  have status: "ch_status ch = last (CREATED # List.map_filter transition_target (tl ds))"
    using state(1) by (simp add: state_after_def)
  note state_facts = state(1) [unfolded state_after_def]
  have previous: "py_eq (dget ''previous_evidence_digest'' d)
      (if ds = [] then JNull else dget ''evidence_digest'' (last ds))"
    using link state_facts by simp
  have common: "py_eq (dget ''run_id'' d) (JStr run_id)"
    "py_eq (dget ''sequence'' d) (JInt (int (length ds) + 1))" "set (map fst d) = set required_keys"
    "py_eq (dget ''previous_evidence_digest'' d) (if ds = [] then JNull else dget ''evidence_digest'' (last ds))"
    "\<exists>h. digest env d = Inr h \<and> dget ''evidence_digest'' d = JStr h
      \<and> JStr h \<notin> dget ''evidence_digest'' ` set ds"
    "\<exists>u. dget ''evidence_id'' d = JStr u \<and> uuid4_ok env u \<and> JStr u \<notin> dget ''evidence_id'' ` set ds"
  proof -
    show "py_eq (dget ''run_id'' d) (JStr run_id)" "set (map fst d) = set required_keys" using d by simp_all
    show "py_eq (dget ''sequence'' d) (JInt (int (length ds) + 1))" using d state(2) by simp
    show "py_eq (dget ''previous_evidence_digest'' d)
        (if ds = [] then JNull else dget ''evidence_digest'' (last ds))" by (rule previous)
    show "\<exists>h. digest env d = Inr h \<and> dget ''evidence_digest'' d = JStr h
        \<and> JStr h \<notin> dget ''evidence_digest'' ` set ds"
      by (intro exI [of _ h] conjI h new(2))
    show "\<exists>u. dget ''evidence_id'' d = JStr u \<and> uuid4_ok env u
        \<and> JStr u \<notin> dget ''evidence_id'' ` set ds"
      by (intro exI [of _ u] conjI u new(1))
  qed
  have seen': "JStr ` set (ch_seen_ids ch2) = dget ''evidence_id'' ` set (ds @ [d])"
    "JStr ` set (ch_seen_digests ch2) = dget ''evidence_digest'' ` set (ds @ [d])"
    using state(1) u h fields by (simp_all add: state_after_def)
  show ?thesis
  proof (cases "ds = []")
    case True
    then have first: "dget ''evidence_type'' d = JStr ''run.created''"
      "dget ''initial_status'' (payload_of d) = JStr ''created''" "ch' = ch2"
      using step state(2) clean by (auto simp: add_error_def split: if_splits)
    have "follows env run_id ds d"
      unfolding follows_def using common first(1, 2) True by (intro conjI) (simp_all only: if_True simp_thms)
    moreover have "state_after (ds @ [d]) ch'"
      using True first(3) clean2 seen' fields status by (simp add: state_after_def List.map_filter_simps)
    ultimately show ?thesis by blast
  next
    case False
    then have n: "n \<noteq> 1" using state(2) by simp
    show ?thesis
    proof (cases "dget ''evidence_type'' d = JStr ''run.state_transition''")
      case True
      with step n have "follow_transition name (payload_of d) ch2 = Inr ch'" by simp
      note follow_transitionD [OF this clean, unfolded fields(1)]
      then obtain t where t:
        "dget ''from_status'' (payload_of d) = JStr (run_status_value (ch_status ch))"
        "target_of (payload_of d) = Inr t" "run_step (ch_status ch) t" "ch' = ch2\<lparr>ch_status := t\<rparr>"
        by (elim exE conjE) (rule that)
      then have target: "transition_target d = Some t" using True by (simp add: transition_target_def)
      have "\<exists>current t. dget ''from_status'' (payload_of d) = JStr (run_status_value current)
             \<and> transition_target d = Some t \<and> run_step current t
             \<and> current = last (CREATED # List.map_filter transition_target (tl ds))"
        by (intro exI [of _ "ch_status ch"] exI [of _ t] conjI t(1, 3) target status)
      then have "follows env run_id ds d"
        unfolding follows_def using common False by (intro conjI) (simp_all only: if_False simp_thms)
      moreover have "state_after (ds @ [d]) ch'"
        using False clean2 seen' fields t(4) target
        by (simp add: state_after_def List.map_filter_simps map_filter_append)
      ultimately show ?thesis ..
    next
      case other: False
      with step n have ch': "ch' = ch2" by simp
      have "transition_target d = None" using other by (simp add: transition_target_def)
      with False status clean2 seen' fields ch' have "state_after (ds @ [d]) ch'"
        by (simp add: state_after_def List.map_filter_simps map_filter_append)
      moreover have "follows env run_id ds d"
        unfolding follows_def using common False other by (intro conjI) (simp_all only: if_False simp_thms)
      ultimately show ?thesis by blast
    qed
  qed
qed

lemma verify_documents_single:
  "verify_documents env run_id n [(name, item)] ch =
   bind_result (admit_document env run_id n name item) (\<lambda>x.
     case x of Inl e \<Rightarrow> Inr (add_error True e ch) | Inr d \<Rightarrow> chain_document env n name d ch)"
proof -
  have "bind_result m (verify_documents env run_id k []) = m" for m k by (cases m) simp_all
  then show ?thesis by simp
qed

lemma verify_documents_state:
  assumes "verify_documents env run_id 1 files (initial_chain []) = Inr ch" "ch_errors ch = []"
  shows "\<exists>ds. map snd files = map JObj ds \<and> chained env run_id [] ds \<and> state_after ds ch"
  using assms
proof (induction files arbitrary: ch rule: rev_induct)
  case Nil
  have "state_after [] (initial_chain [])" by (simp add: state_after_def initial_chain_def List.map_filter_simps)
  with Nil show ?case by auto
next
  case (snoc f files)
  obtain name item where f: "f = (name, item)" by force
  from snoc.prems(1) obtain ch1 where ch1:
    "verify_documents env run_id 1 files (initial_chain []) = Inr ch1"
    "verify_documents env run_id (1 + int (length files)) [f] ch1 = Inr ch"
    by (auto simp: verify_documents_append bind_result_Inr_iff)
  from ch1(2) obtain x where x: "admit_document env run_id (1 + int (length files)) name item = Inr x"
    "(case x of Inl e \<Rightarrow> Inr (add_error True e ch1)
      | Inr d \<Rightarrow> chain_document env (1 + int (length files)) name d ch1) = Inr ch"
    unfolding f verify_documents_single bind_result_Inr_iff by blast
  with snoc.prems(2) obtain d where d: "x = Inr d" by (cases x) auto
  with x have admitted: "admit_document env run_id (1 + int (length files)) name item = Inr (Inr d)"
    and chain: "chain_document env (1 + int (length files)) name d ch1 = Inr ch" by simp_all
  from admit_documentD [OF admitted] obtain u where "dget ''evidence_id'' d = JStr u"
    using identity_okD by blast
  with chain snoc.prems(2) have "ch_errors ch1 = []" by (rule chain_document_clean)
  from snoc.IH [OF ch1(1) this] obtain ds where ds:
    "map snd files = map JObj ds" "chained env run_id [] ds" "state_after ds ch1" by blast
  have n: "1 + int (length files) = int (length ds) + 1"
    using ds(1) by (metis add.commute length_map)
  from chain_documentD [OF ds(3) n admitted chain snoc.prems(2)]
  have next_doc: "follows env run_id ds d" "state_after (ds @ [d]) ch" by blast+
  with ds(1, 2) admit_documentD [OF admitted] have "map snd (files @ [f]) = map JObj (ds @ [d])"
    "chained env run_id [] (ds @ [d])" by (simp_all add: f chained_snoc)
  with next_doc(2) show ?case by blast
qed

text \<open>C22: Whoever wrote the files, a ledger that verification accepts is a chain: its files hold
  documents numbered from 1 for this Run, each with its own digest and its predecessor's, no Evidence
  identity or digest occurs twice, the first creates the Run, and every transition starts from the
  status reached so far and follows the transition graph.\<close>

theorem accepted_ledger_is_chain:
  assumes "verify_run env st run_id = Inr r" "vr_ledger_valid r"
  shows "\<exists>files ds. load_run_files env (st_evidence st) run_id = Inr (files, [])
    \<and> ds \<noteq> [] \<and> map snd files = map JObj ds \<and> chained env run_id [] ds"
proof -
  from assms(1) obtain files errors where load: "load_run_files env (st_evidence st) run_id = Inr (files, errors)"
    unfolding verify_run_def bind_result_Inr_iff by auto
  from assms(1) [unfolded verify_run_def load bind_result_simps prod.case bind_result_Inr_iff] obtain ch where
    check: "(if errors = [] then verify_documents env run_id 1 files (initial_chain [])
        else Inr (initial_chain errors)) = Inr ch"
    and result: "(let valid = files \<noteq> [] \<and> ch_errors ch = [];
           (consistent, errors', still_valid) =
             (if valid then check_index (st_index st) run_id (int (length files)) ch
              else (True, ch_errors ch, False)) in
       Inr \<lparr>vr_run_id = run_id,
         vr_status = (if still_valid \<and> consistent then ''VALID''
                      else if still_valid then ''INCOMPLETE'' else ''INVALID''),
         vr_ledger_valid = still_valid, vr_index_consistent = consistent, vr_errors = errors',
         vr_evidence_count = int (length files)\<rparr>) =
       (Inr r :: verification_result result)" by (elim exE conjE) (rule that)
  have "files \<noteq> [] \<and> ch_errors ch = []"
  proof (rule ccontr)
    assume no: "\<not> (files \<noteq> [] \<and> ch_errors ch = [])"
    note verdict = result [unfolded Let_def if_not_P [OF no] prod.case sum.inject]
    have "\<not> vr_ledger_valid r"
      unfolding verdict [symmetric] verification_result.select_convs by (rule not_False_eq_True [THEN iffD2, OF TrueI])
    then show False using assms(2) by (rule notE)
  qed
  then have valid: "files \<noteq> []" "ch_errors ch = []" by simp_all
  have "errors = []"
  proof (rule ccontr)
    assume "errors \<noteq> []"
    with check valid(2) show False by (auto simp: initial_chain_def)
  qed
  with check have "verify_documents env run_id 1 files (initial_chain []) = Inr ch" by simp
  from verify_documents_state [OF this valid(2)] obtain ds where
    "map snd files = map JObj ds" "chained env run_id [] ds" by blast
  with valid(1) load \<open>errors = []\<close> show ?thesis by (metis list.map_disc_iff)
qed

theorem accepted_ledger_is_chain_witness:
  "\<exists>files ds. load_run_files example_env (st_evidence created_state) example_id = Inr (files, [])
    \<and> ds \<noteq> [] \<and> map snd files = map JObj ds \<and> chained example_env example_id [] ds"
  by (rule accepted_ledger_is_chain [OF created_state_facts(4)]) simp

end
