(* ===== verification/Evidence_Properties.thy ===== *)
theory Evidence_Properties
  imports Run_Ledger_Examples
begin

text \<open>
  Properties of single Evidence files and of the transition graph: what is written reads back,
  nothing is ever overwritten, names sort by sequence number, and how Runs end.
\<close>

section \<open>The files\<close>

definition file_at :: "evidence_tree \<Rightarrow> string \<Rightarrow> string \<Rightarrow> file_object option" where
  "file_at tree run_id name =
     (case map_of tree run_id of Some (RunDir _ files) \<Rightarrow> map_of files name | _ \<Rightarrow> None)"

lemma file_at_update:
  "file_at (AList.update run_id (RunDir link files) tree) r name =
   (if r = run_id then map_of files name else file_at tree r name)"
  by (simp add: file_at_def update_conv')

lemma make_run_dirD:
  "make_run_dir fault run_id tree = Inr (link, files) \<Longrightarrow> map_of files name = file_at tree run_id name"
  by (auto simp: make_run_dir_def file_at_def split: option.splits run_node.splits if_splits)

lemma write_evidence_cases:
  assumes "write_evidence env fault tree item = (tree', res)"
  obtains (unchanged) e where "\<And>r f. file_at tree' r f = file_at tree r f" "res = Inl e"
  | (published) run_id n t name expected where "dget ''run_id'' item = JStr run_id"
      "dget ''sequence'' item = JInt n" "filename n t = Inr name"
      "file_at tree run_id name = None" "digest env item = Inr expected"
      "dget ''evidence_digest'' item = JStr expected"
      "\<And>r f. file_at tree' r f =
        (if r = run_id \<and> f = name then Some (RegularFile (canonical_json (JObj item))) else file_at tree r f)"
      "\<forall>rel. res = Inr rel \<longrightarrow> rel = relative_path run_id name"
proof -
  note run = assms [unfolded write_evidence_def]
  show thesis
  proof (cases "\<exists>run_id n t. dget ''run_id'' item = JStr run_id \<and> dget ''sequence'' item = JInt n
      \<and> dget ''evidence_type'' item = JStr t")
    case False
    then have "tree' = tree \<and> res = Inl PyTypeError" using run by (auto split: json.splits)
    then show ?thesis by (intro unchanged) simp_all
  next
    case True
    then obtain run_id n t where keys: "dget ''run_id'' item = JStr run_id" "dget ''sequence'' item = JInt n"
      "dget ''evidence_type'' item = JStr t" by blast
    note run = run [unfolded keys prod.case json.case]
    show ?thesis
    proof (cases "make_run_dir fault run_id tree")
      case (Inl e)
      with run show ?thesis by (intro unchanged [of e]) simp_all
    next
      case (Inr dir)
      obtain link files where dir: "make_run_dir fault run_id tree = Inr (link, files)"
        using Inr by (cases dir) simp
      note files = make_run_dirD [OF dir]
      have same: "file_at (AList.update run_id (RunDir link files) tree) r f = file_at tree r f" for r f
        by (simp add: file_at_update files)
      note run = run [unfolded dir sum.case prod.case Let_def]
      show ?thesis
      proof (cases "filename n t")
        case (Inl e)
        with run same show ?thesis by (intro unchanged [of e]) auto
      next
        case name: (Inr name)
        show ?thesis
        proof (cases "map_of files name = None")
          case False
          with run same name show ?thesis by (intro unchanged) auto
        next
          case free: True
          show ?thesis
          proof (cases "digest env item")
            case (Inl e)
            with run same name free show ?thesis by (intro unchanged [of e]) auto
          next
            case digest: (Inr expected)
            show ?thesis
            proof (cases "dget ''evidence_digest'' item = JStr expected \<and> fault \<noteq> Some Publish_Fault")
              case False
              with run name free digest have "tree' = AList.update run_id (RunDir link files) tree \<and> (\<exists>e. res = Inl e)"
                by (simp split: if_splits) auto
              with same show ?thesis by (auto intro: unchanged)
            next
              case True
              with run name free digest have after: "tree' = AList.update run_id
                  (RunDir link (AList.update name (RegularFile (canonical_json (JObj item))) files)) tree"
                "\<forall>rel. res = Inr rel \<longrightarrow> rel = relative_path run_id name"
                by (auto simp: bind_result_Inr_iff split: if_splits)
              have "file_at tree' r f = (if r = run_id \<and> f = name
                then Some (RegularFile (canonical_json (JObj item))) else file_at tree r f)" for r f
                by (simp add: after(1) file_at_update update_conv' files)
              with True keys(1, 2) name free digest after(2) files show ?thesis
                by (intro published [of run_id n t name expected]) simp_all
            qed
          qed
        qed
      qed
    qed
  qed
qed

lemma write_evidence_keeps:
  assumes "write_evidence env fault tree item = (tree', res)" "file_at tree r f = Some obj"
  shows "file_at tree' r f = Some obj"
  using assms(1) by (cases rule: write_evidence_cases) (use assms(2) in auto)

lemma publish_keeps:
  assumes "publish env call operation tree i = (tree', res)" "file_at tree r f = Some obj"
  shows "file_at tree' r f = Some obj"
  using assms(1)
proof (cases rule: publish_cases)
  case (written r)
  from written(1) assms(2) show ?thesis by (rule write_evidence_keeps)
qed (use assms(2) in simp)

lemma commit_rows_evidence:
  "commit_rows call operation rows run_id st db = (st', res) \<Longrightarrow> st_evidence st' = st_evidence st"
  by (erule commit_rows_cases) simp_all

text \<open>C23: The Evidence store is append-only: whatever create_run and transition_run return or raise,
  with any disk, SQLite or injected failure, every file that was in a Run's directory is still there
  with the same content.\<close>

theorem evidence_append_only:
  assumes "create_run env config call run_kind metadata run_id st = (st', res)
    \<or> transition_run env call run_id target reason st = (st', res)"
    and "file_at (st_evidence st) r f = Some obj"
  shows "file_at (st_evidence st') r f = Some obj"
  using assms(1)
proof
  assume "create_run env config call run_kind metadata run_id st = (st', res)"
  then show ?thesis
  proof (cases rule: create_run_cases)
    case (published db i tree result config_digest)
    with publish_keeps [OF published(3) assms(2)] commit_rows_evidence show ?thesis
      by (cases result) fastforce+
  qed (use assms(2) in simp)
next
  assume "transition_run env call run_id target reason st = (st', res)"
  then show ?thesis
  proof (cases rule: transition_run_cases)
    case (published db row i tree result)
    with publish_keeps [OF published(5) assms(2)] commit_rows_evidence show ?thesis
      by (cases result) fastforce+
  qed (use assms(2) in simp)
qed

theorem evidence_append_only_witness:
  "\<exists>name obj. file_at (st_evidence created_state) example_id name = Some obj
    \<and> file_at (st_evidence (fst (transition_run example_env (example_call ''u2'') example_id SCANNING ''go''
         created_state))) example_id name = Some obj"
proof -
  obtain files where files: "map_of (st_evidence created_state) example_id = Some (RunDir False files)"
    "list_ex (\<lambda>f. \<not> leftover f) files"
    by (rule directory_has_files [OF created_state_facts(3)]) simp
  then obtain f where "f \<in> set files" by (auto simp: list_ex_iff)
  with files(1) obtain obj where obj: "file_at (st_evidence created_state) example_id (fst f) = Some obj"
    by (cases "map_of files (fst f)") (auto simp: file_at_def map_of_eq_None_iff)
  obtain st' res where "transition_run example_env (example_call ''u2'') example_id SCANNING ''go'' created_state
    = (st', res)" by force
  with evidence_append_only [OF disjI2 [OF this] obj] obj show ?thesis by auto
qed

text \<open>C26: A document that write_evidence publishes reads back: the new file's name belongs to the
  ledger, load_run_files parses it to the same document with its keys in order, that document has the
  digest it carries, and no file was there before.\<close>

theorem written_evidence_reads_back:
  assumes "write_evidence env fault tree item = (tree', Inr rel)" "json_wf (float_repr env) (JObj item)"
    and "dget ''sequence'' item = JInt n" "0 \<le> n" "n \<le> max_sequence" "env_ok env"
  shows "\<exists>run_id name obj d h. rel = relative_path run_id name \<and> evidence_name name
    \<and> file_at tree run_id name = None \<and> file_at tree' run_id name = Some obj
    \<and> load_file env name obj = Inr (Loaded (JObj d)) \<and> JObj d = sort_keys (JObj item)
    \<and> digest env d = Inr h \<and> dget ''evidence_digest'' d = JStr h"
  using assms(1)
proof (cases rule: write_evidence_cases)
  case (published run_id m t name expected)
  have m: "m = n" using published(2) assms(3) by simp
  note name = evidence_name_filename [OF published(3) [unfolded m] assms(4, 5)]
  obtain d where d: "sort_keys (JObj item) = JObj d" by simp
  have keys: "distinct (map fst item)" using assms(2) by simp
  have encodable: "json_encodable (JObj item)"
  proof -
    have body: "list_all (\<lambda>(k, v). utf8_valid k \<and> json_encodable v)
        (filter (\<lambda>(k, _). k \<noteq> ''evidence_digest'') item)"
      using published(5) by (simp add: digest_Inr_iff)
    have "utf8_valid expected"
      using published(5) assms(6) by (auto simp: digest_Inr_iff env_ok_def)
    moreover have "utf8_valid ''evidence_digest''" by code_simp
    moreover have "v = JStr expected" if "(''evidence_digest'', v) \<in> set item" for v
      using published(6) keys that by (auto simp: dget_def)
    ultimately have "utf8_valid k \<and> json_encodable v" if "(k, v) \<in> set item" for k v
    proof (cases "k = ''evidence_digest''")
      case True
      with that \<open>\<And>v. (''evidence_digest'', v) \<in> set item \<Longrightarrow> v = JStr expected\<close> have "v = JStr expected" by simp
      with True \<open>utf8_valid expected\<close> \<open>utf8_valid ''evidence_digest''\<close> show ?thesis by simp
    next
      case False
      with body that show ?thesis by (auto simp: list_all_iff)
    qed
    then show ?thesis by (auto simp: list_all_iff)
  qed
  have "load_file env name (RegularFile (canonical_json (JObj item))) = Inr (Loaded (JObj d))"
    using name(1, 2) read_json_canonical [OF assms(2) encodable]
    by (simp add: load_file_def d del: canonical_json.simps sort_keys.simps)
  moreover have "digest env d = Inr expected" using digest_sort_keys [OF d] published(5) by simp
  moreover have "dget ''evidence_digest'' d = JStr expected"
    using published(6) dget_sorted_doc [OF keys, of "''evidence_digest''"] d [folded sorted_doc_def]
    by (auto simp: sorted_doc_def)
  ultimately show ?thesis using published name(1) d by auto
qed simp

theorem written_evidence_reads_back_witness:
  "\<exists>tree rel run_id name obj d h. write_evidence example_env None [] (item_doc first_item) = (tree, Inr rel)
    \<and> rel = relative_path run_id name \<and> file_at tree run_id name = Some obj
    \<and> load_file example_env name obj = Inr (Loaded (JObj d)) \<and> JObj d = sort_keys (JObj (item_doc first_item))
    \<and> digest example_env d = Inr h \<and> dget ''evidence_digest'' d = JStr h"
proof -
  have "i_evidence_type first_item \<in> set ledger_types" by (simp add: first_item_def ledger_types_def)
  from write_evidence_item [OF empty_directory(1) first_item_wf(1) this, of None] obtain tree rel where
    run: "write_evidence example_env None [] (item_doc first_item) = (tree, Inr rel)"
    by (auto simp: Let_def)
  have "json_wf (float_repr example_env) (JObj (item_doc first_item))"
    using first_item_wf(1) unfolding item_wf_def by blast
  moreover have "dget ''sequence'' (item_doc first_item) = JInt 1"
    by (simp add: dget_item_doc first_item_def)
  moreover have "(1 :: int) \<le> max_sequence" by (simp add: max_sequence_def)
  ultimately obtain run_id name obj d h where "rel = relative_path run_id name"
    "file_at tree run_id name = Some obj" "load_file example_env name obj = Inr (Loaded (JObj d))"
    "JObj d = sort_keys (JObj (item_doc first_item))" "digest example_env d = Inr h"
    "dget ''evidence_digest'' d = JStr h"
    using written_evidence_reads_back [OF run _ _ zero_le_one _ example_env_ok] by blast
  with run show ?thesis by blast
qed

lemma largest_name: "filename max_sequence ''run.created'' = Inr ''99999999_run.created.json''"
  by (simp add: filename_of_plain ledger_types_safe ledger_types_def format_08d_def max_sequence_def
      zero_pad_def evidence_suffix_def nat_repr.simps digit_char_def char_of_def
      bit_Suc_0_iff)

lemma name_after_largest: "filename (max_sequence + 1) ''run.created'' = Inr ''100000000_run.created.json''"
  by (simp add: filename_of_plain ledger_types_safe ledger_types_def format_08d_def max_sequence_def
      zero_pad_def evidence_suffix_def nat_repr.simps digit_char_def char_of_def
      bit_Suc_0_iff)

text \<open>C27: Evidence names sort by sequence number, whatever their types, up to the largest number the
  format holds; one more digit leaves both the order and the pattern of the names.\<close>

theorem evidence_names_sort:
  "(\<forall>m n t u f g. 0 \<le> m \<longrightarrow> m < n \<longrightarrow> n \<le> max_sequence \<longrightarrow> filename m t = Inr f \<longrightarrow> filename n u = Inr g
      \<longrightarrow> f < g \<and> evidence_name f \<and> evidence_name g)
   \<and> (\<exists>f g. filename max_sequence ''run.created'' = Inr f
      \<and> filename (max_sequence + 1) ''run.created'' = Inr g \<and> g < f \<and> \<not> evidence_name g)"
proof (intro conjI allI impI)
  fix m n t u f g
  assume "0 \<le> m" "m < n" "n \<le> max_sequence" "filename m t = Inr f" "filename n u = Inr g"
  then show "f < g" "evidence_name f" "evidence_name g"
    using filename_less evidence_name_filename(1) by auto
next
  show "\<exists>f g. filename max_sequence ''run.created'' = Inr f
      \<and> filename (max_sequence + 1) ''run.created'' = Inr g \<and> g < f \<and> \<not> evidence_name g"
    by (intro exI conjI, rule largest_name, rule name_after_largest, code_simp, code_simp)
qed

theorem evidence_names_sort_witness:
  "''00000009_filesystem.snapshot.json'' < ''00000010_run.created.json''"
proof -
  have "filename 9 ''filesystem.snapshot'' = Inr ''00000009_filesystem.snapshot.json''"
    "filename 10 ''run.created'' = Inr ''00000010_run.created.json''" by code_simp+
  with conjunct1 [OF evidence_names_sort, rule_format, of 9 10 "''filesystem.snapshot''" _ "''run.created''"]
  show ?thesis by (simp add: max_sequence_def del: less_list_code)
qed

section \<open>The ends of a Run\<close>

text \<open>No Run is stuck: from every status a few transitions lead to one that no transition leaves.\<close>

lemma runs_can_settle:
  "\<exists>path. length path \<le> 3 \<and> run_path s path \<and> allowed_targets (last (s # path)) = []"
proof -
  have "\<forall>s \<in> set all_run_statuses.
    \<exists>path \<in> set [[], [CANCELLED], [ROLLED_BACK], [ROLLING_BACK, ROLLED_BACK], [FAILED, ROLLING_BACK, ROLLED_BACK]].
      length path \<le> 3 \<and> run_path s path \<and> allowed_targets (last (s # path)) = []"
    by code_simp
  then show ?thesis using all_run_statuses_complete by blast
qed

lemma rollback_closed:
  "run_path s path \<Longrightarrow> s \<in> {ROLLING_BACK, ROLLED_BACK, PARTIAL_RUN, FAILED, VERIFYING, VERIFIED} \<Longrightarrow>
   set path \<subseteq> {ROLLING_BACK, ROLLED_BACK, PARTIAL_RUN, FAILED, VERIFYING, VERIFIED}"
proof (induction path arbitrary: s)
  case (Cons t path)
  then have "t \<in> {ROLLING_BACK, ROLLED_BACK, PARTIAL_RUN, FAILED, VERIFYING, VERIFIED}" by auto
  with Cons.IH [of t] Cons.prems show ?case by simp
qed simp

text \<open>A finished Run never scans, plans or applies again: what follows a terminal status starts
  with a rollback, and is a rollback, its verification or its failure.\<close>

lemma finished_runs_only_roll_back:
  assumes "is_terminal s" "run_path s path" "path \<noteq> []"
  shows "s \<in> {VERIFIED, FAILED} \<and> hd path = ROLLING_BACK
    \<and> set path \<subseteq> {ROLLING_BACK, ROLLED_BACK, PARTIAL_RUN, FAILED, VERIFYING, VERIFIED}"
proof -
  from assms have "s \<in> {VERIFIED, FAILED} \<and> hd path = ROLLING_BACK"
    by (cases path) (auto simp: is_terminal_def TERMINAL_def)
  with rollback_closed [OF assms(2)] show ?thesis by auto
qed

end
