(* ===== verification/Filesystem_Scan.thy ===== *)
theory Filesystem_Scan
  imports Steward_Config Python_Values
begin

text \<open>
  \<open>filesystem.py\<close> and \<open>scan_budget.py\<close>: the bounded, read-only traversal that a Snapshot
  is made of. The operating system's answers are functions of the path they are asked for; a scan
  asks for the listing of a directory and the state of an object once, so this leaves the file
  system free to change while it runs.
\<close>

section \<open>Answers of the operating system\<close>

record os_error =
  oe_errno :: int
  oe_text :: string

record stat_result =
  st_mode :: int
  st_dev :: int
  st_ino :: int
  st_uid :: int
  st_gid :: int
  st_size :: int
  st_mtime_ns :: int
  st_ctime_ns :: int
  st_birthtime_ns :: "int option"
  st_nlink :: int

text \<open>
  \<open>se_scandir\<close> gives the names of a directory's children, \<open>None\<close> for an
  \<open>OSError\<close>; \<open>se_clock n\<close> is the \<open>n\<close>-th reading of \<open>time.monotonic\<close>;
  \<open>se_access\<close> are the three answers of \<open>os.access\<close>.
\<close>

record scan_env =
  se_sha256 :: "string \<Rightarrow> string"
  se_is_dir :: "abs_path \<Rightarrow> bool"
  se_lstat :: "abs_path \<Rightarrow> os_error + stat_result"
  se_scandir :: "abs_path \<Rightarrow> string list option"
  se_readlink :: "abs_path \<Rightarrow> string option"
  se_access :: "abs_path \<Rightarrow> bool \<times> bool \<times> bool"
  se_clock :: "nat \<Rightarrow> rat"

text \<open>The file type bits of a mode, and the type they stand for.\<close>

definition file_type_bits :: "int \<Rightarrow> int" where
  "file_type_bits mode = mode div 4096 mod 16"

definition is_reg :: "int \<Rightarrow> bool" where
  "is_reg mode \<longleftrightarrow> file_type_bits mode = 8"

definition is_directory :: "int \<Rightarrow> bool" where
  "is_directory mode \<longleftrightarrow> file_type_bits mode = 4"

definition is_link :: "int \<Rightarrow> bool" where
  "is_link mode \<longleftrightarrow> file_type_bits mode = 10"

definition kind_of_mode :: "int \<Rightarrow> filesystem_object_type" where
  "kind_of_mode mode =
     (if is_reg mode then REGULAR_FILE
      else if is_directory mode then DIRECTORY
      else if is_link mode then SYMLINK
      else if file_type_bits mode = 1 then FIFO
      else if file_type_bits mode = 12 then SOCKET
      else if file_type_bits mode = 2 then CHARACTER_DEVICE
      else if file_type_bits mode = 6 then BLOCK_DEVICE
      else OBJECT_UNKNOWN)"

section \<open>Entries\<close>

text \<open>\<open>_relative(path, root)\<close>, for a path below the root.\<close>

definition relative_to :: "abs_path \<Rightarrow> abs_path \<Rightarrow> string" where
  "relative_to path root_dir =
     (let raw = drop (length root_dir) path in if raw = [] then ''.'' else join_on (CHR ''/'') raw)"

text \<open>
  The identity: the digest of the three parts, separated by NUL. \<open>encode()\<close> raises
  \<open>UnicodeEncodeError\<close>, a \<open>ValueError\<close>, on a name that is not UTF-8.
\<close>

definition scan_entry_id :: "scan_env \<Rightarrow> string \<Rightarrow> string \<Rightarrow> string \<Rightarrow> string result" where
  "scan_entry_id env snapshot_id scope_id relative =
     (let raw = snapshot_id @ CHR 0x00 # scope_id @ CHR 0x00 # relative in
      if utf8_valid raw then Inr (se_sha256 env raw) else Inl PyValueError)"

definition failed_entry ::
  "scan_env \<Rightarrow> string \<Rightarrow> string \<Rightarrow> string \<Rightarrow> filesystem_observation_status \<Rightarrow> os_error \<Rightarrow>
     filesystem_entry result" where
  "failed_entry env snapshot_id scope_id relative status e =
     bind_result (scan_entry_id env snapshot_id scope_id relative) (\<lambda>entry_id. Inr
       \<lparr>e_entry_id = entry_id, e_snapshot_id = snapshot_id, e_scope_id = scope_id,
        e_relative_path = relative, e_object_type = OBJECT_UNKNOWN, e_device_id = None, e_inode = None,
        e_mode = None, e_uid = None, e_gid = None, e_size_bytes = None, e_mtime_ns = None,
        e_ctime_ns = None, e_birthtime_ns = None, e_link_count = None, e_symlink_target_raw = None,
        e_readable = False, e_writable = False, e_executable = False, e_observation_status = status,
        e_error_code = Some (int_repr (oe_errno e)), e_error_message = Some (oe_text e),
        e_excluded = False, e_v2 = None\<rparr>)"

definition observed_entry ::
  "scan_env \<Rightarrow> string \<Rightarrow> string \<Rightarrow> string \<Rightarrow> abs_path \<Rightarrow> stat_result \<Rightarrow> bool \<Rightarrow> filesystem_entry result" where
  "observed_entry env snapshot_id scope_id relative path st excluded =
     bind_result (scan_entry_id env snapshot_id scope_id relative) (\<lambda>entry_id.
       case se_access env path of (readable, writable, executable) \<Rightarrow> Inr
       \<lparr>e_entry_id = entry_id, e_snapshot_id = snapshot_id, e_scope_id = scope_id,
        e_relative_path = relative, e_object_type = kind_of_mode (st_mode st),
        e_device_id = Some (st_dev st), e_inode = Some (st_ino st), e_mode = Some (st_mode st),
        e_uid = Some (st_uid st), e_gid = Some (st_gid st), e_size_bytes = Some (st_size st),
        e_mtime_ns = Some (st_mtime_ns st), e_ctime_ns = Some (st_ctime_ns st),
        e_birthtime_ns = st_birthtime_ns st, e_link_count = Some (st_nlink st),
        e_symlink_target_raw = (if is_link (st_mode st) then se_readlink env path else None),
        e_readable = readable, e_writable = writable, e_executable = executable,
        e_observation_status = OBSERVED, e_error_code = None, e_error_message = None,
        e_excluded = excluded, e_v2 = None\<rparr>)"

section \<open>Scopes and budgets\<close>

definition select_scopes :: "steward_config \<Rightarrow> string list \<Rightarrow> scope_config list result" where
  "select_scopes config requested =
     (let by_id = dict_of (map (\<lambda>s. (sc_scope_id s, s)) (cf_scopes config));
          unknown = filter (\<lambda>r. map_of by_id r = None) requested;
          selected = (if requested \<noteq> [] then map (\<lambda>r. the (map_of by_id r)) requested
            else filter (\<lambda>s. sc_enabled s \<and> sc_role s = MANAGED_ROOT) (cf_scopes config)) in
      if unknown \<noteq> [] then raise SnapshotScopeError (''unknown scope IDs: '' @ comma_join (sorted_set unknown))
      else if selected = [] then raise SnapshotScopeError ''no enabled managed scopes selected''
      else
        (case filter (\<lambda>s. sc_role s \<notin> {MANAGED_ROOT, REFERENCE_ROOT} \<or> \<not> sc_enabled s
            \<or> sc_follow_directory_symlinks s) selected of
           [] \<Rightarrow> Inr (sort_key sc_scope_id selected)
         | s # _ \<Rightarrow>
             if sc_role s \<notin> {MANAGED_ROOT, REFERENCE_ROOT} \<or> \<not> sc_enabled s
             then raise SnapshotScopeError (''scope unavailable: '' @ sc_scope_id s)
             else raise SnapshotScopeError (''scope symlink policy unsupported: '' @ sc_scope_id s)))"

definition make_budget ::
  "int option \<Rightarrow> int option \<Rightarrow> rat option \<Rightarrow> int option \<Rightarrow> scan_budget result" where
  "make_budget max_entries max_total_size max_duration_seconds max_depth =
     (let budget = \<lparr>b_max_entries = (case max_entries of None \<Rightarrow> 1000000 | Some n \<Rightarrow> n),
          b_max_total_stat_bytes = max_total_size,
          b_max_duration_seconds = (case max_duration_seconds of None \<Rightarrow> 600 | Some d \<Rightarrow> d),
          b_max_depth = max_depth\<rparr> in
      if b_max_entries budget < 1
         \<or> (case b_max_total_stat_bytes budget of None \<Rightarrow> False | Some n \<Rightarrow> n < 0)
         \<or> b_max_duration_seconds budget \<le> 0
         \<or> (case b_max_depth budget of None \<Rightarrow> False | Some n \<Rightarrow> n < 0)
      then raise SnapshotBudgetError ''invalid scan budget''
      else Inr budget)"

section \<open>The traversal\<close>

record scan_state =
  ss_entries :: "filesystem_entry list"
  ss_partial :: bool
  ss_bytes :: int
  ss_reads :: nat

text \<open>What the loops of one Scope share: its root's device among them.\<close>

record scan_context =
  cx_config :: steward_config
  cx_snapshot_id :: string
  cx_budget :: scan_budget
  cx_scope :: scope_config
  cx_root_dev :: int

text \<open>The paths that are recorded but not entered: excluded Scopes and the program's own.\<close>

definition skipped_roots :: "steward_config \<Rightarrow> abs_path list" where
  "skipped_roots config =
     map sc_normalized_path (filter (\<lambda>s. sc_role s = EXCLUDED_ROOT) (cf_scopes config))
     @ [data_dir (cf_paths config), cache_dir (cf_paths config), evidence_dir (cf_paths config),
        quarantine_dir (cf_paths config)]"

definition lies_in :: "abs_path \<Rightarrow> abs_path \<Rightarrow> bool" where
  "lies_in item path \<longleftrightarrow> take (length item) path = item"

definition skipped :: "steward_config \<Rightarrow> abs_path \<Rightarrow> bool" where
  "skipped config path \<longleftrightarrow> list_ex (\<lambda>item. lies_in item path) (skipped_roots config)"

definition child_failure :: "os_error \<Rightarrow> filesystem_observation_status" where
  "child_failure e =
     (if oe_errno e = 2 then NOT_FOUND
      else if oe_errno e = 13 \<or> oe_errno e = 1 then PERMISSION_DENIED
      else IO_ERROR)"

definition over_bytes :: "scan_budget \<Rightarrow> int \<Rightarrow> bool" where
  "over_bytes budget n \<longleftrightarrow>
     (case b_max_total_stat_bytes budget of None \<Rightarrow> False | Some limit \<Rightarrow> limit < n)"

definition at_max_depth :: "scan_budget \<Rightarrow> int \<Rightarrow> bool" where
  "at_max_depth budget depth \<longleftrightarrow>
     (case b_max_depth budget of None \<Rightarrow> False | Some limit \<Rightarrow> limit \<le> depth)"

definition enters :: "scan_context \<Rightarrow> stat_result \<Rightarrow> bool" where
  "enters cx info \<longleftrightarrow>
     is_directory (st_mode info)
     \<and> (sc_allow_cross_mount (cx_scope cx) \<or> st_dev info = cx_root_dev cx)"

text \<open>
  One child: \<open>break\<close> leaves the loop, \<open>continue\<close> goes on with what was pushed.
\<close>

datatype child_step =
    Break scan_state
  | Continue scan_state "(abs_path \<times> int) list"

definition scan_child ::
  "scan_env \<Rightarrow> scan_context \<Rightarrow> abs_path \<Rightarrow> int \<Rightarrow> string \<Rightarrow> scan_state \<Rightarrow> child_step result" where
  "scan_child env cx dir depth name s =
     (if b_max_entries (cx_budget cx) \<le> int (length (ss_entries s))
      then Inr (Break (s\<lparr>ss_partial := True\<rparr>))
      else if b_max_duration_seconds (cx_budget cx) \<le> se_clock env (ss_reads s) - se_clock env 0
      then Inr (Break (s\<lparr>ss_reads := Suc (ss_reads s), ss_partial := True\<rparr>))
      else
        let s1 = s\<lparr>ss_reads := Suc (ss_reads s)\<rparr>;
            path = dir @ [name];
            relative = relative_to path (sc_normalized_path (cx_scope cx));
            scope_id = sc_scope_id (cx_scope cx) in
        (case se_lstat env path of
           Inl e \<Rightarrow>
             bind_result (failed_entry env (cx_snapshot_id cx) scope_id relative (child_failure e) e) (\<lambda>entry.
               Inr (Continue (s1\<lparr>ss_entries := ss_entries s @ [entry], ss_partial := True\<rparr>) []))
         | Inr info \<Rightarrow>
             let skip = skipped (cx_config cx) path in
             bind_result (observed_entry env (cx_snapshot_id cx) scope_id relative path info skip) (\<lambda>entry.
               let s2 = s1\<lparr>ss_entries := ss_entries s @ [entry]\<rparr>;
                   s3 = (if is_reg (st_mode info) then s2\<lparr>ss_bytes := ss_bytes s + st_size info\<rparr> else s2) in
               if skip then Inr (Continue s2 [])
               else if is_reg (st_mode info) \<and> over_bytes (cx_budget cx) (ss_bytes s3)
               then Inr (Break (s3\<lparr>ss_partial := True\<rparr>))
               else Inr (Continue s3 (if enters cx info then [(path, depth + 1)] else [])))))"

text \<open>The loop over the children of one directory; the stack's top is the head of the list.\<close>

fun scan_children ::
  "scan_env \<Rightarrow> scan_context \<Rightarrow> abs_path \<Rightarrow> int \<Rightarrow> string list \<Rightarrow> scan_state \<Rightarrow> (abs_path \<times> int) list \<Rightarrow>
     (scan_state \<times> (abs_path \<times> int) list) result" where
  "scan_children env cx dir depth [] s stack = Inr (s, stack)"
| "scan_children env cx dir depth (name # rest) s stack =
     bind_result (scan_child env cx dir depth name s) (\<lambda>step.
       (case step of
          Break s' \<Rightarrow> Inr (s', stack)
        | Continue s' pushed \<Rightarrow> scan_children env cx dir depth rest s' (pushed @ stack)))"

text \<open>
  The loop over the stack ends for every file system: a directory on the stack has used up one of
  the entries the budget allows.
\<close>

definition room_left :: "scan_context \<Rightarrow> scan_state \<Rightarrow> nat" where
  "room_left cx s = nat (b_max_entries (cx_budget cx) - int (length (ss_entries s)))"

lemma scan_child_measure:
  assumes "scan_child env cx dir depth name s = Inr step"
  shows "case step of Break s' \<Rightarrow> room_left cx s' \<le> room_left cx s
    | Continue s' pushed \<Rightarrow> room_left cx s' + length pushed \<le> room_left cx s"
  using assms
  by (auto simp: scan_child_def Let_def bind_result_Inr_iff room_left_def split: sum.splits if_splits)

lemma scan_children_measure:
  "scan_children env cx dir depth names s stack = Inr (s', stack') \<Longrightarrow>
   room_left cx s' + length stack' \<le> room_left cx s + length stack"
proof (induction names arbitrary: s stack)
  case (Cons name rest)
  from Cons.prems obtain step where step: "scan_child env cx dir depth name s = Inr step"
    "(case step of Break s' \<Rightarrow> Inr (s', stack)
      | Continue s' pushed \<Rightarrow> scan_children env cx dir depth rest s' (pushed @ stack)) = Inr (s', stack')"
    by (auto simp: bind_result_Inr_iff)
  with scan_child_measure [OF step(1)] Cons.IH show ?case
    by (cases step) fastforce+
qed simp

function scan_stack ::
  "scan_env \<Rightarrow> scan_context \<Rightarrow> scan_state \<Rightarrow> (abs_path \<times> int) list \<Rightarrow> scan_state result" where
  "scan_stack env cx s stack =
     (if ss_partial s then Inr s
      else
        (case stack of
           [] \<Rightarrow> Inr s
         | (dir, depth) # stack \<Rightarrow>
             if at_max_depth (cx_budget cx) depth then scan_stack env cx s stack
             else
               (case se_scandir env dir of
                  None \<Rightarrow> scan_stack env cx (s\<lparr>ss_partial := True\<rparr>) stack
                | Some names \<Rightarrow>
                    (case scan_children env cx dir depth names s stack of
                       Inl e \<Rightarrow> Inl e
                     | Inr (s', stack') \<Rightarrow> scan_stack env cx s' stack'))))"
  by pat_completeness auto

termination
  by (relation "measure (\<lambda>(env, cx, s, stack). room_left cx s + length stack)")
    (auto simp: room_left_def dest: scan_children_measure)

declare scan_stack.simps [simp del]

definition scan_scope ::
  "scan_env \<Rightarrow> steward_config \<Rightarrow> string \<Rightarrow> scan_budget \<Rightarrow> scope_config \<Rightarrow> scan_state \<Rightarrow> scan_state result" where
  "scan_scope env config snapshot_id budget scope s =
     (let root_dir = sc_normalized_path scope in
      if \<not> se_is_dir env root_dir then Inr (s\<lparr>ss_partial := True\<rparr>)
      else
        (case se_lstat env root_dir of
           Inl e \<Rightarrow>
             bind_result
               (failed_entry env snapshot_id (sc_scope_id scope) ''.''
                 (if oe_errno e = 13 then PERMISSION_DENIED else IO_ERROR) e) (\<lambda>entry.
               Inr (s\<lparr>ss_entries := ss_entries s @ [entry], ss_partial := True\<rparr>))
         | Inr info \<Rightarrow>
             bind_result (observed_entry env snapshot_id (sc_scope_id scope) ''.'' root_dir info False) (\<lambda>entry.
               scan_stack env
                 \<lparr>cx_config = config, cx_snapshot_id = snapshot_id, cx_budget = budget,
                  cx_scope = scope, cx_root_dev = st_dev info\<rparr>
                 (s\<lparr>ss_entries := ss_entries s @ [entry]\<rparr>) [(root_dir, 0)])))"

fun scan_scopes ::
  "scan_env \<Rightarrow> steward_config \<Rightarrow> string \<Rightarrow> scan_budget \<Rightarrow> scope_config list \<Rightarrow> scan_state \<Rightarrow> scan_state result" where
  "scan_scopes env config snapshot_id budget [] s = Inr s"
| "scan_scopes env config snapshot_id budget (scope # rest) s =
     bind_result (scan_scope env config snapshot_id budget scope s)
       (scan_scopes env config snapshot_id budget rest)"

text \<open>
  The entries are sorted by Scope and by the bytes of the path: every identity that was computed is
  one of a path that is UTF-8, so \<open>surrogateescape\<close> has nothing left to escape.
\<close>

definition scan ::
  "scan_env \<Rightarrow> steward_config \<Rightarrow> string \<Rightarrow> scope_config list \<Rightarrow> scan_budget \<Rightarrow>
     (filesystem_entry list \<times> bool) result" where
  "scan env config snapshot_id scopes budget =
     bind_result
       (scan_scopes env config snapshot_id budget scopes
         \<lparr>ss_entries = [], ss_partial = False, ss_bytes = 0, ss_reads = 1\<rparr>) (\<lambda>s.
       Inr (sort_key (\<lambda>e. (e_scope_id e, e_relative_path e)) (ss_entries s), ss_partial s))"

end
