(* ===== verification/Filesystem_Scan_Correct.thy ===== *)
theory Filesystem_Scan_Correct
  imports Filesystem_Scan "HOL-Library.Sublist"
begin

text \<open>
  The traversal against its specification: what lies below a Scope's root is the relation
  \<open>seen\<close>; a scan records nothing else, and a scan that is not partial records all of it,
  each path once.
\<close>

section \<open>What there is to see\<close>

definition entered :: "scan_env \<Rightarrow> scan_context \<Rightarrow> abs_path \<Rightarrow> bool" where
  "entered env cx p \<longleftrightarrow>
     \<not> skipped (cx_config cx) p \<and> (case se_lstat env p of Inr info \<Rightarrow> enters cx info | Inl _ \<Rightarrow> False)"

inductive seen :: "scan_env \<Rightarrow> scan_context \<Rightarrow> abs_path \<Rightarrow> int \<Rightarrow> abs_path \<Rightarrow> bool" for env cx where
  child: "seen env cx dir depth (dir @ [name])"
    if "\<not> at_max_depth (cx_budget cx) depth" "se_scandir env dir = Some names" "name \<in> set names"
| deeper: "seen env cx dir depth p"
    if "\<not> at_max_depth (cx_budget cx) depth" "se_scandir env dir = Some names" "name \<in> set names"
      "entered env cx (dir @ [name])" "seen env cx (dir @ [name]) (depth + 1) p"

inductive_cases seenE: "seen env cx dir depth p"

lemma seen_below: "seen env cx dir depth p \<Longrightarrow> strict_prefix dir p"
  by (induction rule: seen.induct) (auto simp: strict_prefix_def prefix_def)

text \<open>The entry of a path, as observed or as a failure.\<close>

abbreviation path_of_entry :: "scan_context \<Rightarrow> abs_path \<Rightarrow> string" where
  "path_of_entry cx p \<equiv> relative_to p (sc_normalized_path (cx_scope cx))"

definition observes :: "scan_env \<Rightarrow> scan_context \<Rightarrow> abs_path \<Rightarrow> filesystem_entry \<Rightarrow> bool" where
  "observes env cx p e \<longleftrightarrow>
     (\<exists>info. se_lstat env p = Inr info
        \<and> observed_entry env (cx_snapshot_id cx) (sc_scope_id (cx_scope cx)) (path_of_entry cx p) p info
            (skipped (cx_config cx) p) = Inr e)"

definition records :: "scan_env \<Rightarrow> scan_context \<Rightarrow> abs_path \<Rightarrow> filesystem_entry \<Rightarrow> bool" where
  "records env cx p e \<longleftrightarrow> observes env cx p e
     \<or> (\<exists>err. se_lstat env p = Inl err
          \<and> failed_entry env (cx_snapshot_id cx) (sc_scope_id (cx_scope cx)) (path_of_entry cx p)
              (child_failure err) err = Inr e)"

lemma is_reg_not_directory: "is_reg mode \<Longrightarrow> \<not> is_directory mode"
  by (simp add: is_reg_def is_directory_def)

section \<open>One directory\<close>

lemma scan_child_break:
  assumes "scan_child env cx dir depth name s = Inr (Break s')"
  shows "ss_partial s' \<and> (ss_entries s' = ss_entries s
    \<or> (\<exists>e. ss_entries s' = ss_entries s @ [e] \<and> records env cx (dir @ [name]) e
         \<and> \<not> entered env cx (dir @ [name])))"
  using assms
  by (auto simp: scan_child_def Let_def bind_result_Inr_iff records_def observes_def entered_def enters_def
      is_reg_not_directory split: sum.splits if_splits)

lemma scan_child_continue:
  assumes "scan_child env cx dir depth name s = Inr (Continue s' pushed)"
  shows "(\<exists>e. ss_entries s' = ss_entries s @ [e] \<and> records env cx (dir @ [name]) e)
    \<and> pushed = (if entered env cx (dir @ [name]) then [(dir @ [name], depth + 1)] else [])
    \<and> (ss_partial s' \<longleftrightarrow> ss_partial s \<or> isl (se_lstat env (dir @ [name])))"
  using assms
  by (auto simp: scan_child_def Let_def bind_result_Inr_iff records_def observes_def entered_def
      split: sum.splits if_splits)

definition pushes :: "scan_env \<Rightarrow> scan_context \<Rightarrow> abs_path \<Rightarrow> int \<Rightarrow> string list \<Rightarrow> (abs_path \<times> int) list" where
  "pushes env cx dir depth names =
     map (\<lambda>name. (dir @ [name], depth + 1)) (filter (\<lambda>name. entered env cx (dir @ [name])) names)"

lemma scan_children_cases:
  "scan_children env cx dir depth names s stack = Inr (s', stack') \<Longrightarrow>
   \<exists>m new. m \<le> length names \<and> ss_entries s' = ss_entries s @ new
     \<and> list_all2 (records env cx) (map (\<lambda>name. dir @ [name]) (take m names)) new
     \<and> stack' = rev (pushes env cx dir depth (take m names)) @ stack
     \<and> (\<not> ss_partial s' \<longrightarrow> m = length names \<and> \<not> ss_partial s
          \<and> (\<forall>name \<in> set names. \<not> isl (se_lstat env (dir @ [name]))))"
proof (induction names arbitrary: s stack)
  case Nil
  then show ?case by (auto simp: pushes_def)
next
  case (Cons name rest)
  from Cons.prems obtain step where step: "scan_child env cx dir depth name s = Inr step"
    "(case step of Break s' \<Rightarrow> Inr (s', stack)
      | Continue s' pushed \<Rightarrow> scan_children env cx dir depth rest s' (pushed @ stack)) = Inr (s', stack')"
    by (auto simp: bind_result_Inr_iff)
  show ?case
  proof (cases step)
    case (Break s1)
    with step have s': "s' = s1" "stack' = stack" by auto
    from scan_child_break [OF step(1) [unfolded Break]] consider
      (none) "ss_entries s1 = ss_entries s" "ss_partial s1"
      | (one) e where "ss_entries s1 = ss_entries s @ [e]" "records env cx (dir @ [name]) e"
        "\<not> entered env cx (dir @ [name])" "ss_partial s1" by blast
    then show ?thesis
    proof cases
      case none
      then show ?thesis by (intro exI [of _ 0] exI [of _ "[]"]) (simp add: s' pushes_def)
    next
      case one
      then show ?thesis by (intro exI [of _ 1] exI [of _ "[e]"]) (simp add: s' pushes_def)
    qed
  next
    case (Continue s1 pushed)
    note child = scan_child_continue [OF step(1) [unfolded Continue]]
    then obtain e where e: "ss_entries s1 = ss_entries s @ [e]" "records env cx (dir @ [name]) e" by blast
    from step(2) Continue have "scan_children env cx dir depth rest s1 (pushed @ stack) = Inr (s', stack')" by simp
    from Cons.IH [OF this] obtain m new where rest: "m \<le> length rest" "ss_entries s' = ss_entries s1 @ new"
      "list_all2 (records env cx) (map (\<lambda>name. dir @ [name]) (take m rest)) new"
      "stack' = rev (pushes env cx dir depth (take m rest)) @ pushed @ stack"
      "\<not> ss_partial s' \<longrightarrow> m = length rest \<and> \<not> ss_partial s1
          \<and> (\<forall>name \<in> set rest. \<not> isl (se_lstat env (dir @ [name])))" by blast
    then show ?thesis
      using child e by (intro exI [of _ "Suc m"] exI [of _ "e # new"]) (auto simp: pushes_def)
  qed
qed

section \<open>One stack\<close>

lemma seen_pushes:
  assumes "(d, k) \<in> set (pushes env cx dir depth names)" "seen env cx d k p"
    and "\<not> at_max_depth (cx_budget cx) depth" "se_scandir env dir = Some all_names" "set names \<subseteq> set all_names"
  shows "seen env cx dir depth p"
  using assms by (auto simp: pushes_def intro: seen.deeper)

lemma seen_directory:
  assumes "\<not> at_max_depth (cx_budget cx) depth" "se_scandir env dir = Some names"
  shows "seen env cx dir depth p \<longleftrightarrow>
    p \<in> (\<lambda>name. dir @ [name]) ` set names \<or> (\<exists>(d, k) \<in> set (pushes env cx dir depth names). seen env cx d k p)"
  using assms by (auto simp: pushes_def elim: seenE intro: seen.intros)

lemma not_seen_at_max_depth: "at_max_depth (cx_budget cx) depth \<Longrightarrow> \<not> seen env cx dir depth p"
  by (auto elim: seenE)

lemma scan_stack_done: "ss_partial s \<or> stack = [] \<Longrightarrow> scan_stack env cx s stack = Inr s"
  by (subst scan_stack.simps) auto

lemma scan_stack_pop:
  "\<not> ss_partial s \<Longrightarrow> scan_stack env cx s ((dir, depth) # rest) =
    (if at_max_depth (cx_budget cx) depth then scan_stack env cx s rest
     else
       (case se_scandir env dir of
          None \<Rightarrow> Inr (s\<lparr>ss_partial := True\<rparr>)
        | Some names \<Rightarrow>
            bind_result (scan_children env cx dir depth names s rest) (\<lambda>(s', stack'). scan_stack env cx s' stack')))"
  by (subst scan_stack.simps)
    (simp add: scan_stack_done bind_result_def split: option.splits sum.splits)

text \<open>
  What an operating system promises about a listing: no name twice, none empty, a dot or two
  dots, none with a separator.
\<close>

definition names_ok :: "scan_env \<Rightarrow> bool" where
  "names_ok env \<longleftrightarrow>
     (\<forall>dir names. se_scandir env dir = Some names \<longrightarrow>
        distinct names \<and> (\<forall>name \<in> set names. name \<noteq> [] \<and> name \<noteq> ''.'' \<and> name \<noteq> ''..'' \<and> CHR ''/'' \<notin> set name))"

text \<open>The directories on the stack lie apart.\<close>

abbreviation apart :: "(abs_path \<times> int) list \<Rightarrow> bool" where
  "apart stack \<equiv> sorted_wrt parallel (map fst stack)"

lemma parallel_sym: "parallel a b \<Longrightarrow> parallel b a"
  by (auto simp: parallel_def)

lemma apart_children:
  assumes "distinct names" "apart ((dir, depth) # rest)"
  shows "apart (rev (pushes env cx dir depth names) @ rest)"
proof -
  have dirs: "map fst (pushes env cx dir depth names) = map (\<lambda>name. dir @ [name]) (filter (\<lambda>name. entered env cx (dir @ [name])) names)"
    by (simp add: pushes_def comp_def)
  have siblings: "sorted_wrt parallel (map (\<lambda>name. dir @ [name]) ns)" if "distinct ns" for ns
    using that by (induction ns) (auto simp: parallel_def prefix_def)
  have "sorted_wrt parallel (rev (map fst (pushes env cx dir depth names)))"
    unfolding dirs sorted_wrt_rev
    by (rule sorted_wrt_mono_rel [OF _ siblings]) (use assms(1) in \<open>auto intro: parallel_sym\<close>)
  moreover have "parallel (dir @ [name]) d" if "d \<in> fst ` set rest" for name d
  proof -
    have "parallel dir d" using assms(2) that by auto
    from parallel_append [OF this, of "[name]" "[]"] show ?thesis by simp
  qed
  ultimately show ?thesis
    using assms(2) unfolding map_append sorted_wrt_append rev_map [symmetric] set_rev dirs by auto
qed

lemma children_apart:
  assumes "apart ((dir, depth) # rest)"
    and "\<forall>p \<in> set ps. \<exists>(d, k) \<in> set (rev (pushes env cx dir depth names) @ rest). seen env cx d k p"
  shows "dir @ [name] \<notin> set ps"
proof
  assume "dir @ [name] \<in> set ps"
  with assms(2) obtain d k where dk: "(d, k) \<in> set (rev (pushes env cx dir depth names) @ rest)"
    "seen env cx d k (dir @ [name])" by blast
  from seen_below [OF dk(2)] have below: "strict_prefix d (dir @ [name])" .
  from dk(1) consider name' where "d = dir @ [name']" | "(d, k) \<in> set rest"
    by (auto simp: pushes_def)
  then show False
  proof cases
    case 1
    with below show False by (auto simp: strict_prefix_def prefix_def)
  next
    case 2
    with assms(1) have "parallel dir d" by force
    with below show False by (auto simp: parallel_def strict_prefix_def prefix_snoc)
  qed
qed

lemma distinct_children:
  assumes "distinct names" "distinct ps" "apart ((dir, depth) # rest)"
    and "\<forall>p \<in> set ps. \<exists>(d, k) \<in> set (rev (pushes env cx dir depth names) @ rest). seen env cx d k p"
  shows "distinct (map (\<lambda>name. dir @ [name]) names @ ps)"
  using assms(1, 2) children_apart [OF assms(3, 4)] by (auto simp: distinct_map inj_on_def)

lemma scan_stack_sound:
  "scan_stack env cx s stack = Inr s' \<Longrightarrow>
   \<exists>ps new. ss_entries s' = ss_entries s @ new \<and> list_all2 (records env cx) ps new
     \<and> (\<forall>p \<in> set ps. \<exists>(d, k) \<in> set stack. seen env cx d k p)
     \<and> (names_ok env \<longrightarrow> apart stack \<longrightarrow> distinct ps)"
proof (induction env cx s stack rule: scan_stack.induct)
  case (1 env cx s stack)
  have none: ?case if "s' = s" using that by (intro exI [of _ "[]"]) simp
  show ?case
  proof (cases "ss_partial s \<or> stack = []")
    case True
    from "1.prems" [unfolded scan_stack_done [OF this]] show ?thesis by (intro none) simp
  next
    case False
    then obtain dir depth rest where stack: "stack = (dir, depth) # rest" by (cases stack) auto
    have running: "\<not> ss_partial s" using False by simp
    note run = "1.prems" [unfolded stack scan_stack_pop [OF running]]
    note IH = "1.IH" [OF running stack refl]
    show ?thesis
    proof (cases "at_max_depth (cx_budget cx) depth")
      case True
      with run have "scan_stack env cx s rest = Inr s'" by simp
      from IH(1) [OF True this] obtain ps new where "ss_entries s' = ss_entries s @ new"
        "list_all2 (records env cx) ps new" "\<forall>p \<in> set ps. \<exists>(d, k) \<in> set rest. seen env cx d k p"
        "names_ok env \<longrightarrow> apart rest \<longrightarrow> distinct ps" by blast
      then show ?thesis unfolding stack by (intro exI [of _ ps] exI [of _ new]) auto
    next
      case shallow: False
      note run = run [unfolded if_not_P [OF shallow]]
      show ?thesis
      proof (cases "se_scandir env dir")
        case None
        with run have "s' = s\<lparr>ss_partial := True\<rparr>" by simp
        then show ?thesis by (intro exI [of _ "[]"]) simp
      next
        case (Some names)
        with run obtain s1 stack1 where children: "scan_children env cx dir depth names s rest = Inr (s1, stack1)"
          and rest_run: "scan_stack env cx s1 stack1 = Inr s'"
          by (auto simp: bind_result_Inr_iff)
        from scan_children_cases [OF children] obtain m new where first: "ss_entries s1 = ss_entries s @ new"
          "list_all2 (records env cx) (map (\<lambda>name. dir @ [name]) (take m names)) new"
          "stack1 = rev (pushes env cx dir depth (take m names)) @ rest" by blast
        from IH(3) [OF shallow Some children refl rest_run] obtain ps new' where later:
          "ss_entries s' = ss_entries s1 @ new'" "list_all2 (records env cx) ps new'"
          "\<forall>p \<in> set ps. \<exists>(d, k) \<in> set stack1. seen env cx d k p"
          "names_ok env \<longrightarrow> apart stack1 \<longrightarrow> distinct ps" by blast
        have "\<exists>(d, k) \<in> set stack. seen env cx d k p"
          if "p \<in> set (map (\<lambda>name. dir @ [name]) (take m names) @ ps)" for p
        proof (cases "p \<in> set ps")
          case True
          with later(3) obtain d k where dk: "(d, k) \<in> set stack1" "seen env cx d k p" by blast
          show ?thesis
          proof (cases "(d, k) \<in> set rest")
            case True
            with dk show ?thesis by (auto simp: stack)
          next
            case False
            with dk(1) first(3) have "(d, k) \<in> set (pushes env cx dir depth (take m names))" by simp
            from seen_pushes [OF this dk(2) shallow Some set_take_subset] show ?thesis by (auto simp: stack)
          qed
        next
          case False
          with that have "seen env cx dir depth p"
            using shallow Some by (auto intro: seen.child dest: in_set_takeD)
          then show ?thesis by (auto simp: stack)
        qed
        moreover have "list_all2 (records env cx) (map (\<lambda>name. dir @ [name]) (take m names) @ ps) (new @ new')"
          using first(2) later(2) by (rule list_all2_appendI)
        moreover have "ss_entries s' = ss_entries s @ new @ new'" using first(1) later(1) by simp
        moreover have "distinct (map (\<lambda>name. dir @ [name]) (take m names) @ ps)"
          if "names_ok env" "apart stack"
        proof -
          have names: "distinct (take m names)" using that(1) Some by (auto simp: names_ok_def)
          from apart_children [OF names that(2) [unfolded stack]] have "apart stack1" by (simp add: first(3))
          with later(4) that(1) have "distinct ps" by simp
          from distinct_children [OF names this that(2) [unfolded stack]] later(3) show ?thesis
            by (simp add: first(3))
        qed
        ultimately show ?thesis by blast
      qed
    qed
  qed
qed

lemma scan_stack_complete:
  "scan_stack env cx s stack = Inr s' \<Longrightarrow> \<not> ss_partial s' \<Longrightarrow> names_ok env \<Longrightarrow> apart stack \<Longrightarrow>
   \<exists>ps new. ss_entries s' = ss_entries s @ new \<and> list_all2 (observes env cx) ps new \<and> distinct ps
     \<and> set ps = {p. \<exists>(d, k) \<in> set stack. seen env cx d k p}"
proof (induction env cx s stack rule: scan_stack.induct)
  case (1 env cx s stack)
  show ?case
  proof (cases "ss_partial s \<or> stack = []")
    case True
    from "1.prems"(1) [unfolded scan_stack_done [OF this]] True "1.prems"(2) show ?thesis
      by (intro exI [of _ "[]"]) auto
  next
    case False
    then obtain dir depth rest where stack: "stack = (dir, depth) # rest" by (cases stack) auto
    have running: "\<not> ss_partial s" using False by simp
    note run = "1.prems"(1) [unfolded stack scan_stack_pop [OF running]]
    note IH = "1.IH" [OF running stack refl]
    have apart_rest: "apart rest" using "1.prems"(4) by (simp add: stack)
    show ?thesis
    proof (cases "at_max_depth (cx_budget cx) depth")
      case True
      with run have "scan_stack env cx s rest = Inr s'" by simp
      from IH(1) [OF True this "1.prems"(2, 3) apart_rest] not_seen_at_max_depth [OF True]
      show ?thesis by (simp add: stack)
    next
      case shallow: False
      note run = run [unfolded if_not_P [OF shallow]]
      show ?thesis
      proof (cases "se_scandir env dir")
        case None
        with run "1.prems"(2) show ?thesis by auto
      next
        case (Some names)
        with run obtain s1 stack1 where children: "scan_children env cx dir depth names s rest = Inr (s1, stack1)"
          and rest_run: "scan_stack env cx s1 stack1 = Inr s'"
          by (auto simp: bind_result_Inr_iff)
        have "\<not> ss_partial s1"
        proof
          assume "ss_partial s1"
          with rest_run "1.prems"(2) show False by (simp add: scan_stack_done)
        qed
        with scan_children_cases [OF children] obtain new where first: "ss_entries s1 = ss_entries s @ new"
          "list_all2 (records env cx) (map (\<lambda>name. dir @ [name]) names) new"
          "stack1 = rev (pushes env cx dir depth names) @ rest"
          "\<forall>name \<in> set names. \<not> isl (se_lstat env (dir @ [name]))" by auto
        have names: "distinct names" using "1.prems"(3) Some by (simp add: names_ok_def)
        from first(3) apart_children [OF names "1.prems"(4) [unfolded stack]] have "apart stack1" by simp
        from IH(3) [OF shallow Some children refl rest_run "1.prems"(2, 3) this] obtain ps new' where later:
          "ss_entries s' = ss_entries s1 @ new'" "list_all2 (observes env cx) ps new'" "distinct ps"
          "set ps = {p. \<exists>(d, k) \<in> set stack1. seen env cx d k p}" by blast
        let ?own = "map (\<lambda>name. dir @ [name]) names"
        have "list_all2 (observes env cx) ?own new"
          using first(2, 4) by (auto simp: list_all2_conv_all_nth records_def isl_def)
        with later(2) have "list_all2 (observes env cx) (?own @ ps) (new @ new')" by (rule list_all2_appendI [rotated])
        moreover have "distinct (?own @ ps)"
          by (rule distinct_children [OF names later(3) "1.prems"(4) [unfolded stack]]) (use later(4) first(3) in auto)
        moreover have "set (?own @ ps) = {p. \<exists>(d, k) \<in> set stack. seen env cx d k p}"
          unfolding set_append later(4) first(3) stack
          by (auto simp: seen_directory [OF shallow Some])
        moreover have "ss_entries s' = ss_entries s @ new @ new'" using first(1) later(1) by simp
        ultimately show ?thesis by blast
      qed
    qed
  qed
qed

end
