(* ===== verification/Filesystem_Scan_Examples.thy ===== *)
theory Filesystem_Scan_Examples
  imports Filesystem_Scan
begin

text \<open>
  A small file system for the witness theorems: a Scope with a file, a directory with one file, and
  an excluded directory.
\<close>

definition example_dir :: stat_result where
  "example_dir = \<lparr>st_mode = 16877, st_dev = 1, st_ino = 2, st_uid = 0, st_gid = 0, st_size = 64,
     st_mtime_ns = 0, st_ctime_ns = 0, st_birthtime_ns = None, st_nlink = 2\<rparr>"

definition example_file :: stat_result where
  "example_file = \<lparr>st_mode = 33188, st_dev = 1, st_ino = 3, st_uid = 0, st_gid = 0, st_size = 5,
     st_mtime_ns = 0, st_ctime_ns = 0, st_birthtime_ns = None, st_nlink = 1\<rparr>"

definition example_fs :: scan_env where
  "example_fs = \<lparr>se_sha256 = (\<lambda>s. s), se_is_dir = (\<lambda>p. p = [''home'']),
     se_lstat = (\<lambda>p. if last p \<in> {''home'', ''d'', ''x''} then Inr example_dir else Inr example_file),
     se_scandir = (\<lambda>p. if p = [''home''] then Some [''d'', ''x'', ''a'']
       else if p = [''home'', ''d''] then Some [''b''] else None),
     se_readlink = (\<lambda>_. None), se_access = (\<lambda>_. (True, True, False)), se_clock = (\<lambda>_. 0)\<rparr>"

definition example_scope :: scope_config where
  "example_scope = \<lparr>sc_scope_id = ''s'', sc_role = MANAGED_ROOT, sc_raw_path = ''/home'',
     sc_normalized_path = [''home''], sc_enabled = True, sc_follow_directory_symlinks = False,
     sc_allow_cross_mount = False\<rparr>"

definition example_scan_config :: steward_config where
  "example_scan_config = \<lparr>cf_schema_version = 1, cf_project_name = ''p'',
     cf_paths = \<lparr>data_dir = [''v''], cache_dir = [''v'', ''c''], evidence_dir = [''v'', ''e''],
       quarantine_dir = [''v'', ''q'']\<rparr>,
     cf_scopes = [example_scope, example_scope\<lparr>sc_scope_id := ''x'', sc_role := EXCLUDED_ROOT,
       sc_normalized_path := [''home'', ''x'']\<rparr>],
     cf_project_root = [], cf_source_path = [], cf_warnings = []\<rparr>"

definition example_budget :: scan_budget where
  "example_budget = \<lparr>b_max_entries = 10, b_max_total_stat_bytes = Some 100, b_max_duration_seconds = 600,
     b_max_depth = None\<rparr>"

definition example_scan :: "(filesystem_entry list \<times> bool) result" where
  "example_scan = scan example_fs example_scan_config ''i'' [example_scope] example_budget"

lemma example_scan_result:
  "(case example_scan of
      Inr (entries, partial) \<Rightarrow> map e_relative_path entries = [''.'', ''a'', ''d'', ''d/b'', ''x''] \<and> \<not> partial
    | Inl _ \<Rightarrow> False)"
  by code_simp

lemma example_entries:
  obtains entries where
    "scan example_fs example_scan_config ''i'' [example_scope] example_budget = Inr (entries, False)"
    "map e_relative_path entries = [''.'', ''a'', ''d'', ''d/b'', ''x'']"
  using example_scan_result unfolding example_scan_def by (auto split: sum.splits)

end
