(* ===== verification/Filesystem_Scan_Properties.thy ===== *)
theory Filesystem_Scan_Properties
  imports Filesystem_Scan_Correct Filesystem_Scan_Examples
begin

text \<open>
  What a scan promises: it never leaves its Scopes, a scan that is not partial is complete, and
  both stay within the budget.
\<close>

section \<open>One Scope\<close>

definition scope_context ::
  "scan_env \<Rightarrow> steward_config \<Rightarrow> string \<Rightarrow> scan_budget \<Rightarrow> scope_config \<Rightarrow> scan_context" where
  "scope_context env config snapshot_id budget scope =
     \<lparr>cx_config = config, cx_snapshot_id = snapshot_id, cx_budget = budget, cx_scope = scope,
      cx_root_dev = (case se_lstat env (sc_normalized_path scope) of Inr info \<Rightarrow> st_dev info | Inl _ \<Rightarrow> 0)\<rparr>"

lemma scope_context_simps [simp]:
  "cx_config (scope_context env config snapshot_id budget scope) = config"
  "cx_snapshot_id (scope_context env config snapshot_id budget scope) = snapshot_id"
  "cx_budget (scope_context env config snapshot_id budget scope) = budget"
  "cx_scope (scope_context env config snapshot_id budget scope) = scope"
  by (simp_all add: scope_context_def)

text \<open>A path of the Scope: its root or something seen below it.\<close>

definition in_scope :: "scan_env \<Rightarrow> scan_context \<Rightarrow> abs_path \<Rightarrow> bool" where
  "in_scope env cx p \<longleftrightarrow>
     p = sc_normalized_path (cx_scope cx) \<or> seen env cx (sc_normalized_path (cx_scope cx)) 0 p"

text \<open>The observation of a path: the root is never marked as excluded.\<close>

definition entry_of_path :: "scan_env \<Rightarrow> scan_context \<Rightarrow> abs_path \<Rightarrow> filesystem_entry result" where
  "entry_of_path env cx p =
     (case se_lstat env p of
        Inl _ \<Rightarrow> Inl PyOSError
      | Inr info \<Rightarrow>
          observed_entry env (cx_snapshot_id cx) (sc_scope_id (cx_scope cx)) (path_of_entry cx p) p info
            (p \<noteq> sc_normalized_path (cx_scope cx) \<and> skipped (cx_config cx) p))"

lemma entry_names:
  "observed_entry env snapshot_id scope_id relative p info skip = Inr e \<Longrightarrow>
   e_scope_id e = scope_id \<and> e_relative_path e = relative \<and> e_observation_status e = OBSERVED
     \<and> e_excluded e = skip \<and> e_object_type e = kind_of_mode (st_mode info) \<and> e_size_bytes e = Some (st_size info)"
  "failed_entry env snapshot_id scope_id relative status err = Inr e \<Longrightarrow>
   e_scope_id e = scope_id \<and> e_relative_path e = relative \<and> e_observation_status e = status
     \<and> e_size_bytes e = None"
  by (cases "se_access env p", auto simp: observed_entry_def failed_entry_def bind_result_Inr_iff)

lemma records_names:
  "records env cx p e \<Longrightarrow> e_scope_id e = sc_scope_id (cx_scope cx) \<and> e_relative_path e = path_of_entry cx p"
  by (auto simp: records_def observes_def dest: entry_names)

lemma relative_to_root [simp]: "relative_to p p = ''.''"
  by (simp add: relative_to_def)

lemma observes_entry_of_path:
  "strict_prefix (sc_normalized_path (cx_scope cx)) p \<Longrightarrow> observes env cx p e \<longleftrightarrow> entry_of_path env cx p = Inr e"
  by (auto simp: observes_def entry_of_path_def strict_prefix_def split: sum.splits)

text \<open>What every entry that is written for a path carries.\<close>

definition entry_for ::
  "scan_env \<Rightarrow> string \<Rightarrow> scope_config \<Rightarrow> abs_path \<Rightarrow> filesystem_entry \<Rightarrow> bool" where
  "entry_for env snapshot_id scope p e \<longleftrightarrow>
     e_scope_id e = sc_scope_id scope \<and> e_relative_path e = relative_to p (sc_normalized_path scope)
     \<and> e_snapshot_id e = snapshot_id \<and> e_v2 e = None
     \<and> scan_entry_id env snapshot_id (sc_scope_id scope) (e_relative_path e) = Inr (e_entry_id e)"

lemma entry_for_made:
  "observed_entry env snapshot_id (sc_scope_id scope) (relative_to p (sc_normalized_path scope)) p info skip = Inr e \<Longrightarrow>
   entry_for env snapshot_id scope p e"
  "failed_entry env snapshot_id (sc_scope_id scope) (relative_to p (sc_normalized_path scope)) status err = Inr e \<Longrightarrow>
   entry_for env snapshot_id scope p e"
  by (cases "se_access env p", auto simp: observed_entry_def failed_entry_def entry_for_def bind_result_Inr_iff)

lemma entry_of_path_for:
  "entry_of_path env (scope_context env config snapshot_id budget scope) p = Inr e \<Longrightarrow>
   entry_for env snapshot_id scope p e"
  by (auto simp: entry_of_path_def dest: entry_for_made(1) split: sum.splits)

lemma scan_scope_sound:
  assumes "scan_scope env config snapshot_id budget scope s = Inr s'"
  defines "cx \<equiv> scope_context env config snapshot_id budget scope"
  shows "\<exists>ps new. ss_entries s' = ss_entries s @ new \<and> list_all2 (entry_for env snapshot_id scope) ps new
    \<and> (\<forall>p \<in> set ps. in_scope env cx p) \<and> (names_ok env \<longrightarrow> distinct ps)"
proof -
  let ?top = "sc_normalized_path scope"
  note run = assms(1) [unfolded scan_scope_def Let_def]
  show ?thesis
  proof (cases "se_is_dir env ?top")
    case False
    with run show ?thesis by (intro exI [of _ "[]"]) auto
  next
    case dir: True
    show ?thesis
    proof (cases "se_lstat env ?top")
      case (Inl err)
      with run dir obtain e where "failed_entry env snapshot_id (sc_scope_id scope) ''.''
          (if oe_errno err = 13 then PERMISSION_DENIED else IO_ERROR) err = Inr e"
        "ss_entries s' = ss_entries s @ [e]" by (auto simp: bind_result_Inr_iff)
      with entry_for_made(2) [of env snapshot_id scope ?top] show ?thesis
        by (intro exI [of _ "[?top]"] exI [of _ "[e]"]) (auto simp: in_scope_def cx_def)
    next
      case (Inr info)
      have cx: "cx = \<lparr>cx_config = config, cx_snapshot_id = snapshot_id, cx_budget = budget, cx_scope = scope,
          cx_root_dev = st_dev info\<rparr>"
        by (simp add: cx_def scope_context_def Inr)
      from run dir Inr obtain e where e: "observed_entry env snapshot_id (sc_scope_id scope) ''.'' ?top info False = Inr e"
        and stack: "scan_stack env cx (s\<lparr>ss_entries := ss_entries s @ [e]\<rparr>) [(?top, 0)] = Inr s'"
        by (auto simp: bind_result_Inr_iff cx)
      from scan_stack_sound [OF stack] obtain ps new where new: "ss_entries s' = (ss_entries s @ [e]) @ new"
        "list_all2 (records env cx) ps new" "\<forall>p \<in> set ps. seen env cx ?top 0 p" "names_ok env \<longrightarrow> distinct ps"
        by auto
      have "records env cx p x \<Longrightarrow> entry_for env snapshot_id scope p x" for p x
        by (auto simp: records_def observes_def cx_def dest: entry_for_made)
      from list_all2_mono [OF new(2) this] have "list_all2 (entry_for env snapshot_id scope) ps new" .
      moreover have "entry_for env snapshot_id scope ?top e" using entry_for_made(1) [of env snapshot_id scope ?top] e by simp
      moreover have "?top \<notin> set ps" using new(3) seen_below by blast
      ultimately show ?thesis
        using new(1, 3, 4) by (intro exI [of _ "?top # ps"] exI [of _ "e # new"]) (auto simp: in_scope_def cx_def)
    qed
  qed
qed

lemma scan_scope_complete:
  assumes "scan_scope env config snapshot_id budget scope s = Inr s'" "\<not> ss_partial s'" "names_ok env"
  defines "cx \<equiv> scope_context env config snapshot_id budget scope"
  shows "\<exists>ps new. ss_entries s' = ss_entries s @ new \<and> list_all2 (\<lambda>p e. entry_of_path env cx p = Inr e) ps new
    \<and> distinct ps \<and> set ps = {p. in_scope env cx p} \<and> se_is_dir env (sc_normalized_path scope) \<and> \<not> ss_partial s"
proof -
  let ?top = "sc_normalized_path scope"
  note run = assms(1) [unfolded scan_scope_def Let_def]
  have dir: "se_is_dir env ?top" using run assms(2) by (auto split: if_splits)
  obtain info where info: "se_lstat env ?top = Inr info"
    using run assms(2) dir by (cases "se_lstat env ?top") (auto simp: bind_result_Inr_iff)
  have cx: "cx = \<lparr>cx_config = config, cx_snapshot_id = snapshot_id, cx_budget = budget, cx_scope = scope,
      cx_root_dev = st_dev info\<rparr>"
    by (simp add: cx_def scope_context_def info)
  from run dir info obtain e where e: "observed_entry env snapshot_id (sc_scope_id scope) ''.'' ?top info False = Inr e"
    and stack: "scan_stack env cx (s\<lparr>ss_entries := ss_entries s @ [e]\<rparr>) [(?top, 0)] = Inr s'"
    by (auto simp: bind_result_Inr_iff cx)
  have "\<not> ss_partial s"
  proof
    assume "ss_partial s"
    then have "s' = s\<lparr>ss_entries := ss_entries s @ [e]\<rparr>" using stack by (simp add: scan_stack_done)
    with \<open>ss_partial s\<close> assms(2) show False by simp
  qed
  from scan_stack_complete [OF stack assms(2, 3)] obtain ps new where new:
    "ss_entries s' = (ss_entries s @ [e]) @ new" "list_all2 (observes env cx) ps new" "distinct ps"
    "set ps = {p. seen env cx ?top 0 p}" by auto
  have below: "strict_prefix ?top p" if "p \<in> set ps" for p
    using that new(4) seen_below by auto
  have "list_all2 (\<lambda>p e. entry_of_path env cx p = Inr e) ps new"
    using new(2) below observes_entry_of_path [of cx _ env]
    by (auto simp: list_all2_conv_all_nth cx_def)
  moreover have "entry_of_path env cx ?top = Inr e"
    using e by (simp add: entry_of_path_def info cx_def)
  moreover have "?top \<notin> set ps" using below by auto
  moreover have "set (?top # ps) = {p. in_scope env cx p}"
    by (auto simp: new(4) in_scope_def cx_def)
  ultimately show ?thesis
    using new(1, 3) dir \<open>\<not> ss_partial s\<close> by (intro exI [of _ "?top # ps"] exI [of _ "e # new"]) auto
qed

section \<open>All Scopes\<close>

lemma scan_scopes_sound:
  "scan_scopes env config snapshot_id budget scopes s = Inr s' \<Longrightarrow>
   \<exists>locs new. ss_entries s' = ss_entries s @ new
     \<and> list_all2 (\<lambda>(scope, p) e. entry_for env snapshot_id scope p e) locs new
     \<and> (\<forall>(scope, p) \<in> set locs. scope \<in> set scopes \<and> in_scope env (scope_context env config snapshot_id budget scope) p)
     \<and> (names_ok env \<longrightarrow> distinct scopes \<longrightarrow> distinct locs)"
proof (induction scopes arbitrary: s)
  case Nil
  then show ?case by (intro exI [of _ "[]"]) auto
next
  case (Cons scope rest)
  then obtain s1 where s1: "scan_scope env config snapshot_id budget scope s = Inr s1"
    "scan_scopes env config snapshot_id budget rest s1 = Inr s'" by (auto simp: bind_result_Inr_iff)
  from Cons.IH [OF s1(2)] obtain locs new where rest: "ss_entries s' = ss_entries s1 @ new"
    "list_all2 (\<lambda>(scope, p) e. entry_for env snapshot_id scope p e) locs new"
    "\<forall>(scope, p) \<in> set locs. scope \<in> set rest \<and> in_scope env (scope_context env config snapshot_id budget scope) p"
    "names_ok env \<longrightarrow> distinct rest \<longrightarrow> distinct locs" by blast
  from scan_scope_sound [OF s1(1)] obtain ps new1 where first: "ss_entries s1 = ss_entries s @ new1"
    "list_all2 (entry_for env snapshot_id scope) ps new1"
    "\<forall>p \<in> set ps. in_scope env (scope_context env config snapshot_id budget scope) p"
    "names_ok env \<longrightarrow> distinct ps" by blast
  let ?locs = "map (Pair scope) ps @ locs"
  have "list_all2 (\<lambda>(scope, p) e. entry_for env snapshot_id scope p e) ?locs (new1 @ new)"
    using first(2) rest(2) by (intro list_all2_appendI) (simp_all add: list_all2_map1)
  moreover have "names_ok env \<longrightarrow> distinct (scope # rest) \<longrightarrow> distinct ?locs"
    using first(4) rest(3, 4) by (auto simp: distinct_map inj_on_def)
  ultimately show ?case
    using first(1, 3) rest(1, 3) by (intro exI [of _ ?locs] exI [of _ "new1 @ new"]) auto
qed

lemma scan_scopes_complete:
  "scan_scopes env config snapshot_id budget scopes s = Inr s' \<Longrightarrow> \<not> ss_partial s' \<Longrightarrow> names_ok env \<Longrightarrow>
   \<not> ss_partial s \<and> (\<exists>locs new. ss_entries s' = ss_entries s @ new
     \<and> list_all2 (\<lambda>(scope, p) e. entry_of_path env (scope_context env config snapshot_id budget scope) p = Inr e) locs new
     \<and> set locs = {(scope, p). scope \<in> set scopes \<and> in_scope env (scope_context env config snapshot_id budget scope) p}
     \<and> (distinct scopes \<longrightarrow> distinct locs))"
proof (induction scopes arbitrary: s)
  case Nil
  then show ?case by (auto intro: exI [of _ "[]"])
next
  case (Cons scope rest)
  then obtain s1 where s1: "scan_scope env config snapshot_id budget scope s = Inr s1"
    "scan_scopes env config snapshot_id budget rest s1 = Inr s'" by (auto simp: bind_result_Inr_iff)
  let ?cx = "\<lambda>scope. scope_context env config snapshot_id budget scope"
  from Cons.IH [OF s1(2) Cons.prems(2, 3)] obtain locs new where rest: "\<not> ss_partial s1"
    "ss_entries s' = ss_entries s1 @ new"
    "list_all2 (\<lambda>(scope, p) e. entry_of_path env (?cx scope) p = Inr e) locs new"
    "set locs = {(scope, p). scope \<in> set rest \<and> in_scope env (?cx scope) p}"
    "distinct rest \<longrightarrow> distinct locs" by blast
  from scan_scope_complete [OF s1(1) rest(1) Cons.prems(3)] obtain ps new1 where first:
    "ss_entries s1 = ss_entries s @ new1" "list_all2 (\<lambda>p e. entry_of_path env (?cx scope) p = Inr e) ps new1"
    "distinct ps" "set ps = {p. in_scope env (?cx scope) p}" "\<not> ss_partial s" by blast
  let ?locs = "map (Pair scope) ps @ locs"
  have "list_all2 (\<lambda>(scope, p) e. entry_of_path env (?cx scope) p = Inr e) ?locs (new1 @ new)"
    using first(2) rest(3) by (intro list_all2_appendI) (simp_all add: list_all2_map1)
  moreover have "set ?locs = {(s, p). s \<in> set (scope # rest) \<and> in_scope env (?cx s) p}"
    by (auto simp: rest(4) first(4))
  moreover have "distinct (scope # rest) \<longrightarrow> distinct ?locs"
    using first(3) rest(4, 5) by (auto simp: distinct_map inj_on_def)
  ultimately show ?case using first(1, 5) rest(2) by (intro conjI exI [of _ ?locs] exI [of _ "new1 @ new"]) auto
qed

section \<open>Locations\<close>

lemma seen_names:
  "seen env cx dir depth p \<Longrightarrow> names_ok env \<Longrightarrow>
   \<exists>r. p = dir @ r \<and> r \<noteq> [] \<and> (\<forall>name \<in> set r. name \<noteq> [] \<and> name \<noteq> ''.'' \<and> name \<noteq> ''..'' \<and> CHR ''/'' \<notin> set name)"
proof (induction rule: seen.induct)
  case (child depth dir names name)
  then show ?case by (intro exI [of _ "[name]"]) (simp add: names_ok_def)
next
  case (deeper depth dir names name p)
  then obtain r where "p = (dir @ [name]) @ r" "r \<noteq> []"
    "\<forall>name \<in> set r. name \<noteq> [] \<and> name \<noteq> ''.'' \<and> name \<noteq> ''..'' \<and> CHR ''/'' \<notin> set name" by blast
  with deeper show ?case by (intro exI [of _ "name # r"]) (simp add: names_ok_def)
qed

lemma relative_to_inject:
  assumes "names_ok env" "in_scope env cx p" "in_scope env cx q"
    and "relative_to p (sc_normalized_path (cx_scope cx)) = relative_to q (sc_normalized_path (cx_scope cx))"
  shows "p = q"
proof -
  let ?top = "sc_normalized_path (cx_scope cx)"
  have parts: "\<exists>r. p = ?top @ r \<and> (\<forall>name \<in> set r. name \<noteq> [] \<and> name \<noteq> ''.'' \<and> CHR ''/'' \<notin> set name)"
    if "in_scope env cx p" for p
  proof (cases "p = ?top")
    case False
    with that have "seen env cx ?top 0 p" by (simp add: in_scope_def)
    from seen_names [OF this assms(1)] show ?thesis by blast
  qed simp
  from parts [OF assms(2)] parts [OF assms(3)] obtain r t where r: "p = ?top @ r" "q = ?top @ t"
    "\<forall>name \<in> set r. name \<noteq> [] \<and> name \<noteq> ''.'' \<and> CHR ''/'' \<notin> set name"
    "\<forall>name \<in> set t. name \<noteq> [] \<and> name \<noteq> ''.'' \<and> CHR ''/'' \<notin> set name" by blast
  have dot: "join_on (CHR ''/'') x \<noteq> ''.''" if "x \<noteq> []" "\<forall>name \<in> set x. name \<noteq> ''.'' \<and> CHR ''/'' \<notin> set name" for x
  proof
    assume "join_on (CHR ''/'') x = ''.''"
    with that split_join_on [of x "CHR ''/''"] have "x = split_on (CHR ''/'') ''.''" by auto
    with that show False by (simp add: split_on_no_sep)
  qed
  have eq: "(if r = [] then ''.'' else join_on (CHR ''/'') r) = (if t = [] then ''.'' else join_on (CHR ''/'') t)"
    using assms(4) by (simp add: relative_to_def Let_def r(1, 2))
  have "r = t"
  proof (cases "r = [] \<or> t = []")
    case True
    with eq dot r(3, 4) show ?thesis by (metis (full_types))
  next
    case False
    with eq have "join_on (CHR ''/'') r = join_on (CHR ''/'') t" by simp
    with False r(3, 4) show ?thesis by (intro join_on_inject) auto
  qed
  with r show ?thesis by simp
qed

section \<open>The scan\<close>

lemma distinct_entries:
  assumes ok: "names_ok env" and ids: "distinct (map sc_scope_id scopes)"
    and entries: "list_all2 (\<lambda>(scope, p) e. entry_for env snapshot_id scope p e) locs new"
    and locs: "\<forall>(scope, p) \<in> set locs. scope \<in> set scopes \<and> in_scope env (scope_context env config snapshot_id budget scope) p"
      "distinct locs"
  shows "distinct (map (\<lambda>e. (e_scope_id e, e_relative_path e)) new)"
proof -
  let ?key = "\<lambda>(scope, p). (sc_scope_id scope, relative_to p (sc_normalized_path scope))"
  have keys: "map (\<lambda>e. (e_scope_id e, e_relative_path e)) new = map ?key locs"
    using entries
  proof (induction rule: list_all2_induct)
    case (Cons loc locs e new)
    then show ?case by (auto simp: entry_for_def)
  qed simp
  have "inj_on ?key (set locs)"
  proof (rule inj_onI)
    fix x y
    assume xy: "x \<in> set locs" "y \<in> set locs" "?key x = ?key y"
    obtain scope p where x: "x = (scope, p)" by force
    obtain scope' q where y: "y = (scope', q)" by force
    have mem: "scope \<in> set scopes" "scope' \<in> set scopes" "sc_scope_id scope = sc_scope_id scope'"
      using xy x y locs(1) by auto
    then have scope: "scope = scope'" using ids by (auto simp: distinct_map inj_on_def)
    let ?cx = "scope_context env config snapshot_id budget scope"
    have "in_scope env ?cx p" "in_scope env ?cx q"
      "relative_to p (sc_normalized_path (cx_scope ?cx)) = relative_to q (sc_normalized_path (cx_scope ?cx))"
      using xy x y locs(1) scope by auto
    from relative_to_inject [OF ok this] show "x = y" using x y scope by simp
  qed
  then show ?thesis unfolding keys using locs(2) by (simp add: distinct_map)
qed

lemma scan_parts:
  assumes "scan env config snapshot_id scopes budget = Inr (entries, partial)"
  obtains s where "scan_scopes env config snapshot_id budget scopes
      \<lparr>ss_entries = [], ss_partial = False, ss_bytes = 0, ss_reads = 1\<rparr> = Inr s"
    "entries = sort_key (\<lambda>e. (e_scope_id e, e_relative_path e)) (ss_entries s)" "partial = ss_partial s"
  using assms by (auto simp: scan_def bind_result_Inr_iff)

lemma scan_entry_origin:
  assumes "scan env config snapshot_id scopes budget = Inr (entries, partial)" "e \<in> set entries"
  shows "\<exists>scope \<in> set scopes. \<exists>p. in_scope env (scope_context env config snapshot_id budget scope) p
    \<and> entry_for env snapshot_id scope p e"
proof -
  from assms(1) obtain s where s: "scan_scopes env config snapshot_id budget scopes
      \<lparr>ss_entries = [], ss_partial = False, ss_bytes = 0, ss_reads = 1\<rparr> = Inr s"
    "entries = sort_key (\<lambda>e. (e_scope_id e, e_relative_path e)) (ss_entries s)"
    by (rule scan_parts)
  from scan_scopes_sound [OF s(1)] obtain locs where locs:
    "list_all2 (\<lambda>(scope, p) e. entry_for env snapshot_id scope p e) locs (ss_entries s)"
    "\<forall>(scope, p) \<in> set locs. scope \<in> set scopes \<and> in_scope env (scope_context env config snapshot_id budget scope) p"
    by auto
  have "e \<in> set (ss_entries s)" using assms(2) s(2) by simp
  from list_all2_member [OF locs(1) this] obtain loc where
    "loc \<in> set locs" "(case loc of (scope, p) \<Rightarrow> entry_for env snapshot_id scope p) e" .
  with locs(2) show ?thesis by (cases loc) fastforce
qed

lemma scan_entries_ordered:
  assumes "scan env config snapshot_id scopes budget = Inr (entries, partial)"
  shows "sorted (map (\<lambda>e. (e_scope_id e, e_relative_path e)) entries)"
    and "names_ok env \<Longrightarrow> distinct (map sc_scope_id scopes) \<Longrightarrow>
      distinct (map (\<lambda>e. (e_scope_id e, e_relative_path e)) entries)"
proof -
  from assms obtain s where s: "scan_scopes env config snapshot_id budget scopes
      \<lparr>ss_entries = [], ss_partial = False, ss_bytes = 0, ss_reads = 1\<rparr> = Inr s"
    "entries = sort_key (\<lambda>e. (e_scope_id e, e_relative_path e)) (ss_entries s)"
    by (rule scan_parts)
  show "sorted (map (\<lambda>e. (e_scope_id e, e_relative_path e)) entries)"
    unfolding s(2) by (rule sorted_sort_key)
  assume ok: "names_ok env" and ids: "distinct (map sc_scope_id scopes)"
  then have "distinct scopes" by (simp add: distinct_map)
  with scan_scopes_sound [OF s(1)] ok obtain locs where locs:
    "list_all2 (\<lambda>(scope, p) e. entry_for env snapshot_id scope p e) locs (ss_entries s)"
    "\<forall>(scope, p) \<in> set locs. scope \<in> set scopes \<and> in_scope env (scope_context env config snapshot_id budget scope) p"
    "distinct locs"
    by auto
  from distinct_entries [OF ok ids locs] show "distinct (map (\<lambda>e. (e_scope_id e, e_relative_path e)) entries)"
    unfolding s(2) by (auto simp: distinct_map)
qed



lemma seen_through:
  "seen env cx dir depth p \<Longrightarrow> strict_prefix dir q \<Longrightarrow> strict_prefix q p \<Longrightarrow> entered env cx q"
proof (induction rule: seen.induct)
  case (child depth dir names name)
  then show ?case by (auto simp: strict_prefix_def prefix_snoc)
next
  case (deeper depth dir names name p)
  have "prefix (dir @ [name]) p" using seen_below [OF deeper.hyps(5)] by (simp add: strict_prefix_def)
  moreover have "prefix q p" using deeper.prems(2) by (simp add: strict_prefix_def)
  ultimately consider "prefix q (dir @ [name])" | "strict_prefix (dir @ [name]) q"
    by (metis prefix_same_cases strict_prefix_def)
  then show ?case
  proof cases
    case 1
    with deeper.prems(1) have "q = dir @ [name]" by (auto simp: strict_prefix_def prefix_snoc)
    with deeper.hyps(4) show ?thesis by simp
  next
    case 2
    with deeper.IH deeper.prems(2) show ?thesis by blast
  qed
qed



end
