(* ===== verification/Filesystem_Scan_Budget.thy ===== *)
theory Filesystem_Scan_Budget
  imports Filesystem_Scan_Properties
begin

text \<open>The budget of a scan: how many entries and how many bytes of regular files it may record.\<close>

definition spent :: "filesystem_entry list \<Rightarrow> int" where
  "spent entries =
     sum_list (map (\<lambda>e. or_zero (e_size_bytes e))
       (filter (\<lambda>e. e_object_type e = REGULAR_FILE \<and> \<not> e_excluded e) entries))"

lemma spent_append [simp]: "spent (xs @ ys) = spent xs + spent ys"
  by (simp add: spent_def)

lemma spent_Nil [simp]: "spent [] = 0"
  by (simp add: spent_def)

lemma kind_regular [simp]:
  "kind_of_mode mode = REGULAR_FILE \<longleftrightarrow> is_reg mode" "REGULAR_FILE = kind_of_mode mode \<longleftrightarrow> is_reg mode"
  by (auto simp: kind_of_mode_def)

lemma spent_entry:
  "observed_entry env snapshot_id scope_id relative p info skip = Inr e \<Longrightarrow>
   spent [e] = (if is_reg (st_mode info) \<and> \<not> skip then st_size info else 0)"
  "failed_entry env snapshot_id scope_id relative status err = Inr e \<Longrightarrow> spent [e] = 0"
  by (auto dest!: entry_names simp: spent_def)

text \<open>A state within the budget, with room for one root per Scope.\<close>

definition affordable :: "scan_budget \<Rightarrow> nat \<Rightarrow> scan_state \<Rightarrow> bool" where
  "affordable budget n s \<longleftrightarrow>
     int (length (ss_entries s)) \<le> b_max_entries budget + int n
     \<and> ss_bytes s = spent (ss_entries s) \<and> (\<not> ss_partial s \<longrightarrow> \<not> over_bytes budget (ss_bytes s))"

lemma scan_child_affordable:
  assumes "scan_child env cx dir depth name s = Inr step" "affordable (cx_budget cx) n s"
  shows "case step of Break s' \<Rightarrow> affordable (cx_budget cx) n s' | Continue s' _ \<Rightarrow> affordable (cx_budget cx) n s'"
proof (cases "b_max_entries (cx_budget cx) \<le> int (length (ss_entries s))
    \<or> b_max_duration_seconds (cx_budget cx) \<le> se_clock env (ss_reads s) - se_clock env 0")
  case True
  then have "step = Break (s\<lparr>ss_partial := True\<rparr>)
      \<or> step = Break (s\<lparr>ss_reads := Suc (ss_reads s), ss_partial := True\<rparr>)"
    using assms(1) unfolding scan_child_def
    by (cases "b_max_entries (cx_budget cx) \<le> int (length (ss_entries s))") simp_all
  with assms(2) show ?thesis by (auto simp: affordable_def)
next
  case False
  note run = assms(1) [unfolded scan_child_def Let_def]
  show ?thesis
  proof (cases "se_lstat env (dir @ [name])")
    case (Inl err)
    with run False obtain e where "failed_entry env (cx_snapshot_id cx) (sc_scope_id (cx_scope cx))
        (path_of_entry cx (dir @ [name])) (child_failure err) err = Inr e"
      "step = Continue (s\<lparr>ss_reads := Suc (ss_reads s), ss_entries := ss_entries s @ [e], ss_partial := True\<rparr>) []"
      by (auto simp: bind_result_Inr_iff)
    with spent_entry(2) False assms(2) show ?thesis by (simp add: affordable_def)
  next
    case (Inr info)
    with run False obtain e where e: "observed_entry env (cx_snapshot_id cx) (sc_scope_id (cx_scope cx))
        (path_of_entry cx (dir @ [name])) (dir @ [name]) info (skipped (cx_config cx) (dir @ [name])) = Inr e"
      by (auto simp: bind_result_Inr_iff)
    have room: "int (length (ss_entries s @ [e])) \<le> b_max_entries (cx_budget cx) + int n" using False by auto
    show ?thesis
      using run False Inr e spent_entry(1) [OF e] room assms(2)
      by (auto simp: affordable_def split: if_splits)
  qed
qed

lemma scan_children_affordable:
  "scan_children env cx dir depth names s stack = Inr (s', stack') \<Longrightarrow> affordable (cx_budget cx) n s \<Longrightarrow>
   affordable (cx_budget cx) n s'"
proof (induction names arbitrary: s stack)
  case (Cons name rest)
  from Cons.prems(1) obtain step where step: "scan_child env cx dir depth name s = Inr step"
    "(case step of Break s' \<Rightarrow> Inr (s', stack)
      | Continue s' pushed \<Rightarrow> scan_children env cx dir depth rest s' (pushed @ stack)) = Inr (s', stack')"
    by (auto simp: bind_result_Inr_iff)
  from scan_child_affordable [OF step(1) Cons.prems(2)] step(2) Cons.IH show ?case
    by (cases step) auto
qed simp

lemma scan_stack_affordable:
  "scan_stack env cx s stack = Inr s' \<Longrightarrow> affordable (cx_budget cx) n s \<Longrightarrow> affordable (cx_budget cx) n s'"
proof (induction env cx s stack rule: scan_stack.induct)
  case (1 env cx s stack)
  show ?case
  proof (cases "ss_partial s \<or> stack = []")
    case True
    from "1.prems"(1) [unfolded scan_stack_done [OF this]] "1.prems"(2) show ?thesis by simp
  next
    case False
    then obtain dir depth rest where stack: "stack = (dir, depth) # rest" by (cases stack) auto
    have running: "\<not> ss_partial s" using False by simp
    note run = "1.prems"(1) [unfolded stack scan_stack_pop [OF running]]
    note IH = "1.IH" [OF running stack refl]
    show ?thesis
    proof (cases "at_max_depth (cx_budget cx) depth")
      case True
      with run IH(1) [OF True _ "1.prems"(2)] show ?thesis by simp
    next
      case shallow: False
      show ?thesis
      proof (cases "se_scandir env dir")
        case None
        with run shallow "1.prems"(2) show ?thesis by (auto simp: affordable_def)
      next
        case (Some names)
        with run shallow obtain s1 stack1 where children: "scan_children env cx dir depth names s rest = Inr (s1, stack1)"
          and later: "scan_stack env cx s1 stack1 = Inr s'"
          by (auto simp: bind_result_Inr_iff)
        from scan_children_affordable [OF children "1.prems"(2)] have "affordable (cx_budget cx) n s1" .
        from IH(3) [OF shallow Some children refl later this] show ?thesis .
      qed
    qed
  qed
qed

text \<open>A path that answers as a directory is no regular file.\<close>

definition directories_ok :: "scan_env \<Rightarrow> bool" where
  "directories_ok env \<longleftrightarrow>
     (\<forall>p info. se_is_dir env p \<longrightarrow> se_lstat env p = Inr info \<longrightarrow> \<not> is_reg (st_mode info))"

lemma scan_scope_affordable:
  assumes "scan_scope env config snapshot_id budget scope s = Inr s'" "affordable budget n s" "directories_ok env"
  shows "affordable budget (Suc n) s'"
proof (cases "se_is_dir env (sc_normalized_path scope)")
  case False
  with assms(1, 2) show ?thesis by (auto simp: scan_scope_def affordable_def)
next
  case dir: True
  note run = assms(1) [unfolded scan_scope_def Let_def]
  show ?thesis
  proof (cases "se_lstat env (sc_normalized_path scope)")
    case (Inl err)
    with run dir spent_entry(2) assms(2) show ?thesis
      by (fastforce simp: affordable_def bind_result_Inr_iff)
  next
    case (Inr info)
    let ?cx = "\<lparr>cx_config = config, cx_snapshot_id = snapshot_id, cx_budget = budget, cx_scope = scope,
        cx_root_dev = st_dev info\<rparr>"
    from run dir Inr obtain e where
      e: "observed_entry env snapshot_id (sc_scope_id scope) ''.'' (sc_normalized_path scope) info False = Inr e"
      and stack: "scan_stack env ?cx (s\<lparr>ss_entries := ss_entries s @ [e]\<rparr>) [(sc_normalized_path scope, 0)] = Inr s'"
      by (auto simp: bind_result_Inr_iff)
    have "\<not> is_reg (st_mode info)" using assms(3) dir Inr by (auto simp: directories_ok_def)
    with spent_entry(1) [OF e] have "spent [e] = 0" by simp
    with assms(2) have "affordable (cx_budget ?cx) (Suc n) (s\<lparr>ss_entries := ss_entries s @ [e]\<rparr>)"
      by (auto simp: affordable_def)
    from scan_stack_affordable [OF stack this] show ?thesis by simp
  qed
qed

lemma scan_scopes_affordable:
  "scan_scopes env config snapshot_id budget scopes s = Inr s' \<Longrightarrow> affordable budget n s \<Longrightarrow> directories_ok env \<Longrightarrow>
   affordable budget (n + length scopes) s'"
proof (induction scopes arbitrary: s n)
  case (Cons scope rest)
  then obtain s1 where "scan_scope env config snapshot_id budget scope s = Inr s1"
    "scan_scopes env config snapshot_id budget rest s1 = Inr s'" by (auto simp: bind_result_Inr_iff)
  with Cons.IH [of s1 "Suc n"] scan_scope_affordable Cons.prems(2, 3) show ?case by fastforce
qed simp

text \<open>C31: A scan keeps to a valid budget: besides the roots it records at most max_entries entries, and
  when it is not partial the regular files it counts have at most max_total_stat_bytes bytes.\<close>

theorem scan_within_budget:
  assumes "make_budget max_entries max_size max_duration max_depth = Inr budget" "directories_ok env"
    and "scan env config snapshot_id scopes budget = Inr (entries, partial)"
  shows "int (length entries) \<le> b_max_entries budget + int (length scopes)
    \<and> (\<not> partial \<longrightarrow> \<not> over_bytes budget (spent entries))"
proof -
  have budget: "1 \<le> b_max_entries budget" "\<not> over_bytes budget 0"
    using assms(1) by (auto simp: make_budget_def Let_def over_bytes_def split: if_splits option.splits)
  let ?s = "\<lparr>ss_entries = [], ss_partial = False, ss_bytes = 0, ss_reads = 1\<rparr>"
  from assms(3) obtain s where s: "scan_scopes env config snapshot_id budget scopes ?s = Inr s"
    "entries = sort_key (\<lambda>e. (e_scope_id e, e_relative_path e)) (ss_entries s)" "partial = ss_partial s"
    by (auto simp: scan_def bind_result_Inr_iff)
  have "affordable budget 0 ?s" using budget by (simp add: affordable_def)
  from scan_scopes_affordable [OF s(1) this assms(2)] have "affordable budget (length scopes) s" by simp
  moreover have "spent entries = spent (ss_entries s)"
    unfolding s(2) spent_def filter_sort by simp
  ultimately show ?thesis by (auto simp: affordable_def s(2, 3))
qed

theorem scan_within_budget_witness:
  "\<exists>entries. example_scan = Inr (entries, False)
    \<and> int (length entries) \<le> b_max_entries example_budget + 1 \<and> \<not> over_bytes example_budget (spent entries)"
proof -
  have budget: "make_budget (Some 10) (Some 100) None None = Inr example_budget"
    by (simp add: make_budget_def example_budget_def)
  have "directories_ok example_fs"
    by (simp add: directories_ok_def example_fs_def example_dir_def is_reg_def file_type_bits_def)
  from example_entries scan_within_budget [OF budget this] show ?thesis
    unfolding example_scan_def by (metis One_nat_def length_Cons list.size(3) of_nat_1)
qed

section \<open>When a scan raises\<close>

definition undecodable :: "scan_context \<Rightarrow> abs_path \<Rightarrow> bool" where
  "undecodable cx p \<longleftrightarrow>
     \<not> utf8_valid (cx_snapshot_id cx @ CHR 0x00 # sc_scope_id (cx_scope cx) @ CHR 0x00 # path_of_entry cx p)"

lemma entry_error:
  "observed_entry env (cx_snapshot_id cx) (sc_scope_id (cx_scope cx)) (path_of_entry cx p) q info skip = Inl x \<Longrightarrow>
   x = PyValueError \<and> undecodable cx p"
  "failed_entry env (cx_snapshot_id cx) (sc_scope_id (cx_scope cx)) (path_of_entry cx p) status err = Inl x \<Longrightarrow>
   x = PyValueError \<and> undecodable cx p"
  by (auto simp: observed_entry_def failed_entry_def bind_result_Inl_iff scan_entry_id_def undecodable_def Let_def
      split: if_splits prod.splits)

lemma scan_child_error:
  assumes "scan_child env cx dir depth name s = Inl x"
  shows "x = PyValueError \<and> undecodable cx (dir @ [name])"
proof (cases "se_lstat env (dir @ [name])")
  case (Inl err)
  with assms entry_error(2) show ?thesis
    by (fastforce simp: scan_child_def Let_def bind_result_Inl_iff split: if_splits)
next
  case (Inr info)
  with assms entry_error(1) show ?thesis
    by (fastforce simp: scan_child_def Let_def bind_result_Inl_iff split: if_splits)
qed

lemma scan_children_error:
  "scan_children env cx dir depth names s stack = Inl x \<Longrightarrow>
   x = PyValueError \<and> (\<exists>name \<in> set names. undecodable cx (dir @ [name]))"
proof (induction names arbitrary: s stack)
  case (Cons name rest)
  show ?case
  proof (cases "scan_child env cx dir depth name s")
    case (Inl y)
    with Cons.prems scan_child_error [OF Inl] show ?thesis by auto
  next
    case (Inr step)
    with Cons show ?thesis by (cases step) auto
  qed
qed simp

lemma scan_stack_error:
  "scan_stack env cx s stack = Inl x \<Longrightarrow>
   x = PyValueError \<and> (\<exists>(d, k) \<in> set stack. \<exists>p. seen env cx d k p \<and> undecodable cx p)"
proof (induction env cx s stack rule: scan_stack.induct)
  case (1 env cx s stack)
  show ?case
  proof (cases "ss_partial s \<or> stack = []")
    case True
    from "1.prems" [unfolded scan_stack_done [OF this]] show ?thesis by simp
  next
    case False
    then obtain dir depth rest where stack: "stack = (dir, depth) # rest" by (cases stack) auto
    have running: "\<not> ss_partial s" using False by simp
    note run = "1.prems" [unfolded stack scan_stack_pop [OF running]]
    note IH = "1.IH" [OF running stack refl]
    show ?thesis
    proof (cases "at_max_depth (cx_budget cx) depth")
      case True
      with run IH(1) [OF True] show ?thesis by (auto simp: stack)
    next
      case shallow: False
      show ?thesis
      proof (cases "se_scandir env dir")
        case None
        with run shallow show ?thesis by simp
      next
        case (Some names)
        show ?thesis
        proof (cases "scan_children env cx dir depth names s rest")
          case (Inl y)
          with run shallow Some have "y = x" by simp
          with scan_children_error [OF Inl] seen.child [OF shallow Some] show ?thesis by (fastforce simp: stack)
        next
          case (Inr r)
          obtain s1 stack1 where children: "scan_children env cx dir depth names s rest = Inr (s1, stack1)"
            using Inr by (cases r) simp
          with run shallow Some have "scan_stack env cx s1 stack1 = Inl x" by simp
          from IH(3) [OF shallow Some children refl this] obtain d k p where later: "x = PyValueError"
            "(d, k) \<in> set stack1" "seen env cx d k p" "undecodable cx p" by blast
          from scan_children_cases [OF children] obtain m where
            "stack1 = rev (pushes env cx dir depth (take m names)) @ rest" by blast
          with later(2) consider "(d, k) \<in> set (pushes env cx dir depth (take m names))" | "(d, k) \<in> set rest" by auto
          then have "\<exists>(d, k) \<in> set stack. seen env cx d k p"
          proof cases
            case 1
            from seen_pushes [OF 1 later(3) shallow Some set_take_subset] show ?thesis by (auto simp: stack)
          next
            case 2
            with later(3) show ?thesis by (auto simp: stack)
          qed
          with later(1, 4) show ?thesis by blast
        qed
      qed
    qed
  qed
qed

lemma scan_scope_error:
  assumes "scan_scope env config snapshot_id budget scope s = Inl x"
  defines "cx \<equiv> scope_context env config snapshot_id budget scope"
  shows "x = PyValueError \<and> (\<exists>p. in_scope env cx p \<and> undecodable cx p)"
proof -
  let ?top = "sc_normalized_path scope"
  note run = assms(1) [unfolded scan_scope_def Let_def]
  have dir: "se_is_dir env ?top" using run by (auto split: if_splits)
  have top: "path_of_entry cx ?top = ''.''" "in_scope env cx ?top" by (simp_all add: cx_def in_scope_def)
  note names = entry_error [of _ cx ?top, unfolded top(1)]
  show ?thesis
  proof (cases "se_lstat env ?top")
    case (Inl err)
    with run dir obtain "failed_entry env (cx_snapshot_id cx) (sc_scope_id (cx_scope cx)) ''.''
        (if oe_errno err = 13 then PERMISSION_DENIED else IO_ERROR) err = Inl x"
      by (auto simp: bind_result_Inl_iff cx_def)
    with names(2) top(2) show ?thesis by blast
  next
    case (Inr info)
    have cx: "cx = \<lparr>cx_config = config, cx_snapshot_id = snapshot_id, cx_budget = budget, cx_scope = scope,
        cx_root_dev = st_dev info\<rparr>"
      by (simp add: cx_def scope_context_def Inr)
    from run dir Inr consider "observed_entry env snapshot_id (sc_scope_id scope) ''.'' ?top info False = Inl x"
      | e where "scan_stack env cx (s\<lparr>ss_entries := ss_entries s @ [e]\<rparr>) [(?top, 0)] = Inl x"
      by (auto simp: bind_result_Inl_iff cx)
    then show ?thesis
    proof cases
      case 1
      then have "observed_entry env (cx_snapshot_id cx) (sc_scope_id (cx_scope cx)) ''.'' ?top info False = Inl x"
        by (simp add: cx)
      with names(1) top(2) show ?thesis by blast
    next
      case (2 e)
      from scan_stack_error [OF 2] show ?thesis by (auto simp: in_scope_def cx)
    qed
  qed
qed

lemma scan_scopes_error:
  "scan_scopes env config snapshot_id budget scopes s = Inl x \<Longrightarrow>
   x = PyValueError \<and> (\<exists>scope \<in> set scopes. \<exists>p. in_scope env (scope_context env config snapshot_id budget scope) p
     \<and> undecodable (scope_context env config snapshot_id budget scope) p)"
proof (induction scopes arbitrary: s)
  case (Cons scope rest)
  show ?case
  proof (cases "scan_scope env config snapshot_id budget scope s")
    case (Inl y)
    with Cons.prems have "y = x" by simp
    with scan_scope_error [OF Inl] show ?thesis by auto
  next
    case (Inr s1)
    with Cons.prems have "scan_scopes env config snapshot_id budget rest s1 = Inl x" by simp
    from Cons.IH [OF this] show ?thesis by auto
  qed
qed simp



end
