(* ===== verification/Scope_Policy.thy ===== *)
theory Scope_Policy
  imports Python_Values Steward_Config
begin

text \<open>
  \<open>paths.py\<close> and \<open>scopes.py\<close>: normalisation and containment of paths, and the one
  policy on which Scopes may stand beside each other. Expanding \<open>~\<close> and resolving symbolic
  links are arguments, as they ask the host.
\<close>

section \<open>Paths (paths.py)\<close>

definition contains :: "abs_path \<Rightarrow> abs_path \<Rightarrow> bool" where
  "contains parent child \<longleftrightarrow> take (length parent) child = parent"

definition overlaps :: "abs_path \<Rightarrow> abs_path \<Rightarrow> bool" where
  "overlaps first second \<longleftrightarrow> contains first second \<or> contains second first"

definition system_path_aliases :: "(abs_path \<times> abs_path) list" where
  "system_path_aliases =
     [([''tmp''], [''private'', ''tmp'']), ([''var''], [''private'', ''var'']), ([''etc''], [''private'', ''etc''])]"

definition canonicalize_host_absolute_path :: "string \<Rightarrow> abs_path \<Rightarrow> abs_path" where
  "canonicalize_host_absolute_path platform_name candidate =
     (if platform_name \<noteq> ''darwin'' then candidate
      else
        (case filter (\<lambda>(alias, _). contains alias candidate) system_path_aliases of
           [] \<Rightarrow> candidate
         | (alias, target) # _ \<Rightarrow> target @ drop (length alias) candidate))"

text \<open>
  The search for \<open>${...}\<close>, \<open>$NAME\<close> and \<open>%...%\<close>: at some position one of the three
  patterns matches.
\<close>

definition name_start :: "char \<Rightarrow> bool" where
  "name_start c \<longleftrightarrow> is_lower c \<or> 65 \<le> (of_char c :: nat) \<and> of_char c \<le> (90 :: nat) \<or> c = CHR ''_''"

text \<open>One or more characters that are not the closing one, and then that one.\<close>

definition closed_by :: "char \<Rightarrow> string \<Rightarrow> bool" where
  "closed_by c s \<longleftrightarrow> (case s of [] \<Rightarrow> False | d # r \<Rightarrow> d \<noteq> c \<and> c \<in> set r)"

definition variable_at :: "string \<Rightarrow> bool" where
  "variable_at s \<longleftrightarrow>
     (case s of
        [] \<Rightarrow> False
      | c # r \<Rightarrow>
          c = CHR ''$'' \<and>
            (case r of
               [] \<Rightarrow> False
             | d # t \<Rightarrow> d = CHR ''{'' \<and> closed_by (CHR ''}'') t \<or> name_start d)
          \<or> c = CHR 0x25 \<and> closed_by (CHR 0x25) r)"

fun has_variable :: "string \<Rightarrow> bool" where
  "has_variable [] = False"
| "has_variable (c # s) = (variable_at (c # s) \<or> has_variable s)"

text \<open>
  \<open>pe_expand\<close> is \<open>Path(raw).expanduser()\<close>: whether the path is absolute, and its parts;
  \<open>pe_resolve\<close> is \<open>resolve(strict=False)\<close>.
\<close>

record path_env =
  pe_expand :: "string \<Rightarrow> (bool \<times> string list) result"
  pe_resolve :: "abs_path \<Rightarrow> abs_path"

definition normalize_path :: "path_env \<Rightarrow> string \<Rightarrow> abs_path option \<Rightarrow> abs_path result" where
  "normalize_path env raw_path base_dir =
     (if raw_path = [] \<or> CHR 0x00 \<in> set raw_path
      then raise ConfigurationSchemaError ''path must be a non-empty string without NUL''
      else if has_variable raw_path
      then raise ConfigurationSchemaError ''paths may not contain unresolved environment variables''
      else
        bind_result (pe_expand env raw_path) (\<lambda>(absolute, parts).
          if absolute then Inr (pe_resolve env parts)
          else
            (case base_dir of
               None \<Rightarrow> raise ConfigurationSchemaError ''relative path requires a project root''
             | Some base \<Rightarrow> Inr (pe_resolve env (base @ parts)))))"

section \<open>Scopes (scopes.py, constants.py)\<close>

definition system_protected_paths :: "abs_path list" where
  "system_protected_paths =
     [[], [''System''], [''Library''], [''Applications''], [''bin''], [''sbin''], [''usr''], [''private''],
      [''Volumes'']]"

definition actionable :: "scope_config \<Rightarrow> bool" where
  "actionable s \<longleftrightarrow> sc_role s = MANAGED_ROOT \<or> sc_role s = REFERENCE_ROOT"

definition scope_error :: "string \<Rightarrow> 'a result" where
  "scope_error message = raise ScopeValidationError message"

text \<open>The root itself is protected, but it does not make every path below it protected.\<close>

definition protected_overlap :: "abs_path \<Rightarrow> abs_path \<Rightarrow> bool" where
  "protected_overlap path protected \<longleftrightarrow>
     (if protected = [] then path = protected else overlaps path protected)"

definition check_boundaries :: "abs_path list \<Rightarrow> scope_config \<Rightarrow> unit result" where
  "check_boundaries internal_paths scope =
     (if \<not> actionable scope then Inr ()
      else
        (case filter (protected_overlap (sc_normalized_path scope)) system_protected_paths of
           p # _ \<Rightarrow> scope_error (''scope '' @ sc_scope_id scope @ '' overlaps system_protected: '' @ path_str p)
         | [] \<Rightarrow>
             (case filter (overlaps (sc_normalized_path scope)) internal_paths of
                p # _ \<Rightarrow> scope_error (''scope '' @ sc_scope_id scope
                  @ '' overlaps project internal path: '' @ path_str p)
              | [] \<Rightarrow> Inr ())))"

fun check_each ::
  "abs_path list \<Rightarrow> string list \<Rightarrow> abs_path list \<Rightarrow> scope_config list \<Rightarrow> unit result" where
  "check_each internal_paths seen_ids seen_paths [] = Inr ()"
| "check_each internal_paths seen_ids seen_paths (scope # rest) =
     (if sc_scope_id scope \<in> set seen_ids
      then scope_error (''duplicate scope_id: '' @ sc_scope_id scope)
      else if sc_normalized_path scope \<in> set seen_paths
      then scope_error (''duplicate normalized scope path: '' @ path_str (sc_normalized_path scope))
      else
        bind_result (check_boundaries internal_paths scope) (\<lambda>_.
          check_each internal_paths (sc_scope_id scope # seen_ids) (sc_normalized_path scope # seen_paths) rest))"

definition redundant_warning :: "scope_config \<Rightarrow> scope_config \<Rightarrow> string" where
  "redundant_warning inner outer =
     ''redundant excluded scope: '' @ sc_scope_id inner @ '' is inside '' @ sc_scope_id outer"

definition excludes :: "scope_config \<Rightarrow> scope_config \<Rightarrow> bool" where
  "excludes outer inner \<longleftrightarrow>
     sc_role outer = EXCLUDED_ROOT \<and> actionable inner
     \<and> contains (sc_normalized_path outer) (sc_normalized_path inner)"

definition check_pair :: "scope_config \<Rightarrow> scope_config \<Rightarrow> string list result" where
  "check_pair left right =
     (if actionable left \<and> actionable right \<and> overlaps (sc_normalized_path left) (sc_normalized_path right)
      then scope_error (''actionable scopes overlap: '' @ sc_scope_id left @ '', '' @ sc_scope_id right)
      else if excludes left right
      then scope_error (''excluded scope '' @ sc_scope_id left @ '' contains actionable scope '' @ sc_scope_id right)
      else if excludes right left
      then scope_error (''excluded scope '' @ sc_scope_id right @ '' contains actionable scope '' @ sc_scope_id left)
      else
        let excluded = sc_role left = EXCLUDED_ROOT \<and> sc_role right = EXCLUDED_ROOT in
        Inr ((if excluded \<and> contains (sc_normalized_path left) (sc_normalized_path right)
              then [redundant_warning right left] else [])
          @ (if excluded \<and> contains (sc_normalized_path right) (sc_normalized_path left)
             then [redundant_warning left right] else [])))"

fun check_pairs :: "scope_config list \<Rightarrow> string list result" where
  "check_pairs [] = Inr []"
| "check_pairs (left # rest) =
     bind_result (map_result (check_pair left) rest) (\<lambda>own.
     bind_result (check_pairs rest) (\<lambda>later. Inr (concat own @ later)))"

definition validate_scopes :: "scope_config list \<Rightarrow> abs_path list \<Rightarrow> string list result" where
  "validate_scopes scopes internal_paths =
     bind_result (check_each internal_paths [] [] scopes) (\<lambda>_. check_pairs scopes)"

section \<open>What the policy promises\<close>

text \<open>Acceptable on its own, and beside another Scope.\<close>

definition clear_of_boundaries :: "abs_path list \<Rightarrow> scope_config \<Rightarrow> bool" where
  "clear_of_boundaries internal_paths s \<longleftrightarrow>
     sc_normalized_path s \<noteq> []
     \<and> (\<forall>p \<in> set system_protected_paths. p \<noteq> [] \<longrightarrow> \<not> overlaps (sc_normalized_path s) p)
     \<and> (\<forall>p \<in> set internal_paths. \<not> overlaps (sc_normalized_path s) p)"

definition compatible :: "scope_config \<Rightarrow> scope_config \<Rightarrow> bool" where
  "compatible s t \<longleftrightarrow>
     \<not> (actionable s \<and> actionable t \<and> overlaps (sc_normalized_path s) (sc_normalized_path t))
     \<and> \<not> excludes s t \<and> \<not> excludes t s"

lemma contains_iff: "contains p q \<longleftrightarrow> (\<exists>r. q = p @ r)"
  by (metis append_eq_conv_conj append_take_drop_id contains_def)

lemma overlaps_sym: "overlaps p q \<longleftrightarrow> overlaps q p"
  by (auto simp: overlaps_def)

lemma compatible_sym: "compatible s t \<longleftrightarrow> compatible t s"
  by (auto simp: compatible_def overlaps_sym)

lemma check_boundaries_iff:
  "check_boundaries internal_paths s = Inr () \<longleftrightarrow> (actionable s \<longrightarrow> clear_of_boundaries internal_paths s)"
proof -
  have "filter (protected_overlap p) system_protected_paths = [] \<longleftrightarrow>
      p \<noteq> [] \<and> (\<forall>q \<in> set system_protected_paths. q \<noteq> [] \<longrightarrow> \<not> overlaps p q)" for p
    by (auto simp: filter_empty_conv protected_overlap_def system_protected_paths_def)
  moreover have "check_boundaries internal_paths s = Inr () \<longleftrightarrow> (actionable s \<longrightarrow>
      filter (protected_overlap (sc_normalized_path s)) system_protected_paths = []
      \<and> filter (overlaps (sc_normalized_path s)) internal_paths = [])"
    by (auto simp: check_boundaries_def scope_error_def split: list.splits)
  ultimately show ?thesis by (simp add: clear_of_boundaries_def filter_empty_conv [of "overlaps _"] conj_ac)
qed

lemma check_each_iff:
  "check_each internal_paths ids paths scopes = Inr () \<longleftrightarrow>
   distinct (map sc_scope_id scopes) \<and> set (map sc_scope_id scopes) \<inter> set ids = {}
   \<and> distinct (map sc_normalized_path scopes) \<and> set (map sc_normalized_path scopes) \<inter> set paths = {}
   \<and> (\<forall>s \<in> set scopes. actionable s \<longrightarrow> clear_of_boundaries internal_paths s)"
proof (induction scopes arbitrary: ids paths)
  case (Cons s scopes)
  show ?case
    by (auto simp: scope_error_def bind_result_Inr_iff check_boundaries_iff Cons.IH)
qed simp

lemma check_pair_iff: "(\<exists>w. check_pair s t = Inr w) \<longleftrightarrow> compatible s t"
  by (auto simp: check_pair_def compatible_def scope_error_def Let_def)

lemma map_result_ex: "(\<exists>ys. map_result f xs = Inr ys) \<longleftrightarrow> (\<forall>x \<in> set xs. \<exists>y. f x = Inr y)"
  by (induction xs) (auto simp: bind_result_Inr_iff)

lemma check_pairs_iff: "(\<exists>w. check_pairs scopes = Inr w) \<longleftrightarrow> sorted_wrt compatible scopes"
proof (induction scopes)
  case (Cons s scopes)
  have "(\<exists>w. check_pairs (s # scopes) = Inr w) \<longleftrightarrow>
      (\<exists>ys. map_result (check_pair s) scopes = Inr ys) \<and> (\<exists>w. check_pairs scopes = Inr w)"
    by (auto simp: bind_result_Inr_iff)
  then show ?case by (simp add: map_result_ex check_pair_iff Cons.IH)
qed simp

lemma validate_scopes_iff:
  "(\<exists>w. validate_scopes scopes internal_paths = Inr w) \<longleftrightarrow>
   distinct (map sc_scope_id scopes) \<and> distinct (map sc_normalized_path scopes)
   \<and> (\<forall>s \<in> set scopes. actionable s \<longrightarrow> clear_of_boundaries internal_paths s)
   \<and> sorted_wrt compatible scopes"
proof -
  have "(\<exists>w. validate_scopes scopes internal_paths = Inr w) \<longleftrightarrow>
      check_each internal_paths [] [] scopes = Inr () \<and> (\<exists>w. check_pairs scopes = Inr w)"
    by (auto simp: validate_scopes_def bind_result_Inr_iff)
  then show ?thesis by (simp add: check_each_iff check_pairs_iff)
qed

lemma sorted_wrt_pair:
  assumes "sorted_wrt R xs" "x \<in> set xs" "y \<in> set xs" "x \<noteq> y" "\<And>x y. R x y \<longleftrightarrow> R y x"
  shows "R x y"
  using assms(1-4) by (induction xs) (use assms(5) in auto)

end
