(* ===== verification/Configuration.thy ===== *)
theory Configuration
  imports Scope_Policy Filesystem_Scan
begin

text \<open>
  \<open>config.py\<close>: the loader of the one TOML file. What \<open>tomllib\<close> makes of the file is an
  argument: a table is a \<open>JObj\<close>, an array a \<open>JArr\<close>, and a date or time, which no field
  accepts, stands as \<open>JNull\<close>.
\<close>

record config_env = path_env +
  ce_cwd :: abs_path
  ce_environment :: "string option"
  ce_default_path :: abs_path
  ce_program_root :: abs_path
  ce_is_file :: "abs_path \<Rightarrow> bool"
  ce_toml :: "abs_path \<Rightarrow> json option result"

definition schema_error :: "string \<Rightarrow> 'a result" where
  "schema_error message = raise ConfigurationSchemaError message"

section \<open>Finding the file\<close>

text \<open>\<open>Path(raw).expanduser().resolve(strict=False)\<close>\<close>

definition resolve_raw :: "'a config_env_scheme \<Rightarrow> string \<Rightarrow> abs_path result" where
  "resolve_raw env raw =
     bind_result (pe_expand env raw) (\<lambda>(absolute, parts).
       Inr (pe_resolve env (if absolute then parts else ce_cwd env @ parts)))"

definition discover_config :: "'a config_env_scheme \<Rightarrow> string option \<Rightarrow> abs_path result" where
  "discover_config env explicit =
     (case explicit of
        Some raw \<Rightarrow> resolve_raw env raw
      | None \<Rightarrow>
          (case ce_environment env of
             Some raw \<Rightarrow> if raw = [] then Inr (ce_default_path env) else resolve_raw env raw
           | None \<Rightarrow> Inr (ce_default_path env)))"

definition project_root_for :: "'a config_env_scheme \<Rightarrow> abs_path \<Rightarrow> bool \<Rightarrow> abs_path" where
  "project_root_for env config_path explicit =
     (if explicit then pe_resolve env (butlast (butlast config_path)) else ce_program_root env)"

section \<open>Fields\<close>

definition top_keys :: "string list" where
  "top_keys = [''schema_version'', ''project_name'', ''paths'', ''scopes'']"

definition path_keys :: "string list" where
  "path_keys = [''data_dir'', ''cache_dir'', ''evidence_dir'', ''quarantine_dir'']"

definition scope_keys :: "string list" where
  "scope_keys =
     [''scope_id'', ''role'', ''path'', ''enabled'', ''follow_directory_symlinks'', ''allow_cross_mount'']"

definition expect_keys :: "doc \<Rightarrow> string list \<Rightarrow> string \<Rightarrow> unit result" where
  "expect_keys value allowed label =
     (let unknown = filter (\<lambda>k. k \<notin> set allowed) (map fst value) in
      if unknown \<noteq> []
      then schema_error (''unknown '' @ label @ '' field(s): '' @ comma_join (sorted_set unknown))
      else Inr ())"

definition internal_path :: "'a config_env_scheme \<Rightarrow> abs_path \<Rightarrow> doc \<Rightarrow> string \<Rightarrow> abs_path result" where
  "internal_path env root_dir paths_raw name =
     (case dget name paths_raw of
        JStr raw \<Rightarrow>
          bind_result (normalize_path (path_env.truncate env) raw (Some root_dir)) (\<lambda>value.
            if \<not> contains root_dir value
            then schema_error (''paths.'' @ name @ '' must stay inside project root'')
            else Inr value)
      | _ \<Rightarrow> schema_error (''paths.'' @ name @ '' must be a string''))"

definition load_paths :: "'a config_env_scheme \<Rightarrow> abs_path \<Rightarrow> json \<Rightarrow> path_config result" where
  "load_paths env root_dir value =
     (case value of
        JObj paths_raw \<Rightarrow>
          bind_result (expect_keys paths_raw path_keys ''paths'') (\<lambda>_.
          if set (map fst paths_raw) \<noteq> set path_keys
          then schema_error ''[paths] must contain all internal directory fields''
          else
            bind_result (internal_path env root_dir paths_raw ''data_dir'') (\<lambda>data.
            bind_result (internal_path env root_dir paths_raw ''cache_dir'') (\<lambda>cache.
            bind_result (internal_path env root_dir paths_raw ''evidence_dir'') (\<lambda>evidence.
            bind_result (internal_path env root_dir paths_raw ''quarantine_dir'') (\<lambda>quarantine.
            if \<not> (contains data cache \<and> contains data evidence \<and> contains data quarantine)
            then schema_error ''cache, evidence and quarantine must be inside data_dir''
            else if overlaps cache evidence \<or> overlaps cache quarantine \<or> overlaps evidence quarantine
            then schema_error ''cache, evidence and quarantine must not overlap''
            else Inr \<lparr>data_dir = data, cache_dir = cache, evidence_dir = evidence,
              quarantine_dir = quarantine\<rparr>)))))
      | _ \<Rightarrow> schema_error ''[paths] is required'')"

section \<open>Scopes\<close>

definition scope_id_char :: "char \<Rightarrow> bool" where
  "scope_id_char c \<longleftrightarrow> is_lower c \<or> is_digit c \<or> c = CHR ''_'' \<or> c = CHR ''-''"

definition scope_id_ok :: "string \<Rightarrow> bool" where
  "scope_id_ok s \<longleftrightarrow>
     (case s of [] \<Rightarrow> False | c # r \<Rightarrow> is_lower c \<and> list_all scope_id_char r \<and> length r \<le> 63)"

definition scope_role_of :: "json \<Rightarrow> scope_role option" where
  "scope_role_of v =
     (case v of
        JStr s \<Rightarrow> List.find (\<lambda>r. scope_role_value r = s) [MANAGED_ROOT, REFERENCE_ROOT, EXCLUDED_ROOT]
      | _ \<Rightarrow> None)"

definition load_scope :: "'a config_env_scheme \<Rightarrow> nat \<times> json \<Rightarrow> scope_config result" where
  "load_scope env indexed =
     (case indexed of (index, value) \<Rightarrow>
        let label = ''scopes['' @ nat_repr index @ '']'' in
        (case value of
           JObj item \<Rightarrow>
             bind_result (expect_keys item scope_keys label) (\<lambda>_.
             if set (map fst item) \<noteq> set scope_keys
             then schema_error (label @ '' must contain all required fields'')
             else
               (case dget ''scope_id'' item of
                  JStr scope_id \<Rightarrow>
                    if \<not> scope_id_ok scope_id then schema_error ''invalid scope_id''
                    else
                      (case scope_role_of (dget ''role'' item) of
                         None \<Rightarrow> schema_error (''invalid role for scope '' @ scope_id)
                       | Some role \<Rightarrow>
                           (case (dget ''enabled'' item, dget ''follow_directory_symlinks'' item,
                                dget ''allow_cross_mount'' item) of
                              (JBool enabled, JBool follow, JBool cross) \<Rightarrow>
                                (case dget ''path'' item of
                                   JStr raw \<Rightarrow>
                                     bind_result (normalize_path (path_env.truncate env) raw None) (\<lambda>path.
                                       Inr \<lparr>sc_scope_id = scope_id, sc_role = role, sc_raw_path = raw,
                                         sc_normalized_path = path, sc_enabled = enabled,
                                         sc_follow_directory_symlinks = follow,
                                         sc_allow_cross_mount = cross\<rparr>)
                                 | _ \<Rightarrow> schema_error (''scope '' @ scope_id @ '' path must be a string''))
                            | _ \<Rightarrow> schema_error (''scope '' @ scope_id @ '' boolean fields must be boolean'')))
                | _ \<Rightarrow> schema_error ''invalid scope_id''))
         | _ \<Rightarrow> schema_error (label @ '' must be a table'')))"

section \<open>load_config\<close>

definition internal_paths_of :: "path_config \<Rightarrow> abs_path list" where
  "internal_paths_of paths = [data_dir paths, cache_dir paths, evidence_dir paths, quarantine_dir paths]"

definition load_config ::
  "'a config_env_scheme \<Rightarrow> string option \<Rightarrow> abs_path option \<Rightarrow> steward_config result" where
  "load_config env explicit_path project_root =
     bind_result (discover_config env explicit_path) (\<lambda>source.
     if \<not> ce_is_file env source
     then raise ConfigurationNotFoundError (''configuration not found: '' @ path_str source)
     else
       bind_result (ce_toml env source) (\<lambda>parsed.
       (case parsed of
          None \<Rightarrow> schema_error ''invalid TOML''
        | Some (JObj raw) \<Rightarrow>
            bind_result (expect_keys raw top_keys ''top-level'') (\<lambda>_.
            if \<not> py_eq (dget ''schema_version'' raw) (JInt 1)
            then schema_error ''schema_version must be integer 1''
            else
              (case dget ''project_name'' raw of
                 JStr project_name \<Rightarrow>
                   if project_name = [] then schema_error ''project_name must be a non-empty string''
                   else
                     let root_dir = pe_resolve env (case project_root of Some p \<Rightarrow> p
                           | None \<Rightarrow> project_root_for env source (explicit_path \<noteq> None)) in
                     bind_result (load_paths env root_dir (dget ''paths'' raw)) (\<lambda>paths.
                     (case dget ''scopes'' raw of
                        JArr scopes_raw \<Rightarrow>
                          bind_result (map_result (load_scope env) (enumerate 0 scopes_raw)) (\<lambda>scopes.
                          bind_result (validate_scopes scopes (internal_paths_of paths)) (\<lambda>warnings.
                          Inr \<lparr>cf_schema_version = 1, cf_project_name = project_name, cf_paths = paths,
                            cf_scopes = scopes, cf_project_root = root_dir, cf_source_path = source,
                            cf_warnings = warnings\<rparr>))
                      | _ \<Rightarrow> schema_error ''at least one [[scopes]] table is required''))
               | _ \<Rightarrow> schema_error ''project_name must be a non-empty string''))
        | Some _ \<Rightarrow> schema_error ''configuration must be a TOML table'')))"

end
