(* ===== verification/Configuration_Correct.thy ===== *)
theory Configuration_Correct
  imports Configuration Filesystem_Scan_Properties
begin

text \<open>
  The Scope policy is exact, a configuration that loads is well-formed, and so the Scopes of one
  scan lie apart from each other and from the program's own directories.
\<close>

section \<open>The policy\<close>

text \<open>C33: validate_scopes accepts exactly the Scope lists in which no identifier and no path occurs twice,
  every managed or reference Scope is neither the root directory nor overlaps a protected or internal
  path, no two of them overlap, and no excluded Scope contains one of them.\<close>

theorem scope_policy_exact:
  "(\<exists>warnings. validate_scopes scopes internal_paths = Inr warnings) \<longleftrightarrow>
   distinct (map sc_scope_id scopes) \<and> distinct (map sc_normalized_path scopes)
   \<and> list_all (\<lambda>s. actionable s = False \<or> clear_of_boundaries internal_paths s) scopes
   \<and> sorted_wrt (\<lambda>s t. (actionable s \<and> actionable t \<and> overlaps (sc_normalized_path s) (sc_normalized_path t)) = False
        \<and> excludes s t = False \<and> excludes t s = False) scopes"
proof -
  have "(\<lambda>s t. (actionable s \<and> actionable t \<and> overlaps (sc_normalized_path s) (sc_normalized_path t)) = False
        \<and> excludes s t = False \<and> excludes t s = False) = compatible"
    by (intro ext) (simp add: compatible_def)
  then show ?thesis unfolding validate_scopes_iff by (auto simp: list_all_iff)
qed

section \<open>A configuration that loads\<close>

lemma expect_keys_Inr [simp]: "expect_keys value allowed label = Inr u \<longleftrightarrow> set (map fst value) \<subseteq> set allowed"
  by (auto simp: expect_keys_def Let_def schema_error_def filter_empty_conv)

lemma schema_error_Inr [simp]: "schema_error m \<noteq> Inr x"
  by (simp add: schema_error_def)

lemma internal_path_in_root: "internal_path env root_dir paths_raw name = Inr p \<Longrightarrow> contains root_dir p"
  by (auto simp: internal_path_def bind_result_Inr_iff split: json.splits if_splits)

definition paths_wf :: "abs_path \<Rightarrow> path_config \<Rightarrow> bool" where
  "paths_wf root_dir paths \<longleftrightarrow>
     contains root_dir (data_dir paths)
     \<and> contains (data_dir paths) (cache_dir paths) \<and> contains (data_dir paths) (evidence_dir paths)
     \<and> contains (data_dir paths) (quarantine_dir paths)
     \<and> \<not> overlaps (cache_dir paths) (evidence_dir paths) \<and> \<not> overlaps (cache_dir paths) (quarantine_dir paths)
     \<and> \<not> overlaps (evidence_dir paths) (quarantine_dir paths)"

lemma load_paths_wf: "load_paths env root_dir value = Inr paths \<Longrightarrow> paths_wf root_dir paths"
  unfolding load_paths_def
  by (cases "value") (auto simp: bind_result_Inr_iff paths_wf_def dest: internal_path_in_root split: if_splits)

lemma load_scope_id: "load_scope env indexed = Inr s \<Longrightarrow> scope_id_ok (sc_scope_id s)"
  unfolding load_scope_def Let_def
  by (auto simp: bind_result_Inr_iff split: prod.splits json.splits if_splits option.splits)

lemma map_result_member: "map_result f xs = Inr ys \<Longrightarrow> y \<in> set ys \<Longrightarrow> \<exists>x. f x = Inr y"
  by (induction xs arbitrary: ys) (auto simp: bind_result_Inr_iff)

text \<open>What every later component relies on.\<close>

definition config_wf :: "steward_config \<Rightarrow> bool" where
  "config_wf c \<longleftrightarrow>
     paths_wf (cf_project_root c) (cf_paths c)
     \<and> (\<forall>s \<in> set (cf_scopes c). scope_id_ok (sc_scope_id s))
     \<and> distinct (map sc_scope_id (cf_scopes c)) \<and> distinct (map sc_normalized_path (cf_scopes c))
     \<and> (\<forall>s \<in> set (cf_scopes c). actionable s \<longrightarrow> clear_of_boundaries (internal_paths_of (cf_paths c)) s)
     \<and> (\<forall>s \<in> set (cf_scopes c). \<forall>t \<in> set (cf_scopes c). s \<noteq> t \<longrightarrow> compatible s t)"

lemma load_config_wf:
  assumes "load_config env explicit_path project_root = Inr c"
  shows "config_wf c"
proof -
  note run = assms [unfolded load_config_def]
  from run obtain source where source: "discover_config env explicit_path = Inr source" "ce_is_file env source"
    by (auto simp: bind_result_Inr_iff split: if_splits)
  note run = run [unfolded source bind_result_simps]
  from run source(2) obtain parsed where parsed: "ce_toml env source = Inr parsed"
    by (auto simp: bind_result_Inr_iff)
  note run = run [unfolded parsed bind_result_simps]
  from run source(2) obtain raw where raw: "parsed = Some (JObj raw)"
    by (auto split: option.splits json.splits)
  from run source(2) obtain name where name: "dget ''project_name'' raw = JStr name"
    by (auto simp: raw bind_result_Inr_iff split: json.splits if_splits)
  let ?root = "pe_resolve env (case project_root of Some p \<Rightarrow> p
    | None \<Rightarrow> project_root_for env source (explicit_path \<noteq> None))"
  from run source(2) obtain paths where paths: "load_paths env ?root (dget ''paths'' raw) = Inr paths"
    by (auto simp: raw name bind_result_Inr_iff Let_def split: if_splits)
  from run source(2) paths obtain scopes_raw where scopes_raw: "dget ''scopes'' raw = JArr scopes_raw"
    by (auto simp: raw name bind_result_Inr_iff Let_def split: json.splits if_splits)
  from run source(2) paths obtain scopes warnings where scopes:
    "map_result (load_scope env) (enumerate 0 scopes_raw) = Inr scopes"
    "validate_scopes scopes (internal_paths_of paths) = Inr warnings"
    "c = \<lparr>cf_schema_version = 1, cf_project_name = name, cf_paths = paths, cf_scopes = scopes,
      cf_project_root = ?root, cf_source_path = source, cf_warnings = warnings\<rparr>"
    by (auto simp: raw name scopes_raw bind_result_Inr_iff Let_def split: if_splits)
  have "\<exists>w. validate_scopes scopes (internal_paths_of paths) = Inr w" using scopes(2) by blast
  note policy = this [unfolded validate_scopes_iff]
  have "scope_id_ok (sc_scope_id s)" if "s \<in> set scopes" for s
  proof -
    from map_result_member [OF scopes(1) that] obtain x where "load_scope env x = Inr s" ..
    then show ?thesis by (rule load_scope_id)
  qed
  moreover have "compatible s t" if "s \<in> set scopes" "t \<in> set scopes" "s \<noteq> t" for s t
  proof (rule sorted_wrt_pair [of compatible scopes])
    show "sorted_wrt compatible scopes" using policy by blast
  qed (use that in simp_all, rule compatible_sym)
  ultimately show ?thesis
    using policy load_paths_wf [OF paths] by (simp add: config_wf_def scopes(3))
qed

lemma config_wf_compatible:
  "config_wf c \<Longrightarrow> s \<in> set (cf_scopes c) \<Longrightarrow> t \<in> set (cf_scopes c) \<Longrightarrow> s \<noteq> t \<Longrightarrow> compatible s t"
  by (simp add: config_wf_def)

lemma config_wf_clear:
  "config_wf c \<Longrightarrow> s \<in> set (cf_scopes c) \<Longrightarrow> actionable s \<Longrightarrow>
   clear_of_boundaries (internal_paths_of (cf_paths c)) s"
  by (simp add: config_wf_def)

text \<open>C34: A configuration that loads is well-formed: the three working directories lie apart inside the data
  directory, which lies in the project; Scope identifiers and paths are unique; and no actionable Scope
  overlaps another one, a protected path, a directory of the program, or lies in an excluded Scope.\<close>

theorem accepted_config_is_wellformed:
  assumes "load_config env explicit_path project_root = Inr c"
  shows "paths_wf (cf_project_root c) (cf_paths c)
    \<and> list_all (\<lambda>s. scope_id_ok (sc_scope_id s)) (cf_scopes c)
    \<and> distinct (map sc_scope_id (cf_scopes c)) \<and> distinct (map sc_normalized_path (cf_scopes c))
    \<and> list_all (\<lambda>s. actionable s = False \<or> clear_of_boundaries (internal_paths_of (cf_paths c)) s) (cf_scopes c)
    \<and> list_all (\<lambda>s. list_all (\<lambda>t. s = t \<or> compatible s t) (cf_scopes c)) (cf_scopes c)"
  using load_config_wf [OF assms] by (auto simp: config_wf_def list_all_iff)

section \<open>The Scopes of a scan\<close>

lemma select_scopes_facts:
  assumes "select_scopes c requested = Inr scopes"
  shows "set scopes \<subseteq> set (cf_scopes c)" and "s \<in> set scopes \<Longrightarrow> actionable s"
proof -
  let ?by_id = "dict_of (map (\<lambda>s. (sc_scope_id s, s)) (cf_scopes c))"
  let ?selected = "if requested \<noteq> [] then map (\<lambda>r. the (map_of ?by_id r)) requested
    else filter (\<lambda>s. sc_enabled s \<and> sc_role s = MANAGED_ROOT) (cf_scopes c)"
  have known: "filter (\<lambda>r. map_of ?by_id r = None) requested = []"
    and usable: "filter (\<lambda>s. sc_role s \<notin> {MANAGED_ROOT, REFERENCE_ROOT} \<or> \<not> sc_enabled s
        \<or> sc_follow_directory_symlinks s) ?selected = []"
    and scopes: "scopes = sort_key sc_scope_id ?selected"
    using assms unfolding select_scopes_def Let_def
    by (auto split: if_splits list.splits)
  have "the (map_of ?by_id r) \<in> set (cf_scopes c)" if r: "r \<in> set requested" for r
  proof -
    from known r obtain s where s: "map_of ?by_id r = Some s" by (auto simp: filter_empty_conv)
    then have "map_of (rev (map (\<lambda>s. (sc_scope_id s, s)) (cf_scopes c))) r = Some s"
      by (simp add: map_of_dict_of)
    from map_of_SomeD [OF this] s show ?thesis by auto
  qed
  then show "set scopes \<subseteq> set (cf_scopes c)" using scopes by auto
  show "actionable s" if "s \<in> set scopes"
    using usable that unfolding scopes by (auto simp: filter_empty_conv actionable_def)
qed

lemma in_scope_contains: "in_scope env cx p \<Longrightarrow> contains (sc_normalized_path (cx_scope cx)) p"
  using seen_below by (fastforce simp: in_scope_def contains_iff strict_prefix_def prefix_def)

lemma contains_comparable: "contains p r \<Longrightarrow> contains q r \<Longrightarrow> overlaps p q"
  by (auto simp: contains_iff overlaps_def append_eq_append_conv2)

text \<open>C35: Under a configuration that loads, the Scopes a Snapshot selects never meet: no path is observed
  under two of them, and no observed path lies in a directory of the program.\<close>

theorem configured_scopes_never_meet:
  assumes "load_config env explicit_path project_root = Inr c" "select_scopes c requested = Inr scopes"
    and "s \<in> set scopes" "in_scope fs (scope_context fs c snapshot_id budget s) p"
  shows "list_all (\<lambda>t. t = s \<or> in_scope fs (scope_context fs c snapshot_id budget t) p = False) scopes
    \<and> list_all (\<lambda>i. contains i p = False) (internal_paths_of (cf_paths c))"
proof -
  note selected = select_scopes_facts [OF assms(2)]
  have p: "contains (sc_normalized_path s) p" using in_scope_contains [OF assms(4)] by simp
  have "\<not> in_scope fs (scope_context fs c snapshot_id budget t) p" if t: "t \<in> set scopes" "t \<noteq> s" for t
  proof
    assume "in_scope fs (scope_context fs c snapshot_id budget t) p"
    from in_scope_contains [OF this] have "overlaps (sc_normalized_path s) (sc_normalized_path t)"
      using contains_comparable [OF p] by simp
    moreover have "compatible s t"
    proof -
      have "s \<in> set (cf_scopes c)" "t \<in> set (cf_scopes c)" using selected(1) assms(3) t(1) by auto
      with config_wf_compatible [OF load_config_wf [OF assms(1)]] t(2) show ?thesis by metis
    qed
    ultimately show False using selected(2) [OF assms(3)] selected(2) [OF t(1)] by (simp add: compatible_def)
  qed
  moreover have "\<not> contains i p" if i: "i \<in> set (internal_paths_of (cf_paths c))" for i
  proof
    assume "contains i p"
    from contains_comparable [OF p this] have "overlaps (sc_normalized_path s) i" .
    moreover have "clear_of_boundaries (internal_paths_of (cf_paths c)) s"
      using config_wf_clear [OF load_config_wf [OF assms(1)]] selected(1) selected(2) [OF assms(3)] assms(3) by auto
    ultimately show False using i by (simp add: clear_of_boundaries_def)
  qed
  ultimately show ?thesis by (auto simp: list_all_iff)
qed

section \<open>An example\<close>

definition example_toml :: json where
  "example_toml = JObj
     [(''schema_version'', JInt 1), (''project_name'', JStr ''p''),
      (''paths'', JObj [(''data_dir'', JStr ''var''), (''cache_dir'', JStr ''var/c''),
        (''evidence_dir'', JStr ''var/e''), (''quarantine_dir'', JStr ''var/q'')]),
      (''scopes'', JArr
        [JObj [(''scope_id'', JStr ''s''), (''role'', JStr ''managed_root''), (''path'', JStr ''/home''),
           (''enabled'', JBool True), (''follow_directory_symlinks'', JBool False),
           (''allow_cross_mount'', JBool False)]])]"

definition example_config_env :: config_env where
  "example_config_env =
     \<lparr>pe_expand = (\<lambda>raw. Inr (starts_with ''/'' raw, filter (\<lambda>s. s \<noteq> []) (split_on (CHR ''/'') raw))),
      pe_resolve = (\<lambda>p. p), ce_cwd = [], ce_environment = None, ce_default_path = [''opt'', ''config'', ''f''],
      ce_program_root = [''opt''], ce_is_file = (\<lambda>_. True), ce_toml = (\<lambda>_. Inr (Some example_toml))\<rparr>"

definition loaded_config :: steward_config where
  "loaded_config = projr (load_config example_config_env None None)"

lemma loaded_config: "load_config example_config_env None None = Inr loaded_config"
proof -
  have "isl (load_config example_config_env None None) = False" by code_simp
  then show ?thesis by (simp add: loaded_config_def)
qed

theorem accepted_config_is_wellformed_witness:
  "paths_wf (cf_project_root loaded_config) (cf_paths loaded_config)
    \<and> list_all (\<lambda>s. actionable s = False \<or> clear_of_boundaries (internal_paths_of (cf_paths loaded_config)) s)
        (cf_scopes loaded_config)"
  using accepted_config_is_wellformed [OF loaded_config] by simp

theorem configured_scopes_never_meet_witness:
  "list_all (\<lambda>i. contains i [''home''] = False) (internal_paths_of (cf_paths loaded_config))"
proof -
  have "(case select_scopes loaded_config [] of Inr [s] \<Rightarrow> sc_normalized_path s = [''home''] | _ \<Rightarrow> False)"
    by code_simp
  then obtain s where s: "select_scopes loaded_config [] = Inr [s]" "sc_normalized_path s = [''home'']"
    by (auto split: sum.splits list.splits)
  have "in_scope example_fs (scope_context example_fs loaded_config ''i'' example_budget s) [''home'']"
    by (simp add: in_scope_def s(2))
  from configured_scopes_never_meet [OF loaded_config s(1) _ this] show ?thesis by simp
qed

end
