(* ===== verification/Snapshot_Lifecycle.thy ===== *)
theory Snapshot_Lifecycle
  imports Python_Values Run_State
begin

text \<open>
  \<open>snapshot_lifecycle.py\<close>: which final status of a Run goes with which Snapshot, and the
  marker of the supported acquisition workflow, whose Runs are closed only by a proven chain of
  Evidence. The documents are the parsed Evidence files.
\<close>

section \<open>Numbers\<close>

text \<open>
  The value of a float's shortest text. It is compared with 0 and 600 only, which are floats
  themselves, so that the text compares as the float does.
\<close>

definition exponent_value :: "string \<Rightarrow> int" where
  "exponent_value e =
     (case e of
        _ # c # r \<Rightarrow>
          if c = CHR ''-'' then - int (digits_value r)
          else if c = CHR ''+'' then int (digits_value r)
          else int (digits_value (c # r))
      | _ \<Rightarrow> 0)"

definition decimal_value :: "string \<Rightarrow> rat" where
  "decimal_value s =
     (let (sign, s1) = scan_sign s; (ds, s2) = scan_int_digits s1;
          (fraction, s3) = scan_fraction s2; (expo, _) = scan_exponent s3;
          mantissa = of_nat (digits_value (ds @ drop 1 fraction)) :: rat;
          shift = exponent_value expo - int (length (drop 1 fraction));
          magnitude = (if shift < 0 then mantissa / 10 ^ nat (- shift) else mantissa * 10 ^ nat shift) in
      if sign = [] then magnitude else - magnitude)"

text \<open>\<open>float(n)\<close> of an integer raises \<open>OverflowError\<close> from this magnitude on.\<close>

definition float_limit :: int where
  "float_limit = 2 ^ 1024 - 2 ^ 970"

definition duration_ok :: "json \<Rightarrow> bool result" where
  "duration_ok v =
     (case v of
        JInt n \<Rightarrow> if float_limit \<le> \<bar>n\<bar> then Inl PyOverflowError else Inr (0 < n \<and> n \<le> 600)
      | JFloat r \<Rightarrow>
          Inr (r \<notin> {''nan'', ''inf'', ''-inf''} \<and> 0 < decimal_value r \<and> decimal_value r \<le> 600)
      | _ \<Rightarrow> Inr False)"

section \<open>The workflow marker\<close>

definition metadata_keys :: "string list" where
  "metadata_keys =
     [''workflow'', ''workflow_version'', ''scope_binding'', ''scan_budget'', ''payload_hash_policy'']"

definition binding_keys :: "string list" where
  "binding_keys =
     [''scope_id'', ''role'', ''device_id'', ''inode'', ''follow_directory_symlinks'', ''allow_cross_mount'',
      ''binding_digest'']"

definition budget_keys :: "string list" where
  "budget_keys = [''max_entries'', ''max_total_stat_bytes'', ''max_duration_seconds'', ''max_depth'']"

definition lower_hex :: "char \<Rightarrow> bool" where
  "lower_hex c \<longleftrightarrow> is_digit c \<or> 97 \<le> (of_char c :: nat) \<and> of_char c \<le> (102 :: nat)"

definition sha256_text :: "json \<Rightarrow> bool" where
  "sha256_text v = (case v of JStr s \<Rightarrow> length s = 64 \<and> list_all lower_hex s | _ \<Rightarrow> False)"

definition expected_run_status :: "json \<Rightarrow> run_status option" where
  "expected_run_status snapshot_status =
     (if snapshot_status = JStr (snapshot_status_value SNAPSHOT_COMPLETE) then Some SCANNED
      else if snapshot_status = JStr (snapshot_status_value SNAPSHOT_PARTIAL) then Some PARTIAL_RUN
      else None)"

definition scope_binding_digest :: "ledger_env \<Rightarrow> string \<Rightarrow> doc \<Rightarrow> string result" where
  "scope_binding_digest env config_digest binding =
     bind_result (encode_json (JObj
       [(''domain'', JStr ''local_steward.snapshot_acquisition.scope_binding.v1''),
        (''config_digest'', JStr config_digest),
        (''scope_id'', dget ''scope_id'' binding),
        (''role'', dget ''role'' binding),
        (''device_id'', dget ''device_id'' binding),
        (''inode'', dget ''inode'' binding),
        (''follow_directory_symlinks'', dget ''follow_directory_symlinks'' binding),
        (''allow_cross_mount'', dget ''allow_cross_mount'' binding)]))
       (\<lambda>text. Inr (sha256 env text))"

definition natural :: "json \<Rightarrow> bool" where
  "natural v = (case v of JInt n \<Rightarrow> 0 \<le> n | _ \<Rightarrow> False)"

definition has_keys :: "doc \<Rightarrow> string list \<Rightarrow> bool" where
  "has_keys d ks \<longleftrightarrow> set (map fst d) = set ks"

text \<open>
  The checks on the binding. A role that is a list or an object cannot be looked up in the set of
  roles (\<open>TypeError\<close>); a text that UTF-8 cannot encode is an \<open>EvidenceError\<close>, which the
  handler around the digest does not catch.
\<close>

definition binding_valid :: "ledger_env \<Rightarrow> string \<Rightarrow> doc \<Rightarrow> bool result" where
  "binding_valid env config_digest binding =
     (case dget ''scope_id'' binding of
        JStr scope_id \<Rightarrow>
          if scope_id = [] then Inr False
          else
            bind_result (in_strings (dget ''role'' binding) [''managed_root'', ''reference_root'']) (\<lambda>role.
              if \<not> role \<or> \<not> natural (dget ''device_id'' binding) \<or> \<not> natural (dget ''inode'' binding)
                 \<or> dget ''follow_directory_symlinks'' binding \<noteq> JBool False
                 \<or> dget ''allow_cross_mount'' binding \<noteq> JBool False
                 \<or> \<not> sha256_text (dget ''binding_digest'' binding)
              then Inr False
              else
                bind_result (scope_binding_digest env config_digest binding)
                  (\<lambda>own. Inr (dget ''binding_digest'' binding = JStr own)))
      | _ \<Rightarrow> Inr False)"

definition budget_valid :: "doc \<Rightarrow> bool result" where
  "budget_valid budget =
     (case dget ''max_entries'' budget of
        JInt entries \<Rightarrow>
          if \<not> (1 \<le> entries \<and> entries \<le> 1000000) then Inr False
          else
            bind_result (duration_ok (dget ''max_duration_seconds'' budget)) (\<lambda>duration.
              Inr (duration
                \<and> (dget ''max_total_stat_bytes'' budget = JNull \<or> natural (dget ''max_total_stat_bytes'' budget))
                \<and> (dget ''max_depth'' budget = JNull \<or> natural (dget ''max_depth'' budget))))
      | _ \<Rightarrow> Inr False)"

definition supported_acquisition_metadata_valid :: "ledger_env \<Rightarrow> json \<Rightarrow> json \<Rightarrow> bool result" where
  "supported_acquisition_metadata_valid env metadata config_digest =
     (case (metadata, config_digest) of
        (JObj m, JStr config) \<Rightarrow>
          if \<not> has_keys m metadata_keys
             \<or> dget ''workflow'' m \<noteq> JStr ''supported_snapshot_acquisition''
             \<or> dget ''workflow_version'' m \<noteq> JInt 1
             \<or> dget ''payload_hash_policy'' m \<noteq> JNull
             \<or> \<not> sha256_text config_digest
          then Inr False
          else
            (case dget ''scope_binding'' m of
               JObj binding \<Rightarrow>
                 if \<not> has_keys binding binding_keys then Inr False
                 else
                   bind_result (binding_valid env config binding) (\<lambda>bound.
                     if \<not> bound then Inr False
                     else
                       (case dget ''scan_budget'' m of
                          JObj budget \<Rightarrow>
                            if \<not> has_keys budget budget_keys then Inr False else budget_valid budget
                        | _ \<Rightarrow> Inr False))
             | _ \<Rightarrow> Inr False)
      | _ \<Rightarrow> Inr False)"

section \<open>Runs of the workflow\<close>

definition run_created_metadata :: "doc list \<Rightarrow> json \<times> json" where
  "run_created_metadata documents =
     (case documents of
        [] \<Rightarrow> (JNull, JNull)
      | first # _ \<Rightarrow>
          (case dget ''payload'' first of JObj payload \<Rightarrow> dget ''metadata'' payload | _ \<Rightarrow> JNull,
           dget ''config_digest'' first))"

definition is_supported_acquisition_run :: "ledger_env \<Rightarrow> doc list \<Rightarrow> bool result" where
  "is_supported_acquisition_run env documents =
     (case run_created_metadata documents of (metadata, config_digest) \<Rightarrow>
        bind_result (supported_acquisition_metadata_valid env metadata config_digest) (\<lambda>valid.
          Inr (valid \<and>
            (case documents of
               [] \<Rightarrow> False
             | first # _ \<Rightarrow>
                 dget ''evidence_type'' first = JStr ''run.created''
                 \<and> (case dget ''payload'' first of
                      JObj payload \<Rightarrow> dget ''run_kind'' payload = JStr ''filesystem.snapshot''
                        \<and> dget ''initial_status'' payload = JStr (run_status_value CREATED)
                    | _ \<Rightarrow> False)))))"

text \<open>One transition document; \<open>None\<close> makes the whole list empty.\<close>

definition transition_pair :: "doc \<Rightarrow> (string \<times> string) option" where
  "transition_pair document =
     (case dget ''payload'' document of
        JObj payload \<Rightarrow>
          (case (dget ''from_status'' payload, dget ''to_status'' payload) of
             (JStr before, JStr after) \<Rightarrow> Some (before, after)
           | _ \<Rightarrow> None)
      | _ \<Rightarrow> None)"

definition transition_pairs :: "doc list \<Rightarrow> (string \<times> string) list" where
  "transition_pairs documents =
     (let pairs = map transition_pair
            (filter (\<lambda>d. dget ''evidence_type'' d = JStr ''run.state_transition'') documents) in
      if None \<in> set pairs then [] else map the pairs)"

fun ledger_integrity ::
  "ledger_env \<Rightarrow> json \<Rightarrow> json \<Rightarrow> int \<Rightarrow> json \<Rightarrow> string list \<Rightarrow> string list \<Rightarrow> doc list \<Rightarrow> bool result" where
  "ledger_integrity env run_id config_digest sequence previous ids digests [] = Inr True"
| "ledger_integrity env run_id config_digest sequence previous ids digests (document # rest) =
     (case (dget ''evidence_id'' document, dget ''evidence_digest'' document) of
        (JStr evidence_id, JStr evidence_digest) \<Rightarrow>
          if \<not> py_eq (dget ''run_id'' document) run_id
             \<or> \<not> py_eq (dget ''config_digest'' document) config_digest
             \<or> \<not> py_eq (dget ''sequence'' document) (JInt sequence)
             \<or> \<not> py_eq (dget ''previous_evidence_digest'' document) previous
             \<or> evidence_id \<in> set ids \<or> evidence_digest \<in> set digests
          then Inr False
          else
            bind_result (digest env document) (\<lambda>own.
              if own \<noteq> evidence_digest then Inr False
              else ledger_integrity env run_id config_digest (sequence + 1) (JStr evidence_digest)
                (evidence_id # ids) (evidence_digest # digests) rest)
      | _ \<Rightarrow> Inr False)"

definition supported_ledger_integrity :: "ledger_env \<Rightarrow> doc list \<Rightarrow> bool result" where
  "supported_ledger_integrity env documents =
     (case documents of
        [] \<Rightarrow> Inr False
      | first # _ \<Rightarrow>
          ledger_integrity env (dget ''run_id'' first) (dget ''config_digest'' first) 1 JNull [] [] documents)"

section \<open>snapshot_run_compatible\<close>

definition status_pair :: "run_status \<Rightarrow> run_status \<Rightarrow> string \<times> string" where
  "status_pair before after = (run_status_value before, run_status_value after)"

text \<open>\<open>and\<close> of two checks of which the first may raise or spare the second.\<close>

definition and_then :: "bool result \<Rightarrow> bool result \<Rightarrow> bool result" where
  "and_then a b = bind_result a (\<lambda>ok. if ok then b else Inr False)"

definition snapshot_run_compatible ::
  "ledger_env \<Rightarrow> json \<Rightarrow> string option \<Rightarrow> string option \<Rightarrow> doc list \<Rightarrow> bool result" where
  "snapshot_run_compatible env snapshot_status run_kind final items =
     (case expected_run_status snapshot_status of
        None \<Rightarrow> Inr False
      | Some expected \<Rightarrow>
          let observed = [status_pair CREATED SCANNING, status_pair SCANNING expected] in
          if run_kind \<noteq> Some ''filesystem.snapshot'' then Inr False
          else if final = Some (run_status_value expected)
          then
            bind_result (is_supported_acquisition_run env items) (\<lambda>supported.
              if \<not> supported then Inr True
              else and_then (supported_ledger_integrity env items) (Inr (transition_pairs items = observed)))
          else if final \<noteq> Some (run_status_value VERIFYING) \<and> final \<noteq> Some (run_status_value VERIFIED)
          then Inr False
          else
            and_then (is_supported_acquisition_run env items)
              (and_then (supported_ledger_integrity env items)
                (Inr (length (filter (\<lambda>d. dget ''evidence_type'' d = JStr ''filesystem.snapshot'') items) = 1
                  \<and> transition_pairs items = observed @ [status_pair expected VERIFYING]
                      @ (if final = Some (run_status_value VERIFYING) then []
                         else [status_pair VERIFYING VERIFIED])))))"

end
