(* ===== verification/Snapshot_Lifecycle_Correct.thy ===== *)
theory Snapshot_Lifecycle_Correct
  imports Snapshot_Lifecycle
begin

text \<open>
  A Snapshot's Run counts as closed only on proof: the documents form a sealed chain, hold one
  Snapshot, and their transitions are one legal path of the transition graph.
\<close>

section \<open>Sealed chains\<close>

text \<open>Numbered, linked by digests, of one Run and one configuration, and without repetition.\<close>

definition sealed :: "ledger_env \<Rightarrow> doc list \<Rightarrow> bool" where
  "sealed env ds \<longleftrightarrow>
     (\<forall>i < length ds.
        (\<exists>h. digest env (ds ! i) = Inr h \<and> dget ''evidence_digest'' (ds ! i) = JStr h)
        \<and> py_eq (dget ''sequence'' (ds ! i)) (JInt (int i + 1))
        \<and> py_eq (dget ''previous_evidence_digest'' (ds ! i))
            (if i = 0 then JNull else dget ''evidence_digest'' (ds ! (i - 1)))
        \<and> py_eq (dget ''run_id'' (ds ! i)) (dget ''run_id'' (hd ds))
        \<and> py_eq (dget ''config_digest'' (ds ! i)) (dget ''config_digest'' (hd ds)))
     \<and> distinct (map (dget ''evidence_id'') ds) \<and> distinct (map (dget ''evidence_digest'') ds)"

lemma ledger_integrity_step:
  assumes "ledger_integrity env run_id config_digest n previous ids digests (d # ds) = Inr True"
  obtains u h where "dget ''evidence_id'' d = JStr u" "dget ''evidence_digest'' d = JStr h"
    "py_eq (dget ''run_id'' d) run_id" "py_eq (dget ''config_digest'' d) config_digest"
    "py_eq (dget ''sequence'' d) (JInt n)" "py_eq (dget ''previous_evidence_digest'' d) previous"
    "u \<notin> set ids" "h \<notin> set digests" "digest env d = Inr h"
    "ledger_integrity env run_id config_digest (n + 1) (JStr h) (u # ids) (h # digests) ds = Inr True"
proof -
  obtain u where u: "dget ''evidence_id'' d = JStr u"
    using assms by (cases "dget ''evidence_id'' d") simp_all
  obtain h where h: "dget ''evidence_digest'' d = JStr h"
    using assms u by (cases "dget ''evidence_digest'' d") simp_all
  show thesis
    using assms u h by (intro that [OF u h]) (auto simp: bind_result_Inr_iff split: if_splits)
qed

lemma ledger_integrity_nth:
  "ledger_integrity env run_id config_digest n previous ids digests ds = Inr True \<Longrightarrow> i < length ds \<Longrightarrow>
   (\<exists>h. digest env (ds ! i) = Inr h \<and> dget ''evidence_digest'' (ds ! i) = JStr h)
   \<and> py_eq (dget ''sequence'' (ds ! i)) (JInt (n + int i))
   \<and> py_eq (dget ''previous_evidence_digest'' (ds ! i))
       (if i = 0 then previous else dget ''evidence_digest'' (ds ! (i - 1)))
   \<and> py_eq (dget ''run_id'' (ds ! i)) run_id \<and> py_eq (dget ''config_digest'' (ds ! i)) config_digest"
proof (induction ds arbitrary: n previous ids digests i)
  case (Cons d ds)
  from Cons.prems(1) obtain u h where step: "dget ''evidence_digest'' d = JStr h"
    "py_eq (dget ''run_id'' d) run_id" "py_eq (dget ''config_digest'' d) config_digest"
    "py_eq (dget ''sequence'' d) (JInt n)" "py_eq (dget ''previous_evidence_digest'' d) previous"
    "digest env d = Inr h"
    "ledger_integrity env run_id config_digest (n + 1) (JStr h) (u # ids) (h # digests) ds = Inr True"
    by (rule ledger_integrity_step)
  show ?case
  proof (cases i)
    case 0
    with step show ?thesis by simp
  next
    case (Suc j)
    with Cons.IH [OF step(7), of j] Cons.prems(2) step(1) show ?thesis
      by (cases j) (simp_all add: add.assoc)
  qed
qed simp

lemma ledger_integrity_distinct:
  "ledger_integrity env run_id config_digest n previous ids digests ds = Inr True \<Longrightarrow>
   distinct (map (dget ''evidence_id'') ds) \<and> distinct (map (dget ''evidence_digest'') ds)
   \<and> dget ''evidence_id'' ` set ds \<inter> JStr ` set ids = {}
   \<and> dget ''evidence_digest'' ` set ds \<inter> JStr ` set digests = {}"
proof (induction ds arbitrary: n previous ids digests)
  case (Cons d ds)
  from Cons.prems obtain u h where step: "dget ''evidence_id'' d = JStr u" "dget ''evidence_digest'' d = JStr h"
    "u \<notin> set ids" "h \<notin> set digests"
    "ledger_integrity env run_id config_digest (n + 1) (JStr h) (u # ids) (h # digests) ds = Inr True"
    by (rule ledger_integrity_step)
  from Cons.IH [OF step(5)] step(1-4) show ?case by auto
qed simp

lemma supported_ledger_sealed:
  assumes "supported_ledger_integrity env ds = Inr True"
  shows "ds \<noteq> [] \<and> sealed env ds"
proof -
  from assms obtain d rest where ds: "ds = d # rest"
    by (auto simp: supported_ledger_integrity_def split: list.splits)
  with assms have run: "ledger_integrity env (dget ''run_id'' (hd ds)) (dget ''config_digest'' (hd ds)) 1 JNull [] [] ds
      = Inr True" by (simp add: supported_ledger_integrity_def)
  have "sealed env ds"
    unfolding sealed_def
    using ledger_integrity_nth [OF run] ledger_integrity_distinct [OF run] by (simp add: add.commute)
  with ds show ?thesis by simp
qed

lemma and_then_True: "and_then a b = Inr True \<longleftrightarrow> a = Inr True \<and> b = Inr True"
  by (auto simp: and_then_def bind_result_Inr_iff)

lemma expected_run_status_cases:
  "expected_run_status v = Some s \<Longrightarrow> s = SCANNED \<or> s = PARTIAL_RUN"
  by (auto simp: expected_run_status_def split: if_splits)

section \<open>Closed Runs\<close>

text \<open>C28: A Snapshot whose Run is in verifying or verified is accepted only with the proof: the Run was
  created by the supported workflow, its documents are a sealed chain with exactly one Snapshot, and
  their transitions are one legal path from created to that status, through the scan result that goes
  with the Snapshot.\<close>

theorem closed_runs_are_proven:
  assumes "snapshot_run_compatible env status run_kind (Some final) items = Inr True"
    and "final = run_status_value VERIFYING \<or> final = run_status_value VERIFIED"
  shows "\<exists>path scanned. expected_run_status status = Some scanned \<and> run_path CREATED path
    \<and> final = run_status_value (last path) \<and> take 3 path = [SCANNING, scanned, VERIFYING]
    \<and> transition_pairs items = map2 status_pair (CREATED # path) path
    \<and> is_supported_acquisition_run env items = Inr True \<and> sealed env items
    \<and> length (filter (\<lambda>d. dget ''evidence_type'' d = JStr ''filesystem.snapshot'') items) = 1"
proof -
  from assms(1) obtain scanned where scanned: "expected_run_status status = Some scanned"
    by (auto simp: snapshot_run_compatible_def split: option.splits)
  from expected_run_status_cases [OF this] have not_final: "final \<noteq> run_status_value scanned"
    using assms(2) by auto
  define path where "path = [SCANNING, scanned, VERIFYING] @ (if final = run_status_value VERIFYING then [] else [VERIFIED])"
  note run = assms(1) [unfolded snapshot_run_compatible_def scanned option.case Let_def]
  have facts: "is_supported_acquisition_run env items = Inr True" "supported_ledger_integrity env items = Inr True"
    "length (filter (\<lambda>d. dget ''evidence_type'' d = JStr ''filesystem.snapshot'') items) = 1"
    "transition_pairs items = [status_pair CREATED SCANNING, status_pair SCANNING scanned]
      @ [status_pair scanned VERIFYING]
      @ (if final = run_status_value VERIFYING then [] else [status_pair VERIFYING VERIFIED])"
    using run not_final assms(2) by (auto simp: and_then_True split: if_splits)
  have "run_path CREATED path" "final = run_status_value (last path)"
    using expected_run_status_cases [OF scanned] assms(2) by (auto simp: path_def)
  moreover have "transition_pairs items = map2 status_pair (CREATED # path) path"
    unfolding facts(4) by (simp add: path_def)
  moreover have "take 3 path = [SCANNING, scanned, VERIFYING]" by (simp add: path_def)
  ultimately show ?thesis
    using scanned facts(1, 3) supported_ledger_sealed [OF facts(2)] by blast
qed

section \<open>An example\<close>

text \<open>In place of SHA-256 stands the length of the text, written with 64 digits.\<close>

definition hex64 :: "string \<Rightarrow> string" where
  "hex64 digits = replicate 61 (CHR ''0'') @ digits"

definition lifecycle_env :: ledger_env where
  "lifecycle_env = \<lparr>sha256 = (\<lambda>s. hex64 (nat_repr (length s))), float_repr = (\<lambda>s. s),
     tool_version = ''0.1.0'', parse_time = (\<lambda>_. Some True), uuid4_ok = (\<lambda>_. True)\<rparr>"

definition example_binding :: doc where
  "example_binding =
     [(''scope_id'', JStr ''s''), (''role'', JStr ''managed_root''), (''device_id'', JInt 1), (''inode'', JInt 2),
      (''follow_directory_symlinks'', JBool False), (''allow_cross_mount'', JBool False),
      (''binding_digest'', JStr (hex64 ''268''))]"

definition example_budget :: doc where
  "example_budget =
     [(''max_entries'', JInt 10), (''max_total_stat_bytes'', JNull),
      (''max_duration_seconds'', JInt 600), (''max_depth'', JNull)]"

definition example_metadata :: json where
  "example_metadata = JObj
     [(''workflow'', JStr ''supported_snapshot_acquisition''), (''workflow_version'', JInt 1),
      (''scope_binding'', JObj example_binding),
      (''scan_budget'', JObj example_budget),
      (''payload_hash_policy'', JNull)]"

definition example_document :: "int \<Rightarrow> string \<Rightarrow> json \<Rightarrow> string \<Rightarrow> doc \<Rightarrow> string \<Rightarrow> doc" where
  "example_document n evidence_id previous evidence_type payload own =
     [(''run_id'', JStr ''r''), (''config_digest'', JStr (hex64 ''000'')), (''sequence'', JInt n),
      (''evidence_id'', JStr evidence_id), (''previous_evidence_digest'', previous),
      (''evidence_type'', JStr evidence_type), (''payload'', JObj payload),
      (''evidence_digest'', JStr (hex64 own))]"

definition example_move :: "run_status \<Rightarrow> run_status \<Rightarrow> doc" where
  "example_move source target =
     [(''from_status'', JStr (run_status_value source)), (''to_status'', JStr (run_status_value target))]"

definition example_1 :: doc where
  "example_1 = example_document 1 ''u'' JNull ''run.created'' [(''run_kind'', JStr ''filesystem.snapshot''),
     (''initial_status'', JStr ''created''), (''metadata'', example_metadata)] ''695''"

definition example_2 :: doc where
  "example_2 = example_document 2 ''v'' (JStr (hex64 ''695'')) ''run.state_transition''
     (example_move CREATED SCANNING) ''320''"

definition example_3 :: doc where
  "example_3 = example_document 3 ''w'' (JStr (hex64 ''320'')) ''filesystem.snapshot'' [] ''273''"

definition example_4 :: doc where
  "example_4 = example_document 4 ''xx'' (JStr (hex64 ''273'')) ''run.state_transition''
     (example_move SCANNING SCANNED) ''321''"

definition example_5 :: doc where
  "example_5 = example_document 5 ''yyy'' (JStr (hex64 ''321'')) ''run.state_transition''
     (example_move SCANNED VERIFYING) ''323''"

definition example_chain :: "doc list" where
  "example_chain = [example_1, example_2, example_3, example_4, example_5]"

lemmas example_documents = example_1_def example_2_def example_3_def example_4_def example_5_def
  example_document_def

lemma example_digest_1: "digest lifecycle_env example_1 = Inr (hex64 ''695'')"
  by code_simp

lemma example_digest_2: "digest lifecycle_env example_2 = Inr (hex64 ''320'')"
  by code_simp

lemma example_digest_3: "digest lifecycle_env example_3 = Inr (hex64 ''273'')"
  by code_simp

lemma example_digest_4: "digest lifecycle_env example_4 = Inr (hex64 ''321'')"
  by code_simp

lemma example_digest_5: "digest lifecycle_env example_5 = Inr (hex64 ''323'')"
  by code_simp

lemmas example_digests = example_digest_1 example_digest_2 example_digest_3 example_digest_4 example_digest_5

lemma example_binding_digest:
  "scope_binding_digest lifecycle_env (hex64 ''000'') example_binding = Inr (hex64 ''268'')"
  by code_simp

lemma hex64_eq [simp]: "hex64 a = hex64 b \<longleftrightarrow> a = b"
  by (simp add: hex64_def)

lemma example_integrity: "supported_ledger_integrity lifecycle_env example_chain = Inr True"
  using example_digests
  by (simp add: supported_ledger_integrity_def example_chain_def example_documents dget_def py_eq_def)

lemma example_metadata_parts:
  "has_keys example_binding binding_keys" "has_keys example_budget budget_keys"
  "sha256_text (JStr (hex64 ''000''))" "sha256_text (JStr (hex64 ''268''))"
  "budget_valid example_budget = Inr True"
proof -
  show "has_keys example_binding binding_keys" "has_keys example_budget budget_keys"
    by (simp_all add: has_keys_def example_binding_def example_budget_def binding_keys_def budget_keys_def)
  show "sha256_text (JStr (hex64 ''000''))"
    by code_simp
  show "sha256_text (JStr (hex64 ''268''))"
    by code_simp
  show "budget_valid example_budget = Inr True"
    by (simp add: budget_valid_def example_budget_def dget_def duration_ok_def float_limit_def natural_def)
qed

lemma example_binding_valid: "binding_valid lifecycle_env (hex64 ''000'') example_binding = Inr True"
proof -
  have fields: "dget ''scope_id'' example_binding = JStr ''s''" "dget ''role'' example_binding = JStr ''managed_root''"
    "dget ''device_id'' example_binding = JInt 1" "dget ''inode'' example_binding = JInt 2"
    "dget ''follow_directory_symlinks'' example_binding = JBool False"
    "dget ''allow_cross_mount'' example_binding = JBool False"
    "dget ''binding_digest'' example_binding = JStr (hex64 ''268'')"
    by (simp_all add: example_binding_def dget_def)
  have "in_strings (JStr ''managed_root'') [''managed_root'', ''reference_root''] = Inr True"
    by code_simp
  then show ?thesis
    using example_metadata_parts(4) example_binding_digest
    by (simp add: binding_valid_def fields natural_def)
qed

lemma example_metadata_valid:
  "supported_acquisition_metadata_valid lifecycle_env example_metadata (JStr (hex64 ''000'')) = Inr True"
proof -
  define m where "m =
    [(''workflow'', JStr ''supported_snapshot_acquisition''), (''workflow_version'', JInt 1),
     (''scope_binding'', JObj example_binding), (''scan_budget'', JObj example_budget),
     (''payload_hash_policy'', JNull)]"
  have fields: "dget ''workflow'' m = JStr ''supported_snapshot_acquisition''"
    "dget ''workflow_version'' m = JInt 1" "dget ''scope_binding'' m = JObj example_binding"
    "dget ''scan_budget'' m = JObj example_budget" "dget ''payload_hash_policy'' m = JNull"
    by (simp_all add: m_def dget_def)
  have "has_keys m metadata_keys"
    by (simp add: has_keys_def metadata_keys_def m_def)
  then show ?thesis
    using example_metadata_parts example_binding_valid
    unfolding example_metadata_def m_def [symmetric]
    by (simp add: supported_acquisition_metadata_valid_def fields)
qed

lemma example_supported: "is_supported_acquisition_run lifecycle_env example_chain = Inr True"
proof -
  have "dget ''payload'' example_1 = JObj [(''run_kind'', JStr ''filesystem.snapshot''),
     (''initial_status'', JStr ''created''), (''metadata'', example_metadata)]"
    "dget ''config_digest'' example_1 = JStr (hex64 ''000'')" "dget ''evidence_type'' example_1 = JStr ''run.created''"
    by (simp_all add: example_documents dget_def)
  then show ?thesis
    using example_metadata_valid
    by (simp add: is_supported_acquisition_run_def run_created_metadata_def example_chain_def dget_def)
qed

theorem closed_runs_are_proven_witness:
  "\<exists>path scanned. expected_run_status (JStr ''complete'') = Some scanned \<and> run_path CREATED path
    \<and> ''verifying'' = run_status_value (last path) \<and> take 3 path = [SCANNING, scanned, VERIFYING]
    \<and> transition_pairs example_chain = map2 status_pair (CREATED # path) path
    \<and> is_supported_acquisition_run lifecycle_env example_chain = Inr True \<and> sealed lifecycle_env example_chain
    \<and> length (filter (\<lambda>d. dget ''evidence_type'' d = JStr ''filesystem.snapshot'') example_chain) = 1"
proof (rule closed_runs_are_proven [where run_kind = "Some ''filesystem.snapshot''"])
  have "transition_pairs example_chain
      = [status_pair CREATED SCANNING, status_pair SCANNING SCANNED, status_pair SCANNED VERIFYING]"
    by (simp add: transition_pairs_def transition_pair_def example_chain_def example_documents
        example_move_def status_pair_def dget_def)
  moreover have "length (filter (\<lambda>d. dget ''evidence_type'' d = JStr ''filesystem.snapshot'') example_chain) = 1"
    by (simp add: dget_def example_chain_def example_documents)
  moreover have "expected_run_status (JStr ''complete'') = Some SCANNED"
    by (simp add: expected_run_status_def)
  ultimately show "snapshot_run_compatible lifecycle_env (JStr ''complete'') (Some ''filesystem.snapshot'')
      (Some ''verifying'') example_chain = Inr True"
    using example_supported example_integrity
    by (simp add: snapshot_run_compatible_def and_then_def)
qed simp

end
