(* ===== verification/Payload_Hashing.thy ===== *)
theory Payload_Hashing
  imports Filesystem_Scan
begin

text \<open>
  \<open>payload_hashing.py\<close>: the bounded, descriptor-based reading of file contents that a version 2
  Snapshot adds to the observations of a scan. Every answer of the operating system depends on the
  moment at which it is given, the number of questions asked before, so that files may change at any
  point of a read.
\<close>

section \<open>Policies\<close>

definition policy_invalid :: "string \<Rightarrow> 'a result" where
  "policy_invalid m = raise SnapshotBudgetError (''PAYLOAD_HASH_POLICY_INVALID: '' @ m)"

definition positive_int :: "int option \<Rightarrow> string \<Rightarrow> int result" where
  "positive_int v name =
     (case v of
        Some n \<Rightarrow> if n \<le> 0 then policy_invalid (name @ '' must be a positive integer'') else Inr n
      | None \<Rightarrow> policy_invalid (name @ '' must be a positive integer''))"

definition validate_payload_hash_policy :: "payload_hash_policy \<Rightarrow> unit result" where
  "validate_payload_hash_policy policy =
     (if hp_algorithm policy \<noteq> ''sha256'' \<or> hp_algorithm_version policy \<noteq> 1
      then policy_invalid ''SHA-256 algorithm version 1 is required''
      else
        bind_result (positive_int (hp_max_hash_file_bytes policy) ''max_hash_file_bytes'') (\<lambda>_.
        bind_result (positive_int (hp_max_total_hash_bytes policy) ''max_total_hash_bytes'') (\<lambda>_.
        if (case hp_max_hash_duration_seconds policy of None \<Rightarrow> True | Some d \<Rightarrow> \<not> (0 < d \<and> d \<le> 86400))
        then policy_invalid ''max_hash_duration_seconds must be finite and 0 < value <= 86400''
        else
          bind_result (positive_int (Some (hp_hash_chunk_size policy)) ''hash_chunk_size'') (\<lambda>chunk.
          if \<not> (65536 \<le> chunk \<and> chunk \<le> 16777216) \<or> Bit_Operations.and chunk (chunk - 1) \<noteq> 0
          then policy_invalid ''hash_chunk_size must be a power of two from 65536 through 16777216''
          else if hp_allow_non_local_content policy then policy_invalid ''non-local content is disabled''
          else Inr ()))))"

text \<open>The defaults of the keyword arguments are the defaults here.\<close>

definition default_payload_hash_policy ::
  "int option \<Rightarrow> int option \<Rightarrow> rat option \<Rightarrow> int option \<Rightarrow> bool \<Rightarrow> payload_hash_policy result" where
  "default_payload_hash_policy max_file max_total duration chunk reuse =
     (let or_default = (\<lambda>v d. case v of None \<Rightarrow> d | Some x \<Rightarrow> x);
          policy = \<lparr>hp_algorithm = ''sha256'', hp_algorithm_version = 1,
            hp_max_hash_file_bytes = Some (or_default max_file 1073741824),
            hp_max_total_hash_bytes = Some (or_default max_total 8589934592),
            hp_max_hash_duration_seconds = Some (case duration of None \<Rightarrow> 300 | Some d \<Rightarrow> d),
            hp_hash_chunk_size = or_default chunk 1048576,
            hp_allow_non_local_content = False, hp_allow_verified_reuse = reuse\<rparr> in
      bind_result (validate_payload_hash_policy policy) (\<lambda>_. Inr policy))"

section \<open>Observations\<close>

definition failure ::
  "payload_observation_status \<Rightarrow> string option \<Rightarrow> int option \<Rightarrow> payload_observation" where
  "failure status failure_code os_error_code =
     \<lparr>p_status = status, p_algorithm = None, p_algorithm_version = None, p_digest = None,
      p_bytes_hashed = None, p_provenance = None, p_reused_from_snapshot_id = None,
      p_failure_code = failure_code, p_os_error_code = os_error_code\<rparr>"

definition success :: "payload_hash_policy \<Rightarrow> string \<Rightarrow> int \<Rightarrow> payload_observation" where
  "success policy digest_text size_read =
     \<lparr>p_status = (if size_read = 0 then EMPTY_FILE_HASHED else HASHED),
      p_algorithm = Some (hp_algorithm policy), p_algorithm_version = Some (hp_algorithm_version policy),
      p_digest = Some digest_text, p_bytes_hashed = Some size_read, p_provenance = Some DIRECT_READ,
      p_reused_from_snapshot_id = None, p_failure_code = None, p_os_error_code = None\<rparr>"

text \<open>\<open>root / relative_path\<close> of \<open>pathlib\<close>: an absolute right side replaces the left one.\<close>

definition path_join :: "abs_path \<Rightarrow> string \<Rightarrow> abs_path" where
  "path_join root_dir relative =
     (let parts = filter (\<lambda>p. p \<noteq> [] \<and> p \<noteq> ''.'') (split_on (CHR ''/'') relative) in
      if starts_with ''/'' relative then parts else root_dir @ parts)"

definition path_for :: "(string, abs_path) dict \<Rightarrow> filesystem_entry \<Rightarrow> abs_path result" where
  "path_for scope_roots entry =
     (case map_of scope_roots (e_scope_id entry) of
        None \<Rightarrow> Inl PyKeyError
      | Some root_dir \<Rightarrow>
          Inr (if e_relative_path entry = ''.'' then root_dir
               else path_join root_dir (e_relative_path entry)))"

definition stat_identity :: "stat_result \<Rightarrow> int \<times> int \<times> int \<times> int \<times> int" where
  "stat_identity st = (st_dev st, st_ino st, st_size st, st_mtime_ns st, st_ctime_ns st)"

definition entry_matches_stat :: "filesystem_entry \<Rightarrow> stat_result \<Rightarrow> bool" where
  "entry_matches_stat entry st \<longleftrightarrow>
     e_device_id entry = Some (st_dev st) \<and> e_inode entry = Some (st_ino st)
     \<and> e_size_bytes entry = Some (st_size st) \<and> e_mtime_ns entry = Some (st_mtime_ns st)
     \<and> e_ctime_ns entry = Some (st_ctime_ns st)"

definition v2_entry :: "filesystem_entry \<Rightarrow> payload_observation \<Rightarrow> filesystem_entry" where
  "v2_entry entry observation =
     entry\<lparr>e_v2 := Some \<lparr>v2_allocated_size_bytes = None, v2_payload_observation = observation\<rparr>\<rparr>"

section \<open>The operating system\<close>

datatype payload_locality = LOCAL | NON_LOCAL | LOCALITY_UNKNOWN

text \<open>
  The answers, each at a moment. A descriptor is named by the path it was opened for, as only one is
  open at a time. \<open>he_locality\<close> is \<open>None\<close> where the provider raises; \<open>he_open\<close> and
  \<open>he_close\<close> are \<open>None\<close> where they succeed; \<open>he_nofollow\<close> says whether the platform has
  \<open>O_NOFOLLOW\<close>, and \<open>he_eloop\<close> is its \<open>errno.ELOOP\<close>.
\<close>

record hash_env =
  he_sha256 :: "string \<Rightarrow> string"
  he_clock :: "nat \<Rightarrow> rat"
  he_locality :: "nat \<Rightarrow> abs_path \<Rightarrow> payload_locality option"
  he_open :: "nat \<Rightarrow> abs_path \<Rightarrow> os_error option"
  he_fstat :: "nat \<Rightarrow> abs_path \<Rightarrow> os_error + stat_result"
  he_read :: "nat \<Rightarrow> abs_path \<Rightarrow> int \<Rightarrow> os_error + string"
  he_lstat :: "nat \<Rightarrow> abs_path \<Rightarrow> os_error + stat_result"
  he_close :: "nat \<Rightarrow> abs_path \<Rightarrow> os_error option"
  he_nofollow :: bool
  he_eloop :: int

record hash_state =
  hs_moment :: nat
  hs_bytes :: int

definition tick :: "hash_state \<Rightarrow> hash_state" where
  "tick s = s\<lparr>hs_moment := Suc (hs_moment s)\<rparr>"

definition read_failure :: "hash_env \<Rightarrow> os_error \<Rightarrow> payload_observation" where
  "read_failure env e =
     (if oe_errno e = 2 then failure NOT_FOUND_DURING_READ None (Some (oe_errno e))
      else if oe_errno e = 13 \<or> oe_errno e = 1 then failure PAYLOAD_PERMISSION_DENIED None (Some (oe_errno e))
      else if oe_errno e = he_eloop env then failure NOT_FOUND_DURING_READ None (Some (oe_errno e))
      else failure PAYLOAD_IO_ERROR None (Some (oe_errno e)))"

section \<open>Reading one file\<close>

text \<open>The limits, unpacked from a valid policy.\<close>

record hash_limits =
  hl_file :: int
  hl_total :: int
  hl_duration :: rat
  hl_chunk :: int

definition limits_of :: "payload_hash_policy \<Rightarrow> hash_limits" where
  "limits_of policy =
     \<lparr>hl_file = the (hp_max_hash_file_bytes policy), hl_total = the (hp_max_total_hash_bytes policy),
      hl_duration = the (hp_max_hash_duration_seconds policy), hl_chunk = hp_hash_chunk_size policy\<rparr>"

datatype read_end = ReadTimedOut | ReadStopped payload_observation_status | ReadAll string

text \<open>
  The reading loop. The bytes fed to the hasher are kept; it ends, as every turn that goes on has
  read something and the file limit bounds what is read.
\<close>

function read_loop ::
  "hash_env \<Rightarrow> hash_limits \<Rightarrow> rat \<Rightarrow> abs_path \<Rightarrow> string \<Rightarrow> hash_state \<Rightarrow> (os_error + read_end) \<times> hash_state"
where
  "read_loop env limits started path content s =
     (if hl_duration limits \<le> he_clock env (hs_moment s) - started then (Inr ReadTimedOut, tick s)
      else
        (case he_read env (hs_moment (tick s)) path (hl_chunk limits) of
           Inl e \<Rightarrow> (Inl e, tick (tick s))
         | Inr chunk \<Rightarrow>
             if chunk = [] then (Inr (ReadAll content), tick (tick s))
             else
               let s' = (tick (tick s))\<lparr>hs_bytes := hs_bytes s + int (length chunk)\<rparr>;
                   content' = content @ chunk in
               if hl_file limits < int (length content') then (Inr (ReadStopped FILE_TOO_LARGE), s')
               else if hl_total limits < hs_bytes s' then (Inr (ReadStopped TOTAL_BYTE_BUDGET_EXHAUSTED), s')
               else read_loop env limits started path content' s'))"
  by pat_completeness auto
termination
  by (relation "measure (\<lambda>(env, limits, started, path, content, s). nat (hl_file limits + 1 - int (length content)))")
    (auto simp: tick_def)

declare read_loop.simps [simp del]

text \<open>What follows a complete read: the file is compared with what it was.\<close>

definition check_unchanged ::
  "hash_env \<Rightarrow> payload_hash_policy \<Rightarrow> abs_path \<Rightarrow> stat_result \<Rightarrow> string \<Rightarrow> hash_state \<Rightarrow>
     (os_error + payload_observation) \<times> hash_state" where
  "check_unchanged env policy path before content s =
     (case he_fstat env (hs_moment s) path of
        Inl e \<Rightarrow> (Inl e, tick s)
      | Inr after \<Rightarrow>
          let verdict = (\<lambda>path_after.
            if int (length content) \<noteq> st_size before \<or> stat_identity before \<noteq> stat_identity after
               \<or> path_after = None \<or> stat_identity before \<noteq> stat_identity (the path_after)
            then failure CHANGED_DURING_READ None None
            else success policy (he_sha256 env content) (int (length content))) in
          (case he_lstat env (hs_moment (tick s)) path of
             Inl e \<Rightarrow> if oe_errno e = 2 then (Inr (verdict None), tick (tick s)) else (Inl e, tick (tick s))
           | Inr path_after \<Rightarrow> (Inr (verdict (Some path_after)), tick (tick s))))"

text \<open>The body of the \<open>try\<close> after the descriptor is open.\<close>

definition read_descriptor ::
  "hash_env \<Rightarrow> payload_hash_policy \<Rightarrow> rat \<Rightarrow> filesystem_entry \<Rightarrow> abs_path \<Rightarrow> hash_state \<Rightarrow>
     (os_error + payload_observation) \<times> hash_state" where
  "read_descriptor env policy started entry path s =
     (case he_fstat env (hs_moment s) path of
        Inl e \<Rightarrow> (Inl e, tick s)
      | Inr before \<Rightarrow>
          let limits = limits_of policy; s1 = tick s in
          if \<not> is_reg (st_mode before) then (Inr (failure NOT_REGULAR_FILE None None), s1)
          else if \<not> entry_matches_stat entry before then (Inr (failure CHANGED_DURING_READ None None), s1)
          else if hl_file limits < st_size before then (Inr (failure FILE_TOO_LARGE None None), s1)
          else if hl_total limits - hs_bytes s1 < st_size before
          then (Inr (failure TOTAL_BYTE_BUDGET_EXHAUSTED None None), s1)
          else
            (case read_loop env limits started path [] s1 of
               (Inl e, s2) \<Rightarrow> (Inl e, s2)
             | (Inr (ReadStopped status), s2) \<Rightarrow> (Inr (failure status None None), s2)
             | (Inr ReadTimedOut, s2) \<Rightarrow> (Inr (failure TIME_BUDGET_EXHAUSTED None None), s2)
             | (Inr (ReadAll content), s2) \<Rightarrow> check_unchanged env policy path before content s2))"

text \<open>\<open>finally\<close>: an error of \<open>close\<close> leaves the function.\<close>

definition close_descriptor :: "hash_env \<Rightarrow> abs_path \<Rightarrow> hash_state \<Rightarrow> hash_state result" where
  "close_descriptor env path s =
     (case he_close env (hs_moment s) path of None \<Rightarrow> Inr (tick s) | Some _ \<Rightarrow> Inl PyOSError)"

definition read_payload ::
  "hash_env \<Rightarrow> payload_hash_policy \<Rightarrow> rat \<Rightarrow> filesystem_entry \<Rightarrow> abs_path \<Rightarrow> hash_state \<Rightarrow>
     (payload_observation \<times> hash_state) result" where
  "read_payload env policy started entry path s =
     (case he_open env (hs_moment s) path of
        Some e \<Rightarrow> Inr (read_failure env e, tick s)
      | None \<Rightarrow>
          (case read_descriptor env policy started entry path (tick s) of
             (outcome, s1) \<Rightarrow>
               bind_result (close_descriptor env path s1) (\<lambda>s2.
                 Inr (case outcome of Inl e \<Rightarrow> read_failure env e | Inr observation \<Rightarrow> observation, s2))))"

section \<open>observe_direct_payloads\<close>

definition locality_of :: "hash_env \<Rightarrow> nat \<Rightarrow> abs_path \<Rightarrow> payload_locality" where
  "locality_of env moment path =
     (case he_locality env moment path of None \<Rightarrow> LOCALITY_UNKNOWN | Some l \<Rightarrow> l)"

definition observe_payload ::
  "hash_env \<Rightarrow> payload_hash_policy \<Rightarrow> (string, abs_path) dict \<Rightarrow> rat \<Rightarrow> filesystem_entry \<Rightarrow> hash_state \<Rightarrow>
     (payload_observation \<times> hash_state) result" where
  "observe_payload env policy by_scope started entry s =
     (let limits = limits_of policy; s1 = tick s in
      if e_object_type entry \<noteq> REGULAR_FILE then Inr (failure NOT_REGULAR_FILE None None, s)
      else if e_excluded entry then Inr (failure PAYLOAD_UNSUPPORTED (Some ''ENTRY_EXCLUDED'') None, s)
      else if e_observation_status entry \<noteq> OBSERVED \<or> e_size_bytes entry = None
      then Inr (failure PAYLOAD_UNSUPPORTED (Some ''METADATA_UNAVAILABLE'') None, s)
      else if hl_duration limits \<le> he_clock env (hs_moment s) - started
      then Inr (failure TIME_BUDGET_EXHAUSTED None None, s1)
      else if hl_file limits < the (e_size_bytes entry) then Inr (failure FILE_TOO_LARGE None None, s1)
      else if hl_total limits - hs_bytes s < the (e_size_bytes entry)
      then Inr (failure TOTAL_BYTE_BUDGET_EXHAUSTED None None, s1)
      else
        bind_result (path_for by_scope entry) (\<lambda>path.
          case locality_of env (hs_moment s1) path of
            NON_LOCAL \<Rightarrow> Inr (failure NOT_LOCAL None None, tick s1)
          | LOCALITY_UNKNOWN \<Rightarrow> Inr (failure PAYLOAD_UNSUPPORTED (Some ''LOCALITY_UNKNOWN'') None, tick s1)
          | LOCAL \<Rightarrow>
              if \<not> he_nofollow env then Inr (failure PAYLOAD_UNSUPPORTED (Some ''NO_NOFOLLOW'') None, tick s1)
              else read_payload env policy started entry path (tick s1)))"

fun observe_each ::
  "hash_env \<Rightarrow> payload_hash_policy \<Rightarrow> (string, abs_path) dict \<Rightarrow> rat \<Rightarrow> filesystem_entry list \<Rightarrow> hash_state \<Rightarrow>
     (filesystem_entry list \<times> hash_state) result" where
  "observe_each env policy by_scope started [] s = Inr ([], s)"
| "observe_each env policy by_scope started (entry # rest) s =
     bind_result (observe_payload env policy by_scope started entry s) (\<lambda>(observation, s1).
     bind_result (observe_each env policy by_scope started rest s1) (\<lambda>(out, s2).
       Inr (v2_entry entry observation # out, s2)))"

definition scope_roots :: "scope_config list \<Rightarrow> (string, abs_path) dict" where
  "scope_roots scopes = dict_of (map (\<lambda>s. (sc_scope_id s, sc_normalized_path s)) scopes)"

definition observe_direct_payloads ::
  "hash_env \<Rightarrow> filesystem_entry list \<Rightarrow> scope_config list \<Rightarrow> payload_hash_policy \<Rightarrow> rat option \<Rightarrow> int option \<Rightarrow>
     hash_state \<Rightarrow> (filesystem_entry list \<times> hash_state) result" where
  "observe_direct_payloads env entries scopes policy started_at bytes_read s =
     bind_result (validate_payload_hash_policy policy) (\<lambda>_.
       let (started, s1) = (case started_at of None \<Rightarrow> (he_clock env (hs_moment s), tick s) | Some t \<Rightarrow> (t, s));
           s2 = s1\<lparr>hs_bytes := (case bytes_read of None \<Rightarrow> 0 | Some n \<Rightarrow> n)\<rparr> in
       observe_each env policy (scope_roots scopes) started (sort_key location entries) s2)"

section \<open>observe_payloads\<close>

text \<open>
  The probe for a verified earlier observation: it is reused, the entry is settled without one, or
  the direct reader goes on. The resolver may raise; only an \<open>OSError\<close> is caught.
\<close>

datatype probe_result = Reused payload_observation | Settled payload_observation | ReadDirectly

type_synonym reuse_resolver = "nat \<Rightarrow> filesystem_entry \<Rightarrow> payload_observation option result"

definition probe_descriptor ::
  "hash_env \<Rightarrow> rat \<Rightarrow> rat \<Rightarrow> reuse_resolver \<Rightarrow> filesystem_entry \<Rightarrow> abs_path \<Rightarrow> hash_state \<Rightarrow>
     (exn + probe_result) \<times> hash_state" where
  "probe_descriptor env max_duration started resolver entry path s =
     (case he_fstat env (hs_moment s) path of
        Inl _ \<Rightarrow> (Inr ReadDirectly, tick s)
      | Inr before \<Rightarrow>
          let s1 = tick s in
          if \<not> (is_reg (st_mode before) \<and> entry_matches_stat entry before) then (Inr ReadDirectly, s1)
          else
            (case resolver (hs_moment s1) entry of
               Inl e \<Rightarrow> (if e = PyOSError then Inr ReadDirectly else Inl e, tick s1)
             | Inr candidate \<Rightarrow>
                 let s2 = tick s1 in
                 (case he_fstat env (hs_moment s2) path of
                    Inl _ \<Rightarrow> (Inr ReadDirectly, tick s2)
                  | Inr after \<Rightarrow>
                      let s3 = tick s2 in
                      if max_duration \<le> he_clock env (hs_moment s3) - started
                      then (Inr (Settled (failure TIME_BUDGET_EXHAUSTED None None)), tick s3)
                      else
                        (Inr (if candidate \<noteq> None \<and> stat_identity before = stat_identity after
                           then Reused (the candidate) else ReadDirectly), tick s3))))"

definition probe_entry ::
  "hash_env \<Rightarrow> rat \<Rightarrow> rat \<Rightarrow> reuse_resolver \<Rightarrow> (string, abs_path) dict \<Rightarrow> filesystem_entry \<Rightarrow> hash_state \<Rightarrow>
     (probe_result \<times> hash_state) result" where
  "probe_entry env max_duration started resolver roots entry s =
     (if e_object_type entry \<noteq> REGULAR_FILE \<or> e_excluded entry \<or> e_observation_status entry \<noteq> OBSERVED
         \<or> e_size_bytes entry = None
      then Inr (ReadDirectly, s)
      else if max_duration \<le> he_clock env (hs_moment s) - started then Inr (ReadDirectly, tick s)
      else
        bind_result (path_for roots entry) (\<lambda>path.
          let s1 = tick s; s2 = tick s1 in
          case locality_of env (hs_moment s1) path of
            NON_LOCAL \<Rightarrow> Inr (Settled (failure NOT_LOCAL None None), s2)
          | LOCALITY_UNKNOWN \<Rightarrow> Inr (Settled (failure PAYLOAD_UNSUPPORTED (Some ''LOCALITY_UNKNOWN'') None), s2)
          | LOCAL \<Rightarrow>
              if \<not> he_nofollow env then Inr (ReadDirectly, s2)
              else
                (case he_open env (hs_moment s2) path of
                   Some _ \<Rightarrow> Inr (ReadDirectly, tick s2)
                 | None \<Rightarrow>
                     (case probe_descriptor env max_duration started resolver entry path (tick s2) of
                        (outcome, s3) \<Rightarrow>
                          bind_result (close_descriptor env path s3) (\<lambda>s4.
                            bind_result outcome (\<lambda>probe. Inr (probe, s4)))))))"

fun observe_with_reuse ::
  "hash_env \<Rightarrow> scope_config list \<Rightarrow> payload_hash_policy \<Rightarrow> rat \<Rightarrow> reuse_resolver \<Rightarrow> filesystem_entry list \<Rightarrow>
     hash_state \<Rightarrow> (filesystem_entry list \<times> hash_state) result" where
  "observe_with_reuse env scopes policy started resolver [] s = Inr ([], s)"
| "observe_with_reuse env scopes policy started resolver (entry # rest) s =
     bind_result (probe_entry env (hl_duration (limits_of policy)) started resolver (scope_roots scopes) entry s)
       (\<lambda>(probe, s1).
     bind_result
       (case probe of
          Reused observation \<Rightarrow> Inr ([v2_entry entry observation], s1)
        | Settled observation \<Rightarrow> Inr ([v2_entry entry observation], s1)
        | ReadDirectly \<Rightarrow>
            observe_direct_payloads env [entry] scopes policy (Some started) (Some (hs_bytes s1)) s1)
       (\<lambda>(own, s2).
     bind_result (observe_with_reuse env scopes policy started resolver rest s2) (\<lambda>(out, s3).
       Inr (own @ out, s3))))"

definition observe_payloads ::
  "hash_env \<Rightarrow> filesystem_entry list \<Rightarrow> scope_config list \<Rightarrow> payload_hash_policy \<Rightarrow> reuse_resolver option \<Rightarrow>
     hash_state \<Rightarrow> (filesystem_entry list \<times> hash_state) result" where
  "observe_payloads env entries scopes policy reuse s =
     bind_result (validate_payload_hash_policy policy) (\<lambda>_.
       case (hp_allow_verified_reuse policy, reuse) of
         (True, Some resolver) \<Rightarrow>
           observe_with_reuse env scopes policy (he_clock env (hs_moment s)) resolver
             (sort_key location entries) ((tick s)\<lparr>hs_bytes := 0\<rparr>)
       | _ \<Rightarrow> observe_direct_payloads env entries scopes policy None None s)"

end
