(* ===== verification/Payload_Hashing_Correct.thy ===== *)
theory Payload_Hashing_Correct
  imports Payload_Hashing
begin

text \<open>
  What the payload observations promise: a digest stands for bytes that were read from the file the
  entry describes, while it did not change; the budgets hold; and nothing but the payload facts is
  added to the entries.
\<close>

section \<open>Policies\<close>

lemma policy_invalid_Inr [simp]: "policy_invalid m \<noteq> Inr u"
  by (simp add: policy_invalid_def)

lemma positive_int_Inr [simp]: "positive_int v name = Inr n \<longleftrightarrow> v = Some n \<and> 0 < n"
  by (auto simp: positive_int_def split: option.splits if_splits)

lemma validate_policy_facts:
  assumes "validate_payload_hash_policy policy = Inr u"
  shows "0 < hl_file (limits_of policy)" "0 < hl_total (limits_of policy)" "65536 \<le> hl_chunk (limits_of policy)"
    "hp_max_hash_file_bytes policy = Some (hl_file (limits_of policy))"
    "hp_max_total_hash_bytes policy = Some (hl_total (limits_of policy))"
  using assms
  by (auto simp: validate_payload_hash_policy_def limits_of_def bind_result_Inr_iff split: if_splits)

section \<open>The reading loop\<close>

text \<open>The chunks that reads at every other moment return, up to the empty one.\<close>

fun reads_all :: "hash_env \<Rightarrow> int \<Rightarrow> abs_path \<Rightarrow> string list \<Rightarrow> nat \<Rightarrow> bool" where
  "reads_all env n path [] m \<longleftrightarrow> he_read env (m + 1) path n = Inr []"
| "reads_all env n path (c # cs) m \<longleftrightarrow>
     c \<noteq> [] \<and> he_read env (m + 1) path n = Inr c \<and> reads_all env n path cs (m + 2)"

lemma tick_simps [simp]: "hs_moment (tick s) = Suc (hs_moment s)" "hs_bytes (tick s) = hs_bytes s"
  by (simp_all add: tick_def)

lemma read_loop_all:
  "read_loop env limits started path content s = (Inr (ReadAll whole), s') \<Longrightarrow>
   int (length content) \<le> hl_file limits \<Longrightarrow> content = [] \<or> hs_bytes s \<le> hl_total limits \<Longrightarrow>
   \<exists>chunks. whole = content @ concat chunks \<and> reads_all env (hl_chunk limits) path chunks (hs_moment s)
     \<and> hs_moment s' = hs_moment s + 2 * length chunks + 2
     \<and> hs_bytes s' = hs_bytes s + int (length (concat chunks))
     \<and> int (length whole) \<le> hl_file limits \<and> (whole = [] \<or> hs_bytes s' \<le> hl_total limits)"
proof (induction env limits started path content s arbitrary: whole s' rule: read_loop.induct)
  case (1 env limits started path content s)
  note run = "1.prems"(1) [unfolded read_loop.simps [of env limits started path content s]]
  from run obtain chunk where chunk: "he_read env (hs_moment (tick s)) path (hl_chunk limits) = Inr chunk"
    and timely: "\<not> hl_duration limits \<le> he_clock env (hs_moment s) - started"
    by (auto split: if_splits sum.splits)
  show ?case
  proof (cases "chunk = []")
    case True
    with run chunk timely "1.prems" show ?thesis by (intro exI [of _ "[]"]) auto
  next
    case False
    let ?s = "(tick (tick s))\<lparr>hs_bytes := hs_bytes s + int (length chunk)\<rparr>"
    from run chunk timely False
    have go: "\<not> hl_file limits < int (length (content @ chunk))" "\<not> hl_total limits < hs_bytes ?s"
      and rest: "read_loop env limits started path (content @ chunk) ?s = (Inr (ReadAll whole), s')"
      by (auto simp: Let_def split: if_splits)
    have "int (length (content @ chunk)) \<le> hl_file limits" "content @ chunk = [] \<or> hs_bytes ?s \<le> hl_total limits"
      using go by auto
    from "1.IH" [OF timely chunk False refl refl go rest this] False obtain chunks where
      "whole = (content @ chunk) @ concat chunks" "reads_all env (hl_chunk limits) path chunks (hs_moment s + 2)"
      "hs_moment s' = hs_moment s + 2 + 2 * length chunks + 2"
      "hs_bytes s' = hs_bytes s + int (length chunk) + int (length (concat chunks))"
      "int (length whole) \<le> hl_file limits" "whole = [] \<or> hs_bytes s' \<le> hl_total limits"
      by (auto simp del: concat_eq_Nil_conv Nil_eq_concat_conv append_is_Nil_conv)
    then show ?thesis using chunk False by (intro exI [of _ "chunk # chunks"]) auto
  qed
qed

text \<open>\<open>os.read\<close> returns at most as many bytes as it is asked for.\<close>

definition short_reads :: "hash_env \<Rightarrow> bool" where
  "short_reads env \<longleftrightarrow> (\<forall>m path n chunk. 0 \<le> n \<longrightarrow> he_read env m path n = Inr chunk \<longrightarrow> int (length chunk) \<le> n)"

lemma read_loop_bytes:
  "read_loop env limits started path content s = (outcome, s') \<Longrightarrow>
   hs_bytes s \<le> hs_bytes s'
   \<and> (short_reads env \<longrightarrow> 0 \<le> hl_chunk limits \<longrightarrow> hs_bytes s \<le> hl_total limits \<longrightarrow>
        hs_bytes s' \<le> hl_total limits + hl_chunk limits)"
proof (induction env limits started path content s arbitrary: outcome s' rule: read_loop.induct)
  case (1 env limits started path content s)
  note run = "1.prems" [unfolded read_loop.simps [of env limits started path content s]]
  show ?case
  proof (cases "hl_duration limits \<le> he_clock env (hs_moment s) - started")
    case True
    with run show ?thesis by auto
  next
    case timely: False
    show ?thesis
    proof (cases "he_read env (hs_moment (tick s)) path (hl_chunk limits)")
      case (Inl e)
      with run timely show ?thesis by auto
    next
      case (Inr chunk)
      let ?s = "(tick (tick s))\<lparr>hs_bytes := hs_bytes s + int (length chunk)\<rparr>"
      have short: "short_reads env \<Longrightarrow> 0 \<le> hl_chunk limits \<Longrightarrow> int (length chunk) \<le> hl_chunk limits"
        using Inr by (auto simp: short_reads_def)
      show ?thesis
      proof (cases "chunk = [] \<or> hl_file limits < int (length (content @ chunk)) \<or> hl_total limits < hs_bytes ?s")
        case True
        with run timely Inr have "hs_bytes s' = hs_bytes s + int (length chunk)"
          by (auto simp: Let_def split: if_splits)
        with short show ?thesis by auto
      next
        case False
        with run timely Inr
        have rest: "read_loop env limits started path (content @ chunk) ?s = (outcome, s')"
          by (auto simp: Let_def split: if_splits)
        from False have go: "chunk \<noteq> []" "\<not> hl_file limits < int (length (content @ chunk))"
          "\<not> hl_total limits < hs_bytes ?s" by auto
        from "1.IH" [OF timely Inr go(1) refl refl go(2, 3) rest] go(3) show ?thesis by auto
      qed
    qed
  qed
qed

lemma read_loop_stopped:
  "read_loop env limits started path content s = (Inr (ReadStopped status), s') \<Longrightarrow>
   status \<in> {FILE_TOO_LARGE, TOTAL_BYTE_BUDGET_EXHAUSTED}"
proof (induction env limits started path content s arbitrary: s' rule: read_loop.induct)
  case (1 env limits started path content s)
  note run = "1.prems" [unfolded read_loop.simps [of env limits started path content s]]
  show ?case
    using run "1.IH" by (auto simp: Let_def split: if_splits sum.splits)
qed

section \<open>One file\<close>

definition failed :: "payload_observation \<Rightarrow> bool" where
  "failed observation \<longleftrightarrow> p_digest observation = None \<and> p_bytes_hashed observation = None
     \<and> p_provenance observation = None \<and> p_reused_from_snapshot_id observation = None
     \<and> p_status observation \<notin> {HASHED, EMPTY_FILE_HASHED}"

lemma failed_failure [simp]:
  "failed (failure status code os_error_code) \<longleftrightarrow> status \<notin> {HASHED, EMPTY_FILE_HASHED}"
  by (simp add: failed_def failure_def)

lemma failed_read_failure [simp]: "failed (read_failure env e)"
  by (simp add: read_failure_def)

text \<open>
  The observation of a content: opened at a moment, the descriptor is the regular file of the entry,
  reads return the content up to its end, and then descriptor and path still have the same identity.
\<close>

definition read_unchanged ::
  "hash_env \<Rightarrow> payload_hash_policy \<Rightarrow> abs_path \<Rightarrow> filesystem_entry \<Rightarrow> string \<Rightarrow> bool" where
  "read_unchanged env policy path entry content \<longleftrightarrow>
     (\<exists>m chunks before after path_after. content = concat chunks \<and> he_open env m path = None
        \<and> he_fstat env (m + 1) path = Inr before \<and> is_reg (st_mode before) \<and> entry_matches_stat entry before
        \<and> reads_all env (hp_hash_chunk_size policy) path chunks (m + 2)
        \<and> he_fstat env (m + 2 * length chunks + 4) path = Inr after
        \<and> he_lstat env (m + 2 * length chunks + 5) path = Inr path_after
        \<and> stat_identity after = stat_identity before \<and> stat_identity path_after = stat_identity before
        \<and> e_size_bytes entry = Some (int (length content)))"

definition honest ::
  "hash_env \<Rightarrow> payload_hash_policy \<Rightarrow> (string, abs_path) dict \<Rightarrow> filesystem_entry \<Rightarrow> payload_observation \<Rightarrow> bool" where
  "honest env policy by_scope entry observation \<longleftrightarrow>
     (\<exists>path content. path_for by_scope entry = Inr path \<and> read_unchanged env policy path entry content
        \<and> observation = success policy (he_sha256 env content) (int (length content)))"

text \<open>What one file may do to the count of bytes; the last alternative is a success.\<close>

definition spends :: "hash_limits \<Rightarrow> hash_env \<Rightarrow> hash_state \<Rightarrow> payload_observation \<Rightarrow> hash_state \<Rightarrow> bool" where
  "spends limits env s observation s' \<longleftrightarrow>
     hs_bytes s \<le> hs_bytes s'
     \<and> (short_reads env \<longrightarrow> 0 \<le> hl_chunk limits \<longrightarrow> hs_bytes s \<le> hl_total limits + hl_chunk limits \<longrightarrow>
          hs_bytes s' \<le> hl_total limits + hl_chunk limits)
     \<and> (failed observation
        \<or> (\<exists>n. p_bytes_hashed observation = Some (int n) \<and> hs_bytes s' = hs_bytes s + int n
             \<and> int n \<le> hl_file limits \<and> (n = 0 \<or> hs_bytes s' \<le> hl_total limits)))"

definition sized :: "filesystem_entry \<Rightarrow> bool" where
  "sized entry \<longleftrightarrow> (\<forall>n. e_size_bytes entry = Some n \<longrightarrow> 0 \<le> n)"

lemma spends_refl: "failed observation \<Longrightarrow> hs_bytes s' = hs_bytes s \<Longrightarrow> spends limits env s observation s'"
  by (auto simp: spends_def)

lemma check_unchanged_cases:
  assumes "check_unchanged env policy path before content s = (outcome, s')"
  obtains e where "outcome = Inl e" "hs_bytes s' = hs_bytes s"
  | "outcome = Inr (failure CHANGED_DURING_READ None None)" "hs_bytes s' = hs_bytes s"
  | after path_after where "outcome = Inr (success policy (he_sha256 env content) (int (length content)))"
      "hs_bytes s' = hs_bytes s" "he_fstat env (hs_moment s) path = Inr after"
      "he_lstat env (Suc (hs_moment s)) path = Inr path_after" "stat_identity after = stat_identity before"
      "stat_identity path_after = stat_identity before" "st_size before = int (length content)"
  using assms by (auto simp: check_unchanged_def Let_def split: sum.splits if_splits)

lemma read_descriptor_cases:
  assumes "read_descriptor env policy started entry path s = (outcome, s')"
    and "he_open env m path = None" "hs_moment s = m + 1" "0 < hl_file (limits_of policy)"
    and "path_for by_scope entry = Inr path"
  shows "sized entry \<Longrightarrow> spends (limits_of policy) env s (case outcome of Inl e \<Rightarrow> read_failure env e | Inr obs \<Rightarrow> obs) s'"
    and "case outcome of Inl _ \<Rightarrow> True | Inr obs \<Rightarrow> failed obs \<or> honest env policy by_scope entry obs"
proof -
  let ?limits = "limits_of policy"
  note run = assms(1) [unfolded read_descriptor_def Let_def]
  have "(sized entry \<longrightarrow> spends ?limits env s (case outcome of Inl e \<Rightarrow> read_failure env e | Inr obs \<Rightarrow> obs) s')
    \<and> (case outcome of Inl _ \<Rightarrow> True | Inr obs \<Rightarrow> failed obs \<or> honest env policy by_scope entry obs)"
  proof (cases "he_fstat env (hs_moment s) path")
    case (Inl e)
    with run show ?thesis by (auto intro: spends_refl)
  next
    case (Inr before)
    show ?thesis
    proof (cases "is_reg (st_mode before) \<and> entry_matches_stat entry before \<and> \<not> hl_file ?limits < st_size before
        \<and> \<not> hl_total ?limits - hs_bytes (tick s) < st_size before")
      case False
      with run Inr show ?thesis by (auto intro!: spends_refl split: if_splits)
    next
      case True
      obtain ending s2 where loop: "read_loop env ?limits started path [] (tick s) = (ending, s2)"
        by fastforce
      have room: "sized entry \<Longrightarrow> hs_bytes (tick s) \<le> hl_total ?limits"
        using True by (auto simp: entry_matches_stat_def sized_def)
      note spent = read_loop_bytes [OF loop]
      from run Inr True loop
      have ending: "(outcome, s') = (case ending of Inl e \<Rightarrow> (Inl e, s2)
         | Inr (ReadStopped status) \<Rightarrow> (Inr (failure status None None), s2)
         | Inr ReadTimedOut \<Rightarrow> (Inr (failure TIME_BUDGET_EXHAUSTED None None), s2)
         | Inr (ReadAll content) \<Rightarrow> check_unchanged env policy path before content s2)"
        by (auto split: sum.splits read_end.splits)
      show ?thesis
      proof (cases "\<exists>content. ending = Inr (ReadAll content)")
        case False
        then have "failed (case outcome of Inl e \<Rightarrow> read_failure env e | Inr obs \<Rightarrow> obs) \<and> s' = s2
            \<and> (case outcome of Inl _ \<Rightarrow> True | Inr obs \<Rightarrow> failed obs)"
          using ending loop read_loop_stopped [of env ?limits started path "[]" "tick s" _ s2]
          by (auto split: sum.splits read_end.splits)
        with spent room show ?thesis by (auto simp: spends_def split: sum.splits)
      next
        case True
        then obtain content where content: "ending = Inr (ReadAll content)" ..
        with ending have check: "check_unchanged env policy path before content s2 = (outcome, s')" by simp
        from read_loop_all [OF loop [unfolded content]] assms(4) obtain chunks where
          chunks: "content = concat chunks" "reads_all env (hl_chunk ?limits) path chunks (Suc (hs_moment s))"
            "hs_moment s2 = Suc (hs_moment s) + 2 * length chunks + 2"
            "hs_bytes s2 = hs_bytes s + int (length content)" "int (length content) \<le> hl_file ?limits"
            "content = [] \<or> hs_bytes s2 \<le> hl_total ?limits"
          by (auto simp del: concat_eq_Nil_conv Nil_eq_concat_conv)
        show ?thesis
        proof (cases rule: check_unchanged_cases [OF check])
          case (3 after path_after)
          have "read_unchanged env policy path entry content"
            unfolding read_unchanged_def using 3 chunks(1-3) assms(2, 3) Inr \<open>is_reg _ \<and> _\<close>
            by (intro exI [of _ m] exI [of _ chunks] exI [of _ before] exI [of _ after] exI [of _ path_after])
              (auto simp: limits_of_def entry_matches_stat_def numeral_eq_Suc)
          then have "honest env policy by_scope entry (success policy (he_sha256 env content) (int (length content)))"
            unfolding honest_def using assms(5) by blast
          then show ?thesis using 3 chunks spent room by (auto simp: spends_def success_def)
        qed (use spent room in \<open>auto simp: spends_def split: sum.splits\<close>)
      qed
    qed
  qed
  then show "sized entry \<Longrightarrow> spends ?limits env s (case outcome of Inl e \<Rightarrow> read_failure env e | Inr obs \<Rightarrow> obs) s'"
    "case outcome of Inl _ \<Rightarrow> True | Inr obs \<Rightarrow> failed obs \<or> honest env policy by_scope entry obs"
    by blast+
qed

lemma observe_payload_cases:
  assumes "observe_payload env policy by_scope started entry s = Inr (obs, s')" "0 < hl_file (limits_of policy)"
  shows "sized entry \<Longrightarrow> spends (limits_of policy) env s obs s'" "failed obs \<or> honest env policy by_scope entry obs"
proof -
  have "(sized entry \<longrightarrow> spends (limits_of policy) env s obs s') \<and> (failed obs \<or> honest env policy by_scope entry obs)"
  proof (cases "\<exists>path. path_for by_scope entry = Inr path \<and>
      read_payload env policy started entry path (tick (tick s)) = Inr (obs, s')")
    case False
    with assms(1) show ?thesis
      by (auto simp: observe_payload_def Let_def bind_result_Inr_iff intro!: spends_refl
          split: if_splits payload_locality.splits)
  next
    case True
    then obtain path where path: "path_for by_scope entry = Inr path"
      and read: "read_payload env policy started entry path (tick (tick s)) = Inr (obs, s')" by blast
    show ?thesis
    proof (cases "he_open env (hs_moment (tick (tick s))) path")
      case (Some e)
      with read show ?thesis by (auto simp: read_payload_def intro!: spends_refl)
    next
      case None
      obtain outcome s1 where body: "read_descriptor env policy started entry path (tick (tick (tick s))) = (outcome, s1)"
        by fastforce
      with read None obtain s2 where "close_descriptor env path s1 = Inr s2" "s' = s2"
        "obs = (case outcome of Inl e \<Rightarrow> read_failure env e | Inr obs \<Rightarrow> obs)"
        by (auto simp: read_payload_def bind_result_Inr_iff)
      moreover from this have "hs_bytes s' = hs_bytes s1"
        by (auto simp: close_descriptor_def split: option.splits)
      moreover note read_descriptor_cases [OF body None _ assms(2) path]
      ultimately show ?thesis by (auto simp: spends_def split: sum.splits)
    qed
  qed
  then show "sized entry \<Longrightarrow> spends (limits_of policy) env s obs s'" "failed obs \<or> honest env policy by_scope entry obs" by blast+
qed

end
