(* ===== verification/Payload_Hashing_Properties.thy ===== *)
theory Payload_Hashing_Properties
  imports Payload_Hashing_Correct Filesystem_Scan_Examples
begin

text \<open>
  The properties of \<open>observe_payloads\<close>, for all its entries, with and without the reuse of
  verified observations.
\<close>

section \<open>All entries\<close>

text \<open>
  The reuse of an observation: the resolver gave it for the entry, and before and after that the
  descriptor had the identity of the entry.
\<close>

definition reused_unchanged ::
  "hash_env \<Rightarrow> abs_path \<Rightarrow> reuse_resolver \<Rightarrow> filesystem_entry \<Rightarrow> payload_observation \<Rightarrow> bool" where
  "reused_unchanged env path resolver entry observation \<longleftrightarrow>
     (\<exists>m before after. he_fstat env m path = Inr before \<and> is_reg (st_mode before)
        \<and> entry_matches_stat entry before \<and> resolver (m + 1) entry = Inr (Some observation)
        \<and> he_fstat env (m + 2) path = Inr after \<and> stat_identity after = stat_identity before)"

definition justified ::
  "hash_env \<Rightarrow> payload_hash_policy \<Rightarrow> (string, abs_path) dict \<Rightarrow> reuse_resolver option \<Rightarrow> filesystem_entry \<Rightarrow>
     payload_observation \<Rightarrow> bool" where
  "justified env policy by_scope reuse entry observation \<longleftrightarrow>
     failed observation \<or> honest env policy by_scope entry observation
     \<or> (\<exists>resolver path. reuse = Some resolver \<and> path_for by_scope entry = Inr path
          \<and> reused_unchanged env path resolver entry observation)"

text \<open>The bytes of the direct reads that succeeded.\<close>

definition hashed_bytes :: "filesystem_entry list \<Rightarrow> int" where
  "hashed_bytes out =
     (\<Sum>e \<leftarrow> out. case e_v2 e of None \<Rightarrow> 0
        | Some facts \<Rightarrow> (case p_bytes_hashed (v2_payload_observation facts) of None \<Rightarrow> 0 | Some n \<Rightarrow> n))"

lemma hashed_bytes_simps [simp]:
  "hashed_bytes [] = 0"
  "hashed_bytes (v2_entry entry obs # out) = (case p_bytes_hashed obs of None \<Rightarrow> 0 | Some n \<Rightarrow> n) + hashed_bytes out"
  by (simp_all add: hashed_bytes_def v2_entry_def)

lemma observe_each_justified:
  "observe_each env policy by_scope started entries s = Inr (out, s') \<Longrightarrow> 0 < hl_file (limits_of policy) \<Longrightarrow>
   list_all2 (\<lambda>entry e. \<exists>obs. e = v2_entry entry obs \<and> (failed obs \<or> honest env policy by_scope entry obs)) entries out"
proof (induction entries arbitrary: s out)
  case (Cons entry rest)
  then obtain obs s1 tail where parts: "observe_payload env policy by_scope started entry s = Inr (obs, s1)"
    "observe_each env policy by_scope started rest s1 = Inr (tail, s')" "out = v2_entry entry obs # tail"
    by (auto simp: bind_result_Inr_iff)
  with Cons.IH [OF parts(2) Cons.prems(2)] observe_payload_cases(2) [OF parts(1) Cons.prems(2)] show ?case by auto
qed simp

text \<open>A count of bytes within the budget, of which at most the budget was hashed.\<close>

definition in_budget :: "hash_limits \<Rightarrow> hash_env \<Rightarrow> int \<Rightarrow> hash_state \<Rightarrow> bool" where
  "in_budget limits env hashed s \<longleftrightarrow>
     0 \<le> hashed \<and> hashed \<le> hl_total limits \<and> hashed \<le> hs_bytes s
     \<and> (short_reads env \<longrightarrow> hs_bytes s \<le> hl_total limits + hl_chunk limits)"

lemma in_budget_spends:
  assumes "in_budget limits env hashed s" "spends limits env s obs s'" "0 \<le> hl_chunk limits"
  shows "in_budget limits env (hashed + (case p_bytes_hashed obs of None \<Rightarrow> 0 | Some n \<Rightarrow> n)) s'"
  using assms by (auto simp: in_budget_def spends_def failed_def)

lemma observe_each_budget:
  "observe_each env policy by_scope started entries s = Inr (out, s') \<Longrightarrow> 0 < hl_file (limits_of policy) \<Longrightarrow>
   0 \<le> hl_chunk (limits_of policy) \<Longrightarrow> list_all sized entries \<Longrightarrow> in_budget (limits_of policy) env hashed s \<Longrightarrow>
   in_budget (limits_of policy) env (hashed + hashed_bytes out) s'"
proof (induction entries arbitrary: s out hashed)
  case (Cons entry rest)
  then obtain obs s1 tail where parts: "observe_payload env policy by_scope started entry s = Inr (obs, s1)"
    "observe_each env policy by_scope started rest s1 = Inr (tail, s')" "out = v2_entry entry obs # tail"
    by (auto simp: bind_result_Inr_iff)
  from observe_payload_cases(1) [OF parts(1) Cons.prems(2)] Cons.prems(4)
  have "spends (limits_of policy) env s obs s1" by simp
  from in_budget_spends [OF Cons.prems(5) this Cons.prems(3)] Cons.IH [OF parts(2) Cons.prems(2, 3)] Cons.prems(4)
  show ?case unfolding parts(3) hashed_bytes_simps add.assoc [symmetric] by simp
qed simp

lemma direct_parts:
  assumes "observe_direct_payloads env entries scopes policy started_at bytes_read s = Inr (out, s')"
  obtains started s1 where "validate_payload_hash_policy policy = Inr ()"
    "observe_each env policy (scope_roots scopes) started (sort_key location entries) s1 = Inr (out, s')"
    "hs_bytes s1 = (case bytes_read of None \<Rightarrow> 0 | Some n \<Rightarrow> n)"
  using assms by (auto simp: observe_direct_payloads_def bind_result_Inr_iff Let_def split: option.splits)

section \<open>With reuse\<close>

lemma probe_entry_cases:
  assumes "probe_entry env max_duration started resolver roots entry s = Inr (probe, s')"
  shows "hs_bytes s' = hs_bytes s"
    and "case probe of ReadDirectly \<Rightarrow> True | Settled obs \<Rightarrow> failed obs
      | Reused obs \<Rightarrow> \<exists>path. path_for roots entry = Inr path \<and> reused_unchanged env path resolver entry obs"
proof -
  have "hs_bytes s' = hs_bytes s \<and> (case probe of ReadDirectly \<Rightarrow> True | Settled obs \<Rightarrow> failed obs
      | Reused obs \<Rightarrow> \<exists>path. path_for roots entry = Inr path \<and> reused_unchanged env path resolver entry obs)"
  proof (cases "\<exists>path outcome s3. path_for roots entry = Inr path
      \<and> probe_descriptor env max_duration started resolver entry path (tick (tick (tick s))) = (outcome, s3)
      \<and> (\<exists>s4. close_descriptor env path s3 = Inr s4 \<and> outcome = Inr probe \<and> s' = s4)")
    case False
    with assms show ?thesis
      by (auto simp: probe_entry_def Let_def bind_result_Inr_iff
          split: if_splits payload_locality.splits option.splits prod.splits)
  next
    case True
    then obtain path s3 where body: "path_for roots entry = Inr path"
      "probe_descriptor env max_duration started resolver entry path (tick (tick (tick s))) = (Inr probe, s3)"
      and "close_descriptor env path s3 = Inr s'"
      by auto
    then have closed: "hs_bytes s' = hs_bytes s3" by (auto simp: close_descriptor_def split: option.splits)
    note run = body(2) [unfolded probe_descriptor_def Let_def]
    have "hs_bytes s3 = hs_bytes s"
      using run by (auto split: sum.splits if_splits)
    moreover have "case probe of ReadDirectly \<Rightarrow> True | Settled obs \<Rightarrow> failed obs
      | Reused obs \<Rightarrow> reused_unchanged env path resolver entry obs"
    proof (cases probe)
      case (Reused obs)
      with run show ?thesis
        by (auto simp: reused_unchanged_def split: sum.splits if_splits intro!: exI [of _ "Suc (Suc (Suc (hs_moment s)))"])
    qed (use run in \<open>auto split: sum.splits if_splits\<close>)
    ultimately show ?thesis using closed body(1) by (auto split: probe_result.splits)
  qed
  then show "hs_bytes s' = hs_bytes s" "case probe of ReadDirectly \<Rightarrow> True | Settled obs \<Rightarrow> failed obs
      | Reused obs \<Rightarrow> \<exists>path. path_for roots entry = Inr path \<and> reused_unchanged env path resolver entry obs"
    by blast+
qed

lemma direct_single:
  assumes "observe_direct_payloads env [entry] scopes policy started_at bytes_read s = Inr (out, s')"
  obtains obs where "out = [v2_entry entry obs]"
    "failed obs \<or> honest env policy (scope_roots scopes) entry obs"
proof -
  from assms obtain started s1 where parts: "validate_payload_hash_policy policy = Inr ()"
    "observe_each env policy (scope_roots scopes) started (sort_key location [entry]) s1 = Inr (out, s')"
    by (rule direct_parts)
  from observe_each_justified [OF parts(2) validate_policy_facts(1) [OF parts(1)]] that show thesis
    by (auto simp: list_all2_Cons1)
qed

lemma observe_with_reuse_justified:
  "observe_with_reuse env scopes policy started resolver entries s = Inr (out, s') \<Longrightarrow>
   list_all2 (\<lambda>entry e. \<exists>obs. e = v2_entry entry obs
     \<and> justified env policy (scope_roots scopes) (Some resolver) entry obs) entries out"
proof (induction entries arbitrary: s out)
  case (Cons entry rest)
  then obtain probe s1 own s2 tail where parts:
    "probe_entry env (hl_duration (limits_of policy)) started resolver (scope_roots scopes) entry s = Inr (probe, s1)"
    "(case probe of
          Reused observation \<Rightarrow> Inr ([v2_entry entry observation], s1)
        | Settled observation \<Rightarrow> Inr ([v2_entry entry observation], s1)
        | ReadDirectly \<Rightarrow>
            observe_direct_payloads env [entry] scopes policy (Some started) (Some (hs_bytes s1)) s1) = Inr (own, s2)"
    "observe_with_reuse env scopes policy started resolver rest s2 = Inr (tail, s')" "out = own @ tail"
    by (auto simp: bind_result_Inr_iff)
  have "\<exists>obs. own = [v2_entry entry obs] \<and> justified env policy (scope_roots scopes) (Some resolver) entry obs"
  proof (cases probe)
    case ReadDirectly
    with parts(2) show ?thesis by (auto elim!: direct_single simp: justified_def)
  qed (use parts(2) probe_entry_cases(2) [OF parts(1)] in \<open>auto simp: justified_def\<close>)
  with Cons.IH [OF parts(3)] parts(4) show ?case by auto
qed simp

lemma observe_payloads_justified:
  assumes "observe_payloads env entries scopes policy reuse s = Inr (out, s')"
  shows "list_all2 (\<lambda>entry e. \<exists>obs. e = v2_entry entry obs
    \<and> justified env policy (scope_roots scopes) reuse entry obs) (sort_key location entries) out"
proof (cases "hp_allow_verified_reuse policy \<and> reuse \<noteq> None")
  case True
  with assms obtain resolver where "reuse = Some resolver"
    "observe_with_reuse env scopes policy (he_clock env (hs_moment s)) resolver
       (sort_key location entries) ((tick s)\<lparr>hs_bytes := 0\<rparr>) = Inr (out, s')"
    by (auto simp: observe_payloads_def bind_result_Inr_iff)
  with observe_with_reuse_justified show ?thesis by blast
next
  case False
  with assms have "observe_direct_payloads env entries scopes policy None None s = Inr (out, s')"
    by (auto simp: observe_payloads_def bind_result_Inr_iff split: option.splits bool.splits)
  then obtain started s1 where parts: "validate_payload_hash_policy policy = Inr ()"
    "observe_each env policy (scope_roots scopes) started (sort_key location entries) s1 = Inr (out, s')"
    by (rule direct_parts)
  from observe_each_justified [OF parts(2) validate_policy_facts(1) [OF parts(1)]] show ?thesis
    by (rule list_all2_mono) (auto simp: justified_def)
qed

section \<open>Budgets\<close>

lemma observe_with_reuse_budget:
  "observe_with_reuse env scopes policy started resolver entries s = Inr (out, s') \<Longrightarrow>
   list_all sized entries \<Longrightarrow> in_budget (limits_of policy) env 0 s \<Longrightarrow> in_budget (limits_of policy) env 0 s'"
proof (induction entries arbitrary: s out)
  case (Cons entry rest)
  let ?limits = "limits_of policy"
  from Cons.prems(1) obtain probe s1 own s2 tail where parts:
    "probe_entry env (hl_duration ?limits) started resolver (scope_roots scopes) entry s = Inr (probe, s1)"
    "(case probe of
          Reused observation \<Rightarrow> Inr ([v2_entry entry observation], s1)
        | Settled observation \<Rightarrow> Inr ([v2_entry entry observation], s1)
        | ReadDirectly \<Rightarrow>
            observe_direct_payloads env [entry] scopes policy (Some started) (Some (hs_bytes s1)) s1) = Inr (own, s2)"
    "observe_with_reuse env scopes policy started resolver rest s2 = Inr (tail, s')"
    by (auto simp: bind_result_Inr_iff)
  have first: "in_budget ?limits env 0 s1"
    using Cons.prems(3) probe_entry_cases(1) [OF parts(1)] by (simp add: in_budget_def)
  have "in_budget ?limits env 0 s2"
  proof (cases probe)
    case ReadDirectly
    with parts(2) have "observe_direct_payloads env [entry] scopes policy (Some started) (Some (hs_bytes s1)) s1
      = Inr (own, s2)" by simp
    then obtain t s3 where direct: "validate_payload_hash_policy policy = Inr ()"
      "observe_each env policy (scope_roots scopes) t (sort_key location [entry]) s3 = Inr (own, s2)"
      "hs_bytes s3 = hs_bytes s1"
      by (rule direct_parts) auto
    note facts = validate_policy_facts [OF direct(1)]
    have "in_budget ?limits env 0 s3" using first direct(3) by (simp add: in_budget_def)
    from observe_each_budget [OF direct(2) facts(1) _ _ this] facts(3) Cons.prems(2)
    show ?thesis by (auto simp: in_budget_def)
  qed (use parts(2) first in auto)
  from Cons.IH [OF parts(3) _ this] Cons.prems(2) show ?case by simp
qed simp


section \<open>Digests\<close>

text \<open>C36: A digest is never made up: the entry it belongs to is one of those observed with nothing but the
  payload facts added, and the digest is that of bytes read from the file of the entry, to the end and
  without a change of the file from before the first to after the last read; or it is the answer of
  the reuse resolver for the entry, while the file was still the one the entry describes.\<close>

theorem digests_are_backed:
  assumes "observe_payloads env entries scopes policy reuse s = Inr (out, s')" "e \<in> set out"
    and "e_v2 e = Some facts" "p_digest (v2_payload_observation facts) = Some d"
  shows "\<exists>entry \<in> set entries. e = v2_entry entry (v2_payload_observation facts)
    \<and> (\<exists>path. path_for (scope_roots scopes) entry = Inr path
      \<and> ((\<exists>content. read_unchanged env policy path entry content \<and> d = he_sha256 env content
            \<and> v2_payload_observation facts = success policy d (int (length content)))
        \<or> (\<exists>resolver. reuse = Some resolver
            \<and> reused_unchanged env path resolver entry (v2_payload_observation facts))))"
proof -
  from list_all2_member [OF observe_payloads_justified [OF assms(1)] assms(2)] obtain entry where
    entry: "entry \<in> set entries"
    "\<exists>obs. e = v2_entry entry obs \<and> justified env policy (scope_roots scopes) reuse entry obs"
    by auto
  then obtain obs where obs: "e = v2_entry entry obs" "justified env policy (scope_roots scopes) reuse entry obs"
    by blast
  with assms(3) have facts: "v2_payload_observation facts = obs" by (auto simp: v2_entry_def)
  with assms(4) have "\<not> failed obs" by (simp add: failed_def)
  with obs(2) consider "honest env policy (scope_roots scopes) entry obs"
    | resolver path where "reuse = Some resolver" "path_for (scope_roots scopes) entry = Inr path"
        "reused_unchanged env path resolver entry obs"
    by (auto simp: justified_def)
  then show ?thesis
  proof cases
    case 1
    then obtain path content where content: "path_for (scope_roots scopes) entry = Inr path"
      "read_unchanged env policy path entry content"
      "obs = success policy (he_sha256 env content) (int (length content))"
      by (auto simp: honest_def)
    with assms(4) facts have "d = he_sha256 env content" by (simp add: success_def)
    with content entry(1) obs(1) facts show ?thesis
      by (intro bexI [of _ entry] conjI exI [of _ path] disjI1 exI [of _ content]) simp_all
  next
    case 2
    with entry(1) obs(1) facts show ?thesis
      by (intro bexI [of _ entry] conjI exI [of _ path] disjI2 exI [of _ resolver]) simp_all
  qed
qed

section \<open>Completeness\<close>

lemma close_total: "(\<forall>m p. he_close env m p = None) \<Longrightarrow> close_descriptor env path s = Inr (tick s)"
  by (simp add: close_descriptor_def)

lemma path_for_total:
  assumes "e_scope_id entry \<in> sc_scope_id ` set scopes"
  shows "\<exists>path. path_for (scope_roots scopes) entry = Inr path"
proof -
  from assms have "e_scope_id entry \<in> fst ` set (scope_roots scopes)"
    using keys_dict_of [of "map (\<lambda>s. (sc_scope_id s, sc_normalized_path s)) scopes"]
    by (force simp: scope_roots_def)
  then have "map_of (scope_roots scopes) (e_scope_id entry) \<noteq> None"
    by (simp add: map_of_eq_None_iff)
  then show ?thesis by (auto simp: path_for_def)
qed

lemma observe_payload_total:
  assumes "\<forall>m p. he_close env m p = None" "e_scope_id entry \<in> sc_scope_id ` set scopes"
  shows "\<exists>r. observe_payload env policy (scope_roots scopes) started entry s = Inr r"
  using path_for_total [OF assms(2)] close_total [OF assms(1)]
  by (auto simp: observe_payload_def Let_def read_payload_def split: payload_locality.split option.split prod.split)

lemma observe_each_total:
  assumes "\<forall>m p. he_close env m p = None"
  shows "list_all (\<lambda>entry. e_scope_id entry \<in> sc_scope_id ` set scopes) entries \<Longrightarrow>
    \<exists>r. observe_each env policy (scope_roots scopes) started entries s = Inr r"
proof (induction entries arbitrary: s)
  case (Cons entry rest)
  then obtain obs s1 where "observe_payload env policy (scope_roots scopes) started entry s = Inr (obs, s1)"
    using observe_payload_total [OF assms] by (metis list.pred_inject(2) surj_pair)
  moreover from Cons.IH [of s1] Cons.prems obtain out s2 where
    "observe_each env policy (scope_roots scopes) started rest s1 = Inr (out, s2)"
    by auto
  ultimately show ?case by simp
qed simp

lemma observe_direct_total:
  assumes "\<forall>m p. he_close env m p = None" "validate_payload_hash_policy policy = Inr ()"
    and "list_all (\<lambda>entry. e_scope_id entry \<in> sc_scope_id ` set scopes) entries"
  shows "\<exists>r. observe_direct_payloads env entries scopes policy started_at bytes_read s = Inr r"
proof -
  have "list_all (\<lambda>entry. e_scope_id entry \<in> sc_scope_id ` set scopes) (sort_key location entries)"
    using assms(3) by (simp add: list_all_iff)
  from observe_each_total [OF assms(1) this] assms(2) show ?thesis
    by (auto simp: observe_direct_payloads_def Let_def split: option.split)
qed

text \<open>A resolver that raises nothing but an \<open>OSError\<close>.\<close>

definition resolver_quiet :: "reuse_resolver \<Rightarrow> bool" where
  "resolver_quiet resolver \<longleftrightarrow> (\<forall>m entry e. resolver m entry = Inl e \<longrightarrow> e = PyOSError)"

lemma probe_descriptor_total:
  "resolver_quiet resolver \<Longrightarrow>
   \<exists>probe t. probe_descriptor env max_duration started resolver entry path s = (Inr probe, t)"
  by (auto simp: probe_descriptor_def Let_def resolver_quiet_def split: sum.split)

lemma probe_entry_total:
  assumes "\<forall>m p. he_close env m p = None" "e_scope_id entry \<in> sc_scope_id ` set scopes" "resolver_quiet resolver"
  shows "\<exists>r. probe_entry env max_duration started resolver (scope_roots scopes) entry s = Inr r"
proof -
  obtain path where path: "path_for (scope_roots scopes) entry = Inr path"
    using path_for_total [OF assms(2)] ..
  obtain probe t where "probe_descriptor env max_duration started resolver entry path (tick (tick (tick s))) = (Inr probe, t)"
    using probe_descriptor_total [OF assms(3)] by blast
  then show ?thesis
    using path close_total [OF assms(1)]
    by (simp add: probe_entry_def Let_def split: payload_locality.split option.split)
qed

lemma observe_with_reuse_total:
  assumes "\<forall>m p. he_close env m p = None" "validate_payload_hash_policy policy = Inr ()" "resolver_quiet resolver"
  shows "list_all (\<lambda>entry. e_scope_id entry \<in> sc_scope_id ` set scopes) entries \<Longrightarrow>
    \<exists>r. observe_with_reuse env scopes policy started resolver entries s = Inr r"
proof (induction entries arbitrary: s)
  case (Cons entry rest)
  then obtain probe s1 where probe: "probe_entry env (hl_duration (limits_of policy)) started resolver
      (scope_roots scopes) entry s = Inr (probe, s1)"
    using probe_entry_total [OF assms(1) _ assms(3)] by (metis list.pred_inject(2) surj_pair)
  obtain own s2 where "(case probe of
          Reused observation \<Rightarrow> Inr ([v2_entry entry observation], s1)
        | Settled observation \<Rightarrow> Inr ([v2_entry entry observation], s1)
        | ReadDirectly \<Rightarrow>
            observe_direct_payloads env [entry] scopes policy (Some started) (Some (hs_bytes s1)) s1) = Inr (own, s2)"
    using observe_direct_total [OF assms(1, 2), of scopes "[entry]"] Cons.prems by (cases probe) fastforce+
  moreover from Cons.IH [of s2] Cons.prems obtain out s3 where
    "observe_with_reuse env scopes policy started resolver rest s2 = Inr (out, s3)"
    by auto
  ultimately show ?case using probe by simp
qed simp


section \<open>An example\<close>

text \<open>One file of five bytes, which the first read returns.\<close>

definition example_hash_env :: hash_env where
  "example_hash_env = \<lparr>he_sha256 = (\<lambda>s. s), he_clock = (\<lambda>_. 0), he_locality = (\<lambda>_ _. Some LOCAL),
     he_open = (\<lambda>_ _. None), he_fstat = (\<lambda>_ _. Inr example_file),
     he_read = (\<lambda>m _ n. if n < 5 then Inl \<lparr>oe_errno = 5, oe_text = ''i''\<rparr>
       else if m \<le> 6 then Inr ''hello'' else Inr []),
     he_lstat = (\<lambda>_ _. Inr example_file), he_close = (\<lambda>_ _. None), he_nofollow = True, he_eloop = 62\<rparr>"

definition example_hash_policy :: payload_hash_policy where
  "example_hash_policy = \<lparr>hp_algorithm = ''sha256'', hp_algorithm_version = 1,
     hp_max_hash_file_bytes = Some 100, hp_max_total_hash_bytes = Some 1000,
     hp_max_hash_duration_seconds = Some 300, hp_hash_chunk_size = 65536,
     hp_allow_non_local_content = False, hp_allow_verified_reuse = False\<rparr>"

definition example_payload_entry :: filesystem_entry where
  "example_payload_entry = projr (observed_entry example_fs ''i'' ''s'' ''a'' [''home'', ''a''] example_file False)"

definition example_start :: hash_state where
  "example_start = \<lparr>hs_moment = 0, hs_bytes = 0\<rparr>"

lemma example_policy_valid: "validate_payload_hash_policy example_hash_policy = Inr ()"
  by (simp add: validate_payload_hash_policy_def example_hash_policy_def positive_int_def)

lemma example_hashing:
  "observe_payloads example_hash_env [example_payload_entry] [example_scope] example_hash_policy None example_start
   = Inr ([v2_entry example_payload_entry (success example_hash_policy ''hello'' 5)],
       \<lparr>hs_moment = 12, hs_bytes = 5\<rparr>)"
  by code_simp


theorem digests_are_backed_witness:
  "\<exists>path content. path_for (scope_roots [example_scope]) example_payload_entry = Inr path
    \<and> read_unchanged example_hash_env example_hash_policy path example_payload_entry content
    \<and> ''hello'' = he_sha256 example_hash_env content"
  using digests_are_backed [OF example_hashing list.set_intros(1), of _ "''hello''"]
  by (auto simp: v2_entry_def success_def)


end
