(* ===== verification/Snapshot_Documents.thy ===== *)
theory Snapshot_Documents
  imports Payload_Hashing Ledger_Verify
begin

text \<open>
  \<open>snapshots.py\<close>, the documents: how an observed Snapshot becomes the JSON of its Evidence, with
  the digests that bind it, and how a document becomes a Snapshot again.
\<close>

section \<open>The surroundings\<close>

text \<open>
  \<open>sx_ledger\<close> and \<open>sx_scan\<close> are what the ledger and the scan take from outside.
  \<open>sx_number\<close> is the JSON number of a \<open>float\<close> or \<open>int\<close> field, and \<open>sx_rational\<close> its
  value. \<open>sx_container_text\<close> is \<open>str\<close> of a list or a dictionary; \<open>sx_float_add\<close> is the sum
  of two numbers of which one is a float; \<open>sx_uuid\<close> says which texts \<open>uuid.UUID\<close> accepts.
\<close>

record snapshot_env =
  sx_ledger :: ledger_env
  sx_scan :: scan_env
  sx_number :: "rat \<Rightarrow> json"
  sx_rational :: "json \<Rightarrow> rat option"
  sx_container_text :: "json \<Rightarrow> string"
  sx_float_add :: "json \<Rightarrow> json \<Rightarrow> json result"
  sx_uuid :: "string \<Rightarrow> bool"

section \<open>Dataclasses as JSON\<close>

text \<open>\<open>json.loads(canonical_json(...))\<close>: the value with the keys of every object in order.\<close>

definition json_of :: "snapshot_env \<Rightarrow> json \<Rightarrow> json result" where
  "json_of env v =
     bind_result (encode_json v) (\<lambda>text.
     bind_result (read_json (sx_ledger env) text) (\<lambda>found.
       case found of None \<Rightarrow> Inl PyValueError | Some w \<Rightarrow> Inr w))"

definition json_digest :: "snapshot_env \<Rightarrow> json \<Rightarrow> string result" where
  "json_digest env v = bind_result (encode_json v) (\<lambda>text. Inr (sha256 (sx_ledger env) text))"

definition opt_int :: "int option \<Rightarrow> json" where
  "opt_int v = (case v of None \<Rightarrow> JNull | Some n \<Rightarrow> JInt n)"

definition stat_fields :: "filesystem_entry \<Rightarrow> doc" where
  "stat_fields e =
     [(''entry_id'', JStr (e_entry_id e)), (''snapshot_id'', JStr (e_snapshot_id e)),
      (''scope_id'', JStr (e_scope_id e)), (''relative_path'', JStr (e_relative_path e)),
      (''object_type'', JStr (filesystem_object_type_value (e_object_type e))),
      (''device_id'', opt_int (e_device_id e)), (''inode'', opt_int (e_inode e)),
      (''mode'', opt_int (e_mode e)), (''uid'', opt_int (e_uid e)), (''gid'', opt_int (e_gid e)),
      (''size_bytes'', opt_int (e_size_bytes e)), (''mtime_ns'', opt_int (e_mtime_ns e)),
      (''ctime_ns'', opt_int (e_ctime_ns e)), (''birthtime_ns'', opt_int (e_birthtime_ns e)),
      (''link_count'', opt_int (e_link_count e)),
      (''symlink_target_raw'', json_option (e_symlink_target_raw e)),
      (''readable'', JBool (e_readable e)), (''writable'', JBool (e_writable e)),
      (''executable'', JBool (e_executable e)),
      (''observation_status'', JStr (filesystem_observation_status_value (e_observation_status e))),
      (''error_code'', json_option (e_error_code e)), (''error_message'', json_option (e_error_message e)),
      (''excluded'', JBool (e_excluded e))]"

definition observation_fields :: "payload_observation \<Rightarrow> doc" where
  "observation_fields p =
     [(''status'', JStr (payload_observation_status_value (p_status p))),
      (''algorithm'', json_option (p_algorithm p)), (''algorithm_version'', opt_int (p_algorithm_version p)),
      (''digest'', json_option (p_digest p)), (''bytes_hashed'', opt_int (p_bytes_hashed p)),
      (''provenance'', json_option (map_option payload_observation_provenance_value (p_provenance p))),
      (''reused_from_snapshot_id'', json_option (p_reused_from_snapshot_id p)),
      (''failure_code'', json_option (p_failure_code p)), (''os_error_code'', opt_int (p_os_error_code p))]"

definition entry_fields :: "filesystem_entry \<Rightarrow> doc" where
  "entry_fields e = stat_fields e @
     (case e_v2 e of
        None \<Rightarrow> []
      | Some facts \<Rightarrow>
          [(''allocated_size_bytes'', opt_int (v2_allocated_size_bytes facts)),
           (''payload_observation'', JObj (observation_fields (v2_payload_observation facts)))])"

definition budget_fields :: "snapshot_env \<Rightarrow> scan_budget \<Rightarrow> doc" where
  "budget_fields env b =
     [(''max_entries'', JInt (b_max_entries b)),
      (''max_total_stat_bytes'', opt_int (b_max_total_stat_bytes b)),
      (''max_duration_seconds'', sx_number env (b_max_duration_seconds b)),
      (''max_depth'', opt_int (b_max_depth b))]"

definition policy_fields :: "snapshot_env \<Rightarrow> payload_hash_policy \<Rightarrow> doc" where
  "policy_fields env p =
     [(''algorithm'', JStr (hp_algorithm p)), (''algorithm_version'', JInt (hp_algorithm_version p)),
      (''max_hash_file_bytes'', opt_int (hp_max_hash_file_bytes p)),
      (''max_total_hash_bytes'', opt_int (hp_max_total_hash_bytes p)),
      (''max_hash_duration_seconds'',
        case hp_max_hash_duration_seconds p of None \<Rightarrow> JNull | Some d \<Rightarrow> sx_number env d),
      (''hash_chunk_size'', JInt (hp_hash_chunk_size p)),
      (''allow_non_local_content'', JBool (hp_allow_non_local_content p)),
      (''allow_verified_reuse'', JBool (hp_allow_verified_reuse p))]"

text \<open>The counts, in the wrapper that \<open>_snapshot_dict\<close> puts around them.\<close>

definition summary_field :: "payload_observation_count list \<Rightarrow> json" where
  "summary_field counts =
     JObj [(''status_counts'', JArr (map (\<lambda>c. JObj
       [(''status'', JStr (payload_observation_status_value (pc_status c))), (''count'', JInt (pc_count c))]) counts))]"

definition snapshot_fields :: "snapshot_env \<Rightarrow> filesystem_snapshot \<Rightarrow> doc" where
  "snapshot_fields env s =
     (case s_v2 s of None \<Rightarrow> [] | Some v2 \<Rightarrow> [(''snapshot_schema_version'', JInt (sv2_snapshot_schema_version v2))])
     @ [(''snapshot_id'', JStr (s_snapshot_id s)), (''run_id'', JStr (s_run_id s)),
        (''created_at'', JStr (s_created_at s)), (''started_at'', JStr (s_started_at s)),
        (''completed_at'', JStr (s_completed_at s)),
        (''status'', JStr (snapshot_status_value (s_status s))),
        (''consistency'', JStr (snapshot_consistency_value (s_consistency s))),
        (''config_digest'', JStr (s_config_digest s)), (''scope_ids'', JArr (map JStr (s_scope_ids s))),
        (''budget'', JObj (budget_fields env (s_budget s))),
        (''entry_count'', JInt (s_entry_count s)), (''observed_count'', JInt (s_observed_count s)),
        (''error_count'', JInt (s_error_count s)), (''excluded_count'', JInt (s_excluded_count s)),
        (''total_regular_file_bytes'', JInt (s_total_regular_file_bytes s)),
        (''max_depth_observed'', JInt (s_max_depth_observed s))]
     @ (case s_v2 s of
          None \<Rightarrow> []
        | Some v2 \<Rightarrow>
            [(''hash_policy'', JObj (policy_fields env (sv2_hash_policy v2))),
             (''allocated_regular_file_bytes_known_sum'', JInt (sv2_allocated_regular_file_bytes_known_sum v2)),
             (''allocated_regular_file_unknown_count'', JInt (sv2_allocated_regular_file_unknown_count v2)),
             (''payload_observation_summary'', summary_field (sv2_payload_observation_summary v2))])
     @ [(''entries_digest'', JStr (s_entries_digest s)), (''snapshot_digest'', JStr (s_snapshot_digest s)),
        (''evidence_id'', json_option (s_evidence_id s)),
        (''evidence_relative_path'', json_option (s_evidence_relative_path s)),
        (''entries'', JArr (map (\<lambda>e. JObj (entry_fields e)) (s_entries s)))]"

section \<open>Identity, statistics and digests\<close>

definition entry_id :: "snapshot_env \<Rightarrow> string \<Rightarrow> string \<Rightarrow> string \<Rightarrow> string result" where
  "entry_id env snapshot_id scope_id path =
     (let raw = snapshot_id @ CHR 0x00 # scope_id @ CHR 0x00 # path in
      if utf8_valid raw then Inr (sha256 (sx_ledger env) raw) else Inl PyValueError)"

definition depth_of :: "string \<Rightarrow> int" where
  "depth_of path = (if path = ''.'' then 0 else int (length (split_on (CHR ''/'') path)))"

text \<open>\<open>max(..., default=0)\<close> of values that are not negative.\<close>

definition max_or_zero :: "int list \<Rightarrow> int" where
  "max_or_zero ns = foldr max ns 0"

definition snapshot_metadata :: "doc \<Rightarrow> doc" where
  "snapshot_metadata metadata =
     filter (\<lambda>(k, _). k \<notin> {''snapshot_digest'', ''evidence_id'', ''evidence_relative_path'', ''entries''}) metadata"

definition snapshot_entries_digest :: "snapshot_env \<Rightarrow> json list \<Rightarrow> string result" where
  "snapshot_entries_digest env entries = json_digest env (JArr entries)"

definition snapshot_metadata_digest :: "snapshot_env \<Rightarrow> doc \<Rightarrow> string result" where
  "snapshot_metadata_digest env metadata = json_digest env (JObj (snapshot_metadata metadata))"

section \<open>_snapshot\<close>

text \<open>The fresh identity and the two readings of the clock are arguments.\<close>

definition make_snapshot ::
  "snapshot_env \<Rightarrow> steward_config \<Rightarrow> string \<Rightarrow> scope_config list \<Rightarrow> scan_budget \<Rightarrow> string \<Rightarrow> string \<Rightarrow> string \<Rightarrow>
     filesystem_snapshot result" where
  "make_snapshot env config run_id scopes budget snapshot_id started completed =
     bind_result (scan (sx_scan env) config snapshot_id scopes budget) (\<lambda>(entries, partial).
     bind_result (map_result (\<lambda>e. json_of env (JObj (entry_fields e))) entries) (\<lambda>entry_data.
     bind_result (json_digest env (JArr entry_data)) (\<lambda>entries_digest.
     bind_result (compute_config_digest (sx_ledger env) config) (\<lambda>config_digest.
     bind_result (json_of env (JObj (budget_fields env budget))) (\<lambda>budget_data.
       let observed = count_if (\<lambda>e. e_observation_status e = OBSERVED) entries;
           status = (if partial \<or> observed \<noteq> int (length entries) then SNAPSHOT_PARTIAL else SNAPSHOT_COMPLETE);
           excluded = count_if e_excluded entries;
           total = (\<Sum>e \<leftarrow> filter (\<lambda>e. e_object_type e = REGULAR_FILE) entries. or_zero (e_size_bytes e));
           depth = max_or_zero (map (\<lambda>e. depth_of (e_relative_path e)) entries);
           meta =
             [(''snapshot_id'', JStr snapshot_id), (''run_id'', JStr run_id), (''created_at'', JStr completed),
              (''started_at'', JStr started), (''completed_at'', JStr completed),
              (''status'', JStr (snapshot_status_value status)),
              (''consistency'', JStr (snapshot_consistency_value BEST_EFFORT_POINT_IN_TIME)),
              (''config_digest'', JStr config_digest), (''scope_ids'', JArr (map (\<lambda>s. JStr (sc_scope_id s)) scopes)),
              (''budget'', budget_data), (''entry_count'', JInt (int (length entries))),
              (''observed_count'', JInt observed), (''error_count'', JInt (int (length entries) - observed)),
              (''excluded_count'', JInt excluded), (''total_regular_file_bytes'', JInt total),
              (''max_depth_observed'', JInt depth), (''entries_digest'', JStr entries_digest)] in
       bind_result (json_digest env (JObj meta)) (\<lambda>snapshot_digest.
       Inr \<lparr>s_snapshot_id = snapshot_id, s_run_id = run_id, s_created_at = completed, s_started_at = started,
         s_completed_at = completed, s_status = status, s_consistency = BEST_EFFORT_POINT_IN_TIME,
         s_config_digest = config_digest, s_scope_ids = map sc_scope_id scopes, s_budget = budget,
         s_entry_count = int (length entries), s_observed_count = observed,
         s_error_count = int (length entries) - observed, s_excluded_count = excluded,
         s_total_regular_file_bytes = total, s_max_depth_observed = depth, s_entries_digest = entries_digest,
         s_snapshot_digest = snapshot_digest, s_evidence_id = None, s_evidence_relative_path = None,
         s_entries = entries, s_v2 = None\<rparr>))))))"

section \<open>The canonical order of version 2\<close>

text \<open>\<open>str(value)\<close> of a JSON value.\<close>

definition text_of :: "snapshot_env \<Rightarrow> json \<Rightarrow> string" where
  "text_of env v = (if hashable v then py_str v else sx_container_text env v)"

definition doc_of :: "json \<Rightarrow> doc" where
  "doc_of v = (case v of JObj d \<Rightarrow> d | _ \<Rightarrow> [])"

text \<open>
  \<open>encode("utf-8", "surrogateescape")\<close> of a parsed text. A lone surrogate has its three-byte form;
  one from U+DC80 to U+DCFF becomes a byte, the others raise \<open>UnicodeEncodeError\<close>.
\<close>

fun escape_surrogates :: "string \<Rightarrow> string option" where
  "escape_surrogates [] = Some []"
| "escape_surrogates (c # s) =
     (case s of
        d # e # r \<Rightarrow>
          if c = CHR 0xED \<and> byte_in 0xA0 0xBF d then
            (if d = CHR 0xB2 then map_option (\<lambda>t. e # t) (escape_surrogates r)
             else if d = CHR 0xB3 then map_option (\<lambda>t. char_of (of_char e + (64 :: nat)) # t) (escape_surrogates r)
             else None)
          else map_option (\<lambda>t. c # t) (escape_surrogates s)
      | _ \<Rightarrow> map_option (\<lambda>t. c # t) (escape_surrogates s))"

text \<open>\<open>item.get(key, "")\<close>: the default stands for a missing key only.\<close>

definition key_text :: "snapshot_env \<Rightarrow> string \<Rightarrow> doc \<Rightarrow> string" where
  "key_text env k d = (case map_of d k of None \<Rightarrow> [] | Some v \<Rightarrow> text_of env v)"

definition v2_entry_sort_key :: "snapshot_env \<Rightarrow> json \<Rightarrow> (string \<times> string) result" where
  "v2_entry_sort_key env v =
     (case v of
        JObj d \<Rightarrow>
          (case escape_surrogates (key_text env ''relative_path'' d) of
             None \<Rightarrow> Inl PyValueError
           | Some bytes \<Rightarrow> Inr (key_text env ''scope_id'' d, bytes))
      | _ \<Rightarrow> Inl PyAttributeError)"

text \<open>\<open>canonical_snapshot_v2_entries\<close>.\<close>

definition sorted_v2_entries :: "snapshot_env \<Rightarrow> json list \<Rightarrow> json list result" where
  "sorted_v2_entries env entries =
     bind_result (map_result (v2_entry_sort_key env) entries) (\<lambda>keys.
       Inr (map snd (sort_key fst (zip keys entries))))"

section \<open>_snapshot_v2\<close>

definition snapshot_v2_entries_digest :: "snapshot_env \<Rightarrow> json list \<Rightarrow> string result" where
  "snapshot_v2_entries_digest env entries =
     bind_result (sorted_v2_entries env entries) (\<lambda>sorted_entries.
       json_digest env (JObj
         [(''domain'', JStr ''local_steward.snapshot.entries.v2''), (''snapshot_schema_version'', JInt 2),
          (''entries'', JArr sorted_entries)]))"

definition snapshot_v2_metadata_digest :: "snapshot_env \<Rightarrow> doc \<Rightarrow> string result" where
  "snapshot_v2_metadata_digest env metadata =
     json_digest env (JObj
       [(''domain'', JStr ''local_steward.snapshot.metadata.v2''),
        (''snapshot'', JObj (snapshot_metadata metadata))])"

definition payload_status :: "filesystem_entry \<Rightarrow> payload_observation_status" where
  "payload_status e = p_status (v2_payload_observation (the (e_v2 e)))"

text \<open>The statuses that occur, in the order of their texts, each with its count.\<close>

definition payload_summary :: "filesystem_entry list \<Rightarrow> payload_observation_count list" where
  "payload_summary entries =
     map (\<lambda>status. \<lparr>pc_status = status, pc_count = count_if (\<lambda>e. payload_status e = status) entries\<rparr>)
       (sort_key payload_observation_status_value (remdups (map payload_status entries)))"

definition make_snapshot_v2 ::
  "snapshot_env \<Rightarrow> hash_env \<Rightarrow> filesystem_snapshot \<Rightarrow> scope_config list \<Rightarrow> payload_hash_policy \<Rightarrow>
     reuse_resolver option \<Rightarrow> hash_state \<Rightarrow> filesystem_snapshot result" where
  "make_snapshot_v2 env hash snapshot scopes policy resolver start =
     bind_result (observe_payloads hash (s_entries snapshot) scopes policy
       (if hp_allow_verified_reuse policy then resolver else None) start) (\<lambda>(entries, _).
     bind_result (map_result (\<lambda>e. json_of env (JObj (entry_fields e))) entries) (\<lambda>entry_data.
     bind_result (snapshot_v2_entries_digest env entry_data) (\<lambda>entries_digest.
       let provisional = snapshot\<lparr>s_entries_digest := entries_digest, s_snapshot_digest := [],
             s_evidence_id := None, s_evidence_relative_path := None, s_entries := entries,
             s_v2 := Some \<lparr>sv2_snapshot_schema_version = 2, sv2_hash_policy = policy,
               sv2_allocated_regular_file_bytes_known_sum = 0,
               sv2_allocated_regular_file_unknown_count = count_if (\<lambda>e. e_object_type e = REGULAR_FILE) entries,
               sv2_payload_observation_summary = payload_summary entries\<rparr>\<rparr> in
       bind_result (json_of env (JObj (snapshot_fields env provisional))) (\<lambda>data.
       bind_result (snapshot_v2_metadata_digest env (doc_of data)) (\<lambda>snapshot_digest.
       Inr (provisional\<lparr>s_snapshot_digest := snapshot_digest\<rparr>))))))"

end
