(* ===== verification/Snapshot_Evidence.thy ===== *)
theory Snapshot_Evidence
  imports Snapshot_Documents Snapshot_Lifecycle
begin

text \<open>
  \<open>snapshots.py\<close>, the intrinsic validation of Snapshot Evidence: the two validators and their
  dispatch. They judge parsed documents of any shape, so that what Python does with a value of an
  unexpected type is part of the model.
\<close>

section \<open>Python on parsed values\<close>

text \<open>\<open>item[key]\<close>.\<close>

definition py_item :: "string \<Rightarrow> json \<Rightarrow> json result" where
  "py_item k v =
     (case v of
        JObj d \<Rightarrow> (case map_of d k of None \<Rightarrow> Inl PyKeyError | Some w \<Rightarrow> Inr w)
      | _ \<Rightarrow> Inl PyTypeError)"

definition is_substring :: "string \<Rightarrow> string \<Rightarrow> bool" where
  "is_substring s t \<longleftrightarrow> list_ex (\<lambda>n. starts_with s (drop n t)) [0..<Suc (length t)]"

text \<open>\<open>value in container\<close>.\<close>

definition py_in :: "json \<Rightarrow> json \<Rightarrow> bool result" where
  "py_in v container =
     (case container of
        JArr vs \<Rightarrow> Inr (list_ex (py_eq v) vs)
      | JObj d \<Rightarrow> in_strings v (map fst d)
      | JStr t \<Rightarrow> (case v of JStr s \<Rightarrow> Inr (is_substring s t) | _ \<Rightarrow> Inl PyTypeError)
      | _ \<Rightarrow> Inl PyTypeError)"

text \<open>Truth values and sums of numbers.\<close>

definition py_true :: "json \<Rightarrow> bool" where
  "py_true v =
     (case v of
        JNull \<Rightarrow> False
      | JBool b \<Rightarrow> b
      | JInt n \<Rightarrow> n \<noteq> 0
      | JFloat r \<Rightarrow> r \<noteq> ''0.0'' \<and> r \<noteq> ''-0.0''
      | JStr s \<Rightarrow> s \<noteq> []
      | JArr vs \<Rightarrow> vs \<noteq> []
      | JObj d \<Rightarrow> d \<noteq> [])"

definition int_value :: "json \<Rightarrow> int option" where
  "int_value v = (case v of JInt n \<Rightarrow> Some n | JBool b \<Rightarrow> Some (if b then 1 else 0) | _ \<Rightarrow> None)"

definition py_add :: "snapshot_env \<Rightarrow> json \<Rightarrow> json \<Rightarrow> json result" where
  "py_add env a b =
     (case (int_value a, int_value b) of
        (Some m, Some n) \<Rightarrow> Inr (JInt (m + n))
      | _ \<Rightarrow>
          if (int_value a \<noteq> None \<or> (case a of JFloat _ \<Rightarrow> True | _ \<Rightarrow> False))
             \<and> (int_value b \<noteq> None \<or> (case b of JFloat _ \<Rightarrow> True | _ \<Rightarrow> False))
          then sx_float_add env a b
          else Inl PyTypeError)"

text \<open>\<open>sum\<close> over a generator: \<open>None\<close> is an item that the generator leaves out.\<close>

fun py_sum :: "snapshot_env \<Rightarrow> ('a \<Rightarrow> json option result) \<Rightarrow> 'a list \<Rightarrow> json \<Rightarrow> json result" where
  "py_sum env f [] so_far = Inr so_far"
| "py_sum env f (x # xs) so_far =
     bind_result (f x) (\<lambda>v.
       case v of
         None \<Rightarrow> py_sum env f xs so_far
       | Some w \<Rightarrow> bind_result (py_add env so_far w) (\<lambda>t. py_sum env f xs t))"

section \<open>snapshot_statistics\<close>

definition path_depth :: "json \<Rightarrow> int result" where
  "path_depth v = (case v of JStr s \<Rightarrow> Inr (depth_of s) | _ \<Rightarrow> Inl PyAttributeError)"

definition snapshot_statistics :: "snapshot_env \<Rightarrow> json list \<Rightarrow> doc result" where
  "snapshot_statistics env entries =
     bind_result (map_result (py_item ''observation_status'') entries) (\<lambda>statuses.
     bind_result (py_sum env (\<lambda>item. bind_result (py_item ''excluded'' item) (\<lambda>v. Inr (Some v))) entries (JInt 0))
       (\<lambda>excluded.
     bind_result (py_sum env (\<lambda>item.
         bind_result (py_item ''object_type'' item) (\<lambda>kind.
           if py_eq kind (JStr ''regular_file'')
           then bind_result (py_item ''size_bytes'' item) (\<lambda>v. Inr (Some (if py_true v then v else JInt 0)))
           else Inr None)) entries (JInt 0)) (\<lambda>total.
     bind_result (map_result (\<lambda>item. bind_result (py_item ''relative_path'' item) path_depth) entries) (\<lambda>depths.
     Inr [(''entry_count'', JInt (int (length entries))),
          (''observed_count'', JInt (count_if (\<lambda>v. py_eq v (JStr ''observed'')) statuses)),
          (''error_count'', JInt (count_if (\<lambda>v. \<not> py_eq v (JStr ''observed'')) statuses)),
          (''excluded_count'', excluded), (''total_regular_file_bytes'', total),
          (''max_depth_observed'', JInt (max_or_zero depths))]))))"

text \<open>The check of a summary against them.\<close>

definition summary_matches :: "doc \<Rightarrow> doc \<Rightarrow> bool" where
  "summary_matches data statistics \<longleftrightarrow> list_all (\<lambda>(k, v). py_eq (dget k data) v) statistics"

section \<open>Field names\<close>

definition envelope_fields :: "string list" where
  "envelope_fields =
     [''schema_version'', ''evidence_id'', ''evidence_type'', ''run_id'', ''sequence'', ''created_at'',
      ''tool_version'', ''config_digest'', ''policy_digest'', ''provider_versions'',
      ''previous_evidence_digest'', ''payload'', ''evidence_digest'']"

definition v1_snapshot_fields :: "string list" where
  "v1_snapshot_fields =
     [''snapshot_id'', ''run_id'', ''created_at'', ''started_at'', ''completed_at'', ''status'', ''consistency'',
      ''config_digest'', ''scope_ids'', ''budget'', ''entry_count'', ''observed_count'', ''error_count'',
      ''excluded_count'', ''total_regular_file_bytes'', ''max_depth_observed'', ''entries_digest'',
      ''snapshot_digest'', ''entries'']"

definition v1_entry_fields :: "string list" where
  "v1_entry_fields =
     [''entry_id'', ''snapshot_id'', ''scope_id'', ''relative_path'', ''object_type'', ''device_id'', ''inode'',
      ''mode'', ''uid'', ''gid'', ''size_bytes'', ''mtime_ns'', ''ctime_ns'', ''birthtime_ns'', ''link_count'',
      ''symlink_target_raw'', ''readable'', ''writable'', ''executable'', ''observation_status'', ''error_code'',
      ''error_message'', ''excluded'']"

definition has_fields :: "doc \<Rightarrow> string list \<Rightarrow> bool" where
  "has_fields d ks \<longleftrightarrow> set (map fst d) = set ks"

section \<open>Results\<close>

record evidence_validation =
  ev_evidence_id :: "string option"
  ev_snapshot_id :: "string option"
  ev_valid :: bool
  ev_envelope_valid :: bool
  ev_evidence_digest_valid :: bool
  ev_evidence_type_valid :: bool
  ev_payload_schema_valid :: bool
  ev_run_id_consistent :: bool
  ev_snapshot_schema_valid :: bool
  ev_entries_schema_valid :: bool
  ev_entry_order_valid :: bool
  ev_entry_keys_unique :: bool
  ev_entry_ids_valid :: bool
  ev_scope_membership_valid :: bool
  ev_paths_valid :: bool
  ev_summary_valid :: bool
  ev_entries_digest_valid :: bool
  ev_snapshot_digest_valid :: bool
  ev_errors :: "(string \<times> string) list"

text \<open>The problems whose check failed.\<close>

definition problems :: "(bool \<times> string \<times> string) list \<Rightarrow> (string \<times> string) list" where
  "problems checks = map snd (filter (\<lambda>(ok, _). \<not> ok) checks)"

definition as_text :: "json \<Rightarrow> string option" where
  "as_text v = (case v of JStr s \<Rightarrow> Some s | _ \<Rightarrow> None)"

definition is_text :: "json \<Rightarrow> bool" where
  "is_text v \<longleftrightarrow> as_text v \<noteq> None"

definition is_bool :: "json \<Rightarrow> bool" where
  "is_bool v = (case v of JBool _ \<Rightarrow> True | _ \<Rightarrow> False)"

definition as_list :: "json \<Rightarrow> json list option" where
  "as_list v = (case v of JArr vs \<Rightarrow> Some vs | _ \<Rightarrow> None)"

definition is_object :: "json \<Rightarrow> bool" where
  "is_object v = (case v of JObj _ \<Rightarrow> True | _ \<Rightarrow> False)"

definition own_digest_valid :: "snapshot_env \<Rightarrow> doc \<Rightarrow> bool result" where
  "own_digest_valid env evidence =
     (case dget ''evidence_digest'' evidence of
        JStr stated \<Rightarrow> bind_result (digest (sx_ledger env) evidence) (\<lambda>own. Inr (stated = own))
      | _ \<Rightarrow> Inr False)"

definition path_ok :: "json \<Rightarrow> bool" where
  "path_ok v =
     (case v of
        JStr path \<Rightarrow> \<not> starts_with ''/'' path \<and> path \<noteq> ''..'' \<and> \<not> starts_with ''../'' path
          \<and> \<not> is_substring ''/../'' path
      | _ \<Rightarrow> False)"

text \<open>\<open>str(snapshot_id)\<close> where the identity may be \<open>None\<close>.\<close>

definition id_text :: "string option \<Rightarrow> string" where
  "id_text v = (case v of None \<Rightarrow> ''None'' | Some s \<Rightarrow> s)"

section \<open>Version 1\<close>

text \<open>The flags that the loop over the entries clears, and what it has seen.\<close>

record entry_flags =
  fl_schema :: bool
  fl_order :: bool
  fl_unique :: bool
  fl_ids :: bool
  fl_scopes :: bool
  fl_paths :: bool
  fl_keys :: "(string \<times> string) list"
  fl_seen :: "string list"
  fl_previous :: "(string \<times> string) option"

definition initial_flags :: "bool \<Rightarrow> entry_flags" where
  "initial_flags listed =
     \<lparr>fl_schema = listed, fl_order = True, fl_unique = True, fl_ids = True, fl_scopes = True, fl_paths = True,
      fl_keys = [], fl_seen = [], fl_previous = None\<rparr>"

definition check_entry ::
  "snapshot_env \<Rightarrow> string option \<Rightarrow> json \<Rightarrow> json \<Rightarrow> entry_flags \<Rightarrow> entry_flags result" where
  "check_entry env snapshot_id scopes value fl =
     (case value of
        JObj item \<Rightarrow>
          if \<not> has_fields item v1_entry_fields then Inr (fl\<lparr>fl_schema := False\<rparr>)
          else
            let scope = dget ''scope_id'' item; path = dget ''relative_path'' item in
            bind_result
              (if \<not> py_eq (dget ''snapshot_id'' item) (json_option snapshot_id) \<or> \<not> is_text scope then Inr False
               else py_in scope scopes) (\<lambda>member.
            bind_result (entry_id env (id_text snapshot_id) (text_of env scope) (text_of env path)) (\<lambda>own.
              let key = (text_of env scope, text_of env path);
                  identifier = text_of env (dget ''entry_id'' item) in
              Inr (fl\<lparr>
                fl_scopes := fl_scopes fl \<and> member,
                fl_paths := fl_paths fl \<and> path_ok path,
                fl_schema := fl_schema fl \<and> list_all (\<lambda>k. is_bool (dget k item))
                  [''readable'', ''writable'', ''executable'', ''excluded''],
                fl_ids := fl_ids fl \<and> py_eq (dget ''entry_id'' item) (JStr own) \<and> identifier \<notin> set (fl_seen fl),
                fl_unique := fl_unique fl \<and> key \<notin> set (fl_keys fl),
                fl_keys := key # fl_keys fl,
                fl_seen := identifier # fl_seen fl,
                fl_order := fl_order fl \<and> (case fl_previous fl of None \<Rightarrow> True | Some previous \<Rightarrow> previous \<le> key),
                fl_previous := Some key\<rparr>)))
      | _ \<Rightarrow> Inr (fl\<lparr>fl_schema := False\<rparr>))"

fun check_entries ::
  "snapshot_env \<Rightarrow> string option \<Rightarrow> json \<Rightarrow> json list \<Rightarrow> entry_flags \<Rightarrow> entry_flags result" where
  "check_entries env snapshot_id scopes [] fl = Inr fl"
| "check_entries env snapshot_id scopes (value # rest) fl =
     bind_result (check_entry env snapshot_id scopes value fl) (check_entries env snapshot_id scopes rest)"

text \<open>A check that is made only when the one before holds.\<close>

definition guarded :: "bool \<Rightarrow> bool result \<Rightarrow> bool result" where
  "guarded ok check = (if ok then check else Inr False)"

definition validate_snapshot_evidence_v1 :: "snapshot_env \<Rightarrow> doc \<Rightarrow> evidence_validation result" where
  "validate_snapshot_evidence_v1 env evidence =
     bind_result (own_digest_valid env evidence) (\<lambda>digest_ok.
     let envelope_ok = has_fields evidence envelope_fields;
         type_ok = (dget ''evidence_type'' evidence = JStr ''filesystem.snapshot'');
         payload = dget ''payload'' evidence;
         payload_ok = (is_object payload \<and> has_fields (doc_of payload) [''snapshot'', ''entries'']);
         snapshot = dget ''snapshot'' (doc_of payload);
         listed = as_list (dget ''entries'' (doc_of payload));
         data = doc_of snapshot;
         snapshot_id = as_text (dget ''snapshot_id'' data);
         schema_ok = (is_object snapshot
           \<and> (has_fields data v1_snapshot_fields
              \<or> has_fields data (v1_snapshot_fields @ [''evidence_id'', ''evidence_relative_path'']))
           \<and> listed \<noteq> None);
         run_ok = (schema_ok \<and> py_eq (dget ''run_id'' data) (dget ''run_id'' evidence));
         entries = (case listed of None \<Rightarrow> [] | Some vs \<Rightarrow> vs);
         scopes = (case map_of data ''scope_ids'' of None \<Rightarrow> JArr [] | Some v \<Rightarrow> v) in
     bind_result (check_entries env snapshot_id scopes entries (initial_flags (listed \<noteq> None))) (\<lambda>fl.
     bind_result (guarded schema_ok (bind_result (snapshot_statistics env entries)
       (\<lambda>statistics. Inr (summary_matches data statistics)))) (\<lambda>summary_ok.
     bind_result (guarded schema_ok (bind_result (snapshot_entries_digest env entries)
       (\<lambda>d. Inr (dget ''entries_digest'' data = JStr d)))) (\<lambda>entries_digest_ok.
     bind_result (guarded schema_ok (bind_result (snapshot_metadata_digest env data)
       (\<lambda>d. Inr (dget ''snapshot_digest'' data = JStr d)))) (\<lambda>snapshot_digest_ok.
     let errors = problems
           [(envelope_ok, ''SNAPSHOT_EVIDENCE_SCHEMA_INVALID'', ''invalid evidence envelope schema''),
            (type_ok, ''SNAPSHOT_EVIDENCE_TYPE_INVALID'', ''evidence_type must be filesystem.snapshot''),
            (digest_ok, ''SNAPSHOT_EVIDENCE_INVALID'', ''evidence digest mismatch''),
            (payload_ok, ''SNAPSHOT_PAYLOAD_SCHEMA_INVALID'', ''payload must contain snapshot and entries''),
            (schema_ok, ''SNAPSHOT_PAYLOAD_SCHEMA_INVALID'', ''invalid snapshot schema''),
            (run_ok, ''SNAPSHOT_RUN_ID_MISMATCH'', ''snapshot run_id differs from evidence run_id''),
            (fl_schema fl, ''SNAPSHOT_ENTRY_SCHEMA_INVALID'', ''invalid entry schema''),
            (fl_order fl, ''SNAPSHOT_ENTRY_ORDER_INVALID'', ''entries are not sorted''),
            (fl_unique fl, ''SNAPSHOT_ENTRY_DUPLICATE'', ''duplicate entry key''),
            (fl_ids fl, ''SNAPSHOT_ENTRY_ID_INVALID'', ''invalid entry id''),
            (fl_scopes fl, ''SNAPSHOT_SCOPE_MISMATCH'', ''invalid entry scope''),
            (fl_paths fl, ''SNAPSHOT_PATH_INVALID'', ''invalid entry path''),
            (summary_ok, ''SNAPSHOT_SUMMARY_INVALID'', ''snapshot summary mismatch''),
            (entries_digest_ok, ''SNAPSHOT_ENTRIES_DIGEST_INVALID'', ''entries digest mismatch''),
            (snapshot_digest_ok, ''SNAPSHOT_DIGEST_INVALID'', ''snapshot digest mismatch'')] in
     Inr \<lparr>ev_evidence_id = as_text (dget ''evidence_id'' evidence), ev_snapshot_id = snapshot_id,
       ev_valid = (errors = []), ev_envelope_valid = envelope_ok, ev_evidence_digest_valid = digest_ok,
       ev_evidence_type_valid = type_ok, ev_payload_schema_valid = payload_ok, ev_run_id_consistent = run_ok,
       ev_snapshot_schema_valid = schema_ok, ev_entries_schema_valid = fl_schema fl,
       ev_entry_order_valid = fl_order fl, ev_entry_keys_unique = fl_unique fl,
       ev_entry_ids_valid = fl_ids fl, ev_scope_membership_valid = fl_scopes fl, ev_paths_valid = fl_paths fl,
       ev_summary_valid = summary_ok, ev_entries_digest_valid = entries_digest_ok,
       ev_snapshot_digest_valid = snapshot_digest_ok, ev_errors = sort errors\<rparr>)))))"

section \<open>Version 2\<close>

definition v2_snapshot_fields :: "string list" where
  "v2_snapshot_fields =
     [''snapshot_schema_version'', ''snapshot_id'', ''run_id'', ''created_at'', ''started_at'', ''completed_at'',
      ''status'', ''consistency'', ''config_digest'', ''scope_ids'', ''budget'', ''entry_count'', ''observed_count'',
      ''error_count'', ''excluded_count'', ''total_regular_file_bytes'', ''max_depth_observed'', ''hash_policy'',
      ''allocated_regular_file_bytes_known_sum'', ''allocated_regular_file_unknown_count'',
      ''payload_observation_summary'', ''entries_digest'', ''snapshot_digest'', ''evidence_id'',
      ''evidence_relative_path'', ''entries'']"

definition v2_entry_fields :: "string list" where
  "v2_entry_fields = v1_entry_fields @ [''allocated_size_bytes'', ''payload_observation'']"

definition v2_payload_fields :: "string list" where
  "v2_payload_fields =
     [''status'', ''algorithm'', ''algorithm_version'', ''digest'', ''bytes_hashed'', ''provenance'',
      ''reused_from_snapshot_id'', ''failure_code'', ''os_error_code'']"

definition v2_hash_policy_fields :: "string list" where
  "v2_hash_policy_fields =
     [''algorithm'', ''algorithm_version'', ''max_hash_file_bytes'', ''max_total_hash_bytes'',
      ''max_hash_duration_seconds'', ''hash_chunk_size'', ''allow_non_local_content'', ''allow_verified_reuse'']"

definition is_int :: "json \<Rightarrow> bool" where
  "is_int v = (case v of JInt _ \<Rightarrow> True | _ \<Rightarrow> False)"

definition is_optional_nonnegative_int :: "json \<Rightarrow> bool" where
  "is_optional_nonnegative_int v = (case v of JNull \<Rightarrow> True | JInt n \<Rightarrow> 0 \<le> n | _ \<Rightarrow> False)"

definition positive :: "json \<Rightarrow> bool" where
  "positive v = (case v of JInt n \<Rightarrow> 0 < n | _ \<Rightarrow> False)"

definition at_least_zero :: "json \<Rightarrow> bool" where
  "at_least_zero v = (case v of JInt n \<Rightarrow> 0 \<le> n | _ \<Rightarrow> False)"

text \<open>The duration: \<open>isfinite\<close> of an integer too large for a float raises \<open>OverflowError\<close>.\<close>

definition duration_positive :: "json \<Rightarrow> bool result" where
  "duration_positive v =
     (case v of
        JNull \<Rightarrow> Inr True
      | JInt n \<Rightarrow> if float_limit \<le> \<bar>n\<bar> then Inl PyOverflowError else Inr (0 < n)
      | JFloat r \<Rightarrow> Inr (r \<notin> {''nan'', ''inf'', ''-inf''} \<and> 0 < decimal_value r)
      | _ \<Rightarrow> Inr False)"

definition valid_hash_policy :: "json \<Rightarrow> bool result" where
  "valid_hash_policy v =
     (case v of
        JObj policy \<Rightarrow>
          if \<not> has_fields policy v2_hash_policy_fields then Inr False
          else
            guarded (dget ''algorithm'' policy = JStr ''sha256'' \<and> positive (dget ''algorithm_version'' policy)
                \<and> is_optional_nonnegative_int (dget ''max_hash_file_bytes'' policy)
                \<and> is_optional_nonnegative_int (dget ''max_total_hash_bytes'' policy))
              (bind_result (duration_positive (dget ''max_hash_duration_seconds'' policy)) (\<lambda>duration.
                Inr (duration \<and> positive (dget ''hash_chunk_size'' policy)
                  \<and> is_bool (dget ''allow_non_local_content'' policy)
                  \<and> is_bool (dget ''allow_verified_reuse'' policy))))
      | _ \<Rightarrow> Inr False)"

definition all_payload_statuses :: "payload_observation_status list" where
  "all_payload_statuses =
     [HASHED, EMPTY_FILE_HASHED, NOT_REGULAR_FILE, NOT_LOCAL, PAYLOAD_PERMISSION_DENIED, FILE_TOO_LARGE,
      TOTAL_BYTE_BUDGET_EXHAUSTED, TIME_BUDGET_EXHAUSTED, CHANGED_DURING_READ, NOT_FOUND_DURING_READ,
      PAYLOAD_IO_ERROR, PAYLOAD_UNSUPPORTED]"

definition payload_status_texts :: "string list" where
  "payload_status_texts = map payload_observation_status_value all_payload_statuses"

definition provenance_texts :: "string list" where
  "provenance_texts = map payload_observation_provenance_value [DIRECT_READ, REUSED_FROM_VERIFIED_SNAPSHOT]"

definition object_type_texts :: "string list" where
  "object_type_texts = map filesystem_object_type_value
     [REGULAR_FILE, DIRECTORY, SYMLINK, FIFO, SOCKET, CHARACTER_DEVICE, BLOCK_DEVICE, OBJECT_UNKNOWN]"

definition observation_status_texts :: "string list" where
  "observation_status_texts = map filesystem_observation_status_value
     [OBSERVED, PERMISSION_DENIED, NOT_FOUND, CHANGED_DURING_SCAN, IO_ERROR, UNSUPPORTED]"

text \<open>A successful observation, its status given as a text.\<close>

definition success_valid :: "snapshot_env \<Rightarrow> doc \<Rightarrow> string \<Rightarrow> doc \<Rightarrow> bool result" where
  "success_valid env item status value =
     (let size_ok = at_least_zero (dget ''size_bytes'' item) in
      if dget ''algorithm'' value \<noteq> JStr ''sha256'' \<or> \<not> positive (dget ''algorithm_version'' value)
         \<or> \<not> sha256_text (dget ''digest'' value) \<or> \<not> at_least_zero (dget ''bytes_hashed'' value)
         \<or> dget ''failure_code'' value \<noteq> JNull \<or> dget ''os_error_code'' value \<noteq> JNull
      then Inr False
      else
        bind_result (in_strings (dget ''provenance'' value) provenance_texts) (\<lambda>known.
          let source = dget ''reused_from_snapshot_id'' value in
          Inr (known \<and> dget ''object_type'' item = JStr (filesystem_object_type_value REGULAR_FILE)
            \<and> size_ok \<and> dget ''bytes_hashed'' value = dget ''size_bytes'' item
            \<and> \<not> (status = payload_observation_status_value HASHED \<and> dget ''size_bytes'' item = JInt 0)
            \<and> \<not> (status = payload_observation_status_value EMPTY_FILE_HASHED \<and> dget ''size_bytes'' item \<noteq> JInt 0)
            \<and> (if dget ''provenance'' value = JStr (payload_observation_provenance_value DIRECT_READ)
               then source = JNull
               else (case source of JStr text \<Rightarrow> sx_uuid env text | _ \<Rightarrow> False)))))"

definition valid_payload_observation :: "snapshot_env \<Rightarrow> doc \<Rightarrow> bool result" where
  "valid_payload_observation env item =
     (case dget ''payload_observation'' item of
        JObj value \<Rightarrow>
          if \<not> has_fields value v2_payload_fields then Inr False
          else
            bind_result (in_strings (dget ''status'' value) payload_status_texts) (\<lambda>known.
              case (known, dget ''status'' value) of
                (True, JStr status) \<Rightarrow>
                  if \<not> is_optional_nonnegative_int (dget ''os_error_code'' value)
                     \<or> (case dget ''failure_code'' value of JNull \<Rightarrow> False | JStr s \<Rightarrow> s = [] | _ \<Rightarrow> True)
                  then Inr False
                  else if status \<in> {payload_observation_status_value HASHED,
                    payload_observation_status_value EMPTY_FILE_HASHED}
                  then success_valid env item status value
                  else
                    Inr (list_all (\<lambda>k. dget k value = JNull)
                      [''algorithm'', ''algorithm_version'', ''digest'', ''bytes_hashed'', ''provenance'',
                       ''reused_from_snapshot_id''])
              | _ \<Rightarrow> Inr False)
      | _ \<Rightarrow> Inr False)"

definition v2_entry_schema_valid :: "snapshot_env \<Rightarrow> json \<Rightarrow> bool result" where
  "v2_entry_schema_valid env v =
     (case v of
        JObj item \<Rightarrow>
          if \<not> has_fields item v2_entry_fields
             \<or> \<not> list_all (\<lambda>k. is_text (dget k item)) [''entry_id'', ''snapshot_id'', ''scope_id'', ''relative_path'']
          then Inr False
          else
            bind_result (in_strings (dget ''object_type'' item) object_type_texts) (\<lambda>kind.
            if \<not> kind then Inr False
            else
              bind_result (in_strings (dget ''observation_status'' item) observation_status_texts) (\<lambda>status.
              if \<not> status
                 \<or> \<not> list_all (\<lambda>k. is_bool (dget k item)) [''readable'', ''writable'', ''executable'', ''excluded'']
                 \<or> \<not> list_all (\<lambda>k. dget k item = JNull \<or> is_int (dget k item))
                     [''device_id'', ''inode'', ''mode'', ''uid'', ''gid'', ''size_bytes'', ''mtime_ns'', ''ctime_ns'',
                      ''birthtime_ns'', ''link_count'']
                 \<or> \<not> list_all (\<lambda>k. dget k item = JNull \<or> is_text (dget k item))
                     [''symlink_target_raw'', ''error_code'', ''error_message'']
                 \<or> \<not> is_optional_nonnegative_int (dget ''allocated_size_bytes'' item)
              then Inr False
              else valid_payload_observation env item))
      | _ \<Rightarrow> Inr False)"

text \<open>\<open>all(...)\<close>: stops at the first \<open>False\<close>, and at the first exception.\<close>

fun py_all :: "('a \<Rightarrow> bool result) \<Rightarrow> 'a list \<Rightarrow> bool result" where
  "py_all f [] = Inr True"
| "py_all f (x # xs) = bind_result (f x) (\<lambda>ok. if ok then py_all f xs else Inr False)"

text \<open>\<open>len(keys) == len(set(keys))\<close>, which hashes every key.\<close>

definition keys_unique :: "json list \<Rightarrow> bool result" where
  "keys_unique entries =
     (let keys = List.map_filter (\<lambda>v. case v of
            JObj d \<Rightarrow> Some (dget ''scope_id'' d, dget ''relative_path'' d) | _ \<Rightarrow> None) entries in
      if list_all (\<lambda>(a, b). hashable a \<and> hashable b) keys
      then Inr (distinct (map (\<lambda>(a, b). (py_norm a, py_norm b)) keys))
      else Inl PyTypeError)"

definition v2_entry_id_valid :: "snapshot_env \<Rightarrow> string option \<Rightarrow> json \<Rightarrow> bool result" where
  "v2_entry_id_valid env snapshot_id v =
     (case v of
        JObj item \<Rightarrow>
          bind_result (entry_id env (id_text snapshot_id) (text_of env (dget ''scope_id'' item))
            (text_of env (dget ''relative_path'' item)))
            (\<lambda>own. Inr (py_eq (dget ''entry_id'' item) (JStr own)))
      | _ \<Rightarrow> Inr False)"

definition v2_scope_valid :: "string option \<Rightarrow> json \<Rightarrow> json \<Rightarrow> bool result" where
  "v2_scope_valid snapshot_id scopes v =
     (case v of
        JObj item \<Rightarrow>
          if py_eq (dget ''snapshot_id'' item) (json_option snapshot_id)
          then py_in (dget ''scope_id'' item) scopes else Inr False
      | _ \<Rightarrow> Inr False)"

definition typed_snapshot :: "doc \<Rightarrow> bool result" where
  "typed_snapshot data =
     guarded (list_all (\<lambda>k. is_text (dget k data))
         [''snapshot_id'', ''run_id'', ''created_at'', ''started_at'', ''completed_at'', ''config_digest'',
          ''entries_digest'', ''snapshot_digest'']
       \<and> py_eq (dget ''snapshot_schema_version'' data) (JInt 2))
     (bind_result (in_strings (dget ''status'' data)
         (map snapshot_status_value [SNAPSHOT_COMPLETE, SNAPSHOT_PARTIAL, SNAPSHOT_FAILED])) (\<lambda>status.
      guarded status
     (bind_result (in_strings (dget ''consistency'' data) [snapshot_consistency_value BEST_EFFORT_POINT_IN_TIME])
       (\<lambda>consistency.
      guarded (consistency
        \<and> (case dget ''scope_ids'' data of JArr vs \<Rightarrow> list_all is_text vs | _ \<Rightarrow> False)
        \<and> is_object (dget ''budget'' data))
     (bind_result (valid_hash_policy (dget ''hash_policy'' data)) (\<lambda>policy.
      Inr (policy \<and> list_all (\<lambda>k. at_least_zero (dget k data))
        [''entry_count'', ''observed_count'', ''error_count'', ''excluded_count'', ''total_regular_file_bytes'',
         ''max_depth_observed'', ''allocated_regular_file_bytes_known_sum'',
         ''allocated_regular_file_unknown_count''])))))))"

text \<open>The aggregates of entries whose schema is valid.\<close>

definition regular_items :: "json list \<Rightarrow> doc list" where
  "regular_items values =
     filter (\<lambda>d. dget ''object_type'' d = JStr (filesystem_object_type_value REGULAR_FILE)) (map doc_of values)"

definition status_texts :: "json list \<Rightarrow> string list" where
  "status_texts values =
     List.map_filter (\<lambda>v. as_text (dget ''status'' (doc_of (dget ''payload_observation'' (doc_of v))))) values"

definition expected_summary :: "json list \<Rightarrow> json" where
  "expected_summary values =
     (let statuses = status_texts values in
      JObj [(''status_counts'', JArr (map (\<lambda>t. JObj
        [(''status'', JStr t), (''count'', JInt (count_if (\<lambda>u. u = t) statuses))]) (sorted_set statuses)))])"

definition aggregates_match :: "snapshot_env \<Rightarrow> bool \<Rightarrow> doc \<Rightarrow> json list \<Rightarrow> bool result" where
  "aggregates_match env entries_ok data values =
     (let items = (if entries_ok then regular_items values else []);
          known = (\<Sum>d \<leftarrow> items. case dget ''allocated_size_bytes'' d of JInt n \<Rightarrow> n | _ \<Rightarrow> 0);
          unknown = count_if (\<lambda>d. dget ''allocated_size_bytes'' d = JNull) items in
      bind_result (if entries_ok then snapshot_statistics env values else Inr []) (\<lambda>statistics.
      Inr (summary_matches data statistics
        \<and> py_eq (dget ''allocated_regular_file_bytes_known_sum'' data) (JInt known)
        \<and> py_eq (dget ''allocated_regular_file_unknown_count'' data) (JInt unknown)
        \<and> py_eq (dget ''payload_observation_summary'' data)
            (expected_summary (if entries_ok then values else [])))))"

text \<open>\<open>except EvidenceError\<close>: the check is \<open>False\<close>.\<close>

definition caught :: "'a \<Rightarrow> 'a result \<Rightarrow> 'a result" where
  "caught fallback r =
     (case r of Inl (Raise c m) \<Rightarrow> if c = EvidenceError then Inr fallback else r | _ \<Rightarrow> r)"

definition validate_snapshot_evidence_v2 :: "snapshot_env \<Rightarrow> doc \<Rightarrow> evidence_validation result" where
  "validate_snapshot_evidence_v2 env evidence =
     bind_result (caught False (own_digest_valid env evidence)) (\<lambda>digest_ok.
     let envelope_ok = (has_fields evidence envelope_fields \<and> py_eq (dget ''schema_version'' evidence) (JInt 2));
         type_ok = (dget ''evidence_type'' evidence = JStr ''filesystem.snapshot'');
         payload = dget ''payload'' evidence;
         payload_ok = (is_object payload \<and> has_fields (doc_of payload) [''snapshot'', ''entries'']);
         snapshot = dget ''snapshot'' (doc_of payload);
         listed = as_list (dget ''entries'' (doc_of payload));
         data = doc_of snapshot;
         snapshot_id = as_text (dget ''snapshot_id'' data);
         schema_ok = (is_object snapshot \<and> has_fields data v2_snapshot_fields \<and> listed \<noteq> None);
         values = (case listed of None \<Rightarrow> [] | Some vs \<Rightarrow> vs);
         scopes = (case map_of data ''scope_ids'' of None \<Rightarrow> JArr [] | Some v \<Rightarrow> v) in
     bind_result (guarded schema_ok (typed_snapshot data)) (\<lambda>typed.
     let run_ok = (typed \<and> py_eq (dget ''run_id'' data) (dget ''run_id'' evidence)) in
     bind_result (py_all (\<lambda>v. if is_object v then valid_payload_observation env (doc_of v) else Inr False) values)
       (\<lambda>payloads_ok.
     let allocated_ok = list_all (\<lambda>v. is_object v
           \<and> is_optional_nonnegative_int (dget ''allocated_size_bytes'' (doc_of v))) values in
     bind_result (guarded (listed \<noteq> None) (py_all (v2_entry_schema_valid env) values)) (\<lambda>entries_ok.
     bind_result (guarded entries_ok (bind_result (sorted_v2_entries env values)
       (\<lambda>sorted_values. Inr (py_eq (JArr values) (JArr sorted_values))))) (\<lambda>order_ok.
     bind_result (keys_unique values) (\<lambda>unique.
     bind_result (py_all (v2_entry_id_valid env snapshot_id) values) (\<lambda>ids_ok.
     bind_result (py_all (v2_scope_valid snapshot_id scopes) values) (\<lambda>scopes_ok.
     let paths_ok = list_all (\<lambda>v. is_object v \<and> path_ok (dget ''relative_path'' (doc_of v))) values;
         collection_ok = (typed \<and> py_eq (dget ''entries'' data) (JArr values)) in
     bind_result (aggregates_match env entries_ok data values) (\<lambda>aggregates_ok.
     let summary_ok = (typed \<and> aggregates_ok) in
     bind_result (caught (False, False)
       (bind_result (guarded typed (bind_result (snapshot_v2_entries_digest env values)
          (\<lambda>d. Inr (dget ''entries_digest'' data = JStr d)))) (\<lambda>a.
        bind_result (guarded typed (bind_result (snapshot_v2_metadata_digest env data)
          (\<lambda>d. Inr (dget ''snapshot_digest'' data = JStr d)))) (\<lambda>b. Inr (a, b)))))
       (\<lambda>(entries_digest_ok, snapshot_digest_ok).
     let errors = problems
           [(envelope_ok, ''SNAPSHOT_EVIDENCE_SCHEMA_INVALID'', ''invalid v2 evidence envelope schema''),
            (type_ok, ''SNAPSHOT_EVIDENCE_TYPE_INVALID'', ''evidence_type must be filesystem.snapshot''),
            (digest_ok, ''SNAPSHOT_EVIDENCE_INVALID'', ''evidence digest mismatch''),
            (payload_ok, ''SNAPSHOT_PAYLOAD_SCHEMA_INVALID'', ''payload must contain snapshot and entries''),
            (schema_ok, ''SNAPSHOT_PAYLOAD_SCHEMA_INVALID'', ''invalid v2 snapshot schema''),
            (typed, ''SNAPSHOT_PAYLOAD_SCHEMA_INVALID'', ''invalid v2 snapshot field types''),
            (run_ok, ''SNAPSHOT_RUN_ID_MISMATCH'', ''snapshot run_id differs from evidence run_id''),
            (entries_ok, ''SNAPSHOT_ENTRY_SCHEMA_INVALID'', ''invalid v2 entry or payload observation''),
            (payloads_ok, ''PAYLOAD_OBSERVATION_INVALID'', ''invalid payload observation''),
            (allocated_ok, ''ALLOCATED_SIZE_INVALID'', ''allocated size must be non-negative or null''),
            (order_ok, ''SNAPSHOT_ENTRY_ORDER_INVALID'', ''entries are not sorted''),
            (unique, ''SNAPSHOT_ENTRY_DUPLICATE'', ''duplicate scoped location''),
            (ids_ok, ''SNAPSHOT_ENTRY_ID_INVALID'', ''invalid entry id''),
            (scopes_ok, ''SNAPSHOT_SCOPE_MISMATCH'', ''invalid entry scope''),
            (paths_ok, ''SNAPSHOT_PATH_INVALID'', ''invalid entry path''),
            (collection_ok, ''SNAPSHOT_ENTRY_COLLECTION_MISMATCH'', ''snapshot entries differ from payload entries''),
            (summary_ok, ''SNAPSHOT_SUMMARY_INVALID'', ''snapshot summary or aggregate mismatch''),
            (entries_digest_ok, ''SNAPSHOT_ENTRIES_DIGEST_INVALID'', ''entries digest mismatch''),
            (snapshot_digest_ok, ''SNAPSHOT_DIGEST_INVALID'', ''snapshot digest mismatch'')] in
     Inr \<lparr>ev_evidence_id = as_text (dget ''evidence_id'' evidence), ev_snapshot_id = snapshot_id,
       ev_valid = (errors = []), ev_envelope_valid = envelope_ok, ev_evidence_digest_valid = digest_ok,
       ev_evidence_type_valid = type_ok, ev_payload_schema_valid = payload_ok, ev_run_id_consistent = run_ok,
       ev_snapshot_schema_valid = (schema_ok \<and> typed), ev_entries_schema_valid = entries_ok,
       ev_entry_order_valid = order_ok, ev_entry_keys_unique = unique, ev_entry_ids_valid = ids_ok,
       ev_scope_membership_valid = scopes_ok, ev_paths_valid = paths_ok, ev_summary_valid = summary_ok,
       ev_entries_digest_valid = entries_digest_ok, ev_snapshot_digest_valid = snapshot_digest_ok,
       ev_errors = sort errors\<rparr>))))))))))"

section \<open>The dispatch\<close>

definition version_result :: "json \<Rightarrow> string \<Rightarrow> string \<Rightarrow> evidence_validation" where
  "version_result evidence code message =
     \<lparr>ev_evidence_id = as_text (dget ''evidence_id'' (doc_of evidence)), ev_snapshot_id = None,
      ev_valid = False, ev_envelope_valid = False, ev_evidence_digest_valid = False,
      ev_evidence_type_valid = False, ev_payload_schema_valid = False, ev_run_id_consistent = False,
      ev_snapshot_schema_valid = False, ev_entries_schema_valid = False, ev_entry_order_valid = False,
      ev_entry_keys_unique = False, ev_entry_ids_valid = False, ev_scope_membership_valid = False,
      ev_paths_valid = False, ev_summary_valid = False, ev_entries_digest_valid = False,
      ev_snapshot_digest_valid = False, ev_errors = [(code, message)]\<rparr>"

definition validate_snapshot_evidence :: "snapshot_env \<Rightarrow> json \<Rightarrow> evidence_validation result" where
  "validate_snapshot_evidence env evidence =
     (case snapshot_evidence_schema_version evidence of
        None \<Rightarrow> Inr (version_result evidence ''EVIDENCE_SCHEMA_VERSION_INVALID'' ''invalid or missing schema_version'')
      | Some version \<Rightarrow>
          if version = 1 then validate_snapshot_evidence_v1 env (doc_of evidence)
          else if version = 2 then validate_snapshot_evidence_v2 env (doc_of evidence)
          else Inr (version_result evidence ''EVIDENCE_SCHEMA_VERSION_UNSUPPORTED'' ''unsupported schema_version''))"

end
