(* ===== verification/Snapshot_Store.thy ===== *)
theory Snapshot_Store
  imports Snapshot_Evidence
begin

text \<open>
  \<open>snapshots.py\<close>, the way of a Snapshot into its Evidence and back: the payload and the item that
  \<open>_persist\<close> builds, the two readers of valid Evidence, and the choice of an earlier
  payload observation that may be reused.
\<close>

section \<open>The Evidence of a Snapshot\<close>

definition snapshot_payload :: "snapshot_env \<Rightarrow> filesystem_snapshot \<Rightarrow> doc result" where
  "snapshot_payload env s =
     bind_result (json_of env (JObj (snapshot_fields env s))) (\<lambda>snapshot.
     bind_result (map_result (\<lambda>e. json_of env (JObj (entry_fields e))) (s_entries s)) (\<lambda>entries.
     Inr [(''snapshot'', snapshot), (''entries'', JArr entries)]))"

definition evidence_version :: "filesystem_snapshot \<Rightarrow> int" where
  "evidence_version s = (if s_v2 s = None then 1 else 2)"

definition snapshot_item :: "snapshot_env \<Rightarrow> run_call \<Rightarrow> run_record \<Rightarrow> filesystem_snapshot \<Rightarrow> evidence_item result" where
  "snapshot_item env call run s =
     bind_result (snapshot_payload env s) (\<lambda>payload.
       evidence_of (sx_ledger env) call run ''filesystem.snapshot'' payload (evidence_version s))"

section \<open>Fields of a dataclass\<close>

text \<open>
  A value of a type that the dataclass does not declare would be kept by Python as it is. The
  record cannot hold it: \<open>Inr None\<close> says that the document has such a value, and nothing
  more.
\<close>

definition bind_typed :: "'a option result \<Rightarrow> ('a \<Rightarrow> 'b option result) \<Rightarrow> 'b option result" where
  "bind_typed r f = bind_result r (\<lambda>v. case v of None \<Rightarrow> Inr None | Some x \<Rightarrow> f x)"

definition typed :: "(json \<Rightarrow> 'a option) \<Rightarrow> string \<Rightarrow> json \<Rightarrow> 'a option result" where
  "typed conv k v = bind_result (py_item k v) (\<lambda>w. Inr (conv w))"

definition as_int :: "json \<Rightarrow> int option" where
  "as_int v = (case v of JInt n \<Rightarrow> Some n | _ \<Rightarrow> None)"

definition as_bool :: "json \<Rightarrow> bool option" where
  "as_bool v = (case v of JBool b \<Rightarrow> Some b | _ \<Rightarrow> None)"

definition as_optional :: "(json \<Rightarrow> 'a option) \<Rightarrow> json \<Rightarrow> 'a option option" where
  "as_optional conv v = (if v = JNull then Some None else map_option Some (conv v))"

fun as_texts :: "json list \<Rightarrow> string list option" where
  "as_texts [] = Some []"
| "as_texts (v # vs) =
     (case (as_text v, as_texts vs) of (Some s, Some ss) \<Rightarrow> Some (s # ss) | _ \<Rightarrow> None)"

definition as_text_list :: "json \<Rightarrow> string list option" where
  "as_text_list v = (case v of JArr vs \<Rightarrow> as_texts vs | _ \<Rightarrow> None)"

text \<open>The call of an enumeration class: \<open>ValueError\<close> where no member has the value.\<close>

definition enum_of :: "('a \<Rightarrow> string) \<Rightarrow> 'a list \<Rightarrow> string \<Rightarrow> json \<Rightarrow> 'a option result" where
  "enum_of text members k v =
     bind_result (py_item k v) (\<lambda>w.
       case w of
         JStr s \<Rightarrow>
           (case List.find (\<lambda>m. text m = s) members of None \<Rightarrow> Inl PyValueError | Some m \<Rightarrow> Inr (Some m))
       | _ \<Rightarrow> Inl PyValueError)"

definition all_object_types :: "filesystem_object_type list" where
  "all_object_types =
     [REGULAR_FILE, DIRECTORY, SYMLINK, FIFO, SOCKET, CHARACTER_DEVICE, BLOCK_DEVICE, OBJECT_UNKNOWN]"

definition all_observation_statuses :: "filesystem_observation_status list" where
  "all_observation_statuses =
     [OBSERVED, PERMISSION_DENIED, NOT_FOUND, CHANGED_DURING_SCAN, IO_ERROR, UNSUPPORTED]"

section \<open>Reading valid Evidence\<close>

definition budget_of :: "snapshot_env \<Rightarrow> json \<Rightarrow> scan_budget option result" where
  "budget_of env v =
     bind_typed (typed as_int ''max_entries'' v) (\<lambda>entries.
     bind_typed (typed (as_optional as_int) ''max_total_stat_bytes'' v) (\<lambda>bytes.
     bind_typed (typed (sx_rational env) ''max_duration_seconds'' v) (\<lambda>duration.
     bind_typed (typed (as_optional as_int) ''max_depth'' v) (\<lambda>depth.
     Inr (Some \<lparr>b_max_entries = entries, b_max_total_stat_bytes = bytes, b_max_duration_seconds = duration,
       b_max_depth = depth\<rparr>)))))"

definition stat_entry_of :: "json \<Rightarrow> filesystem_entry option result" where
  "stat_entry_of v =
     bind_typed (typed as_text ''entry_id'' v) (\<lambda>entry_id.
     bind_typed (typed as_text ''snapshot_id'' v) (\<lambda>snapshot_id.
     bind_typed (typed as_text ''scope_id'' v) (\<lambda>scope_id.
     bind_typed (typed as_text ''relative_path'' v) (\<lambda>path.
     bind_typed (enum_of filesystem_object_type_value all_object_types ''object_type'' v) (\<lambda>object_type.
     bind_typed (typed (as_optional as_int) ''device_id'' v) (\<lambda>device_id.
     bind_typed (typed (as_optional as_int) ''inode'' v) (\<lambda>inode.
     bind_typed (typed (as_optional as_int) ''mode'' v) (\<lambda>mode.
     bind_typed (typed (as_optional as_int) ''uid'' v) (\<lambda>uid.
     bind_typed (typed (as_optional as_int) ''gid'' v) (\<lambda>gid.
     bind_typed (typed (as_optional as_int) ''size_bytes'' v) (\<lambda>bytes.
     bind_typed (typed (as_optional as_int) ''mtime_ns'' v) (\<lambda>mtime.
     bind_typed (typed (as_optional as_int) ''ctime_ns'' v) (\<lambda>ctime.
     bind_typed (typed (as_optional as_int) ''birthtime_ns'' v) (\<lambda>birthtime.
     bind_typed (typed (as_optional as_int) ''link_count'' v) (\<lambda>links.
     bind_typed (typed (as_optional as_text) ''symlink_target_raw'' v) (\<lambda>target.
     bind_typed (typed as_bool ''readable'' v) (\<lambda>readable.
     bind_typed (typed as_bool ''writable'' v) (\<lambda>writable.
     bind_typed (typed as_bool ''executable'' v) (\<lambda>executable.
     bind_typed (enum_of filesystem_observation_status_value all_observation_statuses ''observation_status'' v)
       (\<lambda>status.
     bind_typed (typed (as_optional as_text) ''error_code'' v) (\<lambda>code.
     bind_typed (typed (as_optional as_text) ''error_message'' v) (\<lambda>message.
     bind_typed (typed as_bool ''excluded'' v) (\<lambda>excluded.
     Inr (Some
       \<lparr>e_entry_id = entry_id, e_snapshot_id = snapshot_id, e_scope_id = scope_id, e_relative_path = path,
        e_object_type = object_type, e_device_id = device_id, e_inode = inode, e_mode = mode, e_uid = uid,
        e_gid = gid, e_size_bytes = bytes, e_mtime_ns = mtime, e_ctime_ns = ctime, e_birthtime_ns = birthtime,
        e_link_count = links, e_symlink_target_raw = target, e_readable = readable, e_writable = writable,
        e_executable = executable, e_observation_status = status, e_error_code = code,
        e_error_message = message, e_excluded = excluded, e_v2 = None\<rparr>))))))))))))))))))))))))"

definition observation_of :: "json \<Rightarrow> payload_observation option result" where
  "observation_of v =
     bind_typed (enum_of payload_observation_status_value all_payload_statuses ''status'' v) (\<lambda>status.
     bind_typed (typed (as_optional as_text) ''algorithm'' v) (\<lambda>algorithm.
     bind_typed (typed (as_optional as_int) ''algorithm_version'' v) (\<lambda>version.
     bind_typed (typed (as_optional as_text) ''digest'' v) (\<lambda>digest.
     bind_typed (typed (as_optional as_int) ''bytes_hashed'' v) (\<lambda>bytes.
     bind_typed (bind_result (py_item ''provenance'' v) (\<lambda>w.
         if w = JNull then Inr (Some None)
         else bind_typed (enum_of payload_observation_provenance_value
           [DIRECT_READ, REUSED_FROM_VERIFIED_SNAPSHOT] ''provenance'' v) (\<lambda>p. Inr (Some (Some p)))))
       (\<lambda>provenance.
     bind_typed (typed (as_optional as_text) ''reused_from_snapshot_id'' v) (\<lambda>source.
     bind_typed (typed (as_optional as_text) ''failure_code'' v) (\<lambda>failure_code.
     bind_typed (typed (as_optional as_int) ''os_error_code'' v) (\<lambda>os_error.
     Inr (Some \<lparr>p_status = status, p_algorithm = algorithm, p_algorithm_version = version, p_digest = digest,
       p_bytes_hashed = bytes, p_provenance = provenance, p_reused_from_snapshot_id = source,
       p_failure_code = failure_code, p_os_error_code = os_error\<rparr>))))))))))"

definition v2_entry_of :: "json \<Rightarrow> filesystem_entry option result" where
  "v2_entry_of v =
     bind_typed (stat_entry_of v) (\<lambda>entry.
     bind_typed (typed (as_optional as_int) ''allocated_size_bytes'' v) (\<lambda>allocated.
     bind_typed (bind_result (py_item ''payload_observation'' v) observation_of) (\<lambda>observation.
     Inr (Some (entry\<lparr>e_v2 := Some \<lparr>v2_allocated_size_bytes = allocated,
       v2_payload_observation = observation\<rparr>\<rparr>)))))"

fun entries_of :: "(json \<Rightarrow> 'a option result) \<Rightarrow> json list \<Rightarrow> 'a list option result" where
  "entries_of read [] = Inr (Some [])"
| "entries_of read (v # vs) =
     bind_typed (read v) (\<lambda>e. bind_typed (entries_of read vs) (\<lambda>es. Inr (Some (e # es))))"

text \<open>The fields that both versions share, up to \<open>max_depth_observed\<close>; the others are still empty.\<close>

definition header_of :: "json \<Rightarrow> scan_budget \<Rightarrow> filesystem_entry list \<Rightarrow> filesystem_snapshot option result" where
  "header_of v budget entries =
     bind_typed (typed as_text ''snapshot_id'' v) (\<lambda>snapshot_id.
     bind_typed (typed as_text ''run_id'' v) (\<lambda>run_id.
     bind_typed (typed as_text ''created_at'' v) (\<lambda>created.
     bind_typed (typed as_text ''started_at'' v) (\<lambda>started.
     bind_typed (typed as_text ''completed_at'' v) (\<lambda>completed.
     bind_typed (enum_of snapshot_status_value [SNAPSHOT_COMPLETE, SNAPSHOT_PARTIAL, SNAPSHOT_FAILED] ''status'' v)
       (\<lambda>status.
     bind_typed (enum_of snapshot_consistency_value [BEST_EFFORT_POINT_IN_TIME] ''consistency'' v) (\<lambda>consistency.
     bind_typed (typed as_text ''config_digest'' v) (\<lambda>config_digest.
     bind_typed (typed as_text_list ''scope_ids'' v) (\<lambda>scope_ids.
     bind_typed (typed as_int ''entry_count'' v) (\<lambda>entry_count.
     bind_typed (typed as_int ''observed_count'' v) (\<lambda>observed.
     bind_typed (typed as_int ''error_count'' v) (\<lambda>errors.
     bind_typed (typed as_int ''excluded_count'' v) (\<lambda>excluded.
     bind_typed (typed as_int ''total_regular_file_bytes'' v) (\<lambda>bytes.
     bind_typed (typed as_int ''max_depth_observed'' v) (\<lambda>depth.
     Inr (Some
       \<lparr>s_snapshot_id = snapshot_id, s_run_id = run_id, s_created_at = created, s_started_at = started,
        s_completed_at = completed, s_status = status, s_consistency = consistency,
        s_config_digest = config_digest, s_scope_ids = scope_ids, s_budget = budget,
        s_entry_count = entry_count, s_observed_count = observed, s_error_count = errors,
        s_excluded_count = excluded, s_total_regular_file_bytes = bytes, s_max_depth_observed = depth,
        s_entries_digest = [], s_snapshot_digest = [], s_evidence_id = None, s_evidence_relative_path = None,
        s_entries = entries, s_v2 = None\<rparr>))))))))))))))))"

text \<open>The digests and the place of the Evidence, the last fields in both versions.\<close>

definition sealed_of ::
  "json \<Rightarrow> json \<Rightarrow> string \<Rightarrow> filesystem_snapshot \<Rightarrow> filesystem_snapshot option result" where
  "sealed_of evidence v path s =
     bind_typed (typed as_text ''entries_digest'' v) (\<lambda>entries_digest.
     bind_typed (typed as_text ''snapshot_digest'' v) (\<lambda>snapshot_digest.
     bind_typed (typed as_text ''evidence_id'' evidence) (\<lambda>evidence_id.
     Inr (Some (s\<lparr>s_entries_digest := entries_digest, s_snapshot_digest := snapshot_digest,
       s_evidence_id := Some evidence_id, s_evidence_relative_path := Some path\<rparr>)))))"

text \<open>The payload's Snapshot, its budget and its list of entries.\<close>

definition evidence_parts ::
  "snapshot_env \<Rightarrow> (json \<Rightarrow> filesystem_entry option result) \<Rightarrow> json \<Rightarrow>
     (json \<times> scan_budget \<times> filesystem_entry list) option result" where
  "evidence_parts env read evidence =
     bind_result (py_item ''payload'' evidence) (\<lambda>payload.
     bind_result (py_item ''snapshot'' payload) (\<lambda>data.
     bind_result (py_item ''budget'' data) (\<lambda>budget_data.
     bind_typed (budget_of env budget_data) (\<lambda>budget.
     bind_result (py_item ''entries'' payload) (\<lambda>listed.
     case listed of
       JArr vs \<Rightarrow> bind_typed (entries_of read vs) (\<lambda>entries. Inr (Some (data, budget, entries)))
     | _ \<Rightarrow> Inr None)))))"

definition snapshot_from_valid_evidence :: "snapshot_env \<Rightarrow> json \<Rightarrow> string \<Rightarrow> filesystem_snapshot option result" where
  "snapshot_from_valid_evidence env evidence path =
     bind_typed (evidence_parts env stat_entry_of evidence) (\<lambda>(data, budget, entries).
     bind_typed (header_of data budget entries) (sealed_of evidence data path))"

definition policy_of :: "snapshot_env \<Rightarrow> json \<Rightarrow> payload_hash_policy option result" where
  "policy_of env v =
     bind_typed (typed as_text ''algorithm'' v) (\<lambda>algorithm.
     bind_typed (typed as_int ''algorithm_version'' v) (\<lambda>version.
     bind_typed (typed (as_optional as_int) ''max_hash_file_bytes'' v) (\<lambda>file_bytes.
     bind_typed (typed (as_optional as_int) ''max_total_hash_bytes'' v) (\<lambda>total_bytes.
     bind_typed (typed (as_optional (sx_rational env)) ''max_hash_duration_seconds'' v) (\<lambda>duration.
     bind_typed (typed as_int ''hash_chunk_size'' v) (\<lambda>chunk.
     bind_typed (typed as_bool ''allow_non_local_content'' v) (\<lambda>non_local.
     bind_typed (typed as_bool ''allow_verified_reuse'' v) (\<lambda>reuse.
     Inr (Some \<lparr>hp_algorithm = algorithm, hp_algorithm_version = version, hp_max_hash_file_bytes = file_bytes,
       hp_max_total_hash_bytes = total_bytes, hp_max_hash_duration_seconds = duration,
       hp_hash_chunk_size = chunk, hp_allow_non_local_content = non_local, hp_allow_verified_reuse = reuse\<rparr>)))))))))"

definition count_of :: "json \<Rightarrow> payload_observation_count option result" where
  "count_of v =
     bind_typed (enum_of payload_observation_status_value all_payload_statuses ''status'' v) (\<lambda>status.
     bind_typed (typed as_int ''count'' v) (\<lambda>n. Inr (Some \<lparr>pc_status = status, pc_count = n\<rparr>)))"

definition snapshot_v2_from_valid_evidence :: "snapshot_env \<Rightarrow> json \<Rightarrow> string \<Rightarrow> filesystem_snapshot option result" where
  "snapshot_v2_from_valid_evidence env evidence path =
     bind_typed (evidence_parts env v2_entry_of evidence) (\<lambda>(data, budget, entries).
     bind_typed (typed as_int ''snapshot_schema_version'' data) (\<lambda>version.
     bind_typed (header_of data budget entries) (\<lambda>header.
     bind_typed (bind_result (py_item ''hash_policy'' data) (policy_of env)) (\<lambda>policy.
     bind_typed (typed as_int ''allocated_regular_file_bytes_known_sum'' data) (\<lambda>known.
     bind_typed (typed as_int ''allocated_regular_file_unknown_count'' data) (\<lambda>unknown.
     bind_result (bind_result (py_item ''payload_observation_summary'' data) (py_item ''status_counts'')) (\<lambda>listed.
     bind_typed (case listed of JArr vs \<Rightarrow> entries_of count_of vs | _ \<Rightarrow> Inr None) (\<lambda>counts.
     sealed_of evidence data path (header\<lparr>s_v2 := Some \<lparr>sv2_snapshot_schema_version = version,
       sv2_hash_policy = policy, sv2_allocated_regular_file_bytes_known_sum = known,
       sv2_allocated_regular_file_unknown_count = unknown, sv2_payload_observation_summary = counts\<rparr>\<rparr>)))))))))"

text \<open>The last step of \<open>snapshot_from_valid_evidence_versioned\<close>, after the validation.\<close>

definition read_evidence :: "snapshot_env \<Rightarrow> json \<Rightarrow> string \<Rightarrow> filesystem_snapshot option result" where
  "read_evidence env evidence path =
     (if snapshot_evidence_schema_version evidence = Some 1
      then snapshot_from_valid_evidence env evidence path
      else snapshot_v2_from_valid_evidence env evidence path)"

definition snapshot_from_valid_evidence_versioned ::
  "snapshot_env \<Rightarrow> json \<Rightarrow> string \<Rightarrow> filesystem_snapshot option result" where
  "snapshot_from_valid_evidence_versioned env evidence path =
     bind_result (validate_snapshot_evidence env evidence) (\<lambda>r.
       if ev_valid r then read_evidence env evidence path
       else raise EvidenceError ''Snapshot Evidence failed intrinsic validation'')"

end
