(* ===== verification/Snapshot_Evidence_Correct.thy ===== *)
theory Snapshot_Evidence_Correct
  imports Snapshot_Store Ledger_Correct Filesystem_Scan_Properties
begin

text \<open>
  The Evidence that is built from a scanned Snapshot passes the validator, and what a valid document
  guarantees.
\<close>

section \<open>Documents with their keys in order\<close>

lemma sort_keys_idem [simp]: "sort_keys (sort_keys v) = sort_keys v"
proof (induction v)
  case (JObj d)
  have "sort_keys (sort_keys (JObj d)) = JObj (map (\<lambda>(k, v). (k, sort_keys (sort_keys v))) (sort_key fst d))"
    unfolding sort_keys_object by (simp add: sort_key_map sort_key_id_if_sorted comp_def case_prod_unfold)
  also have "\<dots> = sort_keys (JObj d)"
    unfolding sort_keys_object using JObj by (auto simp: case_prod_unfold)
  finally show ?case .
qed simp_all

lemma sort_keys_leaf [simp]:
  "sort_keys (opt_int n) = opt_int n"
  by (simp add: opt_int_def split: option.splits)

lemma sort_keys_doc: "sort_keys (JObj d) = JObj (sorted_doc d)"
  by (rule sort_keys_sorted_doc)

lemma filter_sorted_doc: "filter (\<lambda>(k, _). P k) (sorted_doc d) = sorted_doc (filter (\<lambda>(k, _). P k) d)"
  by (simp add: sorted_doc_def filter_sort filter_map comp_def case_prod_unfold)

lemma snapshot_metadata_sorted: "snapshot_metadata (sorted_doc d) = sorted_doc (snapshot_metadata d)"
  unfolding snapshot_metadata_def by (rule filter_sorted_doc)

lemma json_digest_sort_keys: "json_digest env (sort_keys v) = json_digest env v"
  by (simp add: json_digest_def encode_json_def canonical_sort_keys)

lemma json_digest_cong: "sort_keys v = sort_keys w \<Longrightarrow> json_digest env v = json_digest env w"
  by (metis json_digest_sort_keys)

text \<open>The numbers of a policy or a budget read back as they were written.\<close>

definition numbers_ok :: "snapshot_env \<Rightarrow> bool" where
  "numbers_ok env \<longleftrightarrow>
     (\<forall>r. json_wf (float_repr (sx_ledger env)) (sx_number env r) \<and> sort_keys (sx_number env r) = sx_number env r)"

lemma json_of_Inr:
  "json_of env v = Inr w \<Longrightarrow> json_wf (float_repr (sx_ledger env)) v \<Longrightarrow> json_encodable v \<and> w = sort_keys v"
  by (auto simp: json_of_def encode_json_def bind_result_Inr_iff read_json_canonical split: if_splits)

lemma json_wf_leaf [simp]: "json_wf fr (opt_int n)" "json_wf fr (json_option t)"
  by (simp_all add: opt_int_def json_option_def split: option.splits)

lemma stat_fields_wf [simp]: "json_wf fr (JObj (stat_fields e))"
  by (simp add: stat_fields_def)

lemma observation_fields_wf [simp]: "json_wf fr (JObj (observation_fields p))"
  by (simp add: observation_fields_def)

lemma entry_fields_wf [simp]: "json_wf fr (JObj (entry_fields e))"
proof (cases "e_v2 e")
  case None
  then show ?thesis using stat_fields_wf [of fr e] by (simp add: entry_fields_def)
next
  case (Some facts)
  have "''allocated_size_bytes'' \<notin> fst ` set (stat_fields e)" "''payload_observation'' \<notin> fst ` set (stat_fields e)"
    by (simp_all add: stat_fields_def)
  with Some show ?thesis
    using stat_fields_wf [of fr e] observation_fields_wf [of fr "v2_payload_observation facts"]
    by (simp add: entry_fields_def list_all_iff)
qed

lemma budget_fields_wf: "numbers_ok env \<Longrightarrow> json_wf (float_repr (sx_ledger env)) (JObj (budget_fields env b))"
  by (simp add: budget_fields_def numbers_ok_def)

lemma policy_fields_wf: "numbers_ok env \<Longrightarrow> json_wf (float_repr (sx_ledger env)) (JObj (policy_fields env p))"
  by (simp add: policy_fields_def numbers_ok_def split: option.splits)

lemma snapshot_fields_distinct: "distinct (map fst (snapshot_fields env s))"
  by (cases "s_v2 s") (simp_all add: snapshot_fields_def)

lemma snapshot_fields_wf:
  assumes "numbers_ok env"
  shows "json_wf (float_repr (sx_ledger env)) (JObj (snapshot_fields env s))"
proof -
  let ?wf = "json_wf (float_repr (sx_ledger env))"
  have "?wf (summary_field cs)" for cs by (simp add: summary_field_def list_all_iff)
  moreover have "?wf (JArr (map (\<lambda>e. JObj (entry_fields e)) es))" for es
    using entry_fields_wf by (simp add: list_all_iff del: json_wf.simps(3))
  moreover have "?wf (JArr (map JStr ts))" for ts by (simp add: list_all_iff)
  ultimately have "list_all (\<lambda>(k, v). ?wf v) (snapshot_fields env s)"
    using budget_fields_wf [OF assms] policy_fields_wf [OF assms]
    by (simp add: snapshot_fields_def del: json_wf.simps(2, 3) split: option.splits)
  then show ?thesis using snapshot_fields_distinct by simp
qed

text \<open>The document of an entry, as it is stored.\<close>

definition stored_entry :: "filesystem_entry \<Rightarrow> json" where
  "stored_entry e = JObj (sorted_doc (entry_fields e))"

lemma entry_documents:
  assumes "map_result (\<lambda>e. json_of env (JObj (entry_fields e))) es = Inr vs"
  shows "vs = map stored_entry es" "list_all (\<lambda>e. json_encodable (JObj (entry_fields e))) es"
proof -
  from assms have all: "list_all2 (\<lambda>e v. json_of env (JObj (entry_fields e)) = Inr v) es vs"
    by (simp add: map_result_Inr_iff)
  have one: "v = stored_entry e \<and> json_encodable (JObj (entry_fields e))"
    if "json_of env (JObj (entry_fields e)) = Inr v" for e v
    using json_of_Inr [OF that entry_fields_wf]
    by (simp add: stored_entry_def sort_keys_doc del: json_encodable.simps sort_keys.simps)
  have "list_all2 (\<lambda>e v. v = stored_entry e) es vs" "list_all2 (\<lambda>e v. json_encodable (JObj (entry_fields e))) es vs"
    using all by (auto elim!: list_all2_mono dest: one)
  then show "vs = map stored_entry es" "list_all (\<lambda>e. json_encodable (JObj (entry_fields e))) es"
    by (auto simp: list_all2_map_iff list_all2_conv_all_nth list_all_length simp del: json_encodable.simps)
qed

section \<open>Paths\<close>

lemma is_substring_iff: "is_substring s t \<longleftrightarrow> (\<exists>a b. t = a @ s @ b)"
proof
  assume "is_substring s t"
  then obtain n b where "drop n t = s @ b" by (auto simp: is_substring_def starts_with_iff list_ex_iff)
  then show "\<exists>a b. t = a @ s @ b" by (metis append_take_drop_id)
next
  assume "\<exists>a b. t = a @ s @ b"
  then obtain a b where "t = a @ s @ b" by blast
  then have "length a < Suc (length t)" "starts_with s (drop (length a) t)" by (auto simp: starts_with_iff)
  then show "is_substring s t" unfolding is_substring_def list_ex_iff by (intro bexI [of _ "length a"]) auto
qed

lemma split_on_after: "set (split_on c ys) \<subseteq> set (tl (split_on c (a @ c # ys)))"
  by (induction a) (auto split: list.splits)

lemma split_on_between: "c \<notin> set p \<Longrightarrow> p \<in> set (split_on c (a @ c # p @ c # xs))"
  using split_on_after [of c "p @ c # xs" a]
  by (cases "split_on c (a @ c # p @ c # xs)") (auto simp: split_on_append)

lemma relative_path_ok:
  assumes "names_ok env" "in_scope env cx p"
  shows "path_ok (JStr (relative_to p (sc_normalized_path (cx_scope cx))))"
proof (cases "p = sc_normalized_path (cx_scope cx)")
  case True
  have "path_ok (JStr ''.'')" by code_simp
  with True show ?thesis by simp
next
  case False
  with assms have "seen env cx (sc_normalized_path (cx_scope cx)) 0 p" by (simp add: in_scope_def)
  from seen_names [OF this assms(1)] obtain r where r: "p = sc_normalized_path (cx_scope cx) @ r" "r \<noteq> []"
    "\<forall>name \<in> set r. name \<noteq> [] \<and> name \<noteq> ''.'' \<and> name \<noteq> ''..'' \<and> CHR ''/'' \<notin> set name" by blast
  define path where "path = join_on (CHR ''/'') r"
  have parts: "split_on (CHR ''/'') path = r" using split_join_on [OF r(2)] r(3) by (simp add: path_def)
  with r(3) have names: "\<forall>name \<in> set (split_on (CHR ''/'') path). name \<noteq> [] \<and> name \<noteq> ''..''" by auto
  have "\<not> starts_with ''/'' path"
  proof
    assume "starts_with ''/'' path"
    then obtain t where "path = CHR ''/'' # t" by (auto simp only: starts_with_iff append.simps)
    with names show False by simp
  qed
  moreover have "path \<noteq> ''..''"
  proof
    assume "path = ''..''"
    then have "split_on (CHR ''/'') path = [''..'']" by (simp add: split_on_no_sep)
    with names show False by simp
  qed
  moreover have "\<not> starts_with ''../'' path"
  proof
    assume "starts_with ''../'' path"
    then obtain t where "path = ''..'' @ CHR ''/'' # t" by (auto simp only: starts_with_iff append.simps)
    then have "split_on (CHR ''/'') path = ''..'' # split_on (CHR ''/'') t" by (simp only: split_on_append) simp
    with names show False by simp
  qed
  moreover have "\<not> is_substring ''/../'' path"
  proof
    assume "is_substring ''/../'' path"
    then obtain a b where "path = a @ CHR ''/'' # ''..'' @ CHR ''/'' # b"
      by (auto simp only: is_substring_iff append.simps)
    with split_on_between [of "CHR ''/''" "''..''" a b] names show False by auto
  qed
  ultimately show ?thesis using r(1, 2) by (simp add: path_ok_def path_def relative_to_def)
qed

section \<open>The checks of the entries\<close>

lemma entry_fields_distinct: "distinct (map fst (entry_fields e))"
  using entry_fields_wf [of "\<lambda>s. s" e] by simp

lemma stat_fields_keys: "map fst (stat_fields e) = v1_entry_fields"
  by (simp add: stat_fields_def v1_entry_fields_def)

lemma map_of_sorted_doc: "distinct (map fst d) \<Longrightarrow> map_of (sorted_doc d) k = map_option sort_keys (map_of d k)"
  by (rule map_of_sort_keys [OF sort_keys_sorted_doc])

lemma has_fields_sorted [simp]: "has_fields (sorted_doc d) ks = has_fields d ks"
  unfolding has_fields_def keys_sorted_doc ..

lemma v1_entry_fields: "e_v2 e = None \<Longrightarrow> entry_fields e = stat_fields e"
  by (simp add: entry_fields_def)

lemma map_of_stat_fields:
  "map_of (stat_fields e) ''entry_id'' = Some (JStr (e_entry_id e))"
  "map_of (stat_fields e) ''snapshot_id'' = Some (JStr (e_snapshot_id e))"
  "map_of (stat_fields e) ''scope_id'' = Some (JStr (e_scope_id e))"
  "map_of (stat_fields e) ''relative_path'' = Some (JStr (e_relative_path e))"
  "map_of (stat_fields e) ''object_type'' = Some (JStr (filesystem_object_type_value (e_object_type e)))"
  "map_of (stat_fields e) ''size_bytes'' = Some (opt_int (e_size_bytes e))"
  "map_of (stat_fields e) ''readable'' = Some (JBool (e_readable e))"
  "map_of (stat_fields e) ''writable'' = Some (JBool (e_writable e))"
  "map_of (stat_fields e) ''executable'' = Some (JBool (e_executable e))"
  "map_of (stat_fields e) ''observation_status''
     = Some (JStr (filesystem_observation_status_value (e_observation_status e)))"
  "map_of (stat_fields e) ''excluded'' = Some (JBool (e_excluded e))"
  by (simp_all add: stat_fields_def)

text \<open>The fields of an entry are found in both versions.\<close>

lemma map_of_entry_fields:
  assumes "map_of (stat_fields e) k = Some v"
  shows "map_of (sorted_doc (entry_fields e)) k = Some (sort_keys v)"
proof -
  have "map_of (entry_fields e) k = Some v" using assms by (simp add: entry_fields_def map_add_find_right)
  then show ?thesis by (simp add: map_of_sorted_doc [OF entry_fields_distinct])
qed

lemmas stored_fields = map_of_stat_fields [THEN map_of_entry_fields, simplified]

lemmas dget_stored = stored_fields [THEN arg_cong [where f = "\<lambda>x. case x of None \<Rightarrow> JNull | Some v \<Rightarrow> v"],
  folded dget_def, simplified]

lemma py_eq_text [simp]: "py_eq (JStr s) (JStr t) \<longleftrightarrow> s = t"
  by (simp add: py_eq_def)

lemma py_in_texts [simp]: "py_in (JStr s) (JArr (map JStr ts)) = Inr (s \<in> set ts)"
  by (auto simp: py_in_def list_ex_iff)

lemma text_of_text [simp]: "text_of env (JStr s) = s"
  by (simp add: text_of_def hashable_def py_str_def)

lemma is_json_simps [simp]:
  "is_text (JStr s)" "is_bool (JBool b)" "is_object (JObj d)" "as_text (JStr s) = Some s"
  "as_list (JArr vs) = Some vs" "doc_of (JObj d) = d"
  by (simp_all add: is_text_def as_text_def is_bool_def is_object_def as_list_def doc_of_def)

text \<open>An entry that belongs to the Snapshot.\<close>

definition entry_sound :: "snapshot_env \<Rightarrow> string \<Rightarrow> string list \<Rightarrow> filesystem_entry \<Rightarrow> bool" where
  "entry_sound env snapshot_id scope_ids e \<longleftrightarrow>
     e_snapshot_id e = snapshot_id \<and> e_scope_id e \<in> set scope_ids
     \<and> entry_id env snapshot_id (e_scope_id e) (e_relative_path e) = Inr (e_entry_id e)
     \<and> path_ok (JStr (e_relative_path e))"

lemma check_entry_sound:
  assumes "e_v2 e = None" "entry_sound env snapshot_id scope_ids e"
  shows "check_entry env (Some snapshot_id) (JArr (map JStr scope_ids)) (stored_entry e) fl = Inr (fl\<lparr>
    fl_ids := fl_ids fl \<and> e_entry_id e \<notin> set (fl_seen fl),
    fl_unique := fl_unique fl \<and> location e \<notin> set (fl_keys fl),
    fl_keys := location e # fl_keys fl, fl_seen := e_entry_id e # fl_seen fl,
    fl_order := fl_order fl \<and> (case fl_previous fl of None \<Rightarrow> True | Some previous \<Rightarrow> previous \<le> location e),
    fl_previous := Some (location e)\<rparr>)"
proof -
  have fields: "has_fields (entry_fields e) v1_entry_fields"
    by (simp only: v1_entry_fields [OF assms(1)]) (simp add: has_fields_def stat_fields_keys del: set_map)
  show ?thesis
    using assms(2) unfolding check_entry_def stored_entry_def json.simps
    by (simp add: fields dget_stored Let_def entry_sound_def json_option_def id_text_def location_def split: option.split)
qed

definition flags_clear :: "entry_flags \<Rightarrow> bool" where
  "flags_clear fl \<longleftrightarrow> fl_schema fl \<and> fl_order fl \<and> fl_unique fl \<and> fl_ids fl \<and> fl_scopes fl \<and> fl_paths fl"

lemma check_entries_sound:
  assumes "flags_clear fl" "\<forall>e \<in> set es. e_v2 e = None \<and> entry_sound env snapshot_id scope_ids e"
    and "sorted (map location es)" "\<forall>q. fl_previous fl = Some q \<longrightarrow> (\<forall>e \<in> set es. q \<le> location e)"
    and "distinct (map location es)" "location ` set es \<inter> set (fl_keys fl) = {}"
    and "distinct (map e_entry_id es)" "e_entry_id ` set es \<inter> set (fl_seen fl) = {}"
  shows "\<exists>fl'. check_entries env (Some snapshot_id) (JArr (map JStr scope_ids)) (map stored_entry es) fl = Inr fl'
    \<and> flags_clear fl'"
  using assms
proof (induction es arbitrary: fl)
  case (Cons e es)
  show ?case
    unfolding list.map check_entries.simps
    by (subst check_entry_sound; (simp only: bind_result_simps)?; (rule Cons.IH)?)
      (use Cons.prems in \<open>auto simp: flags_clear_def split: option.splits\<close>)
qed simp

section \<open>The statistics\<close>

lemma py_item_stored:
  "py_item ''observation_status'' (stored_entry e)
     = Inr (JStr (filesystem_observation_status_value (e_observation_status e)))"
  "py_item ''excluded'' (stored_entry e) = Inr (JBool (e_excluded e))"
  "py_item ''object_type'' (stored_entry e) = Inr (JStr (filesystem_object_type_value (e_object_type e)))"
  "py_item ''size_bytes'' (stored_entry e) = Inr (opt_int (e_size_bytes e))"
  "py_item ''relative_path'' (stored_entry e) = Inr (JStr (e_relative_path e))"
  by (simp_all add: py_item_def stored_entry_def stored_fields)

lemma observed_text [simp]: "filesystem_observation_status_value st = ''observed'' \<longleftrightarrow> st = OBSERVED"
  by (cases st) simp_all

lemma regular_text [simp]: "filesystem_object_type_value t = ''regular_file'' \<longleftrightarrow> t = REGULAR_FILE"
  by (cases t) simp_all

lemma map_result_pure: "(\<And>x. f x = Inr (g x)) \<Longrightarrow> map_result f xs = Inr (map g xs)"
  by (induction xs) simp_all

lemma py_sum_ints:
  assumes "\<And>x. f x = Inr (if P x then Some (w x) else None)" "\<And>x. int_value (w x) = Some (h x)"
  shows "py_sum env f xs (JInt n) = Inr (JInt (n + (\<Sum>x \<leftarrow> filter P xs. h x)))"
  by (induction xs arbitrary: n) (simp_all add: assms py_add_def int_value_def [of "JInt m" for m] add.assoc)

lemma py_sum_map: "py_sum env f (map g xs) = py_sum env (\<lambda>x. f (g x)) xs"
proof (induction xs)
  case (Cons x xs)
  show ?case by (rule ext) (simp add: Cons.IH)
qed (simp add: fun_eq_iff)

lemma count_if_as_sum: "count_if P xs = (\<Sum>x \<leftarrow> xs. if P x then 1 else 0)"
  by (induction xs) simp_all

lemma stored_statistics:
  "snapshot_statistics env (map stored_entry es) = Inr
     [(''entry_count'', JInt (int (length es))),
      (''observed_count'', JInt (count_if (\<lambda>e. e_observation_status e = OBSERVED) es)),
      (''error_count'', JInt (count_if (\<lambda>e. e_observation_status e \<noteq> OBSERVED) es)),
      (''excluded_count'', JInt (count_if e_excluded es)),
      (''total_regular_file_bytes'',
        JInt (\<Sum>e \<leftarrow> filter (\<lambda>e. e_object_type e = REGULAR_FILE) es. or_zero (e_size_bytes e))),
      (''max_depth_observed'', JInt (max_or_zero (map (\<lambda>e. depth_of (e_relative_path e)) es)))]"
proof -
  have statuses: "map_result (py_item ''observation_status'') (map stored_entry es)
      = Inr (map (\<lambda>e. JStr (filesystem_observation_status_value (e_observation_status e))) es)"
    by (induction es) (simp_all add: py_item_stored)
  have excluded: "py_sum env (\<lambda>item. bind_result (py_item ''excluded'' item) (\<lambda>v. Inr (Some v)))
      (map stored_entry es) (JInt 0) = Inr (JInt (count_if e_excluded es))"
    unfolding py_sum_map count_if_as_sum
    by (subst py_sum_ints [where P = "\<lambda>_. True" and w = "\<lambda>e. JBool (e_excluded e)" and h = "\<lambda>e. if e_excluded e then 1 else 0"])
      (simp_all add: py_item_stored int_value_def)
  have total: "py_sum env (\<lambda>item. bind_result (py_item ''object_type'' item) (\<lambda>kind.
        if py_eq kind (JStr ''regular_file'')
        then bind_result (py_item ''size_bytes'' item) (\<lambda>v. Inr (Some (if py_true v then v else JInt 0)))
        else Inr None)) (map stored_entry es) (JInt 0)
      = Inr (JInt (\<Sum>e \<leftarrow> filter (\<lambda>e. e_object_type e = REGULAR_FILE) es. or_zero (e_size_bytes e)))"
    unfolding py_sum_map
    by (subst py_sum_ints [where P = "\<lambda>e. e_object_type e = REGULAR_FILE" and h = "\<lambda>e. or_zero (e_size_bytes e)"
          and w = "\<lambda>e. if py_true (opt_int (e_size_bytes e)) then opt_int (e_size_bytes e) else JInt 0"])
      (auto simp: py_item_stored int_value_def py_true_def opt_int_def split: option.splits)
  have depths: "map_result (\<lambda>item. bind_result (py_item ''relative_path'' item) path_depth) (map stored_entry es)
      = Inr (map (\<lambda>e. depth_of (e_relative_path e)) es)"
    by (induction es) (simp_all add: py_item_stored path_depth_def)
  show ?thesis
    unfolding snapshot_statistics_def statuses excluded total depths bind_result_simps
    by (simp add: count_if_map)
qed

section \<open>Snapshots as they are made\<close>

text \<open>What the validator checks of a Snapshot, said of the record.\<close>

definition summary_right :: "filesystem_snapshot \<Rightarrow> bool" where
  "summary_right s \<longleftrightarrow>
     s_entry_count s = int (length (s_entries s))
     \<and> s_observed_count s = count_if (\<lambda>e. e_observation_status e = OBSERVED) (s_entries s)
     \<and> s_error_count s = count_if (\<lambda>e. e_observation_status e \<noteq> OBSERVED) (s_entries s)
     \<and> s_excluded_count s = count_if e_excluded (s_entries s)
     \<and> s_total_regular_file_bytes s
         = (\<Sum>e \<leftarrow> filter (\<lambda>e. e_object_type e = REGULAR_FILE) (s_entries s). or_zero (e_size_bytes e))
     \<and> s_max_depth_observed s = max_or_zero (map (\<lambda>e. depth_of (e_relative_path e)) (s_entries s))"

lemma metadata_digest_cong:
  assumes "map (\<lambda>(k, v). (k, sort_keys v)) meta = map (\<lambda>(k, v). (k, sort_keys v)) (snapshot_metadata d)"
  shows "json_digest env (JObj meta) = snapshot_metadata_digest env (sorted_doc d)"
proof -
  have "sort_keys (JObj meta) = sort_keys (JObj (snapshot_metadata d))" using assms by simp
  also have "\<dots> = sort_keys (JObj (snapshot_metadata (sorted_doc d)))"
    unfolding snapshot_metadata_sorted sort_keys_doc [symmetric, of "snapshot_metadata d"]
    by (metis sort_keys_doc sort_keys_idem)
  finally show ?thesis unfolding snapshot_metadata_digest_def by (rule json_digest_cong)
qed

lemma count_if_not: "count_if (\<lambda>x. \<not> P x) xs = int (length xs) - count_if P xs"
  using count_if_add_not [of P xs] by simp

lemma make_snapshot_facts:
  assumes made: "make_snapshot env config run_id scopes budget snapshot_id started completed = Inr s"
    and numbers: "numbers_ok env"
  obtains partial where "scan (sx_scan env) config snapshot_id scopes budget = Inr (s_entries s, partial)"
    and "s_snapshot_id s = snapshot_id" "s_run_id s = run_id" "s_scope_ids s = map sc_scope_id scopes"
    and "s_v2 s = None" "s_evidence_id s = None" "s_evidence_relative_path s = None" "summary_right s"
    and "snapshot_entries_digest env (map stored_entry (s_entries s)) = Inr (s_entries_digest s)"
    and "snapshot_metadata_digest env (sorted_doc (snapshot_fields env s)) = Inr (s_snapshot_digest s)"
proof -
  note run = made [unfolded make_snapshot_def Let_def bind_result_Inr_iff split_paired_Ex case_prod_conv]
  from run obtain entries partial entry_data entries_digest config_digest budget_data snapshot_digest where parts:
    "scan (sx_scan env) config snapshot_id scopes budget = Inr (entries, partial)"
    "map_result (\<lambda>e. json_of env (JObj (entry_fields e))) entries = Inr entry_data"
    "json_digest env (JArr entry_data) = Inr entries_digest"
    "json_of env (JObj (budget_fields env budget)) = Inr budget_data"
    and meta: "json_digest env (JObj
       [(''snapshot_id'', JStr snapshot_id), (''run_id'', JStr run_id), (''created_at'', JStr completed),
        (''started_at'', JStr started), (''completed_at'', JStr completed),
        (''status'', JStr (snapshot_status_value (s_status s))),
        (''consistency'', JStr (snapshot_consistency_value BEST_EFFORT_POINT_IN_TIME)),
        (''config_digest'', JStr config_digest), (''scope_ids'', JArr (map (\<lambda>s. JStr (sc_scope_id s)) scopes)),
        (''budget'', budget_data), (''entry_count'', JInt (int (length entries))),
        (''observed_count'', JInt (s_observed_count s)), (''error_count'', JInt (s_error_count s)),
        (''excluded_count'', JInt (s_excluded_count s)), (''total_regular_file_bytes'', JInt (s_total_regular_file_bytes s)),
        (''max_depth_observed'', JInt (s_max_depth_observed s)), (''entries_digest'', JStr entries_digest)])
      = Inr snapshot_digest"
    and fields: "s_snapshot_id s = snapshot_id" "s_run_id s = run_id" "s_created_at s = completed"
      "s_started_at s = started" "s_completed_at s = completed" "s_consistency s = BEST_EFFORT_POINT_IN_TIME"
      "s_config_digest s = config_digest" "s_scope_ids s = map sc_scope_id scopes" "s_budget s = budget"
      "s_entry_count s = int (length entries)" "s_entries_digest s = entries_digest"
      "s_snapshot_digest s = snapshot_digest" "s_entries s = entries" "s_v2 s = None"
      "s_evidence_id s = None" "s_evidence_relative_path s = None" "s_entries s = entries"
    and summary: "summary_right s"
    by (auto simp: summary_right_def count_if_not)
  from json_of_Inr [OF parts(4) budget_fields_wf [OF numbers]]
  have "sort_keys budget_data = sort_keys (JObj (budget_fields env budget))" by (metis sort_keys_idem)
  with fields have "map (\<lambda>(k, v). (k, sort_keys v))
       [(''snapshot_id'', JStr snapshot_id), (''run_id'', JStr run_id), (''created_at'', JStr completed),
        (''started_at'', JStr started), (''completed_at'', JStr completed),
        (''status'', JStr (snapshot_status_value (s_status s))),
        (''consistency'', JStr (snapshot_consistency_value BEST_EFFORT_POINT_IN_TIME)),
        (''config_digest'', JStr config_digest), (''scope_ids'', JArr (map (\<lambda>s. JStr (sc_scope_id s)) scopes)),
        (''budget'', budget_data), (''entry_count'', JInt (int (length entries))),
        (''observed_count'', JInt (s_observed_count s)), (''error_count'', JInt (s_error_count s)),
        (''excluded_count'', JInt (s_excluded_count s)), (''total_regular_file_bytes'', JInt (s_total_regular_file_bytes s)),
        (''max_depth_observed'', JInt (s_max_depth_observed s)), (''entries_digest'', JStr entries_digest)]
      = map (\<lambda>(k, v). (k, sort_keys v)) (snapshot_metadata (snapshot_fields env s))"
    by (simp add: snapshot_fields_def snapshot_metadata_def comp_def del: sort_keys.simps(2))
  from metadata_digest_cong [OF this] meta fields(12)
  have "snapshot_metadata_digest env (sorted_doc (snapshot_fields env s)) = Inr (s_snapshot_digest s)" by simp
  moreover have "snapshot_entries_digest env (map stored_entry (s_entries s)) = Inr (s_entries_digest s)"
    using parts(3) fields(11, 13) entry_documents(1) [OF parts(2)] by (simp add: snapshot_entries_digest_def)
  ultimately show ?thesis using that parts(1) fields summary by simp
qed

section \<open>The validator accepts them\<close>

lemma map_of_snapshot_fields:
  "map_of (snapshot_fields env s) ''snapshot_id'' = Some (JStr (s_snapshot_id s))"
  "map_of (snapshot_fields env s) ''run_id'' = Some (JStr (s_run_id s))"
  "map_of (snapshot_fields env s) ''scope_ids'' = Some (JArr (map JStr (s_scope_ids s)))"
  "map_of (snapshot_fields env s) ''entry_count'' = Some (JInt (s_entry_count s))"
  "map_of (snapshot_fields env s) ''observed_count'' = Some (JInt (s_observed_count s))"
  "map_of (snapshot_fields env s) ''error_count'' = Some (JInt (s_error_count s))"
  "map_of (snapshot_fields env s) ''excluded_count'' = Some (JInt (s_excluded_count s))"
  "map_of (snapshot_fields env s) ''total_regular_file_bytes'' = Some (JInt (s_total_regular_file_bytes s))"
  "map_of (snapshot_fields env s) ''max_depth_observed'' = Some (JInt (s_max_depth_observed s))"
  "map_of (snapshot_fields env s) ''entries_digest'' = Some (JStr (s_entries_digest s))"
  "map_of (snapshot_fields env s) ''snapshot_digest'' = Some (JStr (s_snapshot_digest s))"
  by (simp_all add: snapshot_fields_def split: option.split)

text \<open>The Snapshot of a payload, as it is stored.\<close>

definition stored_snapshot :: "snapshot_env \<Rightarrow> filesystem_snapshot \<Rightarrow> doc" where
  "stored_snapshot env s = sorted_doc (snapshot_fields env s)"

lemma sort_keys_texts [simp]: "map (sort_keys \<circ> JStr) ts = map JStr ts"
  by simp

lemma stored_snapshot_field:
  "map_of (snapshot_fields env s) k = Some v \<Longrightarrow> map_of (stored_snapshot env s) k = Some (sort_keys v)"
  by (simp add: stored_snapshot_def map_of_sorted_doc [OF snapshot_fields_distinct])

lemmas snapshot_values = map_of_snapshot_fields [THEN stored_snapshot_field, simplified]

lemmas dget_snapshot = snapshot_values [THEN arg_cong [where f = "\<lambda>x. case x of None \<Rightarrow> JNull | Some v \<Rightarrow> v"],
  folded dget_def, simplified]

lemma v1_snapshot_has_fields:
  assumes "s_v2 s = None"
  shows "has_fields (stored_snapshot env s) (v1_snapshot_fields @ [''evidence_id'', ''evidence_relative_path''])"
  unfolding stored_snapshot_def has_fields_sorted
  using assms by (auto simp: has_fields_def snapshot_fields_def v1_snapshot_fields_def)

lemma py_eq_int [simp]: "py_eq (JInt m) (JInt n) \<longleftrightarrow> m = n"
  by (simp add: py_eq_def)

text \<open>Evidence of a Snapshot: an envelope with its own digest around the two documents.\<close>

definition evidence_around :: "snapshot_env \<Rightarrow> filesystem_snapshot \<Rightarrow> doc \<Rightarrow> bool" where
  "evidence_around env s d \<longleftrightarrow>
     has_fields d envelope_fields \<and> dget ''schema_version'' d = JInt (evidence_version s)
     \<and> dget ''evidence_type'' d = JStr ''filesystem.snapshot''
     \<and> (\<exists>own. dget ''evidence_digest'' d = JStr own \<and> digest (sx_ledger env) d = Inr own)
     \<and> dget ''run_id'' d = JStr (s_run_id s)
     \<and> (\<exists>p. dget ''payload'' d = JObj p \<and> has_fields p [''snapshot'', ''entries'']
          \<and> dget ''snapshot'' p = JObj (stored_snapshot env s)
          \<and> dget ''entries'' p = JArr (map stored_entry (s_entries s)))"

lemma valid_v1_document:
  assumes d: "evidence_around env s d" and v1: "s_v2 s = None" and summary: "summary_right s"
    and entries: "\<forall>e \<in> set (s_entries s). e_v2 e = None \<and> entry_sound env (s_snapshot_id s) (s_scope_ids s) e"
      "sorted (map location (s_entries s))" "distinct (map location (s_entries s))"
      "distinct (map e_entry_id (s_entries s))"
    and digests: "snapshot_entries_digest env (map stored_entry (s_entries s)) = Inr (s_entries_digest s)"
      "snapshot_metadata_digest env (stored_snapshot env s) = Inr (s_snapshot_digest s)"
  shows "\<exists>v. validate_snapshot_evidence_v1 env d = Inr v \<and> ev_valid v \<and> ev_errors v = []"
proof -
  from d obtain own p where p: "dget ''evidence_digest'' d = JStr own" "digest (sx_ledger env) d = Inr own"
    "dget ''payload'' d = JObj p" "has_fields p [''snapshot'', ''entries'']"
    "dget ''snapshot'' p = JObj (stored_snapshot env s)" "dget ''entries'' p = JArr (map stored_entry (s_entries s))"
    "has_fields d envelope_fields" "dget ''evidence_type'' d = JStr ''filesystem.snapshot''"
    "dget ''run_id'' d = JStr (s_run_id s)"
    by (auto simp: evidence_around_def)
  have own: "own_digest_valid env d = Inr True" by (simp add: own_digest_valid_def p(1, 2))
  have "flags_clear (initial_flags True)" by (simp add: flags_clear_def initial_flags_def)
  from check_entries_sound [OF this entries(1, 2) _ entries(3) _ entries(4)] obtain fl where fl:
    "check_entries env (Some (s_snapshot_id s)) (JArr (map JStr (s_scope_ids s))) (map stored_entry (s_entries s))
       (initial_flags True) = Inr fl" "flags_clear fl"
    by (auto simp: initial_flags_def)
  have statistics: "bind_result (snapshot_statistics env (map stored_entry (s_entries s)))
      (\<lambda>statistics. Inr (summary_matches (stored_snapshot env s) statistics)) = Inr True"
    using summary by (simp add: stored_statistics summary_matches_def dget_snapshot summary_right_def)
  have fields: "has_fields (stored_snapshot env s) (v1_snapshot_fields @ [''evidence_id'', ''evidence_relative_path''])"
    by (rule v1_snapshot_has_fields [OF v1])
  show ?thesis
    unfolding validate_snapshot_evidence_v1_def own bind_result_simps Let_def
    by (simp add: p fields dget_snapshot snapshot_values fl(1) statistics digests guarded_def problems_def
        fl(2) [unfolded flags_clear_def])
qed

section \<open>What is written is accepted\<close>

text \<open>
  What the outside world keeps: names are names, both parts of the program use one hash function,
  and numbers read back as they were written.
\<close>

definition snapshot_env_ok :: "snapshot_env \<Rightarrow> bool" where
  "snapshot_env_ok env \<longleftrightarrow>
     names_ok (sx_scan env) \<and> se_sha256 (sx_scan env) = sha256 (sx_ledger env) \<and> numbers_ok env"

lemma scanned_entries_sound:
  assumes "snapshot_env_ok env" "scan (sx_scan env) config snapshot_id scopes budget = Inr (entries, partial)"
    and "e \<in> set entries"
  shows "e_v2 e = None \<and> entry_sound env snapshot_id (map sc_scope_id scopes) e"
proof -
  from scan_entry_origin [OF assms(2, 3)] obtain scope p where
    e: "scope \<in> set scopes" "in_scope (sx_scan env) (scope_context (sx_scan env) config snapshot_id budget scope) p"
    "entry_for (sx_scan env) snapshot_id scope p e" by blast
  from relative_path_ok [OF _ e(2)] assms(1) have "path_ok (JStr (relative_to p (sc_normalized_path scope)))"
    by (simp add: snapshot_env_ok_def)
  then show ?thesis
    using e assms(1)
    by (auto simp: entry_sound_def entry_for_def entry_id_def scan_entry_id_def snapshot_env_ok_def Let_def
        split: if_splits)
qed

lemma evidence_of_facts:
  assumes "evidence_of env call run evidence_type payload version = Inr item"
  shows "i_schema_version item = version" "i_evidence_type item = evidence_type" "i_run_id item = rn_run_id run"
    "i_payload item = payload" "i_sequence item = rn_last_sequence run + 1"
    "digest env (item_body item) = Inr (i_evidence_digest item)"
  using assms by (auto simp: evidence_of_def Let_def bind_result_Inr_iff item_body_def)

lemma snapshot_item_around:
  assumes env: "numbers_ok env" and item: "snapshot_item env call run s = Inr item" and run: "rn_run_id run = s_run_id s"
  shows "evidence_around env s (item_doc item)" "evidence_around env s (sorted_doc (item_doc item))"
proof -
  from item obtain data es where parts: "json_of env (JObj (snapshot_fields env s)) = Inr data"
    "map_result (\<lambda>e. json_of env (JObj (entry_fields e))) (s_entries s) = Inr es"
    "evidence_of (sx_ledger env) call run ''filesystem.snapshot''
       [(''snapshot'', data), (''entries'', JArr es)] (evidence_version s) = Inr item"
    by (auto simp: snapshot_item_def snapshot_payload_def bind_result_Inr_iff)
  have data: "data = JObj (stored_snapshot env s)"
    using json_of_Inr [OF parts(1) snapshot_fields_wf [OF env]] by (simp add: stored_snapshot_def sorted_doc_def)
  note es = entry_documents(1) [OF parts(2)]
  note facts = evidence_of_facts [OF parts(3)]
  have payload: "i_payload item = [(''snapshot'', JObj (stored_snapshot env s)),
      (''entries'', JArr (map stored_entry (s_entries s)))]"
    using facts(4) data es by simp
  have keys: "set required_keys = set envelope_fields" by (simp add: required_keys_def envelope_fields_def insert_commute)
  have stored: "sort_keys (JObj (stored_snapshot env s)) = JObj (stored_snapshot env s)"
    "sort_keys (stored_entry e) = stored_entry e" for e
    by (metis data json_of_Inr [OF parts(1) snapshot_fields_wf [OF env]] sort_keys_idem)
      (metis stored_entry_def sort_keys_doc sort_keys_idem)
  have own: "digest (sx_ledger env) (item_doc item) = Inr (i_evidence_digest item)"
    "digest (sx_ledger env) (sorted_doc (item_doc item)) = Inr (i_evidence_digest item)"
    using facts(6) by (simp_all add: digest_item_doc sorted_item_facts)
  have sorted_payload: "sort_keys (JObj (i_payload item)) = JObj
      [(''entries'', JArr (map stored_entry (s_entries s))), (''snapshot'', JObj (stored_snapshot env s))]"
    using stored unfolding payload by (simp add: comp_def)
  show "evidence_around env s (item_doc item)"
    using facts run payload own(1) keys
    by (simp add: evidence_around_def has_fields_def item_doc_keys dget_item_doc del: set_map) (simp add: dget_def)
  show "evidence_around env s (sorted_doc (item_doc item))"
    using facts(1-3) run own(2) keys
    by (simp add: evidence_around_def has_fields_def sorted_item_facts(2) dget_sorted_item dget_item_doc
        sorted_payload del: set_map sort_keys.simps) (auto simp: dget_def)
qed

end
