(* ===== verification/Snapshot_Readback.thy ===== *)
theory Snapshot_Readback
  imports Snapshot_Evidence_Correct
begin

text \<open>
  Reading Snapshot Evidence is the inverse of writing it, in both versions.
\<close>

section \<open>One field\<close>

lemma bind_typed_simps [simp]:
  "bind_typed (Inr (Some x)) f = f x" "bind_typed (Inr None) f = Inr None" "bind_typed (Inl e) f = Inl e"
  by (simp_all add: bind_typed_def)

lemma typed_field: "map_of d k = Some v \<Longrightarrow> typed conv k (JObj d) = Inr (conv v)"
  by (simp add: typed_def py_item_def)

lemma enum_field:
  "map_of d k = Some (JStr t) \<Longrightarrow> List.find (\<lambda>m. text m = t) members = Some m \<Longrightarrow>
   enum_of text members k (JObj d) = Inr (Some m)"
  by (simp add: enum_of_def py_item_def)

lemma as_simps [simp]:
  "as_int (JInt n) = Some n" "as_bool (JBool b) = Some b"
  "as_optional as_int (opt_int i) = Some i" "as_optional as_text (json_option t) = Some t"
  by (simp_all add: as_int_def as_bool_def as_optional_def opt_int_def json_option_def split: option.splits)

lemma as_texts_map [simp]: "as_text_list (JArr (map JStr ts)) = Some ts"
  by (induction ts) (simp_all add: as_text_list_def)

lemma find_members [simp]:
  "List.find (\<lambda>m. filesystem_object_type_value m = filesystem_object_type_value t) all_object_types = Some t"
  "List.find (\<lambda>m. filesystem_observation_status_value m = filesystem_observation_status_value st)
     all_observation_statuses = Some st"
  "List.find (\<lambda>m. payload_observation_status_value m = payload_observation_status_value ps)
     all_payload_statuses = Some ps"
  "List.find (\<lambda>m. payload_observation_provenance_value m = payload_observation_provenance_value pp)
     [DIRECT_READ, REUSED_FROM_VERIFIED_SNAPSHOT] = Some pp"
  "List.find (\<lambda>m. snapshot_status_value m = snapshot_status_value ss)
     [SNAPSHOT_COMPLETE, SNAPSHOT_PARTIAL, SNAPSHOT_FAILED] = Some ss"
  "List.find (\<lambda>m. snapshot_consistency_value m = snapshot_consistency_value sc) [BEST_EFFORT_POINT_IN_TIME] = Some sc"
  by (cases t, simp_all add: all_object_types_def)
    (cases st, simp_all add: all_observation_statuses_def,
     cases ps, simp_all add: all_payload_statuses_def,
     cases pp, simp_all,
     cases ss, simp_all,
     cases sc, simp_all)

section \<open>Entries\<close>

lemma stat_values:
  "map_of (stat_fields e) ''device_id'' = Some (opt_int (e_device_id e))"
  "map_of (stat_fields e) ''inode'' = Some (opt_int (e_inode e))"
  "map_of (stat_fields e) ''mode'' = Some (opt_int (e_mode e))"
  "map_of (stat_fields e) ''uid'' = Some (opt_int (e_uid e))"
  "map_of (stat_fields e) ''gid'' = Some (opt_int (e_gid e))"
  "map_of (stat_fields e) ''mtime_ns'' = Some (opt_int (e_mtime_ns e))"
  "map_of (stat_fields e) ''ctime_ns'' = Some (opt_int (e_ctime_ns e))"
  "map_of (stat_fields e) ''birthtime_ns'' = Some (opt_int (e_birthtime_ns e))"
  "map_of (stat_fields e) ''link_count'' = Some (opt_int (e_link_count e))"
  "map_of (stat_fields e) ''symlink_target_raw'' = Some (json_option (e_symlink_target_raw e))"
  "map_of (stat_fields e) ''error_code'' = Some (json_option (e_error_code e))"
  "map_of (stat_fields e) ''error_message'' = Some (json_option (e_error_message e))"
  by (simp_all add: stat_fields_def)

lemmas stat_stored = stat_values [THEN map_of_entry_fields, simplified]

lemma stat_entry_of_stored: "stat_entry_of (stored_entry e) = Inr (Some (e\<lparr>e_v2 := None\<rparr>))"
  unfolding stat_entry_of_def stored_entry_def
  by (simp add: typed_field [OF stored_fields(1)] typed_field [OF stored_fields(2)] typed_field [OF stored_fields(3)]
      typed_field [OF stored_fields(4)] enum_field [OF stored_fields(5) find_members(1)] typed_field [OF stored_fields(6)]
      typed_field [OF stored_fields(7)] typed_field [OF stored_fields(8)] typed_field [OF stored_fields(9)]
      enum_field [OF stored_fields(10) find_members(2)] typed_field [OF stored_fields(11)] stat_stored [THEN typed_field])

lemma sorted_field:
  "distinct (map fst d) \<Longrightarrow> map_of d k = Some v \<Longrightarrow> map_of (sorted_doc d) k = Some (sort_keys v)"
  by (simp add: map_of_sorted_doc)

lemma observation_values:
  "map_of (observation_fields p) ''status'' = Some (JStr (payload_observation_status_value (p_status p)))"
  "map_of (observation_fields p) ''algorithm'' = Some (json_option (p_algorithm p))"
  "map_of (observation_fields p) ''algorithm_version'' = Some (opt_int (p_algorithm_version p))"
  "map_of (observation_fields p) ''digest'' = Some (json_option (p_digest p))"
  "map_of (observation_fields p) ''bytes_hashed'' = Some (opt_int (p_bytes_hashed p))"
  "map_of (observation_fields p) ''provenance''
     = Some (json_option (map_option payload_observation_provenance_value (p_provenance p)))"
  "map_of (observation_fields p) ''reused_from_snapshot_id'' = Some (json_option (p_reused_from_snapshot_id p))"
  "map_of (observation_fields p) ''failure_code'' = Some (json_option (p_failure_code p))"
  "map_of (observation_fields p) ''os_error_code'' = Some (opt_int (p_os_error_code p))"
  "distinct (map fst (observation_fields p))"
  by (simp_all add: observation_fields_def)

lemmas observation_stored = observation_values(1-9) [THEN sorted_field [OF observation_values(10)], simplified]

lemma observation_of_stored: "observation_of (JObj (sorted_doc (observation_fields p))) = Inr (Some p)"
proof (cases "p_provenance p")
  case None
  then show ?thesis
    unfolding observation_of_def
    by (simp add: enum_field [OF observation_stored(1) find_members(3)] observation_stored(2-9) [THEN typed_field]
        py_item_def observation_stored json_option_def [of None])
next
  case (Some pp)
  then have "map_of (sorted_doc (observation_fields p)) ''provenance'' = Some (JStr (payload_observation_provenance_value pp))"
    using observation_stored(6) [of p] by (simp add: json_option_def)
  from this enum_field [OF this find_members(4)] Some show ?thesis
    unfolding observation_of_def
    by (simp add: enum_field [OF observation_stored(1) find_members(3)] observation_stored(2-5, 7-9) [THEN typed_field]
        py_item_def)
qed

lemma v2_entry_values:
  assumes "e_v2 e = Some facts"
  shows "map_of (sorted_doc (entry_fields e)) ''allocated_size_bytes'' = Some (opt_int (v2_allocated_size_bytes facts))"
    "map_of (sorted_doc (entry_fields e)) ''payload_observation''
       = Some (JObj (sorted_doc (observation_fields (v2_payload_observation facts))))"
proof -
  have "map_of (entry_fields e) ''allocated_size_bytes'' = Some (opt_int (v2_allocated_size_bytes facts))"
    "map_of (entry_fields e) ''payload_observation'' = Some (JObj (observation_fields (v2_payload_observation facts)))"
    using assms by (simp_all add: entry_fields_def stat_fields_def)
  then show "map_of (sorted_doc (entry_fields e)) ''allocated_size_bytes'' = Some (opt_int (v2_allocated_size_bytes facts))"
    "map_of (sorted_doc (entry_fields e)) ''payload_observation''
       = Some (JObj (sorted_doc (observation_fields (v2_payload_observation facts))))"
    by (simp_all add: map_of_sorted_doc [OF entry_fields_distinct] sort_keys_doc del: sort_keys.simps(2))
qed

lemma v2_entry_of_stored:
  assumes "e_v2 e = Some facts"
  shows "v2_entry_of (stored_entry e) = Inr (Some e)"
proof -
  have "e\<lparr>e_v2 := Some \<lparr>v2_allocated_size_bytes = v2_allocated_size_bytes facts,
      v2_payload_observation = v2_payload_observation facts\<rparr>\<rparr> = e"
    using assms by (cases e, cases facts) simp
  then show ?thesis
    unfolding v2_entry_of_def stat_entry_of_stored bind_typed_simps
    by (simp add: stored_entry_def typed_field [OF v2_entry_values(1) [OF assms]] py_item_def
        v2_entry_values(2) [OF assms] observation_of_stored)
qed

lemma entries_of_map:
  "(\<And>x. x \<in> set xs \<Longrightarrow> read (g x) = Inr (Some (h x))) \<Longrightarrow> entries_of read (map g xs) = Inr (Some (map h xs))"
  by (induction xs) simp_all

section \<open>Budgets and policies\<close>

text \<open>A number is read as the value it was written for.\<close>

definition readable :: "snapshot_env \<Rightarrow> rat \<Rightarrow> bool" where
  "readable env r \<longleftrightarrow> sx_rational env (sx_number env r) = Some r \<and> sx_number env r \<noteq> JNull"

definition durations :: "filesystem_snapshot \<Rightarrow> rat list" where
  "durations s =
     b_max_duration_seconds (s_budget s) #
     (case s_v2 s of
        None \<Rightarrow> []
      | Some v2 \<Rightarrow> (case hp_max_hash_duration_seconds (sv2_hash_policy v2) of None \<Rightarrow> [] | Some d \<Rightarrow> [d]))"

lemma budget_of_stored:
  assumes "numbers_ok env" "readable env (b_max_duration_seconds b)"
  shows "budget_of env (JObj (sorted_doc (budget_fields env b))) = Inr (Some b)"
proof -
  have fields: "map_of (budget_fields env b) ''max_entries'' = Some (JInt (b_max_entries b))"
    "map_of (budget_fields env b) ''max_total_stat_bytes'' = Some (opt_int (b_max_total_stat_bytes b))"
    "map_of (budget_fields env b) ''max_duration_seconds'' = Some (sx_number env (b_max_duration_seconds b))"
    "map_of (budget_fields env b) ''max_depth'' = Some (opt_int (b_max_depth b))"
    and distinct: "distinct (map fst (budget_fields env b))"
    by (simp_all add: budget_fields_def)
  note stored = fields [THEN sorted_field [OF distinct], THEN typed_field]
  show ?thesis
    unfolding budget_of_def using assms by (simp add: stored numbers_ok_def readable_def)
qed

lemma policy_of_stored:
  assumes "numbers_ok env" "\<forall>d. hp_max_hash_duration_seconds p = Some d \<longrightarrow> readable env d"
  shows "policy_of env (JObj (sorted_doc (policy_fields env p))) = Inr (Some p)"
proof -
  let ?duration = "case hp_max_hash_duration_seconds p of None \<Rightarrow> JNull | Some d \<Rightarrow> sx_number env d"
  have fields: "map_of (policy_fields env p) ''algorithm'' = Some (JStr (hp_algorithm p))"
    "map_of (policy_fields env p) ''algorithm_version'' = Some (JInt (hp_algorithm_version p))"
    "map_of (policy_fields env p) ''max_hash_file_bytes'' = Some (opt_int (hp_max_hash_file_bytes p))"
    "map_of (policy_fields env p) ''max_total_hash_bytes'' = Some (opt_int (hp_max_total_hash_bytes p))"
    "map_of (policy_fields env p) ''max_hash_duration_seconds'' = Some ?duration"
    "map_of (policy_fields env p) ''hash_chunk_size'' = Some (JInt (hp_hash_chunk_size p))"
    "map_of (policy_fields env p) ''allow_non_local_content'' = Some (JBool (hp_allow_non_local_content p))"
    "map_of (policy_fields env p) ''allow_verified_reuse'' = Some (JBool (hp_allow_verified_reuse p))"
    and distinct: "distinct (map fst (policy_fields env p))"
    by (simp_all add: policy_fields_def)
  have "sort_keys ?duration = ?duration" using assms(1) by (simp add: numbers_ok_def split: option.splits)
  moreover have "as_optional (sx_rational env) ?duration = Some (hp_max_hash_duration_seconds p)"
    using assms(2) by (simp add: as_optional_def readable_def split: option.splits)
  moreover note stored = fields [THEN sorted_field [OF distinct], THEN typed_field]
  ultimately show ?thesis unfolding policy_of_def by (simp add: stored)
qed

section \<open>Snapshots\<close>

lemma header_values:
  "map_of (snapshot_fields env s) ''created_at'' = Some (JStr (s_created_at s))"
  "map_of (snapshot_fields env s) ''started_at'' = Some (JStr (s_started_at s))"
  "map_of (snapshot_fields env s) ''completed_at'' = Some (JStr (s_completed_at s))"
  "map_of (snapshot_fields env s) ''config_digest'' = Some (JStr (s_config_digest s))"
  "map_of (snapshot_fields env s) ''status'' = Some (JStr (snapshot_status_value (s_status s)))"
  "map_of (snapshot_fields env s) ''consistency'' = Some (JStr (snapshot_consistency_value (s_consistency s)))"
  by (simp_all add: snapshot_fields_def split: option.split)

lemmas header_stored = header_values [THEN stored_snapshot_field, simplified]

lemma header_of_stored:
  "header_of (JObj (stored_snapshot env s)) (s_budget s) (s_entries s)
   = Inr (Some (s\<lparr>s_entries_digest := [], s_snapshot_digest := [], s_evidence_id := None,
       s_evidence_relative_path := None, s_v2 := None\<rparr>))"
  unfolding header_of_def
  by (simp add: header_stored(1-4) [THEN typed_field] enum_field [OF header_stored(5) find_members(5)]
      enum_field [OF header_stored(6) find_members(6)] snapshot_values [THEN typed_field])

lemma sealed_of_stored:
  assumes "dget ''evidence_id'' d = JStr evidence_id"
  shows "sealed_of (JObj d) (JObj (stored_snapshot env s)) path t
    = Inr (Some (t\<lparr>s_entries_digest := s_entries_digest s, s_snapshot_digest := s_snapshot_digest s,
        s_evidence_id := Some evidence_id, s_evidence_relative_path := Some path\<rparr>))"
proof -
  have "map_of d ''evidence_id'' = Some (JStr evidence_id)" using assms by (simp add: dget_def split: option.splits)
  then show ?thesis
    unfolding sealed_of_def by (simp add: snapshot_values(10, 11) [THEN typed_field] typed_field)
qed

lemma dget_member: "dget k d = v \<Longrightarrow> v \<noteq> JNull \<Longrightarrow> py_item k (JObj d) = Inr v"
  by (auto simp: dget_def py_item_def split: option.splits)

lemma evidence_parts_stored:
  assumes "evidence_around env s d" "numbers_ok env" "readable env (b_max_duration_seconds (s_budget s))"
    and read: "\<And>e. e \<in> set (s_entries s) \<Longrightarrow> read (stored_entry e) = Inr (Some e)"
  shows "evidence_parts env read (JObj d) = Inr (Some (JObj (stored_snapshot env s), s_budget s, s_entries s))"
proof -
  from assms(1) obtain p where p: "dget ''payload'' d = JObj p" "dget ''snapshot'' p = JObj (stored_snapshot env s)"
    "dget ''entries'' p = JArr (map stored_entry (s_entries s))"
    by (auto simp: evidence_around_def)
  have "map_of (snapshot_fields env s) ''budget'' = Some (JObj (budget_fields env (s_budget s)))"
    by (simp add: snapshot_fields_def split: option.split)
  from stored_snapshot_field [OF this]
  have budget: "py_item ''budget'' (JObj (stored_snapshot env s)) = Inr (JObj (sorted_doc (budget_fields env (s_budget s))))"
    by (simp add: py_item_def sort_keys_doc del: sort_keys.simps(2))
  from entries_of_map [of "s_entries s" read stored_entry "\<lambda>e. e"] read
  have "entries_of read (map stored_entry (s_entries s)) = Inr (Some (s_entries s))" by simp
  with p budget budget_of_stored [OF assms(2, 3)] show ?thesis
    by (simp add: evidence_parts_def dget_member)
qed

lemma v2_snapshot_values:
  assumes "s_v2 s = Some v2"
  shows "map_of (stored_snapshot env s) ''snapshot_schema_version'' = Some (JInt (sv2_snapshot_schema_version v2))"
    "map_of (stored_snapshot env s) ''hash_policy'' = Some (JObj (sorted_doc (policy_fields env (sv2_hash_policy v2))))"
    "map_of (stored_snapshot env s) ''allocated_regular_file_bytes_known_sum''
       = Some (JInt (sv2_allocated_regular_file_bytes_known_sum v2))"
    "map_of (stored_snapshot env s) ''allocated_regular_file_unknown_count''
       = Some (JInt (sv2_allocated_regular_file_unknown_count v2))"
    "map_of (stored_snapshot env s) ''payload_observation_summary''
       = Some (sort_keys (summary_field (sv2_payload_observation_summary v2)))"
proof -
  have "map_of (snapshot_fields env s) ''snapshot_schema_version'' = Some (JInt (sv2_snapshot_schema_version v2))"
    "map_of (snapshot_fields env s) ''hash_policy'' = Some (JObj (policy_fields env (sv2_hash_policy v2)))"
    "map_of (snapshot_fields env s) ''allocated_regular_file_bytes_known_sum''
       = Some (JInt (sv2_allocated_regular_file_bytes_known_sum v2))"
    "map_of (snapshot_fields env s) ''allocated_regular_file_unknown_count''
       = Some (JInt (sv2_allocated_regular_file_unknown_count v2))"
    "map_of (snapshot_fields env s) ''payload_observation_summary''
       = Some (summary_field (sv2_payload_observation_summary v2))"
    using assms by (simp_all add: snapshot_fields_def)
  note this [THEN stored_snapshot_field]
  then show "map_of (stored_snapshot env s) ''snapshot_schema_version'' = Some (JInt (sv2_snapshot_schema_version v2))"
    "map_of (stored_snapshot env s) ''hash_policy'' = Some (JObj (sorted_doc (policy_fields env (sv2_hash_policy v2))))"
    "map_of (stored_snapshot env s) ''allocated_regular_file_bytes_known_sum''
       = Some (JInt (sv2_allocated_regular_file_bytes_known_sum v2))"
    "map_of (stored_snapshot env s) ''allocated_regular_file_unknown_count''
       = Some (JInt (sv2_allocated_regular_file_unknown_count v2))"
    "map_of (stored_snapshot env s) ''payload_observation_summary''
       = Some (sort_keys (summary_field (sv2_payload_observation_summary v2)))"
    by (simp_all add: sort_keys_doc del: sort_keys.simps(2))
qed

lemma summary_stored:
  "sort_keys (summary_field cs) = JObj [(''status_counts'', JArr (map (\<lambda>c. JObj
     [(''count'', JInt (pc_count c)), (''status'', JStr (payload_observation_status_value (pc_status c)))]) cs))]"
  by (simp add: summary_field_def comp_def)

lemma count_of_stored:
  "count_of (JObj [(''count'', JInt (pc_count c)), (''status'', JStr (payload_observation_status_value (pc_status c)))])
   = Inr (Some c)"
proof -
  let ?d = "[(''count'', JInt (pc_count c)), (''status'', JStr (payload_observation_status_value (pc_status c)))]"
  have "map_of ?d ''status'' = Some (JStr (payload_observation_status_value (pc_status c)))" by simp
  from enum_field [OF this find_members(3)] show ?thesis by (simp add: count_of_def typed_def py_item_def)
qed

lemma drop_no_facts: "e_v2 e = None \<Longrightarrow> e\<lparr>e_v2 := None\<rparr> = (e :: filesystem_entry)"
  by (cases e) simp

text \<open>Every entry has the facts of the Snapshot's version.\<close>

definition one_version :: "filesystem_snapshot \<Rightarrow> bool" where
  "one_version s \<longleftrightarrow> (\<forall>e \<in> set (s_entries s). e_v2 e = None \<longleftrightarrow> s_v2 s = None)"

lemma evidence_around_reads_back:
  assumes "evidence_around env s d" "one_version s" "numbers_ok env" "list_all (readable env) (durations s)"
    and id: "dget ''evidence_id'' d = JStr evidence_id"
  shows "read_evidence env (JObj d) path
    = Inr (Some (s\<lparr>s_evidence_id := Some evidence_id, s_evidence_relative_path := Some path\<rparr>))"
proof (cases "s_v2 s")
  case None
  have duration: "readable env (b_max_duration_seconds (s_budget s))" using assms(4) by (simp add: durations_def)
  have "read (stored_entry e) = Inr (Some e)" if "read = stat_entry_of" "e \<in> set (s_entries s)" for e read
    using that None assms(2) by (simp add: one_version_def stat_entry_of_stored drop_no_facts)
  from evidence_parts_stored [OF assms(1, 3) duration this [OF refl]] None assms(1) show ?thesis
    by (simp add: read_evidence_def snapshot_from_valid_evidence_def header_of_stored sealed_of_stored [OF id]
        snapshot_evidence_schema_version_def evidence_around_def evidence_version_def)
next
  case (Some v2)
  from assms(4) Some have duration: "readable env (b_max_duration_seconds (s_budget s))"
    "\<forall>d. hp_max_hash_duration_seconds (sv2_hash_policy v2) = Some d \<longrightarrow> readable env d"
    by (auto simp: durations_def)
  have "v2_entry_of (stored_entry e) = Inr (Some e)" if "e \<in> set (s_entries s)" for e
    using that Some assms(2) v2_entry_of_stored by (auto simp: one_version_def)
  note parts = evidence_parts_stored [OF assms(1, 3) duration(1) this]
  have version: "snapshot_evidence_schema_version (JObj d) = Some 2"
    using assms(1) Some by (simp add: evidence_around_def evidence_version_def snapshot_evidence_schema_version_def)
  have counts: "entries_of count_of (map (\<lambda>c. JObj [(''count'', JInt (pc_count c)),
      (''status'', JStr (payload_observation_status_value (pc_status c)))]) cs) = Inr (Some cs)" for cs
    using entries_of_map [of cs count_of _ "\<lambda>c. c"] count_of_stored by simp
  have "s = s\<lparr>s_v2 := Some \<lparr>sv2_snapshot_schema_version = sv2_snapshot_schema_version v2,
      sv2_hash_policy = sv2_hash_policy v2,
      sv2_allocated_regular_file_bytes_known_sum = sv2_allocated_regular_file_bytes_known_sum v2,
      sv2_allocated_regular_file_unknown_count = sv2_allocated_regular_file_unknown_count v2,
      sv2_payload_observation_summary = sv2_payload_observation_summary v2\<rparr>\<rparr>"
    using Some by (cases s, cases v2) simp
  with parts version show ?thesis
    by (simp add: read_evidence_def snapshot_v2_from_valid_evidence_def header_of_stored sealed_of_stored [OF id]
        v2_snapshot_values(1, 3, 4) [OF Some, THEN typed_field] py_item_def v2_snapshot_values(2, 5) [OF Some]
        policy_of_stored [OF assms(3) duration(2)] summary_stored counts)
qed

section \<open>The whole way\<close>

lemma snapshot_item_json:
  assumes "numbers_ok env" "env_ok (sx_ledger env)" "snapshot_item env call run s = Inr item"
  shows "json_wf (float_repr (sx_ledger env)) (JObj (item_doc item))" "json_encodable (JObj (item_doc item))"
proof -
  from assms(3) obtain data es where parts: "json_of env (JObj (snapshot_fields env s)) = Inr data"
    "map_result (\<lambda>e. json_of env (JObj (entry_fields e))) (s_entries s) = Inr es"
    "evidence_of (sx_ledger env) call run ''filesystem.snapshot''
       [(''snapshot'', data), (''entries'', JArr es)] (evidence_version s) = Inr item"
    by (auto simp: snapshot_item_def snapshot_payload_def bind_result_Inr_iff)
  note facts = evidence_of_facts [OF parts(3)]
  have "json_wf (float_repr (sx_ledger env)) data"
    using json_of_Inr [OF parts(1) snapshot_fields_wf [OF assms(1)]] snapshot_fields_wf [OF assms(1)]
    by (metis json_wf_sort_keys)
  moreover have "json_wf (float_repr (sx_ledger env)) (stored_entry e)" for e
    using json_wf_sort_keys [OF entry_fields_wf] by (simp only: stored_entry_def sort_keys_doc)
  ultimately show "json_wf (float_repr (sx_ledger env)) (JObj (item_doc item))"
    using facts(4) entry_documents(1) [OF parts(2)]
    by (simp add: item_doc_def item_body_def list_all_iff)
  from facts(6) have body: "json_encodable (JObj (item_body item))" "sha256 (sx_ledger env) (canonical_json (JObj (item_body item))) = i_evidence_digest item"
    by (auto simp: digest_def encode_json_def bind_result_Inr_iff item_body_def split: if_splits)
  with assms(2) have "utf8_valid (i_evidence_digest item)" by (metis env_ok_def)
  with body(1) show "json_encodable (JObj (item_doc item))" by (simp add: item_doc_def)
qed

end
