(* ===== verification/Snapshot_Evidence_Properties.thy ===== *)
theory Snapshot_Evidence_Properties
  imports Snapshot_Readback Filesystem_Scan_Examples
begin

text \<open>
  What holds of Snapshot Evidence from the scan to the file and back, with a small example.
\<close>

section \<open>A Snapshot that was made can be written\<close>

lemma json_of_total:
  "json_wf (float_repr (sx_ledger env)) v \<Longrightarrow> json_encodable v \<Longrightarrow> json_of env v = Inr (sort_keys v)"
  by (simp add: json_of_def encode_json_def read_json_canonical)

lemma json_digest_encodable: "json_digest env v = Inr d \<Longrightarrow> json_encodable v \<and> d = sha256 (sx_ledger env) (canonical_json v)"
  by (auto simp: json_digest_def encode_json_def bind_result_Inr_iff split: if_splits)

lemma entries_encodable:
  "snapshot_entries_digest env (map stored_entry es) = Inr d \<Longrightarrow> list_all (\<lambda>e. json_encodable (JObj (entry_fields e))) es"
  by (auto simp: snapshot_entries_digest_def stored_entry_def list_all_iff sort_keys_doc [symmetric]
      simp del: sort_keys.simps(2) json_encodable.simps(5) dest!: json_digest_encodable)

lemma made_snapshot_encodable:
  assumes "env_ok (sx_ledger env)" "s_evidence_id s = None" "s_evidence_relative_path s = None"
    and "snapshot_entries_digest env (map stored_entry (s_entries s)) = Inr (s_entries_digest s)"
    and "snapshot_metadata_digest env (stored_snapshot env s) = Inr (s_snapshot_digest s)"
  shows "json_encodable (JObj (snapshot_fields env s))"
proof -
  have "json_encodable (JObj (sorted_doc (snapshot_metadata (snapshot_fields env s))))"
    using json_digest_encodable [OF assms(5) [unfolded snapshot_metadata_digest_def stored_snapshot_def snapshot_metadata_sorted]]
    by blast
  then have meta: "json_encodable (JObj (snapshot_metadata (snapshot_fields env s)))"
    by (simp only: sort_keys_doc [symmetric] encodable_sort_keys)
  then have all: "list_all (\<lambda>(k, v). utf8_valid k \<and> json_encodable v) (snapshot_metadata (snapshot_fields env s))"
    by simp
  have outside: "kv \<in> set (filter (\<lambda>(k, _). k \<in> {''snapshot_digest'', ''evidence_id'', ''evidence_relative_path'', ''entries''})
        (snapshot_fields env s)) \<Longrightarrow>
      kv \<in> set [(''snapshot_digest'', JStr (s_snapshot_digest s)), (''evidence_id'', JNull),
          (''evidence_relative_path'', JNull), (''entries'', JArr (map (\<lambda>e. JObj (entry_fields e)) (s_entries s)))]" for kv
    using assms(2, 3) by (cases "s_v2 s") (simp_all add: snapshot_fields_def json_option_def)
  have digest: "utf8_valid (s_snapshot_digest s)"
    using assms(1, 5) json_digest_encodable by (fastforce simp: snapshot_metadata_digest_def env_ok_def)
  have entries: "json_encodable (JArr (map (\<lambda>e. JObj (entry_fields e)) (s_entries s)))"
    using entries_encodable [OF assms(4)] by (simp add: list_all_iff)
  have "list_all (\<lambda>(k, v). utf8_valid k \<and> json_encodable v) (snapshot_fields env s)"
    unfolding list_all_iff
  proof (intro ballI)
    fix kv
    assume "kv \<in> set (snapshot_fields env s)"
    then consider (meta) "kv \<in> set (snapshot_metadata (snapshot_fields env s))"
      | (rest) "kv \<in> set [(''snapshot_digest'', JStr (s_snapshot_digest s)), (''evidence_id'', JNull),
          (''evidence_relative_path'', JNull), (''entries'', JArr (map (\<lambda>e. JObj (entry_fields e)) (s_entries s)))]"
      using outside by (cases "fst kv \<in> {''snapshot_digest'', ''evidence_id'', ''evidence_relative_path'', ''entries''}")
        (auto simp: snapshot_metadata_def case_prod_unfold)
    then show "case kv of (k, v) \<Rightarrow> utf8_valid k \<and> json_encodable v"
    proof cases
      case meta
      with all show ?thesis by (auto simp: list_all_iff)
    next
      case rest
      with digest entries show ?thesis by (auto simp del: json_encodable.simps(4))
    qed
  qed
  then show ?thesis by simp
qed

lemma small_int_encodable: "json_encodable (JInt 0)" "json_encodable (JInt 1)" "json_encodable (JInt 2)"
  by code_simp+

lemma int_encodable: "\<bar>n\<bar> < 100000 \<Longrightarrow> json_encodable (JInt n)"
  using length_nat_repr_le [of "nat \<bar>n\<bar>" 4] by (simp add: max_int_digits_def) linarith

lemma snapshot_item_total:
  assumes "numbers_ok env" and fields: "json_encodable (JObj (snapshot_fields env s))"
    and "list_all (\<lambda>e. json_encodable (JObj (entry_fields e))) (s_entries s)"
    and "list_all json_encodable [JStr (c_evidence_id call), JStr (rn_run_id run), JInt (rn_last_sequence run + 1),
      JStr (c_now call), JStr (tool_version (sx_ledger env)), JStr (rn_config_digest run),
      json_option (rn_last_evidence_digest run)]"
  shows "\<exists>item. snapshot_item env call run s = Inr item"
proof -
  have version: "json_encodable (JInt (evidence_version s))" 
    by (simp add: evidence_version_def small_int_encodable del: json_encodable.simps(1))
  have snapshot: "json_of env (JObj (snapshot_fields env s)) = Inr (JObj (stored_snapshot env s))"
    using json_of_total [OF snapshot_fields_wf [OF assms(1)] fields] by (simp only: stored_snapshot_def sort_keys_doc)
  have entry: "json_of env (JObj (entry_fields e)) = Inr (stored_entry e)" if "e \<in> set (s_entries s)" for e
    using json_of_total [OF entry_fields_wf, of e env] that assms(3)
    by (simp add: list_all_iff stored_entry_def sort_keys_doc del: sort_keys.simps(2) json_encodable.simps(5))
  have entries: "map_result (\<lambda>e. json_of env (JObj (entry_fields e))) es = Inr (map stored_entry es)"
    if "set es \<subseteq> set (s_entries s)" for es
    using that by (induction es) (simp_all add: entry)
  have "json_encodable (stored_entry e)" if "e \<in> set (s_entries s)" for e
    using assms(3) that by (simp add: list_all_iff stored_entry_def sort_keys_doc [symmetric] del: sort_keys.simps(2) json_encodable.simps(5))
  then have stored: "json_encodable (JArr (map stored_entry (s_entries s)))" by (simp add: list_all_iff)
  have data: "json_encodable (JObj (stored_snapshot env s))"
    using fields by (simp only: stored_snapshot_def sort_keys_doc [symmetric] encodable_sort_keys)
  show ?thesis
    using assms(4) version stored data
    by (simp add: snapshot_item_def snapshot_payload_def snapshot entries evidence_of_def digest_def encode_json_def
        item_body_def Let_def del: json_encodable.simps(1, 4, 5)) (simp add: comp_def)
qed

lemma make_snapshot_total:
  assumes "numbers_ok env" "env_ok (sx_ledger env)"
    and scan: "scan (sx_scan env) config snapshot_id scopes budget = Inr (entries, partial)"
    and entries: "list_all (\<lambda>e. json_encodable (JObj (entry_fields e))) entries"
    and config: "compute_config_digest (sx_ledger env) config = Inr config_digest"
    and meta: "list_all json_encodable ([JStr snapshot_id, JStr run_id, JStr completed, JStr started, JStr config_digest,
      JObj (budget_fields env budget), JInt (int (length entries)),
      JInt (count_if (\<lambda>e. e_observation_status e = OBSERVED) entries),
      JInt (int (length entries) - count_if (\<lambda>e. e_observation_status e = OBSERVED) entries),
      JInt (count_if e_excluded entries),
      JInt (\<Sum>e \<leftarrow> filter (\<lambda>e. e_object_type e = REGULAR_FILE) entries. or_zero (e_size_bytes e)),
      JInt (max_or_zero (map (\<lambda>e. depth_of (e_relative_path e)) entries))]
      @ map (\<lambda>s. JStr (sc_scope_id s)) scopes)"
  shows "\<exists>s. make_snapshot env config run_id scopes budget snapshot_id started completed = Inr s"
proof -
  have documents: "map_result (\<lambda>e. json_of env (JObj (entry_fields e))) entries = Inr (map stored_entry entries)"
    using entries
  proof (induction entries)
    case (Cons e entries)
    then show ?case
      using json_of_total [OF entry_fields_wf, of e env]
      by (simp add: stored_entry_def sort_keys_doc del: sort_keys.simps(2) json_encodable.simps(5))
  qed simp
  have "json_encodable (JArr (map stored_entry entries))"
    using entries by (auto simp: list_all_iff stored_entry_def sort_keys_doc [symmetric] simp del: sort_keys.simps(2) json_encodable.simps(5))
  then obtain d where d: "json_digest env (JArr (map stored_entry entries)) = Inr d" "utf8_valid d"
    using assms(2) by (simp add: json_digest_def encode_json_def env_ok_def del: json_encodable.simps canonical_json.simps)
  have budget: "json_of env (JObj (budget_fields env budget)) = Inr (sort_keys (JObj (budget_fields env budget)))"
    using json_of_total [OF budget_fields_wf [OF assms(1)]] meta by (simp del: json_encodable.simps(5) sort_keys.simps)
  have status: "utf8_valid (snapshot_status_value st)" "utf8_valid (snapshot_consistency_value c)" for st c
    by (cases st; cases c; simp; code_simp)+
  show ?thesis
    unfolding make_snapshot_def scan bind_result_simps case_prod_conv documents d(1) config budget Let_def
    using meta d(2) status
    by (simp add: json_digest_def encode_json_def list_all_iff del: json_encodable.simps(1, 5) sort_keys.simps canonical_json.simps)
      (simp add: list_all_iff small_int_encodable del: json_encodable.simps(1) sort_keys.simps canonical_json.simps)
qed

section \<open>An example\<close>

text \<open>
  One Scope with one file. In place of SHA-256 stands the text itself when it is short, and its
  length otherwise; in place of numbers, the integers below them.
\<close>

definition example_small_fs :: scan_env where
  "example_small_fs = \<lparr>se_sha256 = (\<lambda>s. if utf8_valid s \<and> length s < 10 then s else nat_repr (length s)),
     se_is_dir = (\<lambda>p. p = [''home'']),
     se_lstat = (\<lambda>p. if p = [''home''] then Inr example_dir else Inr example_file),
     se_scandir = (\<lambda>p. if p = [''home''] then Some [''a''] else None),
     se_readlink = (\<lambda>_. None), se_access = (\<lambda>_. (True, True, False)), se_clock = (\<lambda>_. 0)\<rparr>"

definition example_snapshot_env :: snapshot_env where
  "example_snapshot_env = \<lparr>sx_ledger = \<lparr>sha256 = se_sha256 example_small_fs, float_repr = (\<lambda>s. s),
       tool_version = ''0.1.0'', parse_time = (\<lambda>_. Some True), uuid4_ok = (\<lambda>_. True)\<rparr>,
     sx_scan = example_small_fs, sx_number = (\<lambda>r. JInt \<lfloor>r\<rfloor>),
     sx_rational = (\<lambda>v. case v of JInt n \<Rightarrow> Some (rat_of_int n) | _ \<Rightarrow> None),
     sx_container_text = (\<lambda>_. []), sx_float_add = (\<lambda>_ _. Inl PyTypeError), sx_uuid = (\<lambda>_. True)\<rparr>"

definition example_scan_run :: run_record where
  "example_scan_run = \<lparr>rn_run_id = ''r'', rn_run_kind = ''filesystem.snapshot'', rn_status = SCANNING,
     rn_created_at = ''t'', rn_updated_at = ''t'', rn_config_digest = ''c'', rn_metadata = JObj [],
     rn_last_sequence = 2, rn_last_evidence_digest = Some ''d'', rn_terminal = False\<rparr>"

definition example_scan_call :: run_call where
  "example_scan_call = \<lparr>c_now = ''t'', c_evidence_id = ''u'', c_disk_fault = None, c_db_fault = None,
     c_injector = None\<rparr>"

lemma example_snapshot_env_ok: "snapshot_env_ok example_snapshot_env" "env_ok (sx_ledger example_snapshot_env)"
  using utf8_of_ascii digits_ascii nat_repr_digits
  by (auto simp: snapshot_env_ok_def names_ok_def example_snapshot_env_def example_small_fs_def numbers_ok_def env_ok_def)

definition example_small_entry :: "string \<Rightarrow> stat_result \<Rightarrow> filesystem_entry" where
  "example_small_entry path st =
     \<lparr>e_entry_id = ''i'' @ CHR 0x00 # ''s'' @ CHR 0x00 # path, e_snapshot_id = ''i'', e_scope_id = ''s'',
      e_relative_path = path, e_object_type = kind_of_mode (st_mode st), e_device_id = Some (st_dev st),
      e_inode = Some (st_ino st), e_mode = Some (st_mode st), e_uid = Some (st_uid st), e_gid = Some (st_gid st),
      e_size_bytes = Some (st_size st), e_mtime_ns = Some (st_mtime_ns st), e_ctime_ns = Some (st_ctime_ns st),
      e_birthtime_ns = st_birthtime_ns st, e_link_count = Some (st_nlink st), e_symlink_target_raw = None,
      e_readable = True, e_writable = True, e_executable = False, e_observation_status = OBSERVED,
      e_error_code = None, e_error_message = None, e_excluded = False, e_v2 = None\<rparr>"

definition example_small_entries :: "filesystem_entry list" where
  "example_small_entries = [example_small_entry ''.'' example_dir, example_small_entry ''a'' example_file]"

lemma example_small_scan:
  "scan example_small_fs example_scan_config ''i'' [example_scope] example_budget = Inr (example_small_entries, False)"
  by code_simp

lemma example_small_encodable:
  "json_encodable (JObj (entry_fields (example_small_entry ''.'' example_dir)))"
  "json_encodable (JObj (entry_fields (example_small_entry ''a'' example_file)))"
  by (simp_all add: example_small_entry_def entry_fields_def stat_fields_def opt_int_def json_option_def
      example_dir_def example_file_def kind_of_mode_def int_encodable utf8_of_ascii del: json_encodable.simps(1))

lemma example_small_counts:
  "list_all json_encodable [JInt (int (length example_small_entries)),
      JInt (count_if (\<lambda>e. e_observation_status e = OBSERVED) example_small_entries),
      JInt (int (length example_small_entries) - count_if (\<lambda>e. e_observation_status e = OBSERVED) example_small_entries),
      JInt (count_if e_excluded example_small_entries),
      JInt (\<Sum>e \<leftarrow> filter (\<lambda>e. e_object_type e = REGULAR_FILE) example_small_entries. or_zero (e_size_bytes e)),
      JInt (max_or_zero (map (\<lambda>e. depth_of (e_relative_path e)) example_small_entries))]"
  by code_simp

lemma example_config_digest:
  "case compute_config_digest (sx_ledger example_snapshot_env) example_scan_config of Inr d \<Rightarrow> utf8_valid d | Inl _ \<Rightarrow> False"
  by code_simp

text \<open>C39: The check before publication never refuses a Snapshot that was just made: the Evidence of a
  version 1 Snapshot is valid, as the document in memory and as it is parsed back from the file, unless
  two entries have the same digest.\<close>

theorem written_snapshot_validates:
  assumes "snapshot_env_ok env" "distinct (map sc_scope_id scopes)"
    and "make_snapshot env config (rn_run_id run) scopes budget snapshot_id started completed = Inr s"
    and "snapshot_item env call run s = Inr item" "distinct (map e_entry_id (s_entries s))"
  shows "(\<exists>v. validate_snapshot_evidence env (JObj (item_doc item)) = Inr v \<and> ev_valid v \<and> ev_errors v = [])
    \<and> (\<exists>v. validate_snapshot_evidence env (JObj (sorted_doc (item_doc item))) = Inr v \<and> ev_valid v \<and> ev_errors v = [])"
proof -
  from assms(1) have numbers: "numbers_ok env" and names: "names_ok (sx_scan env)" by (simp_all add: snapshot_env_ok_def)
  from assms(3) numbers obtain partial where s:
    "scan (sx_scan env) config snapshot_id scopes budget = Inr (s_entries s, partial)"
    "s_snapshot_id s = snapshot_id" "s_run_id s = rn_run_id run" "s_scope_ids s = map sc_scope_id scopes"
    "s_v2 s = None" "summary_right s"
    "snapshot_entries_digest env (map stored_entry (s_entries s)) = Inr (s_entries_digest s)"
    "snapshot_metadata_digest env (sorted_doc (snapshot_fields env s)) = Inr (s_snapshot_digest s)"
    by (elim make_snapshot_facts)
  have "location = (\<lambda>e. (e_scope_id e, e_relative_path e))" by (simp add: fun_eq_iff location_def)
  with scan_entries_ordered(1) [OF s(1)] scan_entries_ordered(2) [OF s(1) names assms(2)]
  have ordered: "sorted (map location (s_entries s))" "distinct (map location (s_entries s))" by simp_all
  have valid: "\<exists>v. validate_snapshot_evidence env (JObj d) = Inr v \<and> ev_valid v \<and> ev_errors v = []"
    if "evidence_around env s d" for d
  proof -
    have "snapshot_evidence_schema_version (JObj d) = Some 1"
      using that s(5) by (simp add: evidence_around_def evidence_version_def snapshot_evidence_schema_version_def)
    moreover have "\<exists>v. validate_snapshot_evidence_v1 env d = Inr v \<and> ev_valid v \<and> ev_errors v = []"
      using ordered assms(5) s(7, 8) scanned_entries_sound [OF assms(1) s(1)] s(2, 4)
      by (intro valid_v1_document [OF that s(5, 6)]) (auto simp: stored_snapshot_def)
    ultimately show ?thesis by (simp add: validate_snapshot_evidence_def)
  qed
  from valid [OF snapshot_item_around(1) [OF numbers assms(4)]] valid [OF snapshot_item_around(2) [OF numbers assms(4)]] s(3)
  show ?thesis by simp
qed

text \<open>C40: Snapshot Evidence loses nothing: the bytes of its file parse to a document from which the reader of
  its version makes the very Snapshot that was written, in both versions, with the place of the Evidence
  added.\<close>

theorem written_snapshot_reads_back:
  assumes "numbers_ok env" "list_all (readable env) (durations s)" "env_ok (sx_ledger env)" "one_version s"
    and "snapshot_item env call run s = Inr item" "rn_run_id run = s_run_id s"
  shows "\<exists>d. read_json (sx_ledger env) (canonical_json (JObj (item_doc item))) = Inr (Some (JObj d))
    \<and> read_evidence env (JObj d) path
      = Inr (Some (s\<lparr>s_evidence_id := Some (c_evidence_id call), s_evidence_relative_path := Some path\<rparr>))"
proof (intro exI conjI)
  show "read_json (sx_ledger env) (canonical_json (JObj (item_doc item))) = Inr (Some (JObj (sorted_doc (item_doc item))))"
    unfolding read_json_canonical [OF snapshot_item_json [OF assms(1, 3, 5)]] sort_keys_doc ..
  have "i_evidence_id item = c_evidence_id call"
    using assms(5) by (auto simp: snapshot_item_def bind_result_Inr_iff evidence_of_def Let_def)
  then have "dget ''evidence_id'' (sorted_doc (item_doc item)) = JStr (c_evidence_id call)"
    by (simp add: dget_sorted_item dget_item_doc)
  from evidence_around_reads_back [OF snapshot_item_around(2) [OF assms(1, 5, 6)] assms(4, 1, 2) this]
  show "read_evidence env (JObj (sorted_doc (item_doc item))) path
      = Inr (Some (s\<lparr>s_evidence_id := Some (c_evidence_id call), s_evidence_relative_path := Some path\<rparr>))" .
qed

section \<open>The example is written and read\<close>

lemma example_snapshot:
  obtains s item where
    "make_snapshot example_snapshot_env example_scan_config ''r'' [example_scope] example_budget ''i'' ''t'' ''t'' = Inr s"
    "snapshot_item example_snapshot_env example_scan_call example_scan_run s = Inr item"
    "s_entries s = example_small_entries" "s_run_id s = ''r''" "one_version s" "s_v2 s = None" "s_budget s = example_budget"
proof -
  note env = example_snapshot_env_ok(1) [unfolded snapshot_env_ok_def]
  have scan: "scan (sx_scan example_snapshot_env) example_scan_config ''i'' [example_scope] example_budget
      = Inr (example_small_entries, False)"
    using example_small_scan by (simp add: example_snapshot_env_def)
  have entries: "list_all (\<lambda>e. json_encodable (JObj (entry_fields e))) example_small_entries"
    using example_small_encodable by (simp add: example_small_entries_def del: json_encodable.simps)
  from example_config_digest obtain d where
    d: "compute_config_digest (sx_ledger example_snapshot_env) example_scan_config = Inr d" "utf8_valid d"
    by (auto split: sum.splits)
  have "json_encodable (JObj (budget_fields example_snapshot_env example_budget))"
    by (simp add: budget_fields_def example_budget_def example_snapshot_env_def opt_int_def int_encodable utf8_of_ascii
        del: json_encodable.simps(1))
  with example_small_counts d(2) have "\<exists>s. make_snapshot example_snapshot_env example_scan_config ''r'' [example_scope]
      example_budget ''i'' ''t'' ''t'' = Inr s"
    by (intro make_snapshot_total [OF _ example_snapshot_env_ok(2) scan entries d(1)])
      (simp_all add: env utf8_of_ascii example_scope_def del: json_encodable.simps(1, 5))
  then obtain s where s: "make_snapshot example_snapshot_env example_scan_config ''r'' [example_scope]
      example_budget ''i'' ''t'' ''t'' = Inr s" ..
  from env have "numbers_ok example_snapshot_env" by simp
  from make_snapshot_facts [OF s this] scan have facts: "s_entries s = example_small_entries" "s_run_id s = ''r''"
    "s_v2 s = None" "snapshot_entries_digest example_snapshot_env (map stored_entry (s_entries s)) = Inr (s_entries_digest s)"
    "snapshot_metadata_digest example_snapshot_env (stored_snapshot example_snapshot_env s) = Inr (s_snapshot_digest s)"
    "s_evidence_id s = None" "s_evidence_relative_path s = None"
    unfolding stored_snapshot_def by (metis Inr_inject prod.inject)+
  from made_snapshot_encodable [OF example_snapshot_env_ok(2) facts(6, 7, 4, 5)]
  have "\<exists>item. snapshot_item example_snapshot_env example_scan_call example_scan_run s = Inr item"
    using entries facts(1) env
    by (intro snapshot_item_total)
      (simp_all add: example_scan_call_def example_scan_run_def example_snapshot_env_def json_option_def int_encodable
        utf8_of_ascii del: json_encodable.simps(1, 5))
  moreover have budget: "s_budget s = example_budget" using s by (auto simp: make_snapshot_def bind_result_Inr_iff Let_def)
  moreover have "one_version s"
    using facts(1, 3) by (simp add: one_version_def example_small_entries_def example_small_entry_def)
  ultimately show ?thesis using that s facts(1-3) budget by blast
qed

theorem written_snapshot_validates_witness:
  "\<exists>s item v. make_snapshot example_snapshot_env example_scan_config ''r'' [example_scope] example_budget ''i'' ''t'' ''t'' = Inr s
    \<and> length (s_entries s) = 2 \<and> snapshot_item example_snapshot_env example_scan_call example_scan_run s = Inr item
    \<and> validate_snapshot_evidence example_snapshot_env (JObj (item_doc item)) = Inr v \<and> ev_valid v"
proof -
  obtain s item where s: "make_snapshot example_snapshot_env example_scan_config ''r'' [example_scope] example_budget ''i'' ''t'' ''t'' = Inr s"
    "snapshot_item example_snapshot_env example_scan_call example_scan_run s = Inr item"
    "s_entries s = example_small_entries" by (rule example_snapshot)
  have "distinct (map e_entry_id (s_entries s))"
    by (simp add: s(3) example_small_entries_def example_small_entry_def)
  from written_snapshot_validates [OF example_snapshot_env_ok(1) _ _ s(2) this,
      of "[example_scope]" example_scan_config example_budget "''i''" "''t''" "''t''"] s
  show ?thesis by (fastforce simp: example_scan_run_def example_small_entries_def)
qed

theorem written_snapshot_reads_back_witness:
  "\<exists>s item d. snapshot_item example_snapshot_env example_scan_call example_scan_run s = Inr item
    \<and> s_entries s = example_small_entries
    \<and> read_evidence example_snapshot_env (JObj d) ''p''
      = Inr (Some (s\<lparr>s_evidence_id := Some ''u'', s_evidence_relative_path := Some ''p''\<rparr>))"
proof -
  obtain s item where s: "snapshot_item example_snapshot_env example_scan_call example_scan_run s = Inr item"
    "s_entries s = example_small_entries" "s_run_id s = ''r''" "one_version s"
    "s_v2 s = None" "s_budget s = example_budget" by (rule example_snapshot)
  have "numbers_ok example_snapshot_env" using example_snapshot_env_ok(1) by (simp add: snapshot_env_ok_def)
  moreover have "list_all (readable example_snapshot_env) (durations s)"
    using s(5, 6) by (simp add: durations_def readable_def example_snapshot_env_def example_budget_def)
  ultimately show ?thesis
    using written_snapshot_reads_back [OF _ _ example_snapshot_env_ok(2) s(4, 1), of "''p''"] s
    by (auto simp: example_scan_run_def example_scan_call_def)
qed

end
