(* ===== verification/Snapshot_Reuse.thy ===== *)
theory Snapshot_Reuse
  imports Snapshot_Store
begin

text \<open>
  \<open>snapshots.py\<close>, verified reuse: which earlier payload observation may stand for a read of the
  file, how it is found among the Evidence files, and the check of every reused observation before a
  version 2 Snapshot is published. \<open>verify_snapshot\<close> is an argument: whether its status is
  \<open>VALID\<close>.
\<close>

section \<open>Eligible sources\<close>

text \<open>The metadata of the same location, unchanged.\<close>

definition metadata_reuse_eligible :: "filesystem_entry \<Rightarrow> filesystem_entry \<Rightarrow> bool" where
  "metadata_reuse_eligible current source \<longleftrightarrow>
     \<not> (e_scope_id current \<noteq> e_scope_id source
        \<or> e_relative_path current \<noteq> e_relative_path source
        \<or> e_object_type current \<noteq> REGULAR_FILE \<or> e_object_type source \<noteq> REGULAR_FILE
        \<or> e_observation_status current \<noteq> OBSERVED \<or> e_observation_status source \<noteq> OBSERVED
        \<or> e_excluded current \<or> e_excluded source)
     \<and> (let required = [e_device_id, e_inode, e_size_bytes, e_mtime_ns, e_ctime_ns] in
        \<not> list_ex (\<lambda>field. field current = None \<or> field source = None) required
        \<and> \<not> list_ex (\<lambda>field. field current \<noteq> field source) required)
     \<and> (if e_birthtime_ns current \<noteq> None \<and> e_birthtime_ns source \<noteq> None
        then e_birthtime_ns current = e_birthtime_ns source
        else e_birthtime_ns current = None \<and> e_birthtime_ns source = None)"

text \<open>A source is an entry of a version 2 Snapshot.\<close>

definition direct_reuse_source_eligible ::
  "filesystem_entry \<Rightarrow> filesystem_entry \<Rightarrow> payload_hash_policy \<Rightarrow> bool" where
  "direct_reuse_source_eligible current source policy =
     (case e_v2 source of
        None \<Rightarrow> False
      | Some facts \<Rightarrow>
          let observation = v2_payload_observation facts in
          metadata_reuse_eligible current source
          \<and> p_status observation \<in> {HASHED, EMPTY_FILE_HASHED}
          \<and> p_provenance observation = Some DIRECT_READ
          \<and> p_reused_from_snapshot_id observation = None
          \<and> p_algorithm observation = Some (hp_algorithm policy)
          \<and> p_algorithm_version observation = Some (hp_algorithm_version policy)
          \<and> (case p_digest observation of None \<Rightarrow> False | Some d \<Rightarrow> length d = 64 \<and> list_all lower_hex d)
          \<and> p_bytes_hashed observation = e_size_bytes source)"

section \<open>_VerifiedReuseSourceSelector\<close>

text \<open>\<open>str(path.relative_to(evidence_dir))\<close> is the relative path of the file.\<close>

fun candidates_in_files ::
  "snapshot_env \<Rightarrow> string \<Rightarrow> string \<Rightarrow> (string \<times> json) list \<Rightarrow> filesystem_snapshot list option result" where
  "candidates_in_files env started run_id [] = Inr (Some [])"
| "candidates_in_files env started run_id ((name, evidence) # rest) =
     (case evidence of
        JObj d \<Rightarrow>
          if dget ''evidence_type'' d \<noteq> JStr ''filesystem.snapshot''
             \<or> snapshot_evidence_schema_version evidence \<noteq> Some 2
          then candidates_in_files env started run_id rest
          else
            bind_result (validate_snapshot_evidence env evidence) (\<lambda>intrinsic.
              if \<not> ev_valid intrinsic then candidates_in_files env started run_id rest
              else
                bind_typed (snapshot_v2_from_valid_evidence env evidence (relative_path run_id name)) (\<lambda>s.
                bind_typed (candidates_in_files env started run_id rest) (\<lambda>others.
                Inr (Some (if s_completed_at s \<le> started then s # others else others)))))
      | _ \<Rightarrow> Inl PyAttributeError)"

text \<open>The directories of \<open>runs/\<close>; links and other objects are passed over.\<close>

fun candidates_in_runs ::
  "snapshot_env \<Rightarrow> evidence_tree \<Rightarrow> string \<Rightarrow> evidence_tree \<Rightarrow> filesystem_snapshot list option result" where
  "candidates_in_runs env tree started [] = Inr (Some [])"
| "candidates_in_runs env tree started ((run_id, node) # rest) =
     (case node of
        RunDir False _ \<Rightarrow>
          bind_result (load_run_files (sx_ledger env) tree run_id) (\<lambda>(files, _).
          bind_typed (candidates_in_files env started run_id files) (\<lambda>found.
          bind_typed (candidates_in_runs env tree started rest) (\<lambda>others.
          Inr (Some (found @ others)))))
      | _ \<Rightarrow> candidates_in_runs env tree started rest)"

text \<open>
  \<open>_load_candidates\<close>: \<open>None\<close> is a \<open>runs/\<close> that is missing or a link. The sort is stable
  with \<open>reverse=True\<close>.
\<close>

definition load_candidates ::
  "snapshot_env \<Rightarrow> evidence_tree option \<Rightarrow> string \<Rightarrow> filesystem_snapshot list option result" where
  "load_candidates env runs started =
     (case runs of
        None \<Rightarrow> raise EvidenceError ''verified reuse source repository is unavailable''
      | Some tree \<Rightarrow>
          bind_typed (candidates_in_runs env tree started (sort_key fst tree)) (\<lambda>found.
          Inr (Some (rev (sort_key (\<lambda>s. (s_completed_at s, s_created_at s, s_snapshot_id s)) (rev found))))))"

fun resolve_reuse ::
  "(string \<Rightarrow> bool result) \<Rightarrow> payload_hash_policy \<Rightarrow> filesystem_snapshot list \<Rightarrow> filesystem_entry \<Rightarrow>
     payload_observation option result" where
  "resolve_reuse verified policy [] current = Inr None"
| "resolve_reuse verified policy (candidate # rest) current =
     bind_result (verified (s_snapshot_id candidate)) (\<lambda>valid.
       if \<not> valid then resolve_reuse verified policy rest current
       else
         (case List.find (\<lambda>e. location e = location current) (s_entries candidate) of
            None \<Rightarrow> resolve_reuse verified policy rest current
          | Some source \<Rightarrow>
              if \<not> direct_reuse_source_eligible current source policy
              then resolve_reuse verified policy rest current
              else
                let observation = v2_payload_observation (the (e_v2 source)) in
                Inr (Some (observation\<lparr>p_provenance := Some REUSED_FROM_VERIFIED_SNAPSHOT,
                  p_reused_from_snapshot_id := Some (s_snapshot_id candidate),
                  p_failure_code := None, p_os_error_code := None\<rparr>))))"

section \<open>validate_snapshot_reuse_references\<close>

fun snapshot_matches ::
  "string \<Rightarrow> string \<Rightarrow> (string \<times> json) list \<Rightarrow> (json \<times> string) list result" where
  "snapshot_matches snapshot_id run_id [] = Inr []"
| "snapshot_matches snapshot_id run_id ((name, evidence) # rest) =
     (case evidence of
        JObj d \<Rightarrow>
          bind_result (snapshot_matches snapshot_id run_id rest) (\<lambda>others.
            let snapshot = dget ''snapshot'' (doc_of (dget ''payload'' d)) in
            Inr (if dget ''evidence_type'' d = JStr ''filesystem.snapshot'' \<and> is_object snapshot
                    \<and> py_eq (dget ''snapshot_id'' (doc_of snapshot)) (JStr snapshot_id)
                 then (evidence, relative_path run_id name) # others else others))
      | _ \<Rightarrow> Inl PyAttributeError)"

fun matches_in_runs ::
  "snapshot_env \<Rightarrow> evidence_tree \<Rightarrow> string \<Rightarrow> evidence_tree \<Rightarrow> (json \<times> string) list result" where
  "matches_in_runs env tree snapshot_id [] = Inr []"
| "matches_in_runs env tree snapshot_id ((run_id, node) # rest) =
     (case node of
        RunDir False _ \<Rightarrow>
          bind_result (load_run_files (sx_ledger env) tree run_id) (\<lambda>(files, _).
          bind_result (snapshot_matches snapshot_id run_id files) (\<lambda>found.
          bind_result (matches_in_runs env tree snapshot_id rest) (\<lambda>others. Inr (found @ others))))
      | _ \<Rightarrow> matches_in_runs env tree snapshot_id rest)"

definition find_snapshot_evidence ::
  "snapshot_env \<Rightarrow> evidence_tree option \<Rightarrow> string \<Rightarrow> (json \<times> string) option result" where
  "find_snapshot_evidence env runs snapshot_id =
     (case runs of
        None \<Rightarrow> raise EvidenceError ''verified reuse source repository is unavailable''
      | Some tree \<Rightarrow>
          bind_result (matches_in_runs env tree snapshot_id (sort_key fst tree)) (\<lambda>found.
            case found of
              [] \<Rightarrow> Inr None
            | [m] \<Rightarrow> Inr (Some m)
            | _ \<Rightarrow> raise EvidenceError ''verified reuse source identity is ambiguous''))"

text \<open>The problem with one reused observation, if there is one; the inner \<open>None\<close> is none.\<close>

definition reuse_problem ::
  "snapshot_env \<Rightarrow> evidence_tree option \<Rightarrow> (string \<Rightarrow> bool result) \<Rightarrow> filesystem_snapshot \<Rightarrow>
     filesystem_entry \<Rightarrow> payload_observation \<Rightarrow> (string \<times> string) option option result" where
  "reuse_problem env runs verified current entry observation =
     bind_result
       (case p_reused_from_snapshot_id observation of
          None \<Rightarrow> Inr None
        | Some source_id \<Rightarrow> if source_id = [] then Inr None else find_snapshot_evidence env runs source_id)
       (\<lambda>source_fact.
       case source_fact of
         None \<Rightarrow> Inr (Some (Some (''PAYLOAD_REUSE_SOURCE_MISSING'', ''reuse source is missing'')))
       | Some (evidence, relative) \<Rightarrow>
           if snapshot_evidence_schema_version evidence \<noteq> Some 2
           then Inr (Some (Some (''PAYLOAD_REUSE_SOURCE_SCHEMA_UNSUPPORTED'', ''reuse source schema is unsupported'')))
           else
             bind_result (validate_snapshot_evidence env evidence) (\<lambda>intrinsic.
             if \<not> ev_valid intrinsic
             then Inr (Some (Some (''PAYLOAD_REUSE_SOURCE_INVALID'', ''reuse source is invalid'')))
             else
               bind_typed (snapshot_v2_from_valid_evidence env evidence relative) (\<lambda>source.
               if s_started_at current < s_completed_at source
               then Inr (Some (Some (''PAYLOAD_REUSE_SOURCE_NOT_EARLIER'', ''reuse source is not earlier'')))
               else
                 bind_result (verified (s_snapshot_id source)) (\<lambda>valid.
                 if \<not> valid
                 then Inr (Some (Some (''PAYLOAD_REUSE_SOURCE_INVALID'', ''reuse source is not VALID'')))
                 else
                   (case List.find (\<lambda>e. location e = location entry) (s_entries source) of
                      None \<Rightarrow>
                        Inr (Some (Some (''PAYLOAD_REUSE_SOURCE_ENTRY_MISSING'', ''reuse source Entry is missing'')))
                    | Some source_entry \<Rightarrow>
                        if \<not> direct_reuse_source_eligible entry source_entry
                          (sv2_hash_policy (the (s_v2 current)))
                        then Inr (Some (Some (''PAYLOAD_REUSE_SOURCE_METADATA_MISMATCH'', ''reuse source is not eligible'')))
                        else
                          let original = v2_payload_observation (the (e_v2 source_entry)) in
                          if p_status observation \<noteq> p_status original
                             \<or> p_algorithm observation \<noteq> p_algorithm original
                             \<or> p_algorithm_version observation \<noteq> p_algorithm_version original
                             \<or> p_bytes_hashed observation \<noteq> p_bytes_hashed original
                          then Inr (Some (Some (''PAYLOAD_REUSE_SOURCE_PAYLOAD_INVALID'', ''reuse payload fields differ'')))
                          else if p_digest observation \<noteq> p_digest original
                          then Inr (Some (Some (''PAYLOAD_REUSE_SOURCE_DIGEST_MISMATCH'', ''reuse digest differs'')))
                          else Inr (Some None))))))"

fun reuse_problems ::
  "snapshot_env \<Rightarrow> evidence_tree option \<Rightarrow> (string \<Rightarrow> bool result) \<Rightarrow> filesystem_snapshot \<Rightarrow>
     filesystem_entry list \<Rightarrow> (string \<times> string) list option result" where
  "reuse_problems env runs verified current [] = Inr (Some [])"
| "reuse_problems env runs verified current (entry # rest) =
     (let observation = v2_payload_observation (the (e_v2 entry)) in
      bind_typed
        (if p_provenance observation \<noteq> Some REUSED_FROM_VERIFIED_SNAPSHOT then Inr (Some None)
         else reuse_problem env runs verified current entry observation) (\<lambda>found.
      bind_typed (reuse_problems env runs verified current rest) (\<lambda>others.
      Inr (Some (case found of None \<Rightarrow> others | Some e \<Rightarrow> e # others)))))"

definition validate_snapshot_reuse_references ::
  "snapshot_env \<Rightarrow> evidence_tree option \<Rightarrow> (string \<Rightarrow> bool result) \<Rightarrow> filesystem_snapshot \<Rightarrow>
     (string \<times> string) list option result" where
  "validate_snapshot_reuse_references env runs verified current =
     bind_typed (reuse_problems env runs verified current (s_entries current)) (\<lambda>errors. Inr (Some (sort errors)))"

end
