(* ===== verification/Snapshot_Reuse_Correct.thy ===== *)
theory Snapshot_Reuse_Correct
  imports Snapshot_Reuse Snapshot_Evidence_Properties
begin

text \<open>
  A reused payload observation comes from valid Evidence of the same unchanged file.
\<close>

section \<open>Where candidates come from\<close>

lemma bind_typed_Some_iff:
  "bind_typed r f = Inr (Some y) \<longleftrightarrow> (\<exists>x. r = Inr (Some x) \<and> f x = Inr (Some y))"
  by (auto simp: bind_typed_def bind_result_Inr_iff split: option.splits)

text \<open>Valid version 2 Evidence in a file, read as a Snapshot.\<close>

definition evidence_reads :: "snapshot_env \<Rightarrow> string \<Rightarrow> string \<Rightarrow> json \<Rightarrow> filesystem_snapshot \<Rightarrow> bool" where
  "evidence_reads env run_id name evidence s \<longleftrightarrow>
     (\<exists>d. evidence = JObj d \<and> dget ''evidence_type'' d = JStr ''filesystem.snapshot'')
     \<and> snapshot_evidence_schema_version evidence = Some 2
     \<and> (\<exists>v. validate_snapshot_evidence env evidence = Inr v \<and> ev_valid v)
     \<and> snapshot_v2_from_valid_evidence env evidence (relative_path run_id name) = Inr (Some s)"

text \<open>It lies in the ledger of a Run.\<close>

definition persisted :: "snapshot_env \<Rightarrow> evidence_tree \<Rightarrow> json \<Rightarrow> filesystem_snapshot \<Rightarrow> bool" where
  "persisted env tree evidence s \<longleftrightarrow>
     (\<exists>run_id files name loaded errors. (run_id, RunDir False files) \<in> set tree
        \<and> load_run_files (sx_ledger env) tree run_id = Inr (loaded, errors) \<and> (name, evidence) \<in> set loaded
        \<and> evidence_reads env run_id name evidence s)"

lemma candidates_in_files_sound:
  "candidates_in_files env started run_id files = Inr (Some cs) \<Longrightarrow> c \<in> set cs \<Longrightarrow>
   s_completed_at c \<le> started \<and> (\<exists>name evidence. (name, evidence) \<in> set files \<and> evidence_reads env run_id name evidence c)"
proof (induction files arbitrary: cs)
  case (Cons item rest)
  obtain name evidence where item: "item = (name, evidence)" by force
  from Cons.prems(1) obtain d where d: "evidence = JObj d" by (auto simp: item split: json.splits)
  note item = item [unfolded d]
  let ?kind = "dget ''evidence_type'' d \<noteq> JStr ''filesystem.snapshot'' \<or> snapshot_evidence_schema_version (JObj d) \<noteq> Some 2"
  show ?case
  proof (cases ?kind)
    case True
    with Cons.prems(1) have "candidates_in_files env started run_id rest = Inr (Some cs)" by (auto simp: item)
    from Cons.IH [OF this Cons.prems(2)] show ?thesis by auto
  next
    case False
    with Cons.prems(1) obtain v where v: "validate_snapshot_evidence env (JObj d) = Inr v"
      "(if \<not> ev_valid v then candidates_in_files env started run_id rest
        else bind_typed (snapshot_v2_from_valid_evidence env (JObj d) (relative_path run_id name)) (\<lambda>s.
          bind_typed (candidates_in_files env started run_id rest) (\<lambda>others.
          Inr (Some (if s_completed_at s \<le> started then s # others else others))))) = Inr (Some cs)"
      by (auto simp: item bind_result_Inr_iff)
    show ?thesis
    proof (cases "ev_valid v")
      case False
      with v(2) have "candidates_in_files env started run_id rest = Inr (Some cs)" by simp
      from Cons.IH [OF this Cons.prems(2)] show ?thesis by auto
    next
      case True
      with v(2) obtain s others where
        s: "snapshot_v2_from_valid_evidence env (JObj d) (relative_path run_id name) = Inr (Some s)"
        "candidates_in_files env started run_id rest = Inr (Some others)"
        "cs = (if s_completed_at s \<le> started then s # others else others)"
        by (auto simp: bind_typed_Some_iff)
      have "evidence_reads env run_id name (JObj d) s"
        using False True v(1) s(1) d by (auto simp: evidence_reads_def)
      with s(3) Cons.prems(2) Cons.IH [OF s(2)] show ?thesis by (auto simp: item split: if_splits)
    qed
  qed
qed simp

lemma candidates_in_runs_sound:
  "candidates_in_runs env tree started runs = Inr (Some cs) \<Longrightarrow> c \<in> set cs \<Longrightarrow> set runs \<subseteq> set tree \<Longrightarrow>
   s_completed_at c \<le> started \<and> (\<exists>evidence. persisted env tree evidence c)"
proof (induction runs arbitrary: cs)
  case (Cons run rest)
  obtain run_id node where run: "run = (run_id, node)" by force
  show ?case
  proof (cases "\<exists>files. node = RunDir False files")
    case True
    then obtain files where node: "node = RunDir False files" ..
    with Cons.prems(1) obtain loaded errors found others where parts:
      "load_run_files (sx_ledger env) tree run_id = Inr (loaded, errors)"
      "candidates_in_files env started run_id loaded = Inr (Some found)"
      "candidates_in_runs env tree started rest = Inr (Some others)" "cs = found @ others"
      by (auto simp: run bind_result_Inr_iff bind_typed_Some_iff)
    show ?thesis
    proof (cases "c \<in> set found")
      case True
      from candidates_in_files_sound [OF parts(2) this] obtain name evidence where
        "s_completed_at c \<le> started" "(name, evidence) \<in> set loaded" "evidence_reads env run_id name evidence c" by blast
      with parts(1) node Cons.prems(3) run show ?thesis by (fastforce simp: persisted_def)
    next
      case False
      with parts(4) Cons.prems(2, 3) Cons.IH [OF parts(3)] show ?thesis by auto
    qed
  next
    case False
    with Cons.prems(1) have "candidates_in_runs env tree started rest = Inr (Some cs)"
      by (auto simp: run split: run_node.splits bool.splits)
    from Cons.IH [OF this Cons.prems(2)] Cons.prems(3) show ?thesis by simp
  qed
qed simp

lemma load_candidates_sound:
  assumes "load_candidates env (Some tree) started = Inr (Some cs)" "c \<in> set cs"
  shows "s_completed_at c \<le> started \<and> (\<exists>evidence. persisted env tree evidence c)"
proof -
  from assms obtain found where "candidates_in_runs env tree started (sort_key fst tree) = Inr (Some found)"
    "c \<in> set found"
    by (auto simp: load_candidates_def bind_typed_Some_iff)
  from candidates_in_runs_sound [OF this] show ?thesis by simp
qed

section \<open>What is resolved\<close>

definition reused :: "filesystem_snapshot \<Rightarrow> payload_observation \<Rightarrow> payload_observation" where
  "reused candidate observation = observation\<lparr>p_provenance := Some REUSED_FROM_VERIFIED_SNAPSHOT,
     p_reused_from_snapshot_id := Some (s_snapshot_id candidate), p_failure_code := None, p_os_error_code := None\<rparr>"

lemma resolve_reuse_sound:
  "resolve_reuse verified policy cs current = Inr (Some obs) \<Longrightarrow>
   \<exists>candidate \<in> set cs. \<exists>source. verified (s_snapshot_id candidate) = Inr True
     \<and> List.find (\<lambda>e. location e = location current) (s_entries candidate) = Some source
     \<and> direct_reuse_source_eligible current source policy
     \<and> obs = reused candidate (v2_payload_observation (the (e_v2 source)))"
proof (induction cs)
  case (Cons candidate rest)
  then obtain valid where valid: "verified (s_snapshot_id candidate) = Inr valid"
    by (auto simp: bind_result_Inr_iff)
  show ?case
  proof (cases "resolve_reuse verified policy rest current = Inr (Some obs)")
    case True
    from Cons.IH [OF this] show ?thesis by auto
  next
    case False
    with Cons.prems valid show ?thesis
      by (auto simp: reused_def Let_def split: if_splits option.splits)
  qed
qed simp

lemma eligible_unchanged:
  assumes "metadata_reuse_eligible current source"
  shows "location source = location current \<and> e_object_type current = REGULAR_FILE
    \<and> e_device_id source = e_device_id current \<and> e_inode source = e_inode current
    \<and> e_size_bytes source = e_size_bytes current \<and> e_mtime_ns source = e_mtime_ns current
    \<and> e_ctime_ns source = e_ctime_ns current \<and> e_birthtime_ns source = e_birthtime_ns current
    \<and> e_inode current \<noteq> None \<and> e_ctime_ns current \<noteq> None"
  using assms by (auto simp: metadata_reuse_eligible_def location_def Let_def split: if_splits)

text \<open>A payload observation is never reused on trust alone: whatever the selector answers repeats the
  digest of a direct read that is recorded in an Evidence file of the repository. The document
  passes the validator, its Snapshot was completed before the current one began and verifies as VALID, and its
  entry has the location, the identity, the size and the times of the current one.\<close>

lemma reused_payload_traces_back:
  assumes "load_candidates env (Some tree) started = Inr (Some cs)"
    and "resolve_reuse verified policy cs current = Inr (Some obs)"
  shows "\<exists>evidence candidate. persisted env tree evidence candidate \<and> s_completed_at candidate \<le> started
    \<and> verified (s_snapshot_id candidate) = Inr True
    \<and> (\<exists>source \<in> set (s_entries candidate). \<exists>facts d. e_v2 source = Some facts
        \<and> location source = location current \<and> e_inode source = e_inode current
        \<and> e_device_id source = e_device_id current \<and> e_size_bytes source = e_size_bytes current
        \<and> e_mtime_ns source = e_mtime_ns current \<and> e_ctime_ns source = e_ctime_ns current
        \<and> e_birthtime_ns source = e_birthtime_ns current \<and> e_inode current \<noteq> None
        \<and> p_provenance (v2_payload_observation facts) = Some DIRECT_READ
        \<and> p_digest (v2_payload_observation facts) = Some d \<and> length d = 64
        \<and> obs = reused candidate (v2_payload_observation facts))"
proof -
  from resolve_reuse_sound [OF assms(2)] obtain candidate source where c: "candidate \<in> set cs"
    "verified (s_snapshot_id candidate) = Inr True"
    "List.find (\<lambda>e. location e = location current) (s_entries candidate) = Some source"
    "direct_reuse_source_eligible current source policy"
    "obs = reused candidate (v2_payload_observation (the (e_v2 source)))" by blast
  from load_candidates_sound [OF assms(1) c(1)] obtain evidence where
    e: "persisted env tree evidence candidate" "s_completed_at candidate \<le> started" by blast
  from c(4) obtain facts d where facts: "e_v2 source = Some facts" "metadata_reuse_eligible current source"
    "p_provenance (v2_payload_observation facts) = Some DIRECT_READ"
    "p_digest (v2_payload_observation facts) = Some d" "length d = 64"
    by (auto simp: direct_reuse_source_eligible_def Let_def split: option.splits)
  have "source \<in> set (s_entries candidate)" using c(3) by (auto simp: find_Some_iff)
  with eligible_unchanged [OF facts(2)] facts c(2, 5) e show ?thesis by fastforce
qed

end
