(* ===== verification/Spec2Isabelle.thy ===== *)
theory Spec2Isabelle
  imports Storage_Growth_Correct Duplicate_Analysis_Correct Snapshot_Queries_Correct
    Run_Ledger_Properties Ledger_Sound Evidence_Properties
    Filesystem_Scan_Budget Configuration_Correct Snapshot_Lifecycle_Correct
    Payload_Hashing_Properties Snapshot_Evidence_Properties Snapshot_Reuse_Correct
begin

text \<open>
  A verification library for STEWARD (\<open>src/src/local_steward\<close>), a program that observes the
  files of configured Scopes, keeps each observation as an immutable Snapshot in an append-only ledger
  of Evidence files with SHA-256 digests, and answers questions about Snapshots: what takes
  the space, what changed, what moved, what is stored twice.

  \<^bold>\<open>The program.\<close> A configuration (\<open>config.py\<close>, \<open>scopes.py\<close>) names Scopes, which
  are directories to observe. A Run (\<open>runs.py\<close>, \<open>state_machine.py\<close>) moves through a graph of
  states; every step writes one Evidence file (\<open>evidence.py\<close>) before it commits the derived
  SQLite rows, and \<open>storage.py\<close> verifies the files of a Run as a chain. Creating a Snapshot scans
  the Scopes (\<open>filesystem.py\<close>), may hash the contents of files (\<open>payload_hashing.py\<close>), and
  turns the result into one more Evidence document, which is validated before it is published
  (\<open>snapshots.py\<close>). Analyses read Snapshots only: \<open>storage_structure.py\<close>,
  \<open>storage_growth.py\<close>, \<open>snapshot_diff.py\<close>, \<open>change_semantics.py\<close>,
  \<open>snapshot_relations.py\<close>, \<open>duplicate_analysis.py\<close>; the query modules page through
  their results.

  \<^bold>\<open>Theories and sources.\<close>
  \<^item> \<open>Steward_Prelude\<close>: the result monad, Python dictionaries as association lists, splitting and
    paging of lists. \<open>Steward_Models\<close>: the exceptions of \<open>errors.py\<close> and the data of
    \<open>models.py\<close>; a version 2 entry or Snapshot is a version 1 record with optional facts.
    \<open>Steward_Config\<close>, \<open>Steward_Examples\<close>: the configuration object, small examples.
  \<^item> \<open>Canonical_Json\<close>, \<open>Json_Text\<close>, \<open>Json_Roundtrip\<close>: \<open>canonical_json\<close> and
    \<open>json.loads\<close> on bytes, and that the second inverts the first. \<open>Python_Values\<close>: equality,
    hashing and \<open>str\<close> of parsed values.
  \<^item> \<open>Path_Tree\<close>, \<open>Storage_Structure\<close>, \<open>Storage_Growth\<close> with their
    \<open>_Correct\<close> theories: the roll-up of sizes over directories, and of differences, against
    direct per-directory specifications; the locale of \<open>Path_Tree\<close> carries what both share.
  \<^item> \<open>Snapshot_Diff\<close> (difference and change events), \<open>Snapshot_Relations\<close> (renames, moves,
    aliases), \<open>Duplicate_Analysis\<close>, with their \<open>_Correct\<close> theories.
  \<^item> \<open>Verified_Snapshots\<close>, \<open>Query_Pages\<close>, \<open>Snapshot_Queries\<close>: the entry points that
    verify before they compute, and the four paged queries (\<open>storage_query.py\<close>,
    \<open>snapshot_relation_query.py\<close>, \<open>snapshot_duplicate_query.py\<close>), which interpret one locale.
  \<^item> \<open>Run_State\<close>, \<open>Evidence_Files\<close>, \<open>Run_Ledger\<close>, \<open>Ledger_Verify\<close>: the graph of
    states, the files and their names, \<open>create_run\<close> and \<open>transition_run\<close> with every point
    where disk, database or the fault injector may fail, and the verification of \<open>storage.py\<close>.
    \<open>Evidence_Files_Correct\<close>, \<open>Ledger_Correct\<close>, \<open>Run_Store_Correct\<close>,
    \<open>Run_Ledger_Reachable\<close>, \<open>Run_Ledger_Properties\<close>, \<open>Ledger_Sound\<close>,
    \<open>Evidence_Properties\<close> prove the invariant of reachable stores and what verification shows.
  \<^item> \<open>Filesystem_Scan\<close>: \<open>filesystem.py\<close> and \<open>scan_budget.py\<close>.
    \<open>Filesystem_Scan_Correct\<close>, \<open>_Properties\<close>, \<open>_Budget\<close>: completeness, confinement,
    budget, errors. \<open>Scope_Policy\<close>, \<open>Configuration\<close>, \<open>Configuration_Correct\<close>:
    \<open>scopes.py\<close>, \<open>paths.py\<close>, \<open>config.py\<close>.
  \<^item> \<open>Snapshot_Lifecycle\<close>: \<open>snapshot_lifecycle.py\<close>. \<open>Payload_Hashing\<close>:
    \<open>payload_hashing.py\<close>, with budgets, change detection and verified reuse.
  \<^item> \<open>Snapshot_Documents\<close> (a Snapshot as JSON, its digests, \<open>_snapshot\<close> and
    \<open>_snapshot_v2\<close>), \<open>Snapshot_Evidence\<close> (the validators of both versions),
    \<open>Snapshot_Store\<close> (the Evidence item, the readers): \<open>snapshots.py\<close>. \<open>Snapshot_Evidence_Correct\<close>,
    \<open>Snapshot_Readback\<close>, \<open>Snapshot_Evidence_Properties\<close>: what the code writes is accepted and
    reads back. \<open>Snapshot_Reuse\<close> and \<open>_Correct\<close>: the choice of an earlier
    payload observation, the check of it before publication, and where a chosen one comes from.

  \<^bold>\<open>State and effects.\<close> The Evidence store is a dictionary from Runs to directories of bytes;
  the index is a list of rows per table. An operation takes the state and returns the state it
  leaves behind with its result, so that what an exception leaves on disk is part of the model.
  Exceptions are values of \<^typ>\<open>exn\<close>. Python integers are \<^typ>\<open>int\<close>; texts are their
  UTF-8 bytes, so that comparison by bytes is comparison by code points; a float of a JSON document is
  its \<open>repr\<close>, a float of the program a rational number.

  \<^bold>\<open>What comes from outside\<close> is an argument of the definitions: SHA-256, the clock and fresh UUIDs,
  the parser of dates, the operating system's answers to \<open>scandir\<close>, \<open>lstat\<close>,
  \<open>readlink\<close>, \<open>open\<close> and \<open>read\<close>, the locality of a file, TOML and the resolution of
  links. Theorems that rely on documented behaviour of it name it: \<open>names_ok\<close> (a listing has no name
  twice and no separator in a name), \<open>directories_ok\<close>, \<open>short_reads\<close> (a read returns no more
  than was asked for), \<open>env_ok\<close> (a digest is text), \<open>fresh\<close> identities in the
  ledger, \<open>numbers_ok\<close> and \<open>readable\<close> (a number prints to text that reads back).
  Nothing is assumed of SHA-256 beyond that; two claims ask that named digests differ.

  \<^bold>\<open>Termination and bounds.\<close> The roll-up of builders (\<open>Path_Tree\<close>) counts its nested calls
  with fuel, started with the number of directories; the refinement theorems show that this is enough. The
  client that follows \<open>next_offset\<close> has fuel for its requests, and C19 says how much is enough. The
  JSON parser ends because its input gets shorter, the stack loop of the scan because every recorded
  entry leaves less of the budget, the loop that reads a file because every chunk leaves less of the limit.
  Evidence file names keep their order up to sequence 99999999, the constant \<open>max_sequence\<close>.

  \<^bold>\<open>What the properties show.\<close> C1 to C13: the structure and the growth refine their
  specifications, balance, do not depend on the order of entries, and the difference and the relations
  lose and invent nothing. C14 to C17: duplicates. C18 to C20: the queries on verified Snapshots. C21 to
  C27: every ledger the program can reach verifies, verification accepts chains only, files are never
  changed, transitions succeed when undisturbed and are refused after an interruption. C28: closed Runs.
  C29 to C35: the scan, the Scope policy, the configuration, and their composition. C36 to C38:
  payload digests. C39 and C40: the Evidence of a version 1 Snapshot is
  accepted by its validator and reads back as the Snapshot.

  \<^bold>\<open>Not modelled.\<close> Of \<open>snapshots.py\<close> and \<open>storage.py\<close>: the orchestration of
  \<open>create_snapshot\<close>, the index rows of a Snapshot and the listings over them, the rebuild of the index, the migration and the guarded reader, which are SQL. \<open>snapshot_acquisition.py\<close>,
  \<open>snapshot_refresh.py\<close>, \<open>snapshot_replay.py\<close>, \<open>snapshot_backup.py\<close>,
  \<open>snapshot_replacement.py\<close>, \<open>snapshot_rollback.py\<close>: orchestration of file copies, signals and
  SQLite backups. The command line, the host diagnostics, the Codex hooks and the code execution, the
  document and file agents (parsers of third-party formats in subprocesses), the model context and the
  protocol servers: input and output around third-party code, with no state of the observation core.
\<close>

end
